(* ===== verification/Prelude.thy ===== *)
theory Prelude
  imports Main "HOL-Library.Monad_Syntax" "HOL-Library.Word"
begin

text \<open>
  Shared vocabulary of the development.

  \<^item> A call of the library is a function into \<open>option\<close>: \<open>None\<close> means that the call does not
    return normally (an \<open>assert\<close> of the source fails, a loop of the source never ends, or an
    exception leaves the function); \<open>Some\<close> carries the result and the new state.
    Statements are sequenced with the \<open>do\<close> notation of \<open>option\<close>.
  \<^item> \<open>returns m P\<close> is total correctness: the call returns and its result satisfies \<open>P\<close>.
    \<open>whenever m P\<close> is partial correctness.  Their rules are collected in \<open>call_rules\<close>.
  \<^item> An output parameter \<open>T * p\<close> is a value of type \<open>T ptr\<close>: \<open>None\<close> is the null pointer,
    \<open>Some v\<close> a cell with content \<open>v\<close>.
  \<^item> Narrowing casts and the 64-bit \<open>size_t\<close> arithmetic are written out.
  \<^item> Decimal printing of integers (what \<open>operator<<\<close>, \<open>boost::format("%d")\<close> and
    \<open>lexical_cast<std::string>\<close> produce) and \<open>strtol\<close> in base 10.
\<close>

named_theorems call_rules

section \<open>Calls that may not return\<close>

type_synonym 'a ptr = "'a option"

definition returns :: "'a option \<Rightarrow> ('a \<Rightarrow> bool) \<Rightarrow> bool" where
  "returns m P = (case m of None \<Rightarrow> False | Some x \<Rightarrow> P x)"

definition whenever :: "'a option \<Rightarrow> ('a \<Rightarrow> bool) \<Rightarrow> bool" where
  "whenever m P = (case m of None \<Rightarrow> True | Some x \<Rightarrow> P x)"

definition assertion :: "bool \<Rightarrow> unit option" where
  "assertion b = (if b then Some () else None)"

section \<open>Machine integers\<close>

definition int32 :: "int \<Rightarrow> int" where
  "int32 i = (i + 2 ^ 31) mod 2 ^ 32 - 2 ^ 31"

definition size_max :: nat where
  "size_max = 2 ^ 64"

definition size_add :: "nat \<Rightarrow> nat \<Rightarrow> nat" where
  "size_add a b = (a + b) mod size_max"

definition size_sub :: "nat \<Rightarrow> nat \<Rightarrow> nat" where
  "size_sub a b = nat ((int a - int b) mod 2 ^ 64)"

definition size_of_int :: "int \<Rightarrow> nat" where
  "size_of_int i = nat (i mod 2 ^ 64)"

definition LONG_MAX :: int where
  "LONG_MAX = 2 ^ 63 - 1"

definition LONG_MIN :: int where
  "LONG_MIN = - (2 ^ 63)"

section \<open>Decimal numbers\<close>

definition digit_char :: "nat \<Rightarrow> char" where
  "digit_char d = char_of (48 + d)"

definition is_digit :: "char \<Rightarrow> bool" where
  "is_digit c \<longleftrightarrow> 48 \<le> (of_char c :: nat) \<and> (of_char c :: nat) \<le> 57"

definition digit_val :: "char \<Rightarrow> nat" where
  "digit_val c = of_char c - 48"

fun show_nat :: "nat \<Rightarrow> string" where
  "show_nat n = (if n < 10 then [digit_char n] else show_nat (n div 10) @ [digit_char (n mod 10)])"

declare show_nat.simps [simp del]

definition show_int :: "int \<Rightarrow> string" where
  "show_int i = (if i < 0 then CHR ''-'' # show_nat (nat (- i)) else show_nat (nat i))"

fun read_digits :: "nat \<Rightarrow> string \<Rightarrow> nat" where
  "read_digits acc [] = acc"
| "read_digits acc (c # cs) =
     (if is_digit c then read_digits (10 * acc + digit_val c) cs else acc)"

definition is_space :: "char \<Rightarrow> bool" where
  "is_space c \<longleftrightarrow> (of_char c :: nat) \<in> {9, 10, 11, 12, 13, 32}"

text \<open>
  \<open>strtol(s, NULL, 10)\<close>: white space is skipped, a sign is optional, the longest run of digits
  is read; a text with no digits gives 0; a value out of range is clamped and reported (the
  second component: \<open>errno\<close> becomes \<open>ERANGE\<close>, which is never reset by a success).
\<close>

definition strtol_value :: "string \<Rightarrow> int" where
  "strtol_value s =
     (case dropWhile is_space s of
        [] \<Rightarrow> 0
      | c # cs \<Rightarrow>
          (if c = CHR ''-'' then - int (read_digits 0 cs)
           else if c = CHR ''+'' then int (read_digits 0 cs)
           else int (read_digits 0 (c # cs))))"

definition strtol :: "string \<Rightarrow> int \<times> bool" where
  "strtol s =
     (let v = strtol_value s in
        if LONG_MAX < v then (LONG_MAX, True)
        else if v < LONG_MIN then (LONG_MIN, True)
        else (v, False))"

section \<open>Rules for calls\<close>

lemma returns_Some [simp, call_rules]: "returns (Some x) P = P x"
  by (simp add: returns_def)

lemma returns_None [simp]: "\<not> returns None P"
  by (simp add: returns_def)

lemma returns_bind [call_rules]:
  "returns (Option.bind m f) P = returns m (\<lambda>x. returns (f x) P)"
  by (cases m) auto

lemma returns_mono: "returns m P \<Longrightarrow> (\<And>x. P x \<Longrightarrow> Q x) \<Longrightarrow> returns m Q"
  by (cases m) auto

lemma returns_conj: "returns m P \<Longrightarrow> returns m Q \<Longrightarrow> returns m (\<lambda>x. P x \<and> Q x)"
  by (cases m) auto

lemma returns_iff: "returns m P \<longleftrightarrow> (\<exists>x. m = Some x \<and> P x)"
  by (cases m) auto

lemma whenever_Some [simp, call_rules]: "whenever (Some x) P = P x"
  by (simp add: whenever_def)

lemma whenever_None [simp, call_rules]: "whenever None P"
  by (simp add: whenever_def)

lemma whenever_bind [call_rules]:
  "whenever (Option.bind m f) P = whenever m (\<lambda>x. whenever (f x) P)"
  by (cases m) auto

lemma whenever_mono: "whenever m P \<Longrightarrow> (\<And>x. P x \<Longrightarrow> Q x) \<Longrightarrow> whenever m Q"
  by (cases m) auto

lemma whenever_iff: "whenever m P \<longleftrightarrow> (\<forall>x. m = Some x \<longrightarrow> P x)"
  by (cases m) auto

lemma whenever_if [call_rules]:
  "whenever (if b then m else n) P = (if b then whenever m P else whenever n P)"
  by simp

lemma whenever_case_prod [call_rules]:
  "whenever (case p of (x, y) \<Rightarrow> f x y) P = (case p of (x, y) \<Rightarrow> whenever (f x y) P)"
  by (cases p) simp

lemma returns_whenever: "returns m P \<Longrightarrow> whenever m P"
  by (cases m) auto

lemma assertion_bind [simp]: "Option.bind (assertion b) f = (if b then f () else None)"
  by (simp add: assertion_def)

section \<open>Sets and lists\<close>

lemma disjoint_union_cancel: "A \<union> E = B \<union> E \<Longrightarrow> A \<inter> E = {} \<Longrightarrow> B \<inter> E = {} \<Longrightarrow> A = B"
  by blast

section \<open>Facts about the machine integers\<close>

lemma int32_id: "- (2 ^ 31) \<le> i \<Longrightarrow> i < 2 ^ 31 \<Longrightarrow> int32 i = i"
  by (simp add: int32_def)

lemma int32_nat_id: "n < 2 ^ 31 \<Longrightarrow> int32 (int n) = int n"
  by (rule int32_id) auto

lemma size_add_id [simp]: "a + b < 2 ^ 64 \<Longrightarrow> size_add a b = a + b"
  by (simp add: size_add_def size_max_def)

lemma size_sub_id [simp]:
  assumes "b \<le> a" "a < 2 ^ 64"
  shows "size_sub a b = a - b"
proof -
  have "(int a - int b) mod 2 ^ 64 = int a - int b"
    using assms by (intro mod_pos_pos_trivial) (auto simp: of_nat_less_numeral_power_cancel_iff)
  with assms show ?thesis by (simp add: size_sub_def)
qed

lemma size_of_int_id [simp]:
  assumes "0 \<le> i" "i < 2 ^ 64"
  shows "size_of_int i = nat i"
  using assms by (simp add: size_of_int_def)

section \<open>Facts about decimal numbers\<close>

lemma of_char_digit_char: "d < 10 \<Longrightarrow> of_char (digit_char d) = 48 + d"
  by (simp add: digit_char_def)

lemma is_digit_digit_char [simp]: "d < 10 \<Longrightarrow> is_digit (digit_char d)"
  by (simp add: is_digit_def of_char_digit_char)

lemma digit_val_digit_char [simp]: "d < 10 \<Longrightarrow> digit_val (digit_char d) = d"
  by (simp add: digit_val_def of_char_digit_char)

lemma show_nat_nonempty [simp]: "show_nat n \<noteq> []"
  by (subst show_nat.simps) simp

lemma show_nat_digits: "c \<in> set (show_nat n) \<Longrightarrow> is_digit c"
proof (induction n rule: show_nat.induct)
  case (1 n)
  then show ?case by (subst (asm) show_nat.simps) (auto split: if_splits)
qed

lemma read_digits_append:
  "(\<And>c. c \<in> set ds \<Longrightarrow> is_digit c) \<Longrightarrow>
   read_digits acc (ds @ rest) = read_digits (read_digits acc ds) rest"
  by (induction ds arbitrary: acc) auto

lemma read_digits_show_nat: "read_digits 0 (show_nat n) = n"
proof (induction n rule: show_nat.induct)
  case (1 n)
  show ?case
  proof (cases "n < 10")
    case True
    then show ?thesis by (subst show_nat.simps) simp
  next
    case False
    with 1 have "read_digits 0 (show_nat (n div 10)) = n div 10" by simp
    with False show ?thesis
      by (subst show_nat.simps) (simp add: read_digits_append [OF show_nat_digits])
  qed
qed

lemma digit_not_space: "is_digit c \<Longrightarrow> \<not> is_space c"
  by (auto simp: is_digit_def is_space_def)

lemma digit_not_sign: "is_digit c \<Longrightarrow> c \<noteq> CHR ''-'' \<and> c \<noteq> CHR ''+''"
  by (auto simp: is_digit_def)

lemma strtol_value_show_int: "strtol_value (show_int i) = i"
proof (cases "i < 0")
  case True
  then show ?thesis
    by (simp add: strtol_value_def show_int_def is_space_def read_digits_show_nat)
next
  case False
  obtain c cs where s: "show_nat (nat i) = c # cs" by (cases "show_nat (nat i)") auto
  with show_nat_digits [of c "nat i"] have c: "is_digit c" by simp
  have "strtol_value (show_nat (nat i)) = int (read_digits 0 (show_nat (nat i)))"
    using c digit_not_sign [OF c] digit_not_space [OF c] by (simp add: strtol_value_def s)
  with False show ?thesis by (simp add: show_int_def read_digits_show_nat)
qed

lemma strtol_show_int:
  "LONG_MIN \<le> i \<Longrightarrow> i \<le> LONG_MAX \<Longrightarrow> strtol (show_int i) = (i, False)"
  by (simp add: strtol_def strtol_value_show_int)

lemma strtol_range: "LONG_MIN \<le> fst (strtol s) \<and> fst (strtol s) \<le> LONG_MAX"
  by (auto simp: strtol_def Let_def LONG_MAX_def LONG_MIN_def)

lemma show_int_no_CR: "CHR 0x0D \<notin> set (show_int i)"
proof
  assume "CHR 0x0D \<in> set (show_int i)"
  then have "CHR 0x0D \<in> set (show_nat (nat (- i))) \<or> CHR 0x0D \<in> set (show_nat (nat i))"
    by (auto simp: show_int_def split: if_splits)
  then have "is_digit (CHR 0x0D)" using show_nat_digits by blast
  then show False by (simp add: is_digit_def)
qed

lemma show_int_of_nat: "show_int (int n) = show_nat n"
  by (simp add: show_int_def)

end
