(* ===== verification/Os.thy ===== *)
theory Os
  imports Prelude
begin

unbundle bit_operations_syntax

text \<open>
  The operating-system layer, \<open>src/src/os.cpp\<close> and \<open>src/src/os.h\<close>.

  The kernel is not part of the repository: it is a parameter.  A \<open>world\<close> carries, for every
  system call the library makes, the list of outcomes the kernel will give to the calls to come,
  in their order; theorems quantify over all worlds.  Two documented facts of the calls are built
  in: \<open>recv\<close> never delivers more than the requested number of bytes (what is left of an
  outcome is delivered by the next call) and \<open>send\<close> never accepts more than it was given.
  A world whose list is exhausted is one whose peer has closed its side: \<open>poll\<close> reports the
  descriptor ready, \<open>recv\<close> delivers end of file, \<open>send\<close> accepts everything, a new
  connection is refused, a name is not resolved.  \<open>errno\<close> is part of the world, since the
  library reads it.  \<open>sent\<close> records the bytes the kernel accepted, \<open>poll_log\<close> the timeouts
  passed to \<open>poll\<close>.  The world also holds the other outside code the library calls as
  functions (\<open>strerror_r\<close>; the conversions of \<open>boost::lexical_cast\<close> between a \<open>double\<close>,
  here its 64 bits, and its text; \<open>boost::trim\<close> and \<open>boost::split\<close>) and the one process-wide object of the library, the host cache.
\<close>

text \<open>\<open>c_str()\<close>, read up to the first null character.\<close>

definition c_str :: "string \<Rightarrow> string" where
  "c_str s = takeWhile (\<lambda>c. c \<noteq> CHR 0x00) s"

section \<open>The world\<close>

datatype sys_ret = Ret int | Fail int

datatype recv_ret = Recv string | RecvFail int

datatype send_ret = Sent nat | SendFail int

record net_endpoint =
  domain :: int
  ep_type :: int
  protocol :: int
  address :: string

text \<open>What \<open>getaddrinfo\<close> answers; the outcome of a call is a function of the host, the service and the hints
  it is asked for.\<close>

datatype gai_ret = Resolved int string | GaiFail int int

record world =
  errno :: int
  poll_q :: "sys_ret list"
  poll_log :: "int list"
  recv_q :: "recv_ret list"
  send_q :: "send_ret list"
  peek_q :: "sys_ret list"
  socket_q :: "sys_ret list"
  connect_q :: "sys_ret list"
  sockopt_q :: "sys_ret list"
  fcntl_q :: "sys_ret list"
  ioctl_q :: "sys_ret list"
  close_q :: "sys_ret list"
  resolve_q :: "(string \<Rightarrow> string \<Rightarrow> net_endpoint \<Rightarrow> gai_ret) list"
  time_q :: "int list"
  clock :: int
  sent :: string
  thread_id :: int
  strerror :: "int \<Rightarrow> string"
  double_to_string :: "64 word \<Rightarrow> string"
  string_to_double :: "string \<Rightarrow> 64 word option"
  boost_trim :: "string \<Rightarrow> string"
  boost_split :: "char \<Rightarrow> string \<Rightarrow> string list"
  dns_cache :: "string \<times> string \<rightharpoonup> net_endpoint \<times> int"

abbreviation (input) EINTR :: int where "EINTR \<equiv> 4"
abbreviation (input) EBADF :: int where "EBADF \<equiv> 9"
abbreviation (input) EAGAIN :: int where "EAGAIN \<equiv> 11"
abbreviation (input) EINVAL :: int where "EINVAL \<equiv> 22"
abbreviation (input) ERANGE :: int where "ERANGE \<equiv> 34"
abbreviation (input) EPROTONOSUPPORT :: int where "EPROTONOSUPPORT \<equiv> 93"
abbreviation (input) ESOCKTNOSUPPORT :: int where "ESOCKTNOSUPPORT \<equiv> 94"
abbreviation (input) ETIMEDOUT :: int where "ETIMEDOUT \<equiv> 110"
abbreviation (input) ECONNREFUSED :: int where "ECONNREFUSED \<equiv> 111"
abbreviation (input) EHOSTUNREACH :: int where "EHOSTUNREACH \<equiv> 113"
abbreviation (input) EINPROGRESS :: int where "EINPROGRESS \<equiv> 115"
abbreviation (input) AF_INET :: int where "AF_INET \<equiv> 2"
abbreviation (input) AF_INET6 :: int where "AF_INET6 \<equiv> 10"
abbreviation (input) SOCK_STREAM :: int where "SOCK_STREAM \<equiv> 1"
abbreviation (input) IPPROTO_TCP :: int where "IPPROTO_TCP \<equiv> 6"
abbreviation (input) EAI_BADFLAGS :: int where "EAI_BADFLAGS \<equiv> - 1"
abbreviation (input) EAI_NONAME :: int where "EAI_NONAME \<equiv> - 2"
abbreviation (input) EAI_FAMILY :: int where "EAI_FAMILY \<equiv> - 6"
abbreviation (input) EAI_SOCKTYPE :: int where "EAI_SOCKTYPE \<equiv> - 7"
abbreviation (input) EAI_SYSTEM :: int where "EAI_SYSTEM \<equiv> - 11"
abbreviation (input) O_NONBLOCK :: int where "O_NONBLOCK \<equiv> 2048"

section \<open>System calls\<close>

definition sys_poll :: "int \<Rightarrow> world \<Rightarrow> int \<times> world" where
  "sys_poll timeout w =
     (let w = w\<lparr>poll_log := poll_log w @ [timeout]\<rparr> in
      case poll_q w of
        [] \<Rightarrow> (1, w)
      | Ret r # q \<Rightarrow> (r, w\<lparr>poll_q := q\<rparr>)
      | Fail e # q \<Rightarrow> (- 1, w\<lparr>poll_q := q, errno := e\<rparr>))"

definition sys_recv :: "int \<Rightarrow> nat \<Rightarrow> world \<Rightarrow> int \<times> string \<times> world" where
  "sys_recv fd len w =
     (if fd = - 1 then (- 1, [], w\<lparr>errno := EBADF\<rparr>)
      else case recv_q w of
        [] \<Rightarrow> (0, [], w)
      | Recv bs # q \<Rightarrow>
          (if length bs \<le> len then (int (length bs), bs, w\<lparr>recv_q := q\<rparr>)
           else (int len, take len bs, w\<lparr>recv_q := Recv (drop len bs) # q\<rparr>))
      | RecvFail e # q \<Rightarrow> (- 1, [], w\<lparr>recv_q := q, errno := e\<rparr>))"

definition sys_send :: "int \<Rightarrow> string \<Rightarrow> world \<Rightarrow> int \<times> world" where
  "sys_send fd buf w =
     (if fd = - 1 then (- 1, w\<lparr>errno := EBADF\<rparr>)
      else case send_q w of
        [] \<Rightarrow> (int (length buf), w\<lparr>sent := sent w @ buf\<rparr>)
      | Sent n # q \<Rightarrow>
          (int (min n (length buf)), w\<lparr>send_q := q, sent := sent w @ take n buf\<rparr>)
      | SendFail e # q \<Rightarrow> (- 1, w\<lparr>send_q := q, errno := e\<rparr>))"

definition sys_recv_peek :: "world \<Rightarrow> int \<times> world" where
  "sys_recv_peek w =
     (case peek_q w of
        [] \<Rightarrow> (0, w)
      | Ret r # q \<Rightarrow> (r, w\<lparr>peek_q := q\<rparr>)
      | Fail e # q \<Rightarrow> (- 1, w\<lparr>peek_q := q, errno := e\<rparr>))"

definition sys_socket :: "world \<Rightarrow> int \<times> world" where
  "sys_socket w =
     (case socket_q w of
        [] \<Rightarrow> (- 1, w\<lparr>errno := ECONNREFUSED\<rparr>)
      | Ret r # q \<Rightarrow> (r, w\<lparr>socket_q := q\<rparr>)
      | Fail e # q \<Rightarrow> (- 1, w\<lparr>socket_q := q, errno := e\<rparr>))"

definition sys_connect :: "world \<Rightarrow> int \<times> world" where
  "sys_connect w =
     (case connect_q w of
        [] \<Rightarrow> (- 1, w\<lparr>errno := ECONNREFUSED\<rparr>)
      | Ret r # q \<Rightarrow> (r, w\<lparr>connect_q := q\<rparr>)
      | Fail e # q \<Rightarrow> (- 1, w\<lparr>connect_q := q, errno := e\<rparr>))"

text \<open>\<open>getsockopt(SO_ERROR)\<close>: \<open>Ret e\<close> is a success that stores \<open>e\<close>.\<close>

definition sys_getsockopt_error :: "world \<Rightarrow> int \<times> int \<times> world" where
  "sys_getsockopt_error w =
     (case sockopt_q w of
        [] \<Rightarrow> (0, 0, w)
      | Ret e # q \<Rightarrow> (0, e, w\<lparr>sockopt_q := q\<rparr>)
      | Fail e # q \<Rightarrow> (- 1, 0, w\<lparr>sockopt_q := q, errno := e\<rparr>))"

definition sys_fcntl :: "world \<Rightarrow> int \<times> world" where
  "sys_fcntl w =
     (case fcntl_q w of
        [] \<Rightarrow> (0, w)
      | Ret r # q \<Rightarrow> (r, w\<lparr>fcntl_q := q\<rparr>)
      | Fail e # q \<Rightarrow> (- 1, w\<lparr>fcntl_q := q, errno := e\<rparr>))"

text \<open>\<open>ioctl(FIONREAD)\<close>: \<open>Ret n\<close> is a success that stores \<open>n\<close>.\<close>

definition sys_ioctl :: "world \<Rightarrow> int \<times> int \<times> world" where
  "sys_ioctl w =
     (case ioctl_q w of
        [] \<Rightarrow> (0, 0, w)
      | Ret n # q \<Rightarrow> (0, n, w\<lparr>ioctl_q := q\<rparr>)
      | Fail e # q \<Rightarrow> (- 1, 0, w\<lparr>ioctl_q := q, errno := e\<rparr>))"

definition sys_close :: "world \<Rightarrow> int \<times> world" where
  "sys_close w =
     (case close_q w of
        [] \<Rightarrow> (0, w)
      | Ret r # q \<Rightarrow> (r, w\<lparr>close_q := q\<rparr>)
      | Fail e # q \<Rightarrow> (- 1, w\<lparr>close_q := q, errno := e\<rparr>))"

text \<open>\<open>GaiFail c e\<close>: \<open>getaddrinfo\<close> returns \<open>c\<close> and leaves \<open>errno\<close> at \<open>e\<close>.\<close>

definition sys_getaddrinfo :: "string \<Rightarrow> string \<Rightarrow> net_endpoint \<Rightarrow> world \<Rightarrow> gai_ret \<times> world" where
  "sys_getaddrinfo host service hints w =
     (case resolve_q w of
        [] \<Rightarrow> (GaiFail EAI_NONAME (errno w), w)
      | g # q \<Rightarrow> (g host service hints, w\<lparr>resolve_q := q,
                       errno := (case g host service hints of GaiFail c e \<Rightarrow> e | Resolved f a \<Rightarrow> errno w)\<rparr>))"

definition sys_time :: "world \<Rightarrow> int \<times> world" where
  "sys_time w =
     (case time_q w of
        [] \<Rightarrow> (clock w, w)
      | t # q \<Rightarrow> (t, w\<lparr>time_q := q, clock := t\<rparr>))"

section \<open>os.cpp\<close>

definition get_thread_id :: "world \<Rightarrow> int" where
  "get_thread_id w = thread_id w"

definition ec_2_string :: "int \<Rightarrow> world \<Rightarrow> string" where
  "ec_2_string ec w = strerror w ec"

definition available_bytes :: "world \<Rightarrow> int \<times> world" where
  "available_bytes w =
     (let (ret, value, w) = sys_ioctl w
      in if ret = - 1 then (- 1, w) else (value, w))"

definition set_nonblock :: "world \<Rightarrow> int \<times> world" where
  "set_nonblock w =
     (let (flags, w) = sys_fcntl w
      in if flags = - 1 then (- 1, w)
         else if flags AND O_NONBLOCK = 0
         then (let (r, w) = sys_fcntl w in if r = - 1 then (- 1, w) else (0, w))
         else (0, w))"

definition set_block :: "world \<Rightarrow> int \<times> world" where
  "set_block w =
     (let (flags, w) = sys_fcntl w
      in if flags = - 1 then (- 1, w)
         else if flags AND O_NONBLOCK = O_NONBLOCK
         then (let (r, w) = sys_fcntl w in if r = - 1 then (- 1, w) else (0, w))
         else (0, w))"

text \<open>The retry loops \<open>do ret = call(); while (ret==-1 && errno==EINTR);\<close>\<close>

function retry_peek :: "world \<Rightarrow> int \<times> world" where
  "retry_peek w =
     (let (bytes, w') = sys_recv_peek w
      in if bytes = - 1 \<and> errno w' = EINTR then retry_peek w' else (bytes, w'))"
  by pat_completeness auto
termination
  by (relation "measure (\<lambda>w. length (peek_q w))")
    (auto simp: sys_recv_peek_def split: list.splits sys_ret.splits)

function retry_poll :: "int \<Rightarrow> world \<Rightarrow> int \<times> world" where
  "retry_poll timeout w =
     (let (ret, w') = sys_poll timeout w
      in if ret = - 1 \<and> errno w' = EINTR then retry_poll timeout w' else (ret, w'))"
  by pat_completeness auto
termination
  by (relation "measure (\<lambda>(timeout, w). length (poll_q w))")
    (auto simp: sys_poll_def Let_def split: list.splits sys_ret.splits)

function retry_connect :: "world \<Rightarrow> int \<times> world" where
  "retry_connect w =
     (let (ret, w') = sys_connect w
      in if ret = - 1 \<and> errno w' = EINTR then retry_connect w' else (ret, w'))"
  by pat_completeness auto
termination
  by (relation "measure (\<lambda>w. length (connect_q w))")
    (auto simp: sys_connect_def split: list.splits sys_ret.splits)

function retry_close :: "world \<Rightarrow> int \<times> world" where
  "retry_close w =
     (let (ret, w') = sys_close w
      in if ret = - 1 \<and> errno w' = EINTR then retry_close w' else (ret, w'))"
  by pat_completeness auto
termination
  by (relation "measure (\<lambda>w. length (close_q w))")
    (auto simp: sys_close_def split: list.splits sys_ret.splits)

declare retry_peek.simps [simp del] retry_poll.simps [simp del]
  retry_connect.simps [simp del] retry_close.simps [simp del]

definition is_open_slow :: "world \<Rightarrow> int \<times> world" where
  "is_open_slow w =
     (let (bytes, w) = retry_peek w
      in if bytes = 0 \<or> (bytes = - 1 \<and> errno w \<noteq> EAGAIN \<and> errno w \<noteq> EAGAIN)
         then (0, w) else (1, w))"

definition is_open_fast :: "int \<Rightarrow> int" where
  "is_open_fast fd = (if fd = - 1 then 0 else 1)"

definition poll_read :: "int \<Rightarrow> world \<Rightarrow> int \<times> world" where
  "poll_read timeout w =
     (let (ret, w) = retry_poll timeout w
      in if ret = - 1 then (- 1, w)
         else if ret = 0 then (0, w\<lparr>errno := ETIMEDOUT\<rparr>)
         else (1, w))"

definition poll_write :: "int \<Rightarrow> world \<Rightarrow> int \<times> world" where
  "poll_write timeout w =
     (let (ret, w) = retry_poll timeout w
      in if ret = - 1 then (- 1, w)
         else if ret = 0 then (0, w\<lparr>errno := ETIMEDOUT\<rparr>)
         else (1, w))"

definition timed_connect :: "int \<Rightarrow> world \<Rightarrow> int \<times> world" where
  "timed_connect timeout w =
     (let (r, w) = set_nonblock w
      in if r = - 1 then (- 1, w)
         else let (ret, w) = retry_connect w
         in if ret = 0 then (0, w)
            else if ret = - 1 \<and> errno w \<noteq> EINPROGRESS then (- 1, w)
            else let (ret, w) = retry_poll timeout w
            in if ret = - 1 then (- 1, w)
               else if ret = 0 then (- 1, w\<lparr>errno := ETIMEDOUT\<rparr>)
               else let (g, err, w) = sys_getsockopt_error w
               in if g = - 1 then (- 1, w)
                  else if err \<noteq> 0 then (- 1, w\<lparr>errno := err\<rparr>)
                  else (0, w))"

text \<open>\<open>timed_read\<close> also returns the bytes that the call stored through \<open>buf\<close>.  The
  \<open>ssize_t\<close> result of \<open>recv\<close> is narrowed to \<open>int\<close>.\<close>

definition timed_read :: "int \<Rightarrow> nat \<Rightarrow> int \<Rightarrow> world \<Rightarrow> int \<times> string \<times> world" where
  "timed_read fd len timeout w =
     (let (p, w) = poll_read timeout w
      in if p \<noteq> 1 then (- 1, [], w)
         else let (n, bs, w) = sys_recv fd len w in (int32 n, bs, w))"

text \<open>What polling may change: its own queue and log, and \<open>errno\<close>.\<close>

definition polled :: "world \<Rightarrow> world \<Rightarrow> bool" where
  "polled w w' \<longleftrightarrow>
     w' = w\<lparr>poll_q := poll_q w', poll_log := poll_log w', errno := errno w'\<rparr>"

text \<open>A bound on the number of \<open>recv\<close> calls that can still deliver something.\<close>

fun recv_weight :: "recv_ret list \<Rightarrow> nat" where
  "recv_weight [] = 0"
| "recv_weight (Recv bs # q) = Suc (length bs + recv_weight q)"
| "recv_weight (RecvFail e # q) = Suc (recv_weight q)"

lemma sys_poll_polled: "polled w (snd (sys_poll timeout w))"
  by (cases w) (auto simp: polled_def sys_poll_def Let_def split: list.splits sys_ret.splits)

lemma polled_trans: "polled u v \<Longrightarrow> polled v w \<Longrightarrow> polled u w"
  by (cases u; cases v; cases w) (simp add: polled_def)

lemma polled_errno: "polled u v \<Longrightarrow> polled u (v\<lparr>errno := e\<rparr>)"
  by (cases u; cases v) (simp add: polled_def)

lemma retry_poll_polled: "polled w (snd (retry_poll timeout w))"
proof (induction timeout w rule: retry_poll.induct)
  case (1 timeout w)
  obtain r1 w1 where s: "sys_poll timeout w = (r1, w1)" by force
  have p1: "polled w w1" using sys_poll_polled [of w timeout] by (simp add: s)
  show ?case
  proof (cases "r1 = - 1 \<and> errno w1 = EINTR")
    case True
    with "1.IH" s have "polled w1 (snd (retry_poll timeout w1))" by simp
    with p1 True s show ?thesis by (auto simp: retry_poll.simps [of timeout w] intro: polled_trans)
  next
    case False
    with s p1 show ?thesis by (auto simp: retry_poll.simps [of timeout w])
  qed
qed

lemma poll_read_polled: "polled w (snd (poll_read timeout w))"
  using retry_poll_polled [of w timeout]
  by (auto simp: poll_read_def split: prod.splits intro: polled_errno)

lemma polledD:
  assumes "polled w w'"
  shows "recv_q w' = recv_q w" "send_q w' = send_q w" "sent w' = sent w"
    "strerror w' = strerror w" "thread_id w' = thread_id w"
    "close_q w' = close_q w" "time_q w' = time_q w" "clock w' = clock w"
proof -
  have w': "w' = w\<lparr>poll_q := poll_q w', poll_log := poll_log w', errno := errno w'\<rparr>"
    using assms by (simp add: polled_def)
  show "recv_q w' = recv_q w" "send_q w' = send_q w" "sent w' = sent w"
    "strerror w' = strerror w" "thread_id w' = thread_id w"
    "close_q w' = close_q w" "time_q w' = time_q w" "clock w' = clock w"
    by (subst w', simp)+
qed

lemma poll_write_eq: "poll_write = poll_read"
  by (intro ext) (simp add: poll_write_def poll_read_def)

lemma poll_read_recv_q: "poll_read timeout w = (p, w') \<Longrightarrow> recv_q w' = recv_q w"
  using poll_read_polled [of w timeout] by (auto dest: polledD)

lemma poll_write_send_q: "poll_write timeout w = (p, w') \<Longrightarrow> send_q w' = send_q w"
  using poll_read_polled [of w timeout] by (auto simp: poll_write_eq dest: polledD)

lemma sys_recv_progress:
  "sys_recv fd len w = (n, bs, w') \<Longrightarrow> 0 < len \<Longrightarrow> n \<noteq> 0 \<Longrightarrow> (n = - 1 \<Longrightarrow> errno w' = EINTR) \<Longrightarrow>
   recv_weight (recv_q w') < recv_weight (recv_q w)"
  by (auto simp: sys_recv_def split: list.splits recv_ret.splits if_splits)

lemma sys_recv_count:
  "sys_recv fd len w = (n, bs, w') \<Longrightarrow>
   length bs \<le> len \<and> (n = - 1 \<and> bs = [] \<or> n = int (length bs))"
  by (auto simp: sys_recv_def split: list.splits recv_ret.splits if_splits)

lemma sys_send_interrupted:
  "sys_send fd buf w = (- 1, w') \<Longrightarrow> errno w' = EINTR \<Longrightarrow> length (send_q w') < length (send_q w)"
  by (auto simp: sys_send_def split: list.splits send_ret.splits if_splits)

lemma sys_send_progress:
  "sys_send fd buf w = (n, w') \<Longrightarrow> n \<noteq> - 1 \<Longrightarrow> n \<noteq> 0 \<Longrightarrow> 0 < left \<Longrightarrow>
   length (send_q w') + nat (left - n) < length (send_q w) + nat left"
  by (auto simp: sys_send_def split: list.splits send_ret.splits if_splits)

lemma sys_send_count:
  "sys_send fd buf w = (n, w') \<Longrightarrow>
   n = - 1 \<and> sent w' = sent w \<or>
   (fd \<noteq> - 1 \<and> (\<exists>k \<le> length buf. n = int k \<and> sent w' = sent w @ take k buf))"
  by (auto simp: sys_send_def min_def split: list.splits send_ret.splits if_splits)

text \<open>The loop of \<open>timed_readn\<close>: \<open>left\<close> bytes are still wanted, \<open>acc\<close> is what has been
  stored so far; the result is the error return \<open>Inl\<close> or the number left \<open>Inr\<close>.\<close>

function readn_loop ::
  "int \<Rightarrow> int \<Rightarrow> int \<Rightarrow> string \<Rightarrow> world \<Rightarrow> (int + int) \<times> string \<times> world" where
  "readn_loop fd timeout left acc w =
     (if left > 0
      then let (p, w') = poll_read timeout w
        in if p \<noteq> 1 then (Inr left, acc, w')
           else let (nread, bs, w'') = sys_recv fd (nat left) w'
           in if nread = - 1
              then if errno w'' = EINTR then readn_loop fd timeout left acc w''
                   else (Inl (- 1), acc, w'')
              else if nread = 0 then (Inr left, acc, w''\<lparr>errno := 0\<rparr>)
              else readn_loop fd timeout (left - nread) (acc @ bs) w''
      else (Inr left, acc, w))"
  by pat_completeness auto
termination
  by (relation "measure (\<lambda>(fd, timeout, left, acc, w). recv_weight (recv_q w))")
    (auto dest!: sys_recv_progress [OF sym] poll_read_recv_q [OF sym])

definition timed_readn ::
  "int \<Rightarrow> nat \<Rightarrow> int \<Rightarrow> world \<Rightarrow> int \<times> string \<times> world" where
  "timed_readn fd len timeout w =
     (case readn_loop fd timeout (int32 (int len)) [] w of
        (Inl e, acc, w) \<Rightarrow> (e, acc, w)
      | (Inr left, acc, w) \<Rightarrow> (int32 (int len) - left, acc, w))"

text \<open>The loop of \<open>timed_writen\<close>: \<open>buf\<close> is the rest of the data.\<close>

function writen_loop :: "int \<Rightarrow> int \<Rightarrow> string \<Rightarrow> int \<Rightarrow> world \<Rightarrow> (int + int) \<times> world" where
  "writen_loop fd timeout buf left w =
     (if left > 0
      then let (p, w') = poll_write timeout w
        in if p \<noteq> 1 then (Inr left, w')
           else let (nwrite, w'') = sys_send fd (take (nat left) buf) w'
           in if nwrite = - 1
              then if errno w'' = EINTR then writen_loop fd timeout buf left w''
                   else (Inl (- 1), w'')
              else if nwrite = 0 then (Inr left, w''\<lparr>errno := 0\<rparr>)
              else writen_loop fd timeout (drop (nat nwrite) buf) (left - nwrite) w''
      else (Inr left, w))"
  by pat_completeness auto
termination
  by (relation "measure (\<lambda>(fd, timeout, buf, left, w). length (send_q w) + nat left)")
    (auto dest!: sys_send_interrupted [OF sym] sys_send_progress [OF sym]
       poll_write_send_q [OF sym])

declare readn_loop.simps [simp del] writen_loop.simps [simp del]

definition timed_writen :: "int \<Rightarrow> string \<Rightarrow> int \<Rightarrow> world \<Rightarrow> int \<times> world" where
  "timed_writen fd buf timeout w =
     (case writen_loop fd timeout buf (int32 (int (length buf))) w of
        (Inl e, w) \<Rightarrow> (e, w)
      | (Inr left, w) \<Rightarrow> (int32 (int (length buf)) - left, w))"

definition safe_close :: "world \<Rightarrow> int \<times> world" where
  "safe_close w = retry_close w"

text \<open>The hints are the endpoint's, the rest zero.\<close>

definition resolve_host :: "string \<Rightarrow> string \<Rightarrow> net_endpoint \<Rightarrow> world \<Rightarrow> int \<times> net_endpoint \<times> world" where
  "resolve_host host service ep w =
     (case sys_getaddrinfo host service (ep\<lparr>address := []\<rparr>) w of
        (GaiFail ret e, w) \<Rightarrow>
          (- 1, ep,
           if ret = EAI_BADFLAGS then w\<lparr>errno := EINVAL\<rparr>
           else if ret = EAI_FAMILY then w\<lparr>errno := EPROTONOSUPPORT\<rparr>
           else if ret = EAI_SOCKTYPE then w\<lparr>errno := ESOCKTNOSUPPORT\<rparr>
           else if ret \<noteq> EAI_SYSTEM then w\<lparr>errno := EHOSTUNREACH\<rparr>
           else w)
      | (Resolved family addr, w) \<Rightarrow>
          (0,
           if family = AF_INET then ep\<lparr>domain := AF_INET, address := addr\<rparr>
           else if family = AF_INET6 then ep\<lparr>domain := AF_INET6, address := addr\<rparr>
           else ep,
           w))"

end
