(* ===== verification/Tcp_Buffer.thy ===== *)
theory Tcp_Buffer
  imports Prelude
begin

text \<open>
  The receive buffer of a connection: class \<open>TcpClientBuffer\<close> of \<open>src/src/tcp_client.cpp\<close>.
  The two pointers \<open>read_\<close> and \<open>to_read_\<close> are offsets into the vector.  The growth loop of
  \<open>prepare\<close> doubles a \<open>size_t\<close>, so its wrap-around is written out and the loop is a
  \<open>partial_function\<close>: \<open>None\<close> is a loop that never ends.  In \<open>prepare\<close> it is also the exception of
  \<open>std::vector\<close> for a size above its \<open>max_size\<close> (\<open>2^63 - 1\<close>); that memory runs out before is not modelled.
  The buffer is then shown to be
  a byte queue (locale \<open>byte_buffer\<close>), which is all the reading loops of \<open>TcpClient\<close> rely on.
\<close>

section \<open>The model\<close>

abbreviation (input) kDefaultBufferSize :: nat where "kDefaultBufferSize \<equiv> 512"
abbreviation (input) kMaxBufferSize :: nat where "kMaxBufferSize \<equiv> 65536"

record TcpClientBuffer =
  buffer :: "char list"
  read_ptr :: nat
  to_read_ptr :: nat

definition new_buffer :: TcpClientBuffer where
  "new_buffer =
     \<lparr>buffer = replicate kDefaultBufferSize (CHR 0x00), read_ptr = 0, to_read_ptr = 0\<rparr>"

definition total_size :: "TcpClientBuffer \<Rightarrow> nat" where
  "total_size b = length (buffer b)"

definition consumed_size :: "TcpClientBuffer \<Rightarrow> nat" where
  "consumed_size b = read_ptr b"

definition read_size :: "TcpClientBuffer \<Rightarrow> nat" where
  "read_size b = to_read_ptr b - read_ptr b"

definition free_size :: "TcpClientBuffer \<Rightarrow> nat" where
  "free_size b = length (buffer b) - to_read_ptr b"

text \<open>The bytes of \<open>get_read_buffer\<close>.\<close>

definition get_read_buffer :: "TcpClientBuffer \<Rightarrow> string" where
  "get_read_buffer b = take (read_size b) (drop (read_ptr b) (buffer b))"

text \<open>What \<open>recv\<close> does to the memory of \<open>get_to_read_buffer\<close>.\<close>

definition store_to_read :: "string \<Rightarrow> TcpClientBuffer \<Rightarrow> TcpClientBuffer" where
  "store_to_read bs b =
     b\<lparr>buffer := take (to_read_ptr b) (buffer b) @ bs
                 @ drop (to_read_ptr b + length bs) (buffer b)\<rparr>"

definition clear_buffer :: "TcpClientBuffer \<Rightarrow> TcpClientBuffer" where
  "clear_buffer b =
     b\<lparr>buffer := take kDefaultBufferSize (buffer b)
                 @ replicate (kDefaultBufferSize - length (buffer b)) (CHR 0x00),
       read_ptr := 0, to_read_ptr := 0\<rparr>"

text \<open>\<open>for (; new_size<=min_new_size; new_size = new_size << 1) {}\<close>\<close>

partial_function (option) grow :: "nat \<Rightarrow> nat \<Rightarrow> nat option" where
  "grow new_size min_new_size =
     (if new_size \<le> min_new_size then grow ((new_size * 2) mod size_max) min_new_size
      else Some new_size)"

definition prepare :: "nat \<Rightarrow> bool \<Rightarrow> TcpClientBuffer \<Rightarrow> TcpClientBuffer option" where
  "prepare sz drained b =
     (if sz = 0 then Some b
      else if \<not> drained \<and> free_size b \<ge> sz then Some b
      else do {
        let rsize = read_size b;
        new_size \<leftarrow> grow (length (buffer b)) (size_add rsize sz);
        assertion (new_size < 2 ^ 63);
        let fresh = replicate new_size (CHR 0x00);
        Some (b\<lparr>buffer := take rsize (drop (read_ptr b) (buffer b)) @ drop rsize fresh,
                read_ptr := 0, to_read_ptr := rsize\<rparr>)
      })"

definition produce :: "nat \<Rightarrow> TcpClientBuffer \<Rightarrow> TcpClientBuffer option" where
  "produce sz b =
     (if sz = 0 then Some b
      else do {
        assertion (free_size b \<ge> sz);
        Some (b\<lparr>to_read_ptr := to_read_ptr b + sz\<rparr>)
      })"

definition drain :: "TcpClientBuffer \<Rightarrow> TcpClientBuffer option" where
  "drain b = prepare kDefaultBufferSize True b"

definition consume :: "nat \<Rightarrow> TcpClientBuffer \<Rightarrow> (string \<times> TcpClientBuffer) option" where
  "consume sz b = do {
     assertion (sz \<noteq> 0);
     assertion (read_size b \<ge> sz);
     let ret = take sz (drop (read_ptr b) (buffer b));
     let b = b\<lparr>read_ptr := read_ptr b + sz\<rparr>;
     b \<leftarrow> (if read_size b = 0 \<and> total_size b \<ge> kMaxBufferSize then drain b
           else if read_size b = 0 then Some (b\<lparr>read_ptr := 0, to_read_ptr := 0\<rparr>)
           else Some b);
     Some (ret, b)
   }"

section \<open>Invariant\<close>

text \<open>The inequality the source states about its pointers, and that the size is a power of two.\<close>

definition buffer_inv :: "TcpClientBuffer \<Rightarrow> bool" where
  "buffer_inv b \<longleftrightarrow>
     read_ptr b \<le> to_read_ptr b \<and> to_read_ptr b \<le> length (buffer b) \<and>
     (\<exists>k. 9 \<le> k \<and> k \<le> 62 \<and> length (buffer b) = 2 ^ k)"

named_theorems buffer_defs

lemmas buffer_size_defs [buffer_defs] =
  total_size_def consumed_size_def read_size_def free_size_def get_read_buffer_def

lemma buffer_inv_bounds:
  assumes "buffer_inv b"
  shows "read_ptr b \<le> to_read_ptr b" "to_read_ptr b \<le> length (buffer b)"
    "512 \<le> length (buffer b)"
proof -
  from assms obtain k where k: "9 \<le> k" "length (buffer b) = 2 ^ k"
    by (auto simp: buffer_inv_def)
  have "(2::nat) ^ 9 \<le> 2 ^ k" using k(1) by (intro power_increasing) auto
  with k show "512 \<le> length (buffer b)" by simp
qed (use assms in \<open>auto simp: buffer_inv_def\<close>)

lemma length_get_read_buffer: "buffer_inv b \<Longrightarrow> length (get_read_buffer b) = read_size b"
  by (auto simp: buffer_defs buffer_inv_def)

lemma new_buffer_inv: "buffer_inv new_buffer"
proof -
  have "(512::nat) = 2 ^ 9" by simp
  then show ?thesis unfolding buffer_inv_def new_buffer_def by force
qed

lemma new_buffer_empty [simp]: "get_read_buffer new_buffer = []"
  by (simp add: new_buffer_def buffer_defs)

lemma clear_buffer_inv: "buffer_inv (clear_buffer b)"
proof -
  have "length (buffer (clear_buffer b)) = 2 ^ 9" by (simp add: clear_buffer_def)
  then show ?thesis unfolding buffer_inv_def by (intro conjI) (auto simp: clear_buffer_def)
qed

lemma clear_buffer_empty [simp]: "get_read_buffer (clear_buffer b) = []"
  by (simp add: clear_buffer_def buffer_defs)

section \<open>The growth loop\<close>

lemma grow_stops:
  assumes "k \<le> 63" "m < 2 ^ 63"
  shows "\<exists>j. k \<le> j \<and> j \<le> 63 \<and> grow (2 ^ k) m = Some (2 ^ j) \<and> m < 2 ^ j \<and> (j = k \<or> 2 ^ (j - 1) \<le> m)"
  using assms
proof (induction "63 - k" arbitrary: k)
  case 0
  then have "k = 63" by simp
  with 0 show ?case by (intro exI [of _ 63]) (simp add: grow.simps)
next
  case (Suc d)
  show ?case
  proof (cases "(2::nat) ^ k \<le> m")
    case False
    then show ?thesis using Suc.prems by (intro exI [of _ k]) (simp add: grow.simps)
  next
    case True
    then have "(2::nat) ^ k < 2 ^ 63" using Suc.prems by linarith
    then have k: "k < 63" by (rule power_less_imp_less_exp [rotated]) simp
    then have "(2::nat) ^ Suc k \<le> 2 ^ 63" by (intro power_increasing) auto
    then have "(2 ^ k * 2) mod size_max = (2::nat) ^ Suc k" by (simp add: size_max_def)
    with True have step: "grow (2 ^ k) m = grow (2 ^ Suc k) m" by (simp add: grow.simps)
    have "\<exists>j. Suc k \<le> j \<and> j \<le> 63 \<and> grow (2 ^ Suc k) m = Some (2 ^ j) \<and> m < 2 ^ j
        \<and> (j = Suc k \<or> 2 ^ (j - 1) \<le> m)"
      using Suc.hyps(2) k Suc.prems by (intro Suc.hyps(1)) auto
    then obtain j where "Suc k \<le> j" "j \<le> 63" "grow (2 ^ k) m = Some (2 ^ j)" "m < 2 ^ j"
      "j = Suc k \<or> 2 ^ (j - 1) \<le> m" unfolding step by blast
    with True show ?thesis by (intro exI [of _ j]) auto
  qed
qed

lemma pow2_double_mod:
  assumes "n = 0 \<or> (\<exists>k \<le> 63. n = (2::nat) ^ k)"
  shows "(n * 2) mod size_max = 0 \<or> (\<exists>k \<le> 63. (n * 2) mod size_max = 2 ^ k)"
proof -
  have "(\<exists>j \<le> 63. (2 ^ k * 2) mod size_max = (2::nat) ^ j)" if "k < 63" for k
  proof -
    have "(2::nat) ^ Suc k \<le> 2 ^ 63" using that by (intro power_increasing) auto
    with that show ?thesis by (intro exI [of _ "Suc k"]) (simp add: size_max_def)
  qed
  moreover have "((2::nat) ^ 63 * 2) mod size_max = 0" by (simp add: size_max_def)
  ultimately show ?thesis using assms by (metis le_neq_implies_less mult_zero_left mod_0)
qed

lemma grow_result:
  assumes "grow n m = Some r"
  shows "(n = 0 \<or> (\<exists>k \<le> 63. n = (2::nat) ^ k)) \<longrightarrow> m < r \<and> r \<le> 2 ^ 63"
proof (rule grow.raw_induct [where P = "\<lambda>n m r. (n = 0 \<or> (\<exists>k \<le> 63. n = (2::nat) ^ k)) \<longrightarrow>
    m < r \<and> r \<le> 2 ^ 63", OF _ assms])
  fix f :: "nat \<Rightarrow> nat \<Rightarrow> nat option" and n m r
  assume IH: "\<And>n m r. f n m = Some r \<Longrightarrow>
      (n = 0 \<or> (\<exists>k \<le> 63. n = 2 ^ k)) \<longrightarrow> m < r \<and> r \<le> 2 ^ 63"
    and eq: "(if n \<le> m then f ((n * 2) mod size_max) m else Some n) = Some r"
  have le: "(2::nat) ^ k \<le> 2 ^ 63" if "k \<le> 63" for k
    using that by (intro power_increasing) auto
  show "(n = 0 \<or> (\<exists>k \<le> 63. n = 2 ^ k)) \<longrightarrow> m < r \<and> r \<le> 2 ^ 63"
  proof
    assume n: "n = 0 \<or> (\<exists>k \<le> 63. n = 2 ^ k)"
    show "m < r \<and> r \<le> 2 ^ 63"
    proof (cases "n \<le> m")
      case True
      with eq have "f ((n * 2) mod size_max) m = Some r" by simp
      from IH [OF this] pow2_double_mod [OF n] show ?thesis by (rule mp)
    next
      case False
      with eq n le show ?thesis by auto
    qed
  qed
qed

lemma grow_diverges:
  assumes "k \<le> 63" "2 ^ 63 \<le> m"
  shows "grow (2 ^ k) m = None"
proof (cases "grow (2 ^ k) m")
  case (Some r)
  with grow_result [OF Some] assms show ?thesis by auto
qed simp

section \<open>The buffer is a byte queue\<close>

lemma pow_below: "(2::nat) ^ i \<le> m \<Longrightarrow> m < 2 ^ n \<Longrightarrow> i < n"
  by (meson le_less_trans one_less_numeral_iff power_less_imp_less_exp semiring_norm(76))

lemma prepare_ok:
  assumes inv: "buffer_inv b" and room: "read_size b + sz < 2 ^ 62"
  shows "returns (prepare sz dr b)
    (\<lambda>b'. buffer_inv b' \<and> get_read_buffer b' = get_read_buffer b \<and> (0 < sz \<longrightarrow> sz \<le> free_size b'))"
proof (cases "sz = 0 \<or> (\<not> dr \<and> free_size b \<ge> sz)")
  case True
  with inv show ?thesis by (auto simp: prepare_def)
next
  case False
  from inv obtain k where k: "9 \<le> k" "k \<le> 62" "length (buffer b) = 2 ^ k"
    by (auto simp: buffer_inv_def)
  have "k \<le> 63" "read_size b + sz < 2 ^ 63" using k(2) room by simp_all
  from grow_stops [OF this] obtain j where
    j: "k \<le> j" "grow (2 ^ k) (read_size b + sz) = Some (2 ^ j)" "read_size b + sz < 2 ^ j"
      "j = k \<or> 2 ^ (j - 1) \<le> read_size b + sz"
    by blast
  have j62: "j \<le> 62" using j(4) k(2) room pow_below [of "j - 1" _ 62] by fastforce
  then have top: "(2::nat) ^ j < 2 ^ 63" by (intro power_strict_increasing) auto
  have add: "size_add (read_size b) sz = read_size b + sz" using room by simp
  define b' where "b' = b\<lparr>buffer := take (read_size b) (drop (read_ptr b) (buffer b))
    @ replicate (2 ^ j - read_size b) (CHR 0x00), read_ptr := 0, to_read_ptr := read_size b\<rparr>"
  have p: "prepare sz dr b = Some b'"
    using False top by (auto simp: prepare_def add k(3) j(2) b'_def Let_def assertion_def)
  have len: "length (take (read_size b) (drop (read_ptr b) (buffer b))) = read_size b"
    using length_get_read_buffer [OF inv] by (simp add: get_read_buffer_def)
  have lb: "length (buffer b') = 2 ^ j" using len j(3) by (simp add: b'_def)
  have "buffer_inv b'"
    unfolding buffer_inv_def using k j(1,3) j62 lb by (auto simp: b'_def)
  moreover have "get_read_buffer b' = get_read_buffer b"
    using len by (simp add: b'_def get_read_buffer_def read_size_def)
  moreover have "sz \<le> free_size b'" using lb j(3) by (simp add: b'_def free_size_def)
  ultimately show ?thesis by (simp add: p)
qed

lemma store_produce_ok:
  assumes inv: "buffer_inv b" and room: "length bs \<le> free_size b"
  shows "returns (produce (length bs) (store_to_read bs b))
    (\<lambda>b'. buffer_inv b' \<and> get_read_buffer b' = get_read_buffer b @ bs)"
proof -
  have p: "read_ptr b \<le> to_read_ptr b" "to_read_ptr b \<le> length (buffer b)"
    using buffer_inv_bounds [OF inv] by auto
  define b' where "b' = (store_to_read bs b)\<lparr>to_read_ptr := to_read_ptr b + length bs\<rparr>"
  have r: "produce (length bs) (store_to_read bs b) = Some b'"
    using room p by (auto simp: produce_def b'_def store_to_read_def free_size_def)
  have len: "length (buffer b') = length (buffer b)"
    using room p by (simp add: b'_def store_to_read_def free_size_def)
  have "buffer_inv b'"
    using inv len room p by (auto simp: buffer_inv_def b'_def store_to_read_def free_size_def)
  moreover have "get_read_buffer b' = get_read_buffer b @ bs"
  proof -
    have split: "take (to_read_ptr b) (buffer b)
        = take (read_ptr b) (buffer b) @ get_read_buffer b"
      using p by (simp add: get_read_buffer_def read_size_def flip: take_add)
    have "buffer b' = take (read_ptr b) (buffer b) @ get_read_buffer b @ bs
        @ drop (to_read_ptr b + length bs) (buffer b)"
      by (simp add: b'_def store_to_read_def split)
    then have "drop (read_ptr b) (buffer b')
        = (get_read_buffer b @ bs) @ drop (to_read_ptr b + length bs) (buffer b)"
      using p by simp
    moreover have "read_ptr b' = read_ptr b"
      by (simp add: b'_def store_to_read_def)
    moreover have "read_size b' = length (get_read_buffer b @ bs)"
      using p length_get_read_buffer [OF inv] by (simp add: read_size_def b'_def store_to_read_def)
    ultimately show ?thesis unfolding get_read_buffer_def [of b'] by simp
  qed
  ultimately show ?thesis by (simp add: r)
qed

lemma consume_ok:
  assumes inv: "buffer_inv b" and n: "0 < n" "n \<le> length (get_read_buffer b)"
  shows "returns (consume n b)
    (\<lambda>(s, b'). s = take n (get_read_buffer b) \<and> buffer_inv b'
       \<and> get_read_buffer b' = drop n (get_read_buffer b))"
proof -
  have p: "read_ptr b \<le> to_read_ptr b" "to_read_ptr b \<le> length (buffer b)"
    using buffer_inv_bounds [OF inv] by auto
  have rs: "n \<le> read_size b" using n length_get_read_buffer [OF inv] by simp
  define b1 where "b1 = b\<lparr>read_ptr := read_ptr b + n\<rparr>"
  have inv1: "buffer_inv b1" using inv rs by (auto simp: buffer_inv_def b1_def read_size_def)
  have g1: "get_read_buffer b1 = drop n (get_read_buffer b)"
    using rs by (simp add: b1_def get_read_buffer_def read_size_def drop_take algebra_simps)
  have ret: "take n (drop (read_ptr b) (buffer b)) = take n (get_read_buffer b)"
    using rs by (simp add: get_read_buffer_def min_def)
  have c: "consume n b = do {
      b' \<leftarrow> (if read_size b1 = 0 \<and> total_size b1 \<ge> kMaxBufferSize then drain b1
            else if read_size b1 = 0 then Some (b1\<lparr>read_ptr := 0, to_read_ptr := 0\<rparr>) else Some b1);
      Some (take n (get_read_buffer b), b') }"
    using n(1) rs by (simp add: consume_def b1_def ret Let_def)
  consider "read_size b1 = 0 \<and> total_size b1 \<ge> kMaxBufferSize"
    | "read_size b1 = 0" "\<not> total_size b1 \<ge> kMaxBufferSize" | "read_size b1 \<noteq> 0" by blast
  then show ?thesis
  proof cases
    case 1
    have "returns (drain b1) (\<lambda>b'. buffer_inv b' \<and> get_read_buffer b' = get_read_buffer b1)"
      unfolding drain_def using prepare_ok [OF inv1, of kDefaultBufferSize True] 1
      by (auto elim: returns_mono)
    with 1 show ?thesis by (auto simp: c returns_bind g1 elim!: returns_mono)
  next
    case 2
    then have "get_read_buffer b1 = []" by (simp add: get_read_buffer_def)
    moreover have "buffer_inv (b1\<lparr>read_ptr := 0, to_read_ptr := 0\<rparr>)"
      using inv1 by (auto simp: buffer_inv_def)
    ultimately show ?thesis using 2 g1 by (simp add: c get_read_buffer_def read_size_def)
  next
    case 3
    with inv1 g1 show ?thesis by (simp add: c)
  qed
qed

text \<open>
  The interface the reading loops use.  \<open>pending\<close> is the content of the queue; \<open>prepare\<close>
  makes room, \<open>fill\<close> is a \<open>recv\<close> into that room followed by \<open>produce\<close>, \<open>consume\<close> takes
  bytes off the front.
\<close>

locale byte_buffer =
  fixes invar :: "'b \<Rightarrow> bool"
    and pending :: "'b \<Rightarrow> string"
    and room :: "'b \<Rightarrow> nat"
    and prepare :: "nat \<Rightarrow> 'b \<Rightarrow> 'b option"
    and fill :: "string \<Rightarrow> 'b \<Rightarrow> 'b option"
    and consume :: "nat \<Rightarrow> 'b \<Rightarrow> (string \<times> 'b) option"
  assumes prepare_law: "invar b \<Longrightarrow> length (pending b) + n < 2 ^ 62 \<Longrightarrow>
      returns (prepare n b) (\<lambda>b'. invar b' \<and> pending b' = pending b \<and> (0 < n \<longrightarrow> n \<le> room b'))"
    and fill_law: "invar b \<Longrightarrow> length bs \<le> room b \<Longrightarrow>
      returns (fill bs b) (\<lambda>b'. invar b' \<and> pending b' = pending b @ bs)"
    and consume_law: "invar b \<Longrightarrow> 0 < n \<Longrightarrow> n \<le> length (pending b) \<Longrightarrow>
      returns (consume n b)
        (\<lambda>(s, b'). s = take n (pending b) \<and> invar b' \<and> pending b' = drop n (pending b))"
begin

lemma prepare_fill:
  assumes "invar b" "length (pending b) + n < 2 ^ 62" "0 < n" "length bs \<le> n"
  shows "returns (do { b \<leftarrow> prepare n b; fill bs b }) (\<lambda>b'. invar b' \<and> pending b' = pending b @ bs)"
  unfolding returns_bind
proof (rule returns_mono [OF prepare_law [OF assms(1,2)]])
  fix b' assume b': "invar b' \<and> pending b' = pending b \<and> (0 < n \<longrightarrow> n \<le> room b')"
  then have "length bs \<le> room b'" using assms(3,4) by auto
  with b' show "returns (fill bs b') (\<lambda>b'. invar b' \<and> pending b' = pending b @ bs)"
    using fill_law [of b' bs] by simp
qed

lemma fill_consume:
  assumes "invar b" "bs \<noteq> []" "length bs \<le> room b"
  shows "returns (do { b \<leftarrow> fill bs b; consume (length (pending b)) b })
    (\<lambda>(s, b'). invar b' \<and> pending b' = [] \<and> s @ pending b' = pending b @ bs)"
  unfolding returns_bind
proof (rule returns_mono [OF fill_law [OF assms(1,3)]])
  fix b' assume b': "invar b' \<and> pending b' = pending b @ bs"
  with assms(2) have "returns (consume (length (pending b')) b')
      (\<lambda>(s, b''). s = take (length (pending b')) (pending b') \<and> invar b''
         \<and> pending b'' = drop (length (pending b')) (pending b'))"
    by (intro consume_law) auto
  then show "returns (consume (length (pending b')) b')
      (\<lambda>(s, b'). invar b' \<and> pending b' = [] \<and> s @ pending b' = pending b @ bs)"
    using b' by (auto elim!: returns_mono)
qed

end

text \<open>\<open>recv\<close> into the free space, then \<open>produce\<close>.\<close>

definition fill_buffer :: "string \<Rightarrow> TcpClientBuffer \<Rightarrow> TcpClientBuffer option" where
  "fill_buffer bs b = produce (length bs) (store_to_read bs b)"

interpretation tb: byte_buffer buffer_inv get_read_buffer free_size
  "\<lambda>n. prepare n False" fill_buffer consume
proof unfold_locales
  fix b :: TcpClientBuffer and n :: nat
  assume "buffer_inv b" "length (get_read_buffer b) + n < 2 ^ 62"
  then show "returns (prepare n False b)
      (\<lambda>b'. buffer_inv b' \<and> get_read_buffer b' = get_read_buffer b \<and> (0 < n \<longrightarrow> n \<le> free_size b'))"
    by (intro prepare_ok) (simp_all add: length_get_read_buffer)
qed (auto simp: fill_buffer_def intro: store_produce_ok consume_ok)

end
