(* ===== verification/Tcp_Stream.thy ===== *)
theory Tcp_Stream
  imports Tcp_Client
begin

text \<open>
  What the reading operations of \<open>TcpClient\<close> promise.  The specification state of a connection
  is one string, the bytes the peer has sent and the client has not consumed: what is in the
  receive buffer followed by what the kernel will deliver.  \<open>read_line\<close> and \<open>read\<close> cut that
  string, whatever the chunks in which it arrives.
\<close>

section \<open>The byte stream of a connection\<close>

text \<open>What the kernel delivers before an error or the end of file.\<close>

fun recv_stream :: "recv_ret list \<Rightarrow> string" where
  "recv_stream [] = []"
| "recv_stream (Recv bs # q) = (if bs = [] then [] else bs @ recv_stream q)"
| "recv_stream (RecvFail e # q) = []"

text \<open>\<open>poll\<close> reports data, or is interrupted (the library retries).\<close>

definition poll_ok :: "sys_ret \<Rightarrow> bool" where
  "poll_ok r = (case r of Ret n \<Rightarrow> n \<noteq> 0 \<and> n \<noteq> - 1 | Fail e \<Rightarrow> e = EINTR)"

definition polls_ready :: "world \<Rightarrow> bool" where
  "polls_ready w = list_all poll_ok (poll_q w)"

definition tcp_stream :: "TcpClient \<Rightarrow> world \<Rightarrow> string" where
  "tcp_stream tc w = get_read_buffer (tbuf tc) @ recv_stream (recv_q w)"

definition tcp_inv :: "TcpClient \<Rightarrow> bool" where
  "tcp_inv tc = buffer_inv (tbuf tc)"

definition tcp_ready :: "TcpClient \<Rightarrow> world \<Rightarrow> bool" where
  "tcp_ready tc w \<longleftrightarrow>
     fd tc \<noteq> - 1 \<and> tcp_inv tc \<and> polls_ready w \<and> length (tcp_stream tc w) < 2 ^ 31"

text \<open>Reading leaves these parts of the world alone.\<close>

definition quiet :: "world \<Rightarrow> world \<Rightarrow> bool" where
  "quiet w w' \<longleftrightarrow> sent w' = sent w \<and> strerror w' = strerror w \<and> thread_id w' = thread_id w
     \<and> send_q w' = send_q w \<and> time_q w' = time_q w \<and> clock w' = clock w"

text \<open>A successful read leaves \<open>errno\<close> as it was, or at the \<open>EINTR\<close> of a retried call.\<close>

definition calm :: "world \<Rightarrow> world \<Rightarrow> bool" where
  "calm w w' \<longleftrightarrow> quiet w w' \<and> (errno w' = errno w \<or> errno w' = EINTR)"

definition match_at :: "string \<Rightarrow> string \<Rightarrow> nat \<Rightarrow> bool" where
  "match_at d s i \<longleftrightarrow> take (length d) (drop i s) = d"

text \<open>\<open>line\<close> is what precedes the first occurrence of \<open>d\<close> in \<open>s\<close>, and \<open>rest\<close> what follows.\<close>

definition first_line :: "string \<Rightarrow> string \<Rightarrow> string \<Rightarrow> string \<Rightarrow> bool" where
  "first_line d s line rest \<longleftrightarrow>
     s = line @ d @ rest \<and> (\<forall>i < length line. \<not> match_at d s i)"

section \<open>Frames\<close>

lemma quiet_refl [simp]: "quiet w w"
  by (simp add: quiet_def)

lemma quiet_trans: "quiet u v \<Longrightarrow> quiet v w \<Longrightarrow> quiet u w"
  by (simp add: quiet_def)

lemma calm_refl [simp]: "calm w w"
  by (simp add: calm_def)

lemma calm_trans: "calm u v \<Longrightarrow> calm v w \<Longrightarrow> calm u w"
  by (auto simp: calm_def intro: quiet_trans)

lemma calm_quiet: "calm w w' \<Longrightarrow> quiet w w'"
  by (simp add: calm_def)

lemma polled_quiet: "polled w w' \<Longrightarrow> quiet w w'"
  by (auto simp: quiet_def dest: polledD)

lemma sys_recv_quiet: "sys_recv f len w = (n, bs, w') \<Longrightarrow> quiet w w' \<and> poll_q w' = poll_q w"
  by (auto simp: sys_recv_def quiet_def split: if_splits list.splits recv_ret.splits)

lemma retry_close_quiet: "quiet w (snd (retry_close w)) \<and> poll_q (snd (retry_close w)) = poll_q w"
proof (induction w rule: retry_close.induct)
  case (1 w)
  obtain r w1 where s: "sys_close w = (r, w1)" by force
  then have q: "quiet w w1" "poll_q w1 = poll_q w"
    by (auto simp: sys_close_def quiet_def split: list.splits sys_ret.splits)
  with "1.IH" s show ?case
    by (cases "r = - 1 \<and> errno w1 = EINTR")
      (auto simp: retry_close.simps [of w] intro: quiet_trans)
qed

lemma TcpClient_close_quiet: "TcpClient_close tc w = (tc', w') \<Longrightarrow> quiet w w'"
  using retry_close_quiet [of w] by (auto simp: TcpClient_close_def safe_close_def Let_def)

lemma TcpClient_close_closed:
  "TcpClient_close tc w = (tc', w') \<Longrightarrow>
   fd tc' = - 1 \<and> tcp_inv tc' \<and> get_read_buffer (tbuf tc') = []"
  by (auto simp: TcpClient_close_def tcp_inv_def clear_buffer_inv Let_def)

section \<open>One call of timed_read\<close>

lemma retry_poll_ready:
  "polls_ready w \<Longrightarrow> retry_poll timeout w = (r, w') \<Longrightarrow> r \<noteq> 0 \<and> r \<noteq> - 1 \<and> polls_ready w'
   \<and> (errno w' = errno w \<or> errno w' = EINTR)"
proof (induction timeout w arbitrary: r w' rule: retry_poll.induct)
  case (1 timeout w)
  obtain r1 w1 where s: "sys_poll timeout w = (r1, w1)" by force
  have w1: "polls_ready w1" "r1 = - 1 \<and> errno w1 = EINTR \<or> r1 \<noteq> 0 \<and> r1 \<noteq> - 1 \<and> errno w1 = errno w"
    using s "1.prems"(1)
    by (auto simp: sys_poll_def polls_ready_def poll_ok_def Let_def split: list.splits sys_ret.splits)
  show ?case
  proof (cases "r1 = - 1 \<and> errno w1 = EINTR")
    case True
    then have "retry_poll timeout w1 = (r, w')"
      using "1.prems"(2) s by (simp add: retry_poll.simps [of timeout w])
    from "1.IH" [OF s [symmetric] refl True w1(1) this] True show ?thesis by auto
  next
    case False
    with s w1 "1.prems"(2) show ?thesis by (auto simp: retry_poll.simps [of timeout w])
  qed
qed

lemma poll_read_ready:
  assumes "polls_ready w"
  shows "\<exists>w'. poll_read timeout w = (1, w') \<and> polls_ready w' \<and> polled w w'
    \<and> (errno w' = errno w \<or> errno w' = EINTR)"
proof -
  obtain r w' where r: "retry_poll timeout w = (r, w')" by force
  from retry_poll_ready [OF assms r] retry_poll_polled [of w timeout] r
  show ?thesis by (auto simp: poll_read_def)
qed

lemma recv_stream_step:
  assumes "f \<noteq> - 1" "0 < len" "sys_recv f len w = (n, bs, w')"
  shows "recv_stream (recv_q w) = [] \<and> n \<le> 0 \<or>
     n = int (length bs) \<and> bs \<noteq> [] \<and> length bs \<le> len
     \<and> recv_stream (recv_q w) = bs @ recv_stream (recv_q w') \<and> errno w' = errno w"
  using assms by (auto simp: sys_recv_def split: if_splits list.splits recv_ret.splits)

lemma timed_read_ready:
  assumes "polls_ready w" "f \<noteq> - 1" "0 < len" "length (recv_stream (recv_q w)) < 2 ^ 31"
  obtains c bs w' where "timed_read f len timeout w = (c, bs, w')" "polls_ready w'" "quiet w w'"
    "recv_stream (recv_q w) = [] \<and> c \<le> 0 \<or>
     c = int (length bs) \<and> bs \<noteq> [] \<and> length bs \<le> len
     \<and> recv_stream (recv_q w) = bs @ recv_stream (recv_q w') \<and> calm w w'"
proof -
  obtain w1 where p: "poll_read timeout w = (1, w1)" "polls_ready w1" "polled w w1"
    and e: "errno w1 = errno w \<or> errno w1 = EINTR"
    using poll_read_ready [OF assms(1)] by blast
  obtain n bs w2 where r: "sys_recv f len w1 = (n, bs, w2)" by (cases "sys_recv f len w1")
  have rq: "recv_q w1 = recv_q w" using p(3) by (rule polledD)
  note step = recv_stream_step [OF assms(2,3) r, unfolded rq]
  have t: "timed_read f len timeout w = (int32 n, bs, w2)"
    by (simp add: timed_read_def p(1) r)
  have "quiet w w2" using sys_recv_quiet [OF r] polled_quiet [OF p(3)] by (blast intro: quiet_trans)
  moreover have "polls_ready w2" using p(2) sys_recv_quiet [OF r] by (simp add: polls_ready_def)
  moreover have "int32 n = n"
    using step sys_recv_count [OF r] assms(4) by (auto intro!: int32_id)
  ultimately show ?thesis using that [of "int32 n" bs w2] t step e by (auto simp: calm_def)
qed

section \<open>The search for the delimiter\<close>

lemma search_delim_step:
  "off + length d \<le> length data \<Longrightarrow> \<not> match_at d data off \<Longrightarrow>
   search_delim d data off = search_delim d data (Suc off)"
  by (simp add: search_delim.simps [of d data off] match_at_def)

lemma search_delim_Some:
  "search_delim d data off = (Some p, off') \<Longrightarrow>
   off \<le> p \<and> p + length d \<le> length data \<and> match_at d data p
   \<and> (\<forall>i. off \<le> i \<and> i < p \<longrightarrow> \<not> match_at d data i)"
proof (induction d data off rule: search_delim.induct)
  case (1 d data off)
  show ?case
  proof (cases "off + length d \<le> length data \<and> \<not> match_at d data off")
    case True
    with "1.IH" "1.prems" have "Suc off \<le> p \<and> p + length d \<le> length data \<and> match_at d data p
        \<and> (\<forall>i. Suc off \<le> i \<and> i < p \<longrightarrow> \<not> match_at d data i)"
      by (simp add: search_delim_step) (simp add: match_at_def)
    with True show ?thesis by (metis Suc_leD le_antisym not_less_eq_eq)
  next
    case False
    with "1.prems" show ?thesis
      by (auto simp: search_delim.simps [of d data off] match_at_def split: if_splits)
  qed
qed

lemma search_delim_None:
  "search_delim d data off = (None, off') \<Longrightarrow>
   off \<le> off' \<and> length data < off' + length d
   \<and> (\<forall>i. off \<le> i \<and> i < off' \<longrightarrow> i + length d \<le> length data \<and> \<not> match_at d data i)"
proof (induction d data off rule: search_delim.induct)
  case (1 d data off)
  show ?case
  proof (cases "off + length d \<le> length data \<and> \<not> match_at d data off")
    case True
    with "1.IH" "1.prems" have "Suc off \<le> off' \<and> length data < off' + length d
        \<and> (\<forall>i. Suc off \<le> i \<and> i < off' \<longrightarrow> i + length d \<le> length data \<and> \<not> match_at d data i)"
      by (simp add: search_delim_step) (simp add: match_at_def)
    with True show ?thesis by (metis Suc_leD le_antisym not_less_eq_eq)
  next
    case False
    with "1.prems" show ?thesis
      by (auto simp: search_delim.simps [of d data off] match_at_def split: if_splits)
  qed
qed

lemma match_at_prefix:
  "i + length d \<le> length data \<Longrightarrow> match_at d (data @ xs) i = match_at d data i"
  by (simp add: match_at_def)

lemma first_line_match: "first_line d s line rest \<Longrightarrow> match_at d s (length line)"
  by (simp add: first_line_def match_at_def)

lemma no_CR_first_line:
  assumes "s = line @ d @ rest" "d = c # ds" "c \<notin> set line"
  shows "first_line d s line rest"
  unfolding first_line_def match_at_def
proof (intro conjI allI impI)
  fix i assume i: "i < length line"
  then have "drop i s = line ! i # drop (Suc i) line @ d @ rest"
    by (simp add: assms(1) Cons_nth_drop_Suc)
  then show "take (length d) (drop i s) \<noteq> d"
    using i assms(2,3) by (auto simp: in_set_conv_nth)
qed (rule assms(1))

section \<open>Refilling the buffer\<close>

text \<open>One turn of either reading loop: the stream is exhausted, or a non-empty prefix of what
  the kernel holds moves into the buffer and the stream is unchanged.\<close>

lemma refill:
  assumes ready: "tcp_ready tc w" and n: "0 < n" "n \<le> 2 ^ 61"
  obtains (exhausted) b c bs w' where "prepare n False (tbuf tc) = Some b"
      "timed_read (fd tc) (free_size b) timeout w = (c, bs, w')" "c \<le> 0" "quiet w w'"
      "recv_stream (recv_q w) = []"
  | (refilled) b bs w' b' where "prepare n False (tbuf tc) = Some b"
      "timed_read (fd tc) (free_size b) timeout w = (int (length bs), bs, w')" "bs \<noteq> []"
      "produce (length bs) (store_to_read bs b) = Some b'"
      "tcp_ready (tc\<lparr>tbuf := b'\<rparr>) w'"
      "get_read_buffer b' = get_read_buffer (tbuf tc) @ bs"
      "recv_stream (recv_q w) = bs @ recv_stream (recv_q w')" "calm w w'"
      "recv_weight (recv_q w') < recv_weight (recv_q w)"
proof -
  let ?b0 = "tbuf tc"
  from ready have r: "fd tc \<noteq> - 1" "buffer_inv ?b0" "polls_ready w"
    "length (tcp_stream tc w) < 2 ^ 31" by (auto simp: tcp_ready_def tcp_inv_def)
  then have len: "length (get_read_buffer ?b0) < 2 ^ 31" "length (recv_stream (recv_q w)) < 2 ^ 31"
    by (auto simp: tcp_stream_def)
  have "length (get_read_buffer ?b0) + n < 2 ^ 62" using len(1) n(2) by simp
  from tb.prepare_law [OF r(2) this] n(1) obtain b where
    b: "prepare n False ?b0 = Some b" "buffer_inv b" "get_read_buffer b = get_read_buffer ?b0"
       "n \<le> free_size b" by (auto simp: returns_iff)
  have "0 < free_size b" using b(4) n(1) by simp
  from timed_read_ready [OF r(3,1) this len(2), of timeout] obtain c bs w' where
    t: "timed_read (fd tc) (free_size b) timeout w = (c, bs, w')" "polls_ready w'" "quiet w w'"
    and cs: "recv_stream (recv_q w) = [] \<and> c \<le> 0 \<or>
       c = int (length bs) \<and> bs \<noteq> [] \<and> length bs \<le> free_size b
       \<and> recv_stream (recv_q w) = bs @ recv_stream (recv_q w') \<and> calm w w'" by blast
  from cs show ?thesis
  proof (elim disjE conjE)
    assume "recv_stream (recv_q w) = []" "c \<le> 0"
    with b(1) t show ?thesis by (intro exhausted)
  next
    assume c: "c = int (length bs)" "bs \<noteq> []" "length bs \<le> free_size b"
      and st: "recv_stream (recv_q w) = bs @ recv_stream (recv_q w')" "calm w w'"
    from tb.fill_law [OF b(2) c(3)] b(3) obtain b' where
      b': "produce (length bs) (store_to_read bs b) = Some b'" "buffer_inv b'"
        "get_read_buffer b' = get_read_buffer ?b0 @ bs" by (auto simp: returns_iff fill_buffer_def)
    have "tcp_ready (tc\<lparr>tbuf := b'\<rparr>) w'"
      using r t(2) b'(2,3) st by (simp add: tcp_ready_def tcp_inv_def tcp_stream_def)
    moreover have "recv_weight (recv_q w') < recv_weight (recv_q w)"
      using timed_read_progress [OF t(1)] c by simp
    ultimately show ?thesis using b(1) t c b' st by (intro refilled) auto
  qed
qed

lemma default_room: "0 < kDefaultBufferSize" "kDefaultBufferSize \<le> 2 ^ 61"
  by simp_all

lemma consume_stream:
  assumes ready: "tcp_ready tc w" and n: "0 < n" "n \<le> length (get_read_buffer (tbuf tc))"
  obtains x b where "consume n (tbuf tc) = Some (x, b)" "tcp_ready (tc\<lparr>tbuf := b\<rparr>) w"
    "tcp_stream (tc\<lparr>tbuf := b\<rparr>) w = drop n (tcp_stream tc w)"
proof -
  have inv: "buffer_inv (tbuf tc)" using ready by (simp add: tcp_ready_def tcp_inv_def)
  from tb.consume_law [OF inv n] obtain x b where
    b: "consume n (tbuf tc) = Some (x, b)" "buffer_inv b"
      "get_read_buffer b = drop n (get_read_buffer (tbuf tc))" by (auto simp: returns_iff)
  have st: "tcp_stream (tc\<lparr>tbuf := b\<rparr>) w = drop n (tcp_stream tc w)"
    using n(2) by (simp add: tcp_stream_def b(3))
  moreover have "tcp_ready (tc\<lparr>tbuf := b\<rparr>) w"
    using ready b(2) st by (auto simp: tcp_ready_def tcp_inv_def)
  ultimately show ?thesis using b(1) that by blast
qed

section \<open>read_line\<close>

lemma search_hit:
  assumes first: "first_line d (data @ xs) line rest"
    and old: "\<And>i. i < off \<Longrightarrow> \<not> match_at d (data @ xs) i"
    and found: "search_delim d data off = (Some p, off')"
  shows "p = length line \<and> take (length line) data = line \<and> p + length d \<le> length data"
proof -
  note p = search_delim_Some [OF found]
  have hit: "match_at d (data @ xs) (length line)" using first by (rule first_line_match)
  have "match_at d (data @ xs) p" using p by (simp add: match_at_prefix)
  then have "length line \<le> p" using first by (auto simp: first_line_def not_less)
  moreover have "\<not> length line < p"
  proof
    assume lt: "length line < p"
    then have "match_at d data (length line)" using hit p by (simp add: match_at_prefix)
    with lt p have "length line < off" by (metis not_less)
    with old hit show False by blast
  qed
  ultimately have pl: "p = length line" by simp
  have "take p (data @ xs) = line" using first by (simp add: first_line_def pl)
  with p pl show ?thesis by simp
qed

lemma search_miss:
  assumes old: "\<And>i. i < off \<Longrightarrow> \<not> match_at d (data @ xs) i"
    and miss: "(if length d \<le> length data then search_delim d data off else (None, off)) = (None, off')"
  shows "length data < off' + length d \<and> (\<forall>i < off'. \<not> match_at d (data @ xs) i)"
proof (cases "length d \<le> length data")
  case True
  with miss have "search_delim d data off = (None, off')" by simp
  from search_delim_None [OF this] old show ?thesis
    by (metis match_at_prefix not_less)
next
  case False
  with miss old show ?thesis by auto
qed

lemma search_miss_more:
  assumes first: "first_line d (data @ xs) line rest" and short: "length data < off' + length d"
    and miss: "\<forall>i < off'. \<not> match_at d (data @ xs) i"
  shows "xs \<noteq> []"
proof -
  have "off' \<le> length line" using first_line_match [OF first] miss by (meson not_less)
  moreover have "length line + length d \<le> length (data @ xs)"
    using first by (simp add: first_line_def)
  ultimately show ?thesis using short by auto
qed

lemma read_line_loop_ok:
  assumes "tcp_ready tc w" and "first_line d (tcp_stream tc w) line rest" and "d \<noteq> []"
    and "\<And>i. i < off \<Longrightarrow> \<not> match_at d (tcp_stream tc w) i"
  shows "returns (read_line_loop d timeout off tc w)
    (\<lambda>((l, ec), tc', w'). l = line \<and> ec = 0 \<and> tcp_ready tc' w' \<and> tcp_stream tc' w' = rest
       \<and> fd tc' = fd tc \<and> last_check_open_time tc' = last_check_open_time tc \<and> calm w w')"
  using assms
proof (induction "recv_weight (recv_q w)" arbitrary: tc w off rule: less_induct)
  case less
  let ?data = "get_read_buffer (tbuf tc)" and ?xs = "recv_stream (recv_q w)"
  have inv: "buffer_inv (tbuf tc)" using less.prems(1) by (simp add: tcp_ready_def tcp_inv_def)
  note rs = length_get_read_buffer [OF inv, symmetric]
  note first = less.prems(2) [unfolded tcp_stream_def]
    and old = less.prems(4) [unfolded tcp_stream_def]
  obtain res off' where sr: "(if length d \<le> length ?data then search_delim d ?data off
      else (None, off)) = (res, off')" by fastforce
  show ?case
  proof (cases res)
    case (Some p)
    with sr have "search_delim d ?data off = (Some p, off')" by (auto split: if_splits)
    note p = search_hit [OF first old this]
    have "0 < p + length d" "p + length d \<le> length ?data" using p less.prems(3) by auto
    from consume_stream [OF less.prems(1) this] obtain x b where
      b: "consume (p + length d) (tbuf tc) = Some (x, b)" "tcp_ready (tc\<lparr>tbuf := b\<rparr>) w"
        "tcp_stream (tc\<lparr>tbuf := b\<rparr>) w = drop (p + length d) (tcp_stream tc w)" by blast
    have "tcp_stream (tc\<lparr>tbuf := b\<rparr>) w = rest"
      using less.prems(2) p by (simp add: b(3) first_line_def)
    then show ?thesis
      using sr Some b p by (simp add: read_line_loop.simps [of d timeout off tc w] rs)
  next
    case None
    note miss = search_miss [OF old sr [unfolded None]]
    with search_miss_more [OF first] have more: "?xs \<noteq> []" by blast
    from less.prems(1) default_room show ?thesis
    proof (cases rule: refill [where n = kDefaultBufferSize and timeout = timeout])
      case (refilled b bs w' b')
      have same: "tcp_stream (tc\<lparr>tbuf := b'\<rparr>) w' = tcp_stream tc w"
        using refilled by (simp add: tcp_stream_def)
      have "returns (read_line_loop d timeout off' (tc\<lparr>tbuf := b'\<rparr>) w')
        (\<lambda>((l, ec), tc', w''). l = line \<and> ec = 0 \<and> tcp_ready tc' w'' \<and> tcp_stream tc' w'' = rest
           \<and> fd tc' = fd (tc\<lparr>tbuf := b'\<rparr>)
           \<and> last_check_open_time tc' = last_check_open_time (tc\<lparr>tbuf := b'\<rparr>) \<and> calm w' w'')"
        using less.prems refilled miss same by (intro less.hyps) (auto simp: tcp_stream_def)
      then have "returns (read_line_loop d timeout off' (tc\<lparr>tbuf := b'\<rparr>) w')
        (\<lambda>((l, ec), tc', w''). l = line \<and> ec = 0 \<and> tcp_ready tc' w'' \<and> tcp_stream tc' w'' = rest
           \<and> fd tc' = fd tc \<and> last_check_open_time tc' = last_check_open_time tc \<and> calm w w'')"
        using refilled(8) by (auto elim!: returns_mono intro: calm_trans)
      then show ?thesis
        using sr None refilled(1-4) by (simp add: read_line_loop.simps [of d timeout off tc w] rs)
    qed (use more in simp)
  qed
qed

text \<open>If the delimiter never arrives the loop still ends: the client is closed and the line is
  empty.\<close>

lemma read_line_loop_fails:
  assumes "tcp_ready tc w" and "\<And>i. \<not> match_at d (tcp_stream tc w) i"
  shows "returns (read_line_loop d timeout off tc w)
    (\<lambda>((l, ec), tc', w'). l = [] \<and> fd tc' = - 1 \<and> tcp_inv tc' \<and> quiet w w')"
  using assms
proof (induction "recv_weight (recv_q w)" arbitrary: tc w off rule: less_induct)
  case less
  let ?data = "get_read_buffer (tbuf tc)"
  have inv: "buffer_inv (tbuf tc)" using less.prems(1) by (simp add: tcp_ready_def tcp_inv_def)
  note rs = length_get_read_buffer [OF inv, symmetric]
  obtain res off' where sr: "(if length d \<le> length ?data then search_delim d ?data off
      else (None, off)) = (res, off')" by fastforce
  have "res = None"
  proof (cases res)
    case (Some p)
    with sr have "search_delim d ?data off = (Some p, off')" by (auto split: if_splits)
    from search_delim_Some [OF this] have "match_at d (tcp_stream tc w) p"
      by (simp add: tcp_stream_def match_at_prefix)
    with less.prems(2) show ?thesis by blast
  qed
  note sr = sr [unfolded this]
  from less.prems(1) default_room show ?case
  proof (cases rule: refill [where n = kDefaultBufferSize and timeout = timeout])
    case (exhausted b c bs w')
    obtain tc' w'' where cl: "TcpClient_close (tc\<lparr>tbuf := b\<rparr>) w' = (tc', w'')" by force
    with TcpClient_close_closed [OF cl] TcpClient_close_quiet [OF cl] exhausted sr show ?thesis
      by (auto simp: read_line_loop.simps [of d timeout off tc w] rs intro: quiet_trans)
  next
    case (refilled b bs w' b')
    have same: "tcp_stream (tc\<lparr>tbuf := b'\<rparr>) w' = tcp_stream tc w"
      using refilled by (simp add: tcp_stream_def)
    have "returns (read_line_loop d timeout off' (tc\<lparr>tbuf := b'\<rparr>) w')
        (\<lambda>((l, ec), tc', w''). l = [] \<and> fd tc' = - 1 \<and> tcp_inv tc' \<and> quiet w' w'')"
      using less.prems refilled same by (intro less.hyps) auto
    then have "returns (read_line_loop d timeout off' (tc\<lparr>tbuf := b'\<rparr>) w')
        (\<lambda>((l, ec), tc', w''). l = [] \<and> fd tc' = - 1 \<and> tcp_inv tc' \<and> quiet w w'')"
      using calm_quiet [OF refilled(8)] by (auto elim!: returns_mono intro: quiet_trans)
    then show ?thesis
      using sr refilled(1-4) by (simp add: read_line_loop.simps [of d timeout off tc w] rs)
  qed
qed

section \<open>read\<close>

lemma read_loop_ok:
  assumes "tcp_ready tc w" and "expect \<le> length (tcp_stream tc w)" and "0 < expect"
    and "to_read = size_sub expect (read_size (tbuf tc))"
  shows "returns (read_loop expect dsz timeout to_read tc w)
    (\<lambda>((l, ec), tc', w'). l = take (expect - dsz) (tcp_stream tc w) \<and> ec = 0 \<and> tcp_ready tc' w'
       \<and> tcp_stream tc' w' = drop expect (tcp_stream tc w) \<and> fd tc' = fd tc \<and> last_check_open_time tc' = last_check_open_time tc \<and> calm w w')"
  using assms
proof (induction "recv_weight (recv_q w)" arbitrary: tc w to_read rule: less_induct)
  case less
  let ?data = "get_read_buffer (tbuf tc)"
  have inv: "buffer_inv (tbuf tc)" using less.prems(1) by (simp add: tcp_ready_def tcp_inv_def)
  note rs = length_get_read_buffer [OF inv, symmetric]
  have small: "length (tcp_stream tc w) < 2 ^ 31" using less.prems(1) by (simp add: tcp_ready_def)
  show ?case
  proof (cases "expect \<le> length ?data")
    case True
    from consume_stream [OF less.prems(1,3) True] obtain x b where
      b: "consume expect (tbuf tc) = Some (x, b)" "tcp_ready (tc\<lparr>tbuf := b\<rparr>) w"
        "tcp_stream (tc\<lparr>tbuf := b\<rparr>) w = drop expect (tcp_stream tc w)" by blast
    with True show ?thesis
      by (simp add: read_loop.simps [of expect dsz timeout to_read tc w] rs tcp_stream_def)
  next
    case False
    have to_read: "to_read = expect - length ?data" "0 < to_read" "to_read \<le> 2 ^ 61"
      using less.prems(2,4) False small by (auto simp: rs)
    have more: "recv_stream (recv_q w) \<noteq> []"
      using less.prems(2) False by (auto simp: tcp_stream_def)
    from less.prems(1) to_read(2,3) show ?thesis
    proof (cases rule: refill [where n = to_read and timeout = timeout])
      case (refilled b bs w' b')
      have same: "tcp_stream (tc\<lparr>tbuf := b'\<rparr>) w' = tcp_stream tc w"
        using refilled by (simp add: tcp_stream_def)
      have next_read: "size_sub to_read (length bs) = size_sub expect (read_size (tbuf (tc\<lparr>tbuf := b'\<rparr>)))"
      proof -
        have "buffer_inv b'" using refilled(5) by (simp add: tcp_ready_def tcp_inv_def)
        from length_get_read_buffer [OF this] refilled(6) have r: "read_size b' = length ?data + length bs"
          by simp
        have "int to_read - int (length bs) = int expect - int (read_size b')"
          using to_read(1) False by (simp add: r)
        then show ?thesis by (simp add: size_sub_def)
      qed
      have "returns (read_loop expect dsz timeout (size_sub to_read (length bs)) (tc\<lparr>tbuf := b'\<rparr>) w')
        (\<lambda>((l, ec), tc', w''). l = take (expect - dsz) (tcp_stream tc w) \<and> ec = 0 \<and> tcp_ready tc' w''
         \<and> tcp_stream tc' w'' = drop expect (tcp_stream tc w) \<and> fd tc' = fd (tc\<lparr>tbuf := b'\<rparr>)
           \<and> last_check_open_time tc' = last_check_open_time (tc\<lparr>tbuf := b'\<rparr>) \<and> calm w' w'')"
        using less.prems refilled same next_read less.hyps [of w' "tc\<lparr>tbuf := b'\<rparr>"] by simp
      then have "returns (read_loop expect dsz timeout (size_sub to_read (length bs)) (tc\<lparr>tbuf := b'\<rparr>) w')
        (\<lambda>((l, ec), tc', w''). l = take (expect - dsz) (tcp_stream tc w) \<and> ec = 0 \<and> tcp_ready tc' w''
         \<and> tcp_stream tc' w'' = drop expect (tcp_stream tc w) \<and> fd tc' = fd tc \<and> last_check_open_time tc' = last_check_open_time tc \<and> calm w w'')"
        using refilled(8) by (auto elim!: returns_mono intro: calm_trans)
      then show ?thesis
        using False refilled(1-4) by (simp add: read_loop.simps [of expect dsz timeout to_read tc w] rs)
    qed (use more in simp)
  qed
qed

section \<open>The interface of the connection to the protocol\<close>

text \<open>
  What the protocol relies on.  \<open>stream\<close> is the specification state; \<open>read_line\<close> cuts the
  first line off it, \<open>read_block n\<close> cuts \<open>n\<close> bytes and a line end.
\<close>

locale framed_source =
  fixes ready :: "'s \<Rightarrow> bool"
    and stream :: "'s \<Rightarrow> string"
    and frame :: "'s \<Rightarrow> 's \<Rightarrow> bool"
    and delim :: string
    and read_line :: "'s \<Rightarrow> ((string \<times> int) \<times> 's) option"
    and read_block :: "nat \<Rightarrow> 's \<Rightarrow> ((string \<times> int) \<times> 's) option"
  assumes frame_trans: "frame s s' \<Longrightarrow> frame s' s'' \<Longrightarrow> frame s s''"
    and read_line_law: "ready s \<Longrightarrow> first_line delim (stream s) line rest \<Longrightarrow>
      returns (read_line s)
        (\<lambda>((l, ec), s'). l = line \<and> ec = 0 \<and> ready s' \<and> stream s' = rest \<and> frame s s')"
    and read_block_law: "ready s \<Longrightarrow> stream s = block @ e @ rest \<Longrightarrow> length e = length delim \<Longrightarrow>
      returns (read_block (length block) s)
        (\<lambda>((l, ec), s'). l = block \<and> ec = 0 \<and> ready s' \<and> stream s' = rest \<and> frame s s')"
begin

lemma header_then_block:
  assumes "ready s" "first_line delim (stream s) header (block @ delim @ rest)"
  shows "returns (do { ((h, ec), s) \<leftarrow> read_line s; ((b, ec'), s) \<leftarrow> read_block (length block) s;
      Some ((h, b, ec, ec'), s) })
    (\<lambda>((h, b, ec, ec'), s'). h = header \<and> b = block \<and> ec = 0 \<and> ec' = 0 \<and> ready s'
       \<and> stream s' = rest \<and> frame s s')"
proof -
  obtain s1 where 1: "read_line s = Some ((header, 0), s1)" "ready s1"
    "stream s1 = block @ delim @ rest" "frame s s1"
    using read_line_law [OF assms] by (auto simp: returns_iff)
  then obtain s2 where 2: "read_block (length block) s1 = Some ((block, 0), s2)" "ready s2"
    "stream s2 = rest" "frame s1 s2"
    using read_block_law [OF 1(2,3)] by (auto simp: returns_iff)
  from 1 2 frame_trans show ?thesis by simp
qed

end

type_synonym conn = "TcpClient \<times> world"

definition conn_frame :: "conn \<Rightarrow> conn \<Rightarrow> bool" where
  "conn_frame s s' \<longleftrightarrow> fd (fst s') = fd (fst s)
     \<and> last_check_open_time (fst s') = last_check_open_time (fst s) \<and> calm (snd s) (snd s')"

interpretation tcp: framed_source
  "\<lambda>(tc, w). tcp_ready tc w" "\<lambda>(tc, w). tcp_stream tc w" conn_frame
  "[CHR 0x0D, CHR 0x0A]"
  "\<lambda>(tc, w). TcpClient_read_line [CHR 0x0D, CHR 0x0A] timeout tc w"
  "\<lambda>n (tc, w). TcpClient_read n [CHR 0x0D, CHR 0x0A] timeout tc w" for timeout
proof unfold_locales
  fix s s' s'' :: conn
  assume "conn_frame s s'" "conn_frame s' s''"
  then show "conn_frame s s''" by (auto simp: conn_frame_def intro: calm_trans)
next
  fix s :: conn and line rest
  assume a: "case s of (tc, w) \<Rightarrow> tcp_ready tc w"
    "first_line [CHR 0x0D, CHR 0x0A] (case s of (tc, w) \<Rightarrow> tcp_stream tc w) line rest"
  obtain tc w where s: "s = (tc, w)" by force
  have "returns (TcpClient_read_line [CHR 0x0D, CHR 0x0A] timeout tc w)
      (\<lambda>((l, ec), tc', w'). l = line \<and> ec = 0 \<and> tcp_ready tc' w' \<and> tcp_stream tc' w' = rest
         \<and> fd tc' = fd tc \<and> last_check_open_time tc' = last_check_open_time tc \<and> calm w w')"
    using a unfolding TcpClient_read_line_def by (intro read_line_loop_ok) (auto simp: s)
  then show "returns (case s of (tc, w) \<Rightarrow> TcpClient_read_line [CHR 0x0D, CHR 0x0A] timeout tc w)
      (\<lambda>((l, ec), s'). l = line \<and> ec = 0 \<and> (case s' of (tc, w) \<Rightarrow> tcp_ready tc w)
         \<and> (case s' of (tc, w) \<Rightarrow> tcp_stream tc w) = rest \<and> conn_frame s s')"
    by (auto simp: s conn_frame_def elim!: returns_mono)
next
  fix s :: conn and block e rest :: string
  assume a: "case s of (tc, w) \<Rightarrow> tcp_ready tc w"
    "(case s of (tc, w) \<Rightarrow> tcp_stream tc w) = block @ e @ rest" "length e = length [CHR 0x0D, CHR 0x0A]"
  obtain tc w where s: "s = (tc, w)" by force
  have "length block + 2 < 2 ^ 31" using a by (auto simp: s tcp_ready_def)
  then have add: "size_add (length block) 2 = length block + 2" by simp
  have len: "length [CHR 0x0D, CHR 0x0A] = 2" by simp
  have "returns (read_loop (length block + 2) 2 timeout
        (size_sub (length block + 2) (read_size (tbuf tc))) tc w)
      (\<lambda>((l, ec), tc', w'). l = take (length block + 2 - 2) (tcp_stream tc w) \<and> ec = 0
         \<and> tcp_ready tc' w' \<and> tcp_stream tc' w' = drop (length block + 2) (tcp_stream tc w)
         \<and> fd tc' = fd tc \<and> last_check_open_time tc' = last_check_open_time tc \<and> calm w w')"
    using a by (intro read_loop_ok) (auto simp: s)
  moreover have "TcpClient_read (length block) [CHR 0x0D, CHR 0x0A] timeout tc w
      = read_loop (length block + 2) 2 timeout (size_sub (length block + 2) (read_size (tbuf tc))) tc w"
    by (simp only: TcpClient_read_def Let_def len add)
  ultimately have "returns (TcpClient_read (length block) [CHR 0x0D, CHR 0x0A] timeout tc w)
      (\<lambda>((l, ec), tc', w'). l = block \<and> ec = 0 \<and> tcp_ready tc' w' \<and> tcp_stream tc' w' = rest
         \<and> fd tc' = fd tc \<and> last_check_open_time tc' = last_check_open_time tc \<and> calm w w')"
    using a by (simp add: s)
  then show "returns (case s of (tc, w) \<Rightarrow> TcpClient_read (length block) [CHR 0x0D, CHR 0x0A] timeout tc w)
      (\<lambda>((l, ec), s'). l = block \<and> ec = 0 \<and> (case s' of (tc, w) \<Rightarrow> tcp_ready tc w)
         \<and> (case s' of (tc, w) \<Rightarrow> tcp_stream tc w) = rest \<and> conn_frame s s')"
    using a by (auto simp: s conn_frame_def elim!: returns_mono)
qed

end
