(* ===== verification/Tcp_Progress.thy ===== *)
theory Tcp_Progress
  imports Tcp_Stream
begin

text \<open>
  What the reading operations of \<open>TcpClient\<close> do in every world, errors included: the buffer
  invariant survives, and the bytes handed out come off the bytes the connection can still
  deliver.  The protocol layer bounds the nesting of replies with it.
\<close>

definition tcp_avail :: "TcpClient \<Rightarrow> world \<Rightarrow> nat" where
  "tcp_avail tc w = length (get_read_buffer (tbuf tc)) + recv_weight (recv_q w)"

lemma prepare_keeps:
  assumes inv: "buffer_inv b"
  shows "whenever (prepare sz dr b) (\<lambda>b'. buffer_inv b' \<and> get_read_buffer b' = get_read_buffer b)"
proof (cases "sz = 0 \<or> (\<not> dr \<and> free_size b \<ge> sz)")
  case True
  with inv show ?thesis by (auto simp: prepare_def)
next
  case False
  from inv obtain k where k: "9 \<le> k" "k \<le> 62" "length (buffer b) = 2 ^ k"
    by (auto simp: buffer_inv_def)
  let ?m = "size_add (read_size b) sz"
  have len: "length (take (read_size b) (drop (read_ptr b) (buffer b))) = read_size b"
    using length_get_read_buffer [OF inv] by (simp add: get_read_buffer_def)
  show ?thesis
  proof (cases "?m < 2 ^ 63")
    case True
    from k(2) have "k \<le> 63" by simp
    from grow_stops [OF this True] obtain j where
      j: "k \<le> j" "j \<le> 63" "grow (2 ^ k) ?m = Some (2 ^ j)" by blast
    define b' where "b' = b\<lparr>buffer := take (read_size b) (drop (read_ptr b) (buffer b))
      @ replicate (2 ^ j - read_size b) (CHR 0x00), read_ptr := 0, to_read_ptr := read_size b\<rparr>"
    have p: "prepare sz dr b = (if (2::nat) ^ j < 2 ^ 63 then Some b' else None)"
      using False by (auto simp: prepare_def k(3) j(3) b'_def Let_def)
    have "(2::nat) ^ k \<le> 2 ^ j" using j(1) by (intro power_increasing) auto
    moreover have "read_size b \<le> 2 ^ k"
      using buffer_inv_bounds [OF inv] k(3) by (simp add: read_size_def)
    ultimately have rs: "read_size b \<le> 2 ^ j" by (rule order_trans [rotated])
    then have lb: "length (buffer b') = 2 ^ j" using len by (simp add: b'_def)
    have "buffer_inv b'" if "(2::nat) ^ j < 2 ^ 63"
    proof -
      have "j \<le> 62" using pow_below [OF order_refl that] by simp
      then show ?thesis unfolding buffer_inv_def using k(1) j(1) lb rs by (auto simp: b'_def)
    qed
    moreover have "get_read_buffer b' = get_read_buffer b"
      using len by (simp add: b'_def get_read_buffer_def read_size_def)
    ultimately show ?thesis by (simp add: p)
  next
    case big: False
    with grow_diverges [of k ?m] k(2) False have "prepare sz dr b = None"
      by (simp add: prepare_def k(3) Let_def)
    then show ?thesis by simp
  qed
qed

lemma produce_part_keeps:
  assumes inv: "buffer_inv b" and room: "length bs \<le> free_size b" and n: "n \<le> length bs"
  shows "whenever (produce n (store_to_read bs b))
    (\<lambda>b'. buffer_inv b' \<and> length (get_read_buffer b') = length (get_read_buffer b) + n)"
proof -
  have p: "read_ptr b \<le> to_read_ptr b" "to_read_ptr b \<le> length (buffer b)"
    using buffer_inv_bounds [OF inv] by auto
  define b' where "b' = (store_to_read bs b)\<lparr>to_read_ptr := to_read_ptr b + n\<rparr>"
  have lb: "length (buffer (store_to_read bs b)) = length (buffer b)"
    using room p by (simp add: store_to_read_def free_size_def)
  have "produce n (store_to_read bs b) = Some b'"
    using room n lb by (cases "n = 0")
      (auto simp: produce_def b'_def free_size_def store_to_read_def)
  moreover have i': "buffer_inv b'"
    using inv lb room n p by (auto simp: buffer_inv_def b'_def free_size_def store_to_read_def)
  moreover have "length (get_read_buffer b') = length (get_read_buffer b) + n"
    using length_get_read_buffer [OF i'] length_get_read_buffer [OF inv] p
    by (simp add: b'_def read_size_def store_to_read_def)
  ultimately show ?thesis by simp
qed

lemma timed_read_weight:
  assumes "timed_read f len timeout w = (c, bs, w')"
  shows "recv_weight (recv_q w') \<le> recv_weight (recv_q w)
    \<and> (0 < c \<longrightarrow> nat c \<le> length bs \<and> length bs \<le> len
        \<and> nat c + recv_weight (recv_q w') \<le> recv_weight (recv_q w))"
proof -
  obtain p w1 where p: "poll_read timeout w = (p, w1)" by force
  obtain n bs1 w2 where r: "sys_recv f len w1 = (n, bs1, w2)" by (cases "sys_recv f len w1")
  have q: "recv_q w1 = recv_q w" using poll_read_recv_q [OF p] by simp
  have wt: "length bs1 + recv_weight (recv_q w2) \<le> recv_weight (recv_q w1)"
    using r by (auto simp: sys_recv_def split: list.splits recv_ret.splits if_splits)
  have le: "int32 i \<le> i" if "0 \<le> i" for i
  proof -
    have "(i + 2 ^ 31) mod 2 ^ 32 \<le> i + 2 ^ 31" using that by (intro zmod_le_nonneg_dividend) auto
    then show ?thesis by (simp add: int32_def)
  qed
  show ?thesis
  proof (cases "p = 1")
    case True
    with assms p r have eq: "c = int32 n" "bs = bs1" "w' = w2" by (auto simp: timed_read_def)
    from sys_recv_count [OF r] have "0 < c \<longrightarrow> nat c \<le> length bs \<and> length bs \<le> len"
      using le [of n] eq by (auto simp: int32_def)
    with wt eq q show ?thesis by auto
  next
    case False
    with assms p q show ?thesis by (auto simp: timed_read_def)
  qed
qed

lemma consume_keeps:
  assumes "buffer_inv b" "n \<le> length (get_read_buffer b)"
  shows "whenever (consume n b)
    (\<lambda>(s, b'). buffer_inv b' \<and> length (get_read_buffer b') + n = length (get_read_buffer b))"
proof (cases "n = 0")
  case True
  then show ?thesis by (simp add: consume_def)
next
  case False
  then have "0 < n" by simp
  from returns_whenever [OF consume_ok [OF assms(1) this assms(2)]] assms(2) show ?thesis
    by (auto elim!: whenever_mono)
qed

lemma retry_close_recv_q: "recv_q (snd (retry_close w)) = recv_q w"
proof (induction w rule: retry_close.induct)
  case (1 w)
  obtain r w1 where s: "sys_close w = (r, w1)" by force
  then have q: "recv_q w1 = recv_q w"
    by (auto simp: sys_close_def split: list.splits sys_ret.splits)
  with "1.IH" s show ?case
    by (cases "r = - 1 \<and> errno w1 = EINTR") (auto simp: retry_close.simps [of w])
qed

lemma TcpClient_close_avail:
  "TcpClient_close tc w = (tc', w') \<Longrightarrow> tcp_inv tc' \<and> tcp_avail tc' w' \<le> tcp_avail tc w
     \<and> tcp_avail tc' w' = recv_weight (recv_q w)"
  using TcpClient_close_closed [of tc w tc' w'] retry_close_recv_q [of w]
  by (auto simp: TcpClient_close_def tcp_avail_def safe_close_def Let_def)

text \<open>One turn of either loop.\<close>

lemma refill_keeps:
  assumes inv: "tcp_inv tc" and b: "prepare n False (tbuf tc) = Some b"
    and t: "timed_read (fd tc) (free_size b) timeout w = (c, bs, w')"
  shows "tcp_inv (tc\<lparr>tbuf := b\<rparr>)" "tcp_avail (tc\<lparr>tbuf := b\<rparr>) w' \<le> tcp_avail tc w"
    "0 < c \<Longrightarrow> produce (nat c) (store_to_read bs b) = Some b' \<Longrightarrow>
       tcp_inv (tc\<lparr>tbuf := b'\<rparr>) \<and> tcp_avail (tc\<lparr>tbuf := b'\<rparr>) w' \<le> tcp_avail tc w"
proof -
  have b': "buffer_inv b" "get_read_buffer b = get_read_buffer (tbuf tc)"
    using prepare_keeps [of "tbuf tc" n False] inv b by (auto simp: tcp_inv_def)
  then show "tcp_inv (tc\<lparr>tbuf := b\<rparr>)" "tcp_avail (tc\<lparr>tbuf := b\<rparr>) w' \<le> tcp_avail tc w"
    using timed_read_weight [OF t] by (auto simp: tcp_inv_def tcp_avail_def)
  assume c: "0 < c" and pr: "produce (nat c) (store_to_read bs b) = Some b'"
  with timed_read_weight [OF t] have n: "nat c \<le> length bs" "length bs \<le> free_size b"
    "nat c + recv_weight (recv_q w') \<le> recv_weight (recv_q w)" by auto
  from produce_part_keeps [OF b'(1) n(2,1)] pr n(3) b'(2)
  show "tcp_inv (tc\<lparr>tbuf := b'\<rparr>) \<and> tcp_avail (tc\<lparr>tbuf := b'\<rparr>) w' \<le> tcp_avail tc w"
    by (simp add: tcp_inv_def tcp_avail_def)
qed

text \<open>The result of a reading operation that started at \<open>tc\<close>, \<open>w\<close>.\<close>

definition keeps :: "TcpClient \<Rightarrow> world \<Rightarrow> (string \<times> int) \<times> TcpClient \<times> world \<Rightarrow> bool" where
  "keeps tc w = (\<lambda>((l, ec), tc', w'). tcp_inv tc' \<and> tcp_avail tc' w' + length l \<le> tcp_avail tc w)"

lemma keeps_mono:
  "keeps tc' w' r \<Longrightarrow> tcp_avail tc' w' \<le> tcp_avail tc w \<Longrightarrow> keeps tc w r"
  by (auto simp: keeps_def split: prod.splits)

lemma close_keeps:
  assumes "tcp_avail tc' w' \<le> tcp_avail tc w"
  shows "keeps tc w (let (tc'', w'') = TcpClient_close tc' w' in (([], errno w''), tc'', w''))"
proof -
  obtain tc'' w'' where "TcpClient_close tc' w' = (tc'', w'')" by force
  with TcpClient_close_avail [OF this] assms show ?thesis by (simp add: keeps_def)
qed

lemma cut_keeps:
  assumes "tcp_inv tc" "n \<le> length (get_read_buffer (tbuf tc))" "m \<le> n"
    "consume n (tbuf tc) = Some (x, b)"
  shows "keeps tc w ((take m (get_read_buffer (tbuf tc)), ec), tc\<lparr>tbuf := b\<rparr>, w)"
  using consume_keeps [of "tbuf tc" n] assms
  by (auto simp: keeps_def tcp_inv_def tcp_avail_def)


lemma read_line_loop_keeps:
  "tcp_inv tc \<Longrightarrow> whenever (read_line_loop d timeout off tc w) (keeps tc w)"
proof (induction "recv_weight (recv_q w)" arbitrary: tc w off rule: less_induct)
  case less
  let ?data = "get_read_buffer (tbuf tc)"
  have inv: "buffer_inv (tbuf tc)" using less.prems by (simp add: tcp_inv_def)
  note rs = length_get_read_buffer [OF inv, symmetric]
  obtain res off' where sr: "(if length d \<le> length ?data then search_delim d ?data off
      else (None, off)) = (res, off')" by fastforce
  show ?case
  proof (cases res)
    case (Some p)
    with sr have "search_delim d ?data off = (Some p, off')" by (auto split: if_splits)
    from search_delim_Some [OF this] have "p + length d \<le> length ?data" by simp
    with cut_keeps [OF less.prems this, of p] sr Some show ?thesis
      by (simp add: read_line_loop.simps [of d timeout off tc w] rs whenever_bind Let_def)
        (auto simp: whenever_iff)
  next
    case None
    show ?thesis
    proof (cases "prepare kDefaultBufferSize False (tbuf tc)")
      case (Some b)
      obtain c bs w' where t: "timed_read (fd tc) (free_size b) timeout w = (c, bs, w')"
        by (cases "timed_read (fd tc) (free_size b) timeout w")
      note k = refill_keeps [OF less.prems Some t]
      have "whenever (read_line_loop d timeout off' (tc\<lparr>tbuf := b'\<rparr>) w') (keeps tc w)"
        if "0 < c" "produce (nat c) (store_to_read bs b) = Some b'" for b'
        using less.hyps [OF timed_read_progress [OF t that(1)]] k(3) [OF that]
        by (meson whenever_mono keeps_mono)
      with sr None Some t close_keeps [OF k(2)] show ?thesis
        by (simp add: read_line_loop.simps [of d timeout off tc w] rs whenever_bind)
          (auto simp: whenever_iff Let_def split: prod.splits)
    qed (use sr None in \<open>simp add: read_line_loop.simps [of d timeout off tc w] rs\<close>)
  qed
qed

lemma read_loop_keeps:
  "tcp_inv tc \<Longrightarrow> whenever (read_loop expect dsz timeout to_read tc w) (keeps tc w)"
proof (induction "recv_weight (recv_q w)" arbitrary: tc w to_read rule: less_induct)
  case less
  let ?data = "get_read_buffer (tbuf tc)"
  have inv: "buffer_inv (tbuf tc)" using less.prems by (simp add: tcp_inv_def)
  note rs = length_get_read_buffer [OF inv, symmetric]
  show ?case
  proof (cases "expect \<le> length ?data")
    case True
    with cut_keeps [OF less.prems True, of "expect - dsz"] show ?thesis
      by (simp add: read_loop.simps [of expect dsz timeout to_read tc w] rs whenever_bind Let_def)
        (auto simp: whenever_iff)
  next
    case False
    show ?thesis
    proof (cases "prepare to_read False (tbuf tc)")
      case (Some b)
      obtain c bs w' where t: "timed_read (fd tc) (free_size b) timeout w = (c, bs, w')"
        by (cases "timed_read (fd tc) (free_size b) timeout w")
      note k = refill_keeps [OF less.prems Some t]
      have "whenever (read_loop expect dsz timeout r (tc\<lparr>tbuf := b'\<rparr>) w') (keeps tc w)"
        if "0 < c" "produce (nat c) (store_to_read bs b) = Some b'" for b' r
        using less.hyps [OF timed_read_progress [OF t that(1)]] k(3) [OF that]
        by (meson whenever_mono keeps_mono)
      with False Some t close_keeps [OF k(2)] show ?thesis
        by (simp add: read_loop.simps [of expect dsz timeout to_read tc w] rs whenever_bind)
          (auto simp: whenever_iff Let_def split: prod.splits)
    qed (use False in \<open>simp add: read_loop.simps [of expect dsz timeout to_read tc w] rs\<close>)
  qed
qed

end
