(* ===== verification/Redis_Cmd.thy ===== *)
theory Redis_Cmd
  imports Prelude "HOL-Library.List_Lexorder"
begin

text \<open>
  Commands and replies: \<open>src/src/redis_cmd.h\<close> and \<open>src/src/redis_cmd.cpp\<close>.

  \<^item> \<open>kCommand\<close> is the C++ enumeration, a value with an ordinal; \<open>s_command_map\<close> is indexed by
    it.  \<open>TYPE\<close> is a reserved word here and spelt \<open>TYPE_CMD\<close>.
  \<^item> \<open>RedisOutput\<close> is a tag and a pointer of a union.  The pointer is a value that also says
    which member it is, so that "the member in use is the one the tag says" can be stated
    (\<open>output_wf\<close> of the theory \<open>Output_Types\<close>) and shown to be kept by every setter.
  \<^item> Vectors of owned pointers are lists of values: \<open>mbulk\<close> is \<open>mbulk_t\<close> (\<open>None\<close> is a nil
    object), a list of \<open>RedisOutput\<close> is \<open>smbulk_t\<close>.  Destructors are not modelled.
\<close>

section \<open>Commands\<close>

datatype kCommand = kCommand (cmd_ord: nat)

abbreviation (input) NOOP :: kCommand where "NOOP \<equiv> kCommand 0"
abbreviation (input) APPEND :: kCommand where "APPEND \<equiv> kCommand 1"
abbreviation (input) AUTH :: kCommand where "AUTH \<equiv> kCommand 2"
abbreviation (input) BGREWRITEAOF :: kCommand where "BGREWRITEAOF \<equiv> kCommand 3"
abbreviation (input) BGSAVE :: kCommand where "BGSAVE \<equiv> kCommand 4"
abbreviation (input) BITCOUNT :: kCommand where "BITCOUNT \<equiv> kCommand 5"
abbreviation (input) BITOP :: kCommand where "BITOP \<equiv> kCommand 6"
abbreviation (input) BLPOP :: kCommand where "BLPOP \<equiv> kCommand 7"
abbreviation (input) BRPOP :: kCommand where "BRPOP \<equiv> kCommand 8"
abbreviation (input) BRPOPLPUSH :: kCommand where "BRPOPLPUSH \<equiv> kCommand 9"
abbreviation (input) CONFIG :: kCommand where "CONFIG \<equiv> kCommand 10"
abbreviation (input) DBSIZE :: kCommand where "DBSIZE \<equiv> kCommand 11"
abbreviation (input) DEBUG :: kCommand where "DEBUG \<equiv> kCommand 12"
abbreviation (input) DECR :: kCommand where "DECR \<equiv> kCommand 13"
abbreviation (input) DECRBY :: kCommand where "DECRBY \<equiv> kCommand 14"
abbreviation (input) DEL :: kCommand where "DEL \<equiv> kCommand 15"
abbreviation (input) DISCARD :: kCommand where "DISCARD \<equiv> kCommand 16"
abbreviation (input) DUMP :: kCommand where "DUMP \<equiv> kCommand 17"
abbreviation (input) ECHO :: kCommand where "ECHO \<equiv> kCommand 18"
abbreviation (input) EVAL :: kCommand where "EVAL \<equiv> kCommand 19"
abbreviation (input) EVALSHA :: kCommand where "EVALSHA \<equiv> kCommand 20"
abbreviation (input) EXEC :: kCommand where "EXEC \<equiv> kCommand 21"
abbreviation (input) EXISTS :: kCommand where "EXISTS \<equiv> kCommand 22"
abbreviation (input) EXPIRE :: kCommand where "EXPIRE \<equiv> kCommand 23"
abbreviation (input) EXPIREAT :: kCommand where "EXPIREAT \<equiv> kCommand 24"
abbreviation (input) FLUSHALL :: kCommand where "FLUSHALL \<equiv> kCommand 25"
abbreviation (input) FLUSHDB :: kCommand where "FLUSHDB \<equiv> kCommand 26"
abbreviation (input) GET :: kCommand where "GET \<equiv> kCommand 27"
abbreviation (input) GETBIT :: kCommand where "GETBIT \<equiv> kCommand 28"
abbreviation (input) GETRANGE :: kCommand where "GETRANGE \<equiv> kCommand 29"
abbreviation (input) GETSET :: kCommand where "GETSET \<equiv> kCommand 30"
abbreviation (input) HDEL :: kCommand where "HDEL \<equiv> kCommand 31"
abbreviation (input) HEXISTS :: kCommand where "HEXISTS \<equiv> kCommand 32"
abbreviation (input) HGET :: kCommand where "HGET \<equiv> kCommand 33"
abbreviation (input) HGETALL :: kCommand where "HGETALL \<equiv> kCommand 34"
abbreviation (input) HINCRBY :: kCommand where "HINCRBY \<equiv> kCommand 35"
abbreviation (input) HINCRBYFLOAT :: kCommand where "HINCRBYFLOAT \<equiv> kCommand 36"
abbreviation (input) HKEYS :: kCommand where "HKEYS \<equiv> kCommand 37"
abbreviation (input) HLEN :: kCommand where "HLEN \<equiv> kCommand 38"
abbreviation (input) HMGET :: kCommand where "HMGET \<equiv> kCommand 39"
abbreviation (input) HMSET :: kCommand where "HMSET \<equiv> kCommand 40"
abbreviation (input) HSET :: kCommand where "HSET \<equiv> kCommand 41"
abbreviation (input) HSETNX :: kCommand where "HSETNX \<equiv> kCommand 42"
abbreviation (input) HVALS :: kCommand where "HVALS \<equiv> kCommand 43"
abbreviation (input) INCR :: kCommand where "INCR \<equiv> kCommand 44"
abbreviation (input) INCRBY :: kCommand where "INCRBY \<equiv> kCommand 45"
abbreviation (input) INCRBYFLOAT :: kCommand where "INCRBYFLOAT \<equiv> kCommand 46"
abbreviation (input) INFO :: kCommand where "INFO \<equiv> kCommand 47"
abbreviation (input) KEYS :: kCommand where "KEYS \<equiv> kCommand 48"
abbreviation (input) LASTSAVE :: kCommand where "LASTSAVE \<equiv> kCommand 49"
abbreviation (input) LINDEX :: kCommand where "LINDEX \<equiv> kCommand 50"
abbreviation (input) LINSERT :: kCommand where "LINSERT \<equiv> kCommand 51"
abbreviation (input) LLEN :: kCommand where "LLEN \<equiv> kCommand 52"
abbreviation (input) LPOP :: kCommand where "LPOP \<equiv> kCommand 53"
abbreviation (input) LPUSH :: kCommand where "LPUSH \<equiv> kCommand 54"
abbreviation (input) LPUSHX :: kCommand where "LPUSHX \<equiv> kCommand 55"
abbreviation (input) LRANGE :: kCommand where "LRANGE \<equiv> kCommand 56"
abbreviation (input) LREM :: kCommand where "LREM \<equiv> kCommand 57"
abbreviation (input) LSET :: kCommand where "LSET \<equiv> kCommand 58"
abbreviation (input) LTRIM :: kCommand where "LTRIM \<equiv> kCommand 59"
abbreviation (input) MGET :: kCommand where "MGET \<equiv> kCommand 60"
abbreviation (input) MIGRATE :: kCommand where "MIGRATE \<equiv> kCommand 61"
abbreviation (input) MONITOR :: kCommand where "MONITOR \<equiv> kCommand 62"
abbreviation (input) MOVE :: kCommand where "MOVE \<equiv> kCommand 63"
abbreviation (input) MSET :: kCommand where "MSET \<equiv> kCommand 64"
abbreviation (input) MSETNX :: kCommand where "MSETNX \<equiv> kCommand 65"
abbreviation (input) MULTI :: kCommand where "MULTI \<equiv> kCommand 66"
abbreviation (input) OBJECT :: kCommand where "OBJECT \<equiv> kCommand 67"
abbreviation (input) PERSIST :: kCommand where "PERSIST \<equiv> kCommand 68"
abbreviation (input) PEXPIRE :: kCommand where "PEXPIRE \<equiv> kCommand 69"
abbreviation (input) PEXPIREAT :: kCommand where "PEXPIREAT \<equiv> kCommand 70"
abbreviation (input) PING :: kCommand where "PING \<equiv> kCommand 71"
abbreviation (input) PSETEX :: kCommand where "PSETEX \<equiv> kCommand 72"
abbreviation (input) PSUBSCRIBE :: kCommand where "PSUBSCRIBE \<equiv> kCommand 73"
abbreviation (input) PTTL :: kCommand where "PTTL \<equiv> kCommand 74"
abbreviation (input) PUBLISH :: kCommand where "PUBLISH \<equiv> kCommand 75"
abbreviation (input) PUNSUBSCRIBE :: kCommand where "PUNSUBSCRIBE \<equiv> kCommand 76"
abbreviation (input) QUIT :: kCommand where "QUIT \<equiv> kCommand 77"
abbreviation (input) RANDOMKEY :: kCommand where "RANDOMKEY \<equiv> kCommand 78"
abbreviation (input) RENAME :: kCommand where "RENAME \<equiv> kCommand 79"
abbreviation (input) RENAMENX :: kCommand where "RENAMENX \<equiv> kCommand 80"
abbreviation (input) RESTORE :: kCommand where "RESTORE \<equiv> kCommand 81"
abbreviation (input) RPOP :: kCommand where "RPOP \<equiv> kCommand 82"
abbreviation (input) RPOPLPUSH :: kCommand where "RPOPLPUSH \<equiv> kCommand 83"
abbreviation (input) RPUSH :: kCommand where "RPUSH \<equiv> kCommand 84"
abbreviation (input) RPUSHX :: kCommand where "RPUSHX \<equiv> kCommand 85"
abbreviation (input) SADD :: kCommand where "SADD \<equiv> kCommand 86"
abbreviation (input) SAVE :: kCommand where "SAVE \<equiv> kCommand 87"
abbreviation (input) SCARD :: kCommand where "SCARD \<equiv> kCommand 88"
abbreviation (input) SCRIPT :: kCommand where "SCRIPT \<equiv> kCommand 89"
abbreviation (input) SDIFF :: kCommand where "SDIFF \<equiv> kCommand 90"
abbreviation (input) SDIFFSTORE :: kCommand where "SDIFFSTORE \<equiv> kCommand 91"
abbreviation (input) SELECT :: kCommand where "SELECT \<equiv> kCommand 92"
abbreviation (input) SET :: kCommand where "SET \<equiv> kCommand 93"
abbreviation (input) SETBIT :: kCommand where "SETBIT \<equiv> kCommand 94"
abbreviation (input) SETEX :: kCommand where "SETEX \<equiv> kCommand 95"
abbreviation (input) SETNX :: kCommand where "SETNX \<equiv> kCommand 96"
abbreviation (input) SETRANGE :: kCommand where "SETRANGE \<equiv> kCommand 97"
abbreviation (input) SHUTDOWN :: kCommand where "SHUTDOWN \<equiv> kCommand 98"
abbreviation (input) SINTER :: kCommand where "SINTER \<equiv> kCommand 99"
abbreviation (input) SINTERSTORE :: kCommand where "SINTERSTORE \<equiv> kCommand 100"
abbreviation (input) SISMEMBER :: kCommand where "SISMEMBER \<equiv> kCommand 101"
abbreviation (input) SLAVEOF :: kCommand where "SLAVEOF \<equiv> kCommand 102"
abbreviation (input) SLOWLOG :: kCommand where "SLOWLOG \<equiv> kCommand 103"
abbreviation (input) SMEMBERS :: kCommand where "SMEMBERS \<equiv> kCommand 104"
abbreviation (input) SMOVE :: kCommand where "SMOVE \<equiv> kCommand 105"
abbreviation (input) SORT :: kCommand where "SORT \<equiv> kCommand 106"
abbreviation (input) SPOP :: kCommand where "SPOP \<equiv> kCommand 107"
abbreviation (input) SRANDMEMBER :: kCommand where "SRANDMEMBER \<equiv> kCommand 108"
abbreviation (input) SREM :: kCommand where "SREM \<equiv> kCommand 109"
abbreviation (input) STRLEN :: kCommand where "STRLEN \<equiv> kCommand 110"
abbreviation (input) SUBSCRIBE :: kCommand where "SUBSCRIBE \<equiv> kCommand 111"
abbreviation (input) SUNION :: kCommand where "SUNION \<equiv> kCommand 112"
abbreviation (input) SUNIONSTORE :: kCommand where "SUNIONSTORE \<equiv> kCommand 113"
abbreviation (input) SYNC :: kCommand where "SYNC \<equiv> kCommand 114"
abbreviation (input) TIME :: kCommand where "TIME \<equiv> kCommand 115"
abbreviation (input) TTL :: kCommand where "TTL \<equiv> kCommand 116"
abbreviation (input) TYPE_CMD :: kCommand where "TYPE_CMD \<equiv> kCommand 117"
abbreviation (input) UNSUBSCRIBE :: kCommand where "UNSUBSCRIBE \<equiv> kCommand 118"
abbreviation (input) UNWATCH :: kCommand where "UNWATCH \<equiv> kCommand 119"
abbreviation (input) WATCH :: kCommand where "WATCH \<equiv> kCommand 120"
abbreviation (input) ZADD :: kCommand where "ZADD \<equiv> kCommand 121"
abbreviation (input) ZCARD :: kCommand where "ZCARD \<equiv> kCommand 122"
abbreviation (input) ZCOUNT :: kCommand where "ZCOUNT \<equiv> kCommand 123"
abbreviation (input) ZINCRBY :: kCommand where "ZINCRBY \<equiv> kCommand 124"
abbreviation (input) ZINTERSTORE :: kCommand where "ZINTERSTORE \<equiv> kCommand 125"
abbreviation (input) ZRANGE :: kCommand where "ZRANGE \<equiv> kCommand 126"
abbreviation (input) ZRANGEBYSCORE :: kCommand where "ZRANGEBYSCORE \<equiv> kCommand 127"
abbreviation (input) ZRANK :: kCommand where "ZRANK \<equiv> kCommand 128"
abbreviation (input) ZREM :: kCommand where "ZREM \<equiv> kCommand 129"
abbreviation (input) ZREMRANGEBYRANK :: kCommand where "ZREMRANGEBYRANK \<equiv> kCommand 130"
abbreviation (input) ZREMRANGEBYSCORE :: kCommand where "ZREMRANGEBYSCORE \<equiv> kCommand 131"
abbreviation (input) ZREVRANGE :: kCommand where "ZREVRANGE \<equiv> kCommand 132"
abbreviation (input) ZREVRANGEBYSCORE :: kCommand where "ZREVRANGEBYSCORE \<equiv> kCommand 133"
abbreviation (input) ZREVRANK :: kCommand where "ZREVRANK \<equiv> kCommand 134"
abbreviation (input) ZSCORE :: kCommand where "ZSCORE \<equiv> kCommand 135"
abbreviation (input) ZUNIONSTORE :: kCommand where "ZUNIONSTORE \<equiv> kCommand 136"
abbreviation (input) COMMAND_MAX :: kCommand where "COMMAND_MAX \<equiv> kCommand 137"

datatype kReplyType =
    kNone | kStatus | kError | kInteger | kBulk | kMultiBulk | kSpecialMultiBulk | kDepends

record CommandInfo =
  command :: kCommand
  command_str :: string
  argc :: int
  reply_type :: kReplyType

abbreviation (input) ARGC_NO_CHECKING :: int where "ARGC_NO_CHECKING \<equiv> - 65535"

abbreviation (input) info :: "kCommand \<Rightarrow> string \<Rightarrow> int \<Rightarrow> kReplyType \<Rightarrow> CommandInfo" where
  "info c s a r \<equiv> \<lparr>command = c, command_str = s, argc = a, reply_type = r\<rparr>"

definition s_command_map :: "CommandInfo list" where
  "s_command_map = [
     info NOOP ''NOOP'' (ARGC_NO_CHECKING) kNone,
     info APPEND ''APPEND'' (2) kInteger,
     info AUTH ''AUTH'' (1) kStatus,
     info BGREWRITEAOF ''BGREWRITEAOF'' (0) kStatus,
     info BGSAVE ''BGSAVE'' (0) kStatus,
     info BITCOUNT ''BITCOUNT'' (- 1) kInteger,
     info BITOP ''BITOP'' (- 3) kInteger,
     info BLPOP ''BLPOP'' (- 2) kMultiBulk,
     info BRPOP ''BRPOP'' (- 2) kMultiBulk,
     info BRPOPLPUSH ''BRPOPLPUSH'' (3) kDepends,
     info CONFIG ''CONFIG'' (- 1) kDepends,
     info DBSIZE ''DBSIZE'' (0) kInteger,
     info DEBUG ''DEBUG'' (- 1) kDepends,
     info DECR ''DECR'' (1) kInteger,
     info DECRBY ''DECRBY'' (2) kInteger,
     info DEL ''DEL'' (- 1) kInteger,
     info DISCARD ''DISCARD'' (0) kStatus,
     info DUMP ''DUMP'' (1) kBulk,
     info ECHO ''ECHO'' (1) kBulk,
     info EVAL ''EVAL'' (- 2) kDepends,
     info EVALSHA ''EVALSHA'' (- 2) kDepends,
     info EXEC ''EXEC'' (0) kSpecialMultiBulk,
     info EXISTS ''EXISTS'' (1) kInteger,
     info EXPIRE ''EXPIRE'' (2) kInteger,
     info EXPIREAT ''EXPIREAT'' (2) kInteger,
     info FLUSHALL ''FLUSHALL'' (0) kStatus,
     info FLUSHDB ''FLUSHDB'' (0) kStatus,
     info GET ''GET'' (1) kBulk,
     info GETBIT ''GETBIT'' (2) kInteger,
     info GETRANGE ''GETRANGE'' (3) kBulk,
     info GETSET ''GETSET'' (2) kBulk,
     info HDEL ''HDEL'' (- 2) kInteger,
     info HEXISTS ''HEXISTS'' (2) kInteger,
     info HGET ''HGET'' (2) kBulk,
     info HGETALL ''HGETALL'' (1) kMultiBulk,
     info HINCRBY ''HINCRBY'' (3) kInteger,
     info HINCRBYFLOAT ''HINCRBYFLOAT'' (3) kBulk,
     info HKEYS ''HKEYS'' (1) kMultiBulk,
     info HLEN ''HLEN'' (1) kInteger,
     info HMGET ''HMGET'' (- 2) kMultiBulk,
     info HMSET ''HMSET'' (- 3) kStatus,
     info HSET ''HSET'' (3) kInteger,
     info HSETNX ''HSETNX'' (3) kInteger,
     info HVALS ''HVALS'' (1) kMultiBulk,
     info INCR ''INCR'' (1) kInteger,
     info INCRBY ''INCRBY'' (2) kInteger,
     info INCRBYFLOAT ''INCRBYFLOAT'' (2) kBulk,
     info INFO ''INFO'' (ARGC_NO_CHECKING) kBulk,
     info KEYS ''KEYS'' (1) kMultiBulk,
     info LASTSAVE ''LASTSAVE'' (0) kInteger,
     info LINDEX ''LINDEX'' (2) kBulk,
     info LINSERT ''LINSERT'' (4) kInteger,
     info LLEN ''LLEN'' (1) kInteger,
     info LPOP ''LPOP'' (1) kBulk,
     info LPUSH ''LPUSH'' (- 2) kInteger,
     info LPUSHX ''LPUSHX'' (2) kInteger,
     info LRANGE ''LRANGE'' (3) kMultiBulk,
     info LREM ''LREM'' (3) kInteger,
     info LSET ''LSET'' (3) kStatus,
     info LTRIM ''LTRIM'' (3) kStatus,
     info MGET ''MGET'' (- 1) kMultiBulk,
     info MIGRATE ''MIGRATE'' (5) kStatus,
     info MONITOR ''MONITOR'' (0) kDepends,
     info MOVE ''MOVE'' (2) kInteger,
     info MSET ''MSET'' (- 2) kStatus,
     info MSETNX ''MSETNX'' (- 2) kInteger,
     info MULTI ''MULTI'' (0) kStatus,
     info OBJECT ''OBJECT'' (- 1) kDepends,
     info PERSIST ''PERSIST'' (1) kInteger,
     info PEXPIRE ''PEXPIRE'' (2) kInteger,
     info PEXPIREAT ''PEXPIREAT'' (2) kInteger,
     info PING ''PING'' (0) kStatus,
     info PSETEX ''PSETEX'' (3) kStatus,
     info PSUBSCRIBE ''PSUBSCRIBE'' (- 1) kSpecialMultiBulk,
     info PTTL ''PTTL'' (1) kInteger,
     info PUBLISH ''PUBLISH'' (2) kInteger,
     info PUNSUBSCRIBE ''PUNSUBSCRIBE'' (ARGC_NO_CHECKING) kSpecialMultiBulk,
     info QUIT ''QUIT'' (0) kStatus,
     info RANDOMKEY ''RANDOMKEY'' (0) kBulk,
     info RENAME ''RENAME'' (2) kStatus,
     info RENAMENX ''RENAMENX'' (2) kInteger,
     info RESTORE ''RESTORE'' (3) kStatus,
     info RPOP ''RPOP'' (1) kBulk,
     info RPOPLPUSH ''RPOPLPUSH'' (2) kBulk,
     info RPUSH ''RPUSH'' (- 2) kInteger,
     info RPUSHX ''RPUSHX'' (2) kInteger,
     info SADD ''SADD'' (- 2) kInteger,
     info SAVE ''SAVE'' (0) kDepends,
     info SCARD ''SCARD'' (1) kInteger,
     info SCRIPT ''SCRIPT'' (- 1) kDepends,
     info SDIFF ''SDIFF'' (- 1) kMultiBulk,
     info SDIFFSTORE ''SDIFFSTORE'' (- 2) kInteger,
     info SELECT ''SELECT'' (1) kStatus,
     info SET ''SET'' (2) kStatus,
     info SETBIT ''SETBIT'' (3) kInteger,
     info SETEX ''SETEX'' (3) kStatus,
     info SETNX ''SETNX'' (2) kInteger,
     info SETRANGE ''SETRANGE'' (3) kInteger,
     info SHUTDOWN ''SHUTDOWN'' (ARGC_NO_CHECKING) kStatus,
     info SINTER ''SINTER'' (- 1) kMultiBulk,
     info SINTERSTORE ''SINTERSTORE'' (- 2) kInteger,
     info SISMEMBER ''SISMEMBER'' (2) kInteger,
     info SLAVEOF ''SLAVEOF'' (2) kStatus,
     info SLOWLOG ''SLOWLOG'' (1) kDepends,
     info SMEMBERS ''SMEMBERS'' (1) kMultiBulk,
     info SMOVE ''SMOVE'' (3) kInteger,
     info SORT ''SORT'' (- 1) kMultiBulk,
     info SPOP ''SPOP'' (1) kBulk,
     info SRANDMEMBER ''SRANDMEMBER'' (1) kBulk,
     info SREM ''SREM'' (- 2) kInteger,
     info STRLEN ''STRLEN'' (1) kInteger,
     info SUBSCRIBE ''SUBSCRIBE'' (- 1) kSpecialMultiBulk,
     info SUNION ''SUNION'' (- 1) kMultiBulk,
     info SUNIONSTORE ''SUNIONSTORE'' (- 2) kInteger,
     info SYNC ''SYNC'' (ARGC_NO_CHECKING) kDepends,
     info TIME ''TIME'' (0) kMultiBulk,
     info TTL ''TTL'' (1) kInteger,
     info TYPE_CMD ''TYPE'' (1) kStatus,
     info UNSUBSCRIBE ''UNSUBSCRIBE'' (ARGC_NO_CHECKING) kSpecialMultiBulk,
     info UNWATCH ''UNWATCH'' (0) kStatus,
     info WATCH ''WATCH'' (- 1) kStatus,
     info ZADD ''ZADD'' (- 3) kInteger,
     info ZCARD ''ZCARD'' (1) kInteger,
     info ZCOUNT ''ZCOUNT'' (3) kInteger,
     info ZINCRBY ''ZINCRBY'' (3) kBulk,
     info ZINTERSTORE ''ZINTERSTORE'' (- 3) kInteger,
     info ZRANGE ''ZRANGE'' (- 3) kMultiBulk,
     info ZRANGEBYSCORE ''ZRANGEBYSCORE'' (- 3) kMultiBulk,
     info ZRANK ''ZRANK'' (2) kDepends,
     info ZREM ''ZREM'' (- 2) kInteger,
     info ZREMRANGEBYRANK ''ZREMRANGEBYRANK'' (3) kInteger,
     info ZREMRANGEBYSCORE ''ZREMRANGEBYSCORE'' (3) kInteger,
     info ZREVRANGE ''ZREVRANGE'' (- 3) kMultiBulk,
     info ZREVRANGEBYSCORE ''ZREVRANGEBYSCORE'' (- 3) kMultiBulk,
     info ZREVRANK ''ZREVRANK'' (2) kDepends,
     info ZSCORE ''ZSCORE'' (2) kBulk,
     info ZUNIONSTORE ''ZUNIONSTORE'' (- 3) kInteger,
     info COMMAND_MAX ''COMMAND_MAX'' (ARGC_NO_CHECKING) kNone]"

definition s_command_rev_map :: "(string \<times> kCommand) list" where
  "s_command_rev_map = [
     (''APPEND'', APPEND),
     (''AUTH'', AUTH),
     (''BGREWRITEAOF'', BGREWRITEAOF),
     (''BGSAVE'', BGSAVE),
     (''BITCOUNT'', BITCOUNT),
     (''BITOP'', BITOP),
     (''BLPOP'', BLPOP),
     (''BRPOP'', BRPOP),
     (''BRPOPLPUSH'', BRPOPLPUSH),
     (''CONFIG'', CONFIG),
     (''DBSIZE'', DBSIZE),
     (''DEBUG'', DEBUG),
     (''DECR'', DECR),
     (''DECRBY'', DECRBY),
     (''DEL'', DEL),
     (''DISCARD'', DISCARD),
     (''DUMP'', DUMP),
     (''ECHO'', ECHO),
     (''EVAL'', EVAL),
     (''EVALSHA'', EVALSHA),
     (''EXEC'', EXEC),
     (''EXISTS'', EXISTS),
     (''EXPIRE'', EXPIRE),
     (''EXPIREAT'', EXPIREAT),
     (''FLUSHALL'', FLUSHALL),
     (''FLUSHDB'', FLUSHDB),
     (''GET'', GET),
     (''GETBIT'', GETBIT),
     (''GETRANGE'', GETRANGE),
     (''GETSET'', GETSET),
     (''HDEL'', HDEL),
     (''HEXISTS'', HEXISTS),
     (''HGET'', HGET),
     (''HGETALL'', HGETALL),
     (''HINCRBY'', HINCRBY),
     (''HINCRBYFLOAT'', HINCRBYFLOAT),
     (''HKEYS'', HKEYS),
     (''HLEN'', HLEN),
     (''HMGET'', HMGET),
     (''HMSET'', HMSET),
     (''HSET'', HSET),
     (''HSETNX'', HSETNX),
     (''HVALS'', HVALS),
     (''INCR'', INCR),
     (''INCRBY'', INCRBY),
     (''INCRBYFLOAT'', INCRBYFLOAT),
     (''INFO'', INFO),
     (''KEYS'', KEYS),
     (''LASTSAVE'', LASTSAVE),
     (''LINDEX'', LINDEX),
     (''LINSERT'', LINSERT),
     (''LLEN'', LLEN),
     (''LPOP'', LPOP),
     (''LPUSH'', LPUSH),
     (''LPUSHX'', LPUSHX),
     (''LRANGE'', LRANGE),
     (''LREM'', LREM),
     (''LSET'', LSET),
     (''LTRIM'', LTRIM),
     (''MGET'', MGET),
     (''MIGRATE'', MIGRATE),
     (''MONITOR'', MONITOR),
     (''MOVE'', MOVE),
     (''MSET'', MSET),
     (''MSETNX'', MSETNX),
     (''MULTI'', MULTI),
     (''OBJECT'', OBJECT),
     (''PERSIST'', PERSIST),
     (''PEXPIRE'', PEXPIRE),
     (''PEXPIREAT'', PEXPIREAT),
     (''PING'', PING),
     (''PSETEX'', PSETEX),
     (''PSUBSCRIBE'', PSUBSCRIBE),
     (''PTTL'', PTTL),
     (''PUBLISH'', PUBLISH),
     (''PUNSUBSCRIBE'', PUNSUBSCRIBE),
     (''QUIT'', QUIT),
     (''RANDOMKEY'', RANDOMKEY),
     (''RENAME'', RENAME),
     (''RENAMENX'', RENAMENX),
     (''RESTORE'', RESTORE),
     (''RPOP'', RPOP),
     (''RPOPLPUSH'', RPOPLPUSH),
     (''RPUSH'', RPUSH),
     (''RPUSHX'', RPUSHX),
     (''SADD'', SADD),
     (''SAVE'', SAVE),
     (''SCARD'', SCARD),
     (''SCRIPT'', SCRIPT),
     (''SDIFF'', SDIFF),
     (''SDIFFSTORE'', SDIFFSTORE),
     (''SELECT'', SELECT),
     (''SET'', SET),
     (''SETBIT'', SETBIT),
     (''SETEX'', SETEX),
     (''SETNX'', SETNX),
     (''SETRANGE'', SETRANGE),
     (''SHUTDOWN'', SHUTDOWN),
     (''SINTER'', SINTER),
     (''SINTERSTORE'', SINTERSTORE),
     (''SISMEMBER'', SISMEMBER),
     (''SLAVEOF'', SLAVEOF),
     (''SLOWLOG'', SLOWLOG),
     (''SMEMBERS'', SMEMBERS),
     (''SMOVE'', SMOVE),
     (''SORT'', SORT),
     (''SPOP'', SPOP),
     (''SRANDMEMBER'', SRANDMEMBER),
     (''SREM'', SREM),
     (''STRLEN'', STRLEN),
     (''SUBSCRIBE'', SUBSCRIBE),
     (''SUNION'', SUNION),
     (''SUNIONSTORE'', SUNIONSTORE),
     (''SYNC'', SYNC),
     (''TTL'', TTL),
     (''TIME'', TIME),
     (''TYPE'', TYPE_CMD),
     (''UNSUBSCRIBE'', UNSUBSCRIBE),
     (''UNWATCH'', UNWATCH),
     (''WATCH'', WATCH),
     (''ZADD'', ZADD),
     (''ZCARD'', ZCARD),
     (''ZCOUNT'', ZCOUNT),
     (''ZINCRBY'', ZINCRBY),
     (''ZINTERSTORE'', ZINTERSTORE),
     (''ZRANGE'', ZRANGE),
     (''ZRANGEBYSCORE'', ZRANGEBYSCORE),
     (''ZRANK'', ZRANK),
     (''ZREM'', ZREM),
     (''ZREMRANGEBYRANK'', ZREMRANGEBYRANK),
     (''ZREMRANGEBYSCORE'', ZREMRANGEBYSCORE),
     (''ZREVRANGE'', ZREVRANGE),
     (''ZREVRANGEBYSCORE'', ZREVRANGEBYSCORE),
     (''ZREVRANK'', ZREVRANK),
     (''ZSCORE'', ZSCORE),
     (''ZUNIONSTORE'', ZUNIONSTORE)]"

definition reply_type_to_string :: "kReplyType \<Rightarrow> string" where
  "reply_type_to_string t =
     (case t of
        kStatus \<Rightarrow> ''status reply''
      | kError \<Rightarrow> ''error reply''
      | kInteger \<Rightarrow> ''integer reply''
      | kBulk \<Rightarrow> ''bulk reply''
      | kMultiBulk \<Rightarrow> ''multi-bulk reply''
      | kSpecialMultiBulk \<Rightarrow> ''special multi-bulk reply''
      | kDepends \<Rightarrow> ''non-defined reply''
      | kNone \<Rightarrow> ''none type reply'')"

section \<open>RedisInput\<close>

record RedisInput =
  in_command :: kCommand
  command_info :: CommandInfo
  args :: "string list"

definition set_command :: "kCommand \<Rightarrow> RedisInput \<Rightarrow> RedisInput" where
  "set_command cmd i = i\<lparr>in_command := cmd, command_info := s_command_map ! cmd_ord cmd\<rparr>"

definition new_input :: "kCommand \<Rightarrow> RedisInput" where
  "new_input cmd = \<lparr>in_command = cmd, command_info = s_command_map ! cmd_ord cmd, args = []\<rparr>"

definition toupper_char :: "char \<Rightarrow> char" where
  "toupper_char c =
     (let n = of_char c :: nat in if 97 \<le> n \<and> n \<le> 122 then char_of (n - 32) else c)"

definition set_command_string :: "string \<Rightarrow> RedisInput \<Rightarrow> RedisInput" where
  "set_command_string cmd i =
     (case map_of s_command_rev_map (map toupper_char cmd) of
        Some c \<Rightarrow> set_command c i
      | None \<Rightarrow> set_command NOOP i)"

definition new_input_string :: "string \<Rightarrow> RedisInput" where
  "new_input_string cmd = set_command_string cmd (new_input NOOP)"

definition clear_arg :: "RedisInput \<Rightarrow> RedisInput" where
  "clear_arg i = i\<lparr>args := []\<rparr>"

definition push_arg :: "string \<Rightarrow> RedisInput \<Rightarrow> RedisInput" where
  "push_arg s i = i\<lparr>args := args i @ [s]\<rparr>"

definition push_arg_cstr :: "string ptr \<Rightarrow> RedisInput \<Rightarrow> RedisInput" where
  "push_arg_cstr s i = (case s of None \<Rightarrow> i | Some s \<Rightarrow> i\<lparr>args := args i @ [s]\<rparr>)"

definition push_args :: "string list \<Rightarrow> RedisInput \<Rightarrow> RedisInput" where
  "push_args sv i = foldl (\<lambda>i s. i\<lparr>args := args i @ [s]\<rparr>) i sv"

text \<open>The overloads for \<open>int64_t\<close>, \<open>size_t\<close> and \<open>int\<close>.\<close>

definition push_arg_int :: "int \<Rightarrow> RedisInput \<Rightarrow> RedisInput" where
  "push_arg_int n i = i\<lparr>args := args i @ [show_int n]\<rparr>"

definition push_arg_ints :: "int list \<Rightarrow> RedisInput \<Rightarrow> RedisInput" where
  "push_arg_ints iv i = foldl (\<lambda>i n. i\<lparr>args := args i @ [show_int n]\<rparr>) i iv"

text \<open>The text of a \<open>double\<close> is \<open>boost::lexical_cast\<close>'s, the parameter \<open>cast\<close>.\<close>

definition push_arg_double ::
  "(64 word \<Rightarrow> string) \<Rightarrow> 64 word \<Rightarrow> RedisInput \<Rightarrow> RedisInput" where
  "push_arg_double cast d i = i\<lparr>args := args i @ [cast d]\<rparr>"

definition push_arg_doubles ::
  "(64 word \<Rightarrow> string) \<Rightarrow> 64 word list \<Rightarrow> RedisInput \<Rightarrow> RedisInput" where
  "push_arg_doubles cast dv i = foldl (\<lambda>i d. i\<lparr>args := args i @ [cast d]\<rparr>) i dv"

section \<open>RedisOutput\<close>

type_synonym mbulk = "string option list"

datatype RedisOutput = RedisOutput (out_type: kReplyType) (out_ptr: output_ptr)
  and output_ptr =
    NullPtr
  | StatusPtr string
  | ErrorPtr string
  | IntPtr int
  | BulkPtr string
  | MbulksPtr "string option list"
  | SmbulksPtr "RedisOutput list"

definition new_output :: RedisOutput where
  "new_output = RedisOutput kNone NullPtr"

text \<open>\<open>clear\<close> frees the member the tag names and keeps the tag.\<close>

definition clear_output :: "RedisOutput \<Rightarrow> RedisOutput" where
  "clear_output out = RedisOutput (out_type out) NullPtr"

definition set_status :: "string \<Rightarrow> RedisOutput \<Rightarrow> RedisOutput" where
  "set_status s out = RedisOutput kStatus (StatusPtr s)"

definition set_error :: "string \<Rightarrow> RedisOutput \<Rightarrow> RedisOutput" where
  "set_error e out = RedisOutput kError (ErrorPtr e)"

definition set_i :: "int \<Rightarrow> RedisOutput \<Rightarrow> RedisOutput" where
  "set_i i out = RedisOutput kInteger (IntPtr i)"

definition set_bulk :: "string \<Rightarrow> RedisOutput \<Rightarrow> RedisOutput" where
  "set_bulk b out = RedisOutput kBulk (BulkPtr b)"

definition set_nil_bulk :: "RedisOutput \<Rightarrow> RedisOutput" where
  "set_nil_bulk out = RedisOutput kBulk NullPtr"

definition set_mbulks :: "mbulk ptr \<Rightarrow> RedisOutput \<Rightarrow> RedisOutput" where
  "set_mbulks mb out =
     RedisOutput kMultiBulk (case mb of None \<Rightarrow> NullPtr | Some mb \<Rightarrow> MbulksPtr mb)"

definition set_nil_mbulks :: "RedisOutput \<Rightarrow> RedisOutput" where
  "set_nil_mbulks out = RedisOutput kMultiBulk NullPtr"

definition set_smbulks :: "RedisOutput list ptr \<Rightarrow> RedisOutput \<Rightarrow> RedisOutput" where
  "set_smbulks smb out =
     RedisOutput kSpecialMultiBulk (case smb of None \<Rightarrow> NullPtr | Some smb \<Rightarrow> SmbulksPtr smb)"

definition set_nil_smbulks :: "RedisOutput \<Rightarrow> RedisOutput" where
  "set_nil_smbulks out = RedisOutput kSpecialMultiBulk NullPtr"

definition is_status :: "RedisOutput \<Rightarrow> bool" where
  "is_status out \<longleftrightarrow> out_type out = kStatus \<and> out_ptr out \<noteq> NullPtr"

definition is_status_ok :: "RedisOutput \<Rightarrow> bool" where
  "is_status_ok out \<longleftrightarrow> out_type out = kStatus \<and> out_ptr out = StatusPtr ''OK''"

definition is_status_pong :: "RedisOutput \<Rightarrow> bool" where
  "is_status_pong out \<longleftrightarrow> out_type out = kStatus \<and> out_ptr out = StatusPtr ''PONG''"

definition is_error :: "RedisOutput \<Rightarrow> bool" where
  "is_error out \<longleftrightarrow> out_type out = kError \<and> out_ptr out \<noteq> NullPtr"

definition is_i :: "RedisOutput \<Rightarrow> bool" where
  "is_i out \<longleftrightarrow> out_type out = kInteger \<and> out_ptr out \<noteq> NullPtr"

definition is_bulk :: "RedisOutput \<Rightarrow> bool" where
  "is_bulk out \<longleftrightarrow> out_type out = kBulk \<and> out_ptr out \<noteq> NullPtr"

definition is_nil_bulk :: "RedisOutput \<Rightarrow> bool" where
  "is_nil_bulk out \<longleftrightarrow> out_type out = kBulk \<and> out_ptr out = NullPtr"

definition is_mbulks :: "RedisOutput \<Rightarrow> bool" where
  "is_mbulks out \<longleftrightarrow> out_type out = kMultiBulk \<and> out_ptr out \<noteq> NullPtr"

definition is_nil_mbulks :: "RedisOutput \<Rightarrow> bool" where
  "is_nil_mbulks out \<longleftrightarrow> out_type out = kMultiBulk \<and> out_ptr out = NullPtr"

definition is_empty_mbulks :: "RedisOutput \<Rightarrow> bool" where
  "is_empty_mbulks out \<longleftrightarrow> out_type out = kMultiBulk \<and> out_ptr out = MbulksPtr []"

definition is_smbulks :: "RedisOutput \<Rightarrow> bool" where
  "is_smbulks out \<longleftrightarrow> out_type out = kSpecialMultiBulk \<and> out_ptr out \<noteq> NullPtr"

definition is_nil_smbulks :: "RedisOutput \<Rightarrow> bool" where
  "is_nil_smbulks out \<longleftrightarrow> out_type out = kSpecialMultiBulk \<and> out_ptr out = NullPtr"

definition is_empty_smbulks :: "RedisOutput \<Rightarrow> bool" where
  "is_empty_smbulks out \<longleftrightarrow> out_type out = kSpecialMultiBulk \<and> out_ptr out = SmbulksPtr []"

text \<open>A getter returns its success, the new content of the cell and the new output (several
  of them swap).  Reading a member other than the one in use is undefined: \<open>None\<close>.\<close>

definition get_status :: "string ptr \<Rightarrow> RedisOutput \<Rightarrow> (bool \<times> string ptr) option" where
  "get_status p out =
     (case p of None \<Rightarrow> Some (False, None)
      | Some v \<Rightarrow>
          if is_status out
          then case out_ptr out of StatusPtr s \<Rightarrow> Some (True, Some s) | _ \<Rightarrow> None
          else Some (False, Some v))"

definition get_error :: "string ptr \<Rightarrow> RedisOutput \<Rightarrow> (bool \<times> string ptr) option" where
  "get_error p out =
     (case p of None \<Rightarrow> Some (False, None)
      | Some v \<Rightarrow>
          if is_error out
          then case out_ptr out of ErrorPtr s \<Rightarrow> Some (True, Some s) | _ \<Rightarrow> None
          else Some (False, Some v))"

definition get_i :: "int ptr \<Rightarrow> RedisOutput \<Rightarrow> (bool \<times> int ptr) option" where
  "get_i p out =
     (case p of None \<Rightarrow> Some (False, None)
      | Some v \<Rightarrow>
          if is_i out
          then case out_ptr out of IntPtr i \<Rightarrow> Some (True, Some i) | _ \<Rightarrow> None
          else Some (False, Some v))"

definition get_bulk :: "string ptr \<Rightarrow> RedisOutput \<Rightarrow> (bool \<times> string ptr \<times> RedisOutput) option" where
  "get_bulk p out =
     (case p of None \<Rightarrow> Some (False, None, out)
      | Some v \<Rightarrow>
          if is_bulk out
          then case out_ptr out of
              BulkPtr b \<Rightarrow> Some (True, Some b, RedisOutput kBulk (BulkPtr v)) | _ \<Rightarrow> None
          else Some (False, Some v, out))"

definition get_mbulks :: "mbulk ptr \<Rightarrow> RedisOutput \<Rightarrow> (bool \<times> mbulk ptr \<times> RedisOutput) option" where
  "get_mbulks p out =
     (case p of None \<Rightarrow> Some (False, None, out)
      | Some v \<Rightarrow>
          if is_mbulks out
          then case out_ptr out of
              MbulksPtr mb \<Rightarrow> Some (True, Some mb, RedisOutput kMultiBulk (MbulksPtr [])) | _ \<Rightarrow> None
          else Some (False, Some [], out))"

definition get_smbulks ::
  "RedisOutput list ptr \<Rightarrow> RedisOutput \<Rightarrow> (bool \<times> RedisOutput list ptr \<times> RedisOutput) option" where
  "get_smbulks p out =
     (case p of None \<Rightarrow> Some (False, None, out)
      | Some v \<Rightarrow>
          if is_smbulks out
          then case out_ptr out of
              SmbulksPtr smb \<Rightarrow>
                Some (True, Some smb, RedisOutput kSpecialMultiBulk (SmbulksPtr [])) | _ \<Rightarrow> None
          else Some (False, Some [], out))"

section \<open>Helper functions on vectors\<close>

definition append_mbulks :: "mbulk ptr \<Rightarrow> mbulk ptr \<Rightarrow> mbulk ptr \<times> mbulk ptr" where
  "append_mbulks to from =
     (case (to, from) of
        (Some t, Some f) \<Rightarrow> (Some (t @ f), Some [])
      | _ \<Rightarrow> (to, from))"

definition append_smbulks ::
  "RedisOutput list ptr \<Rightarrow> RedisOutput list ptr \<Rightarrow> RedisOutput list ptr \<times> RedisOutput list ptr" where
  "append_smbulks to from =
     (case (to, from) of
        (Some t, Some f) \<Rightarrow> (Some (t @ f), Some [])
      | _ \<Rightarrow> (to, from))"

text \<open>\<open>convert(mbulk_t *, string_vector_t *)\<close>: nil objects are dropped.\<close>

definition convert_mbulks ::
  "mbulk ptr \<Rightarrow> string list ptr \<Rightarrow> mbulk ptr \<times> string list ptr" where
  "convert_mbulks from to =
     (case (from, to) of
        (Some f, Some t) \<Rightarrow> (Some [], Some (map the (filter (\<lambda>s. s \<noteq> None) f)))
      | _ \<Rightarrow> (from, to))"

definition get_mbulks_strings ::
  "string list ptr \<Rightarrow> RedisOutput \<Rightarrow> (bool \<times> string list ptr \<times> RedisOutput) option" where
  "get_mbulks_strings p out =
     (case p of None \<Rightarrow> Some (False, None, out)
      | Some v \<Rightarrow>
          if is_mbulks out
          then case out_ptr out of
              MbulksPtr mb \<Rightarrow>
                Some (True, snd (convert_mbulks (Some mb) (Some v)),
                      RedisOutput kMultiBulk (MbulksPtr []))
            | _ \<Rightarrow> None
          else Some (False, Some v, out))"

definition convertible_2_mbulks :: "RedisOutput list \<Rightarrow> bool" where
  "convertible_2_mbulks from = list_all (\<lambda>out. out_type out = kBulk) from"

text \<open>The loop of \<open>convert(smbulk_t *, mbulk_t *)\<close>: it reads \<open>ptr.bulk\<close>.\<close>

fun smbulks_to_mbulks :: "RedisOutput list \<Rightarrow> mbulk option" where
  "smbulks_to_mbulks [] = Some []"
| "smbulks_to_mbulks (out # outs) =
     (case out_ptr out of
        BulkPtr b \<Rightarrow> do { mb \<leftarrow> smbulks_to_mbulks outs; Some (Some b # mb) }
      | NullPtr \<Rightarrow> do { mb \<leftarrow> smbulks_to_mbulks outs; Some (None # mb) }
      | _ \<Rightarrow> None)"

definition convert_smbulks ::
  "RedisOutput list ptr \<Rightarrow> mbulk ptr \<Rightarrow> (bool \<times> RedisOutput list ptr \<times> mbulk ptr) option" where
  "convert_smbulks from to =
     (case (from, to) of
        (Some f, Some t) \<Rightarrow>
          if \<not> convertible_2_mbulks f then Some (False, from, to)
          else do { mb \<leftarrow> smbulks_to_mbulks f; Some (True, Some [], Some mb) }
      | _ \<Rightarrow> Some (False, from, to))"

section \<open>RedisCommand\<close>

record RedisCommand =
  cmd_in :: RedisInput
  cmd_out :: RedisOutput

definition new_command :: "kCommand \<Rightarrow> RedisCommand" where
  "new_command cmd = \<lparr>cmd_in = new_input cmd, cmd_out = new_output\<rparr>"

definition new_command_string :: "string \<Rightarrow> RedisCommand" where
  "new_command_string cmd = \<lparr>cmd_in = new_input_string cmd, cmd_out = new_output\<rparr>"

text \<open>\<open>RedisCommand::swap\<close>: both halves change places.\<close>

definition swap_command :: "RedisCommand \<Rightarrow> RedisCommand \<Rightarrow> RedisCommand \<times> RedisCommand" where
  "swap_command c d =
     (c\<lparr>cmd_in := cmd_in d, cmd_out := cmd_out d\<rparr>, d\<lparr>cmd_in := cmd_in c, cmd_out := cmd_out c\<rparr>)"

section \<open>The command table\<close>

lemma command_map_length: "length s_command_map = 138"
  by (simp add: s_command_map_def)

lemma command_map_ordinals: "map (cmd_ord \<circ> command) s_command_map = [0..<138]"
  by (simp add: s_command_map_def upt_rec)

lemma command_map_index: "n < 138 \<Longrightarrow> command (s_command_map ! n) = kCommand n"
  using arg_cong [OF command_map_ordinals, of "\<lambda>xs. xs ! n"]
  by (simp add: command_map_length kCommand.expand)

definition table_names :: "(string \<times> kCommand) list" where
  "table_names = map (\<lambda>i. (command_str i, command i)) s_command_map"

text \<open>The reverse map lists the named commands of the table, with \<open>TTL\<close> and \<open>TIME\<close> exchanged.\<close>

lemma rev_map_table:
  "take 115 table_names @ [(''TTL'', TTL), (''TIME'', TIME)] @ drop 117 table_names
   = (''NOOP'', NOOP) # s_command_rev_map @ [(''COMMAND_MAX'', COMMAND_MAX)]"
  by (simp add: table_names_def s_command_map_def s_command_rev_map_def)

lemma table_names_sorted:
  "successively (<) (map (map (of_char :: char \<Rightarrow> nat) \<circ> fst) (take 136 (tl table_names)))"
  by (simp add: table_names_def s_command_map_def)

lemma table_names_split:
  "table_names = (''NOOP'', NOOP) # take 136 (tl table_names) @ [(''COMMAND_MAX'', COMMAND_MAX)]"
  by (simp add: table_names_def s_command_map_def)

lemma table_names_time: "table_names ! 115 = (''TIME'', TIME)" "table_names ! 116 = (''TTL'', TTL)"
  by (simp_all add: table_names_def s_command_map_def)

lemma length_table_names: "length table_names = 138"
  by (simp add: table_names_def command_map_length)

lemma length_rev_map: "length s_command_rev_map = 136"
  using arg_cong [OF rev_map_table, of length] by (simp add: length_table_names)

lemma nth_table_names: "n < 138 \<Longrightarrow> table_names ! n = (command_str (s_command_map ! n), kCommand n)"
  by (simp add: table_names_def command_map_length command_map_index)

lemma snd_table_names: "map snd table_names = map kCommand [0..<138]"
  by (rule nth_equalityI) (simp_all add: length_table_names nth_table_names)

lemma set_rev_map: "set s_command_rev_map = set (take 136 (tl table_names))"
proof -
  let ?T = table_names
  let ?E = "{(''NOOP'', NOOP), (''COMMAND_MAX'', COMMAND_MAX)}"
  have "?T = take 115 ?T @ [(''TIME'', TIME), (''TTL'', TTL)] @ drop 117 ?T"
    using id_take_nth_drop [of 115 ?T] id_take_nth_drop [of 0 "drop 116 ?T"]
    by (simp add: length_table_names table_names_time)
  then obtain A B where AB: "A = take 115 ?T" "B = drop 117 ?T"
      "?T = A @ [(''TIME'', TIME), (''TTL'', TTL)] @ B" by blast
  have "set ?T = set (A @ [(''TTL'', TTL), (''TIME'', TIME)] @ B)" unfolding AB(3) by auto
  also have "\<dots> = set s_command_rev_map \<union> ?E"
    using rev_map_table unfolding AB(1,2) [symmetric] by auto
  finally have 1: "set ?T = set s_command_rev_map \<union> ?E" .
  obtain N where N: "N = take 136 (tl ?T)"
      "?T = (''NOOP'', NOOP) # N @ [(''COMMAND_MAX'', COMMAND_MAX)]"
    using table_names_split by blast
  have 2: "set ?T = set N \<union> ?E" unfolding N(2) by auto
  have 3: "set s_command_rev_map \<inter> ?E = {}"
    by (simp add: s_command_rev_map_def)
  have "distinct (map snd ?T)"
    unfolding snd_table_names distinct_map by (simp add: inj_on_def)
  then have "distinct ?T" by (simp add: distinct_map)
  then have 4: "set N \<inter> ?E = {}" unfolding N(2) by auto
  from 1 2 have "set s_command_rev_map \<union> ?E = set N \<union> ?E" by simp
  from disjoint_union_cancel [OF this 3 4] show ?thesis unfolding N(1) .
qed

lemma distinct_names: "distinct (map fst (take 136 (tl table_names)))"
proof -
  have "sorted_wrt (<) (map (map (of_char :: char \<Rightarrow> nat) \<circ> fst) (take 136 (tl table_names)))"
    using table_names_sorted by (subst (asm) successively_conv_sorted_wrt) (auto simp: transp_def)
  then have "distinct (map (map (of_char :: char \<Rightarrow> nat) \<circ> fst) (take 136 (tl table_names)))"
    by (simp add: strict_sorted_iff)
  then have "distinct (map (map (of_char :: char \<Rightarrow> nat)) (map fst (take 136 (tl table_names))))"
    by simp
  then show ?thesis by (simp only: distinct_map)
qed

lemma distinct_rev_map: "distinct (map fst s_command_rev_map)"
proof (rule card_distinct)
  have "set (map fst s_command_rev_map) = set (map fst (take 136 (tl table_names)))"
    by (simp add: set_rev_map)
  then show "card (set (map fst s_command_rev_map)) = length (map fst s_command_rev_map)"
    using distinct_card [OF distinct_names]
    by (simp add: length_rev_map length_table_names)
qed

lemma rev_map_lookup:
  assumes "1 \<le> n" "n \<le> 136"
  shows "map_of s_command_rev_map (command_str (s_command_map ! n)) = Some (kCommand n)"
proof -
  have "take 136 (tl table_names) ! (n - 1) = table_names ! n"
    using assms by (simp add: nth_tl length_table_names)
  moreover have "n - 1 < length (take 136 (tl table_names))"
    using assms by (simp add: length_table_names)
  ultimately have "table_names ! n \<in> set s_command_rev_map"
    unfolding set_rev_map by (metis nth_mem)
  with assms show ?thesis
    by (simp add: nth_table_names map_of_is_SomeI distinct_rev_map)
qed

lemma rev_map_lookup_inv:
  assumes "map_of s_command_rev_map s = Some c"
  shows "1 \<le> cmd_ord c \<and> cmd_ord c \<le> 136 \<and> command_str (s_command_map ! cmd_ord c) = s"
proof -
  from map_of_SomeD [OF assms] have "(s, c) \<in> set (take 136 (tl table_names))"
    by (simp add: set_rev_map)
  then obtain k where k: "k < 136" "(s, c) = tl table_names ! k"
    by (auto simp: in_set_conv_nth length_table_names)
  then have "(s, c) = table_names ! Suc k" by (simp add: nth_tl length_table_names)
  also have "\<dots> = (command_str (s_command_map ! Suc k), kCommand (Suc k))"
    using k(1) by (intro nth_table_names) simp
  finally show ?thesis using k(1) by simp
qed

end
