(* ===== verification/Redis_Protocol.thy ===== *)
theory Redis_Protocol
  imports Tcp_Progress Redis_Cmd
begin

text \<open>
  The protocol layer, \<open>src/src/redis_protocol.cpp\<close>: one connection to a server, its error text
  and its two mode flags.  An operation takes the object and the world and returns its result,
  the object and the world; the reading operations are calls (\<open>None\<close>: they do not return).

  A parameter \<open>RedisCommand * command\<close> is a \<open>RedisCommand ptr\<close>; the command comes back in the
  result.  The vector of \<open>exec_pipeline\<close> is a list of such pointers, taken to be distinct.
\<close>

section \<open>State\<close>

record RedisProtocol =
  p_host :: string
  p_port :: string
  p_error :: string
  tcp_client :: TcpClient
  p_timeout :: int
  blocking_mode :: bool
  transaction_mode :: bool

definition s_redis_line_end :: string where
  "s_redis_line_end = [CHR 0x0D, CHR 0x0A]"

definition new_RedisProtocol :: "string \<Rightarrow> string \<Rightarrow> int \<Rightarrow> RedisProtocol" where
  "new_RedisProtocol host port timeout =
     \<lparr>p_host = host, p_port = port, p_error = [], tcp_client = new_TcpClient,
      p_timeout = timeout, blocking_mode = False, transaction_mode = False\<rparr>"

definition proto_set_error :: "string \<Rightarrow> RedisProtocol \<Rightarrow> RedisProtocol" where
  "proto_set_error err p = p\<lparr>p_error := err\<rparr>"

definition set_blocking_mode :: "bool \<Rightarrow> RedisProtocol \<Rightarrow> RedisProtocol" where
  "set_blocking_mode b p = p\<lparr>blocking_mode := b\<rparr>"

text \<open>\<open>host:port\<close>, as the format strings of the file print it.\<close>

definition peer :: "RedisProtocol \<Rightarrow> string" where
  "peer p = p_host p @ '':'' @ p_port p"

section \<open>Connection\<close>

definition proto_close :: "RedisProtocol \<Rightarrow> world \<Rightarrow> RedisProtocol \<times> world" where
  "proto_close p w =
     (let (tc, w) = TcpClient_close (tcp_client p) w
      in (p\<lparr>tcp_client := tc, blocking_mode := False, transaction_mode := False\<rparr>, w))"

text \<open>The statements \<open>close(); error_ = err;\<close>, with which every broken exchange ends.\<close>

definition close_error :: "string \<Rightarrow> RedisProtocol \<Rightarrow> world \<Rightarrow> RedisProtocol \<times> world" where
  "close_error err p w =
     (let (p, w) = proto_close p w in (p\<lparr>p_error := err\<rparr>, w))"

definition proto_connect :: "RedisProtocol \<Rightarrow> world \<Rightarrow> bool \<times> RedisProtocol \<times> world" where
  "proto_connect p w =
     (let (ec, tc, w) = TcpClient_connect (p_host p) (p_port p) (p_timeout p) (tcp_client p) w;
          p = p\<lparr>tcp_client := tc\<rparr>
      in if ec \<noteq> 0
         then (False, close_error (''connect '' @ peer p @ '' failed, '' @ ec_2_string ec w) p w)
         else (True, p, w))"

definition proto_is_open :: "RedisProtocol \<Rightarrow> world \<Rightarrow> bool \<times> RedisProtocol \<times> world" where
  "proto_is_open p w =
     (let (b, tc, w) = TcpClient_is_open (tcp_client p) w in (b, p\<lparr>tcp_client := tc\<rparr>, w))"

definition proto_available :: "RedisProtocol \<Rightarrow> world \<Rightarrow> bool \<times> world" where
  "proto_available p w = TcpClient_available (tcp_client p) w"

definition proto_assure_connect ::
  "int ptr \<Rightarrow> RedisProtocol \<Rightarrow> world \<Rightarrow> (bool \<times> int ptr) \<times> RedisProtocol \<times> world" where
  "proto_assure_connect status p w =
     (let (b, p, w) = proto_is_open p w
      in if b then ((True, map_option (\<lambda>_. 0) status), p, w)
         else let (b, p, w) = proto_connect p w
         in if b then ((True, map_option (\<lambda>_. 1) status), p, w)
            else ((False, map_option (\<lambda>_. - 1) status), p, w))"

definition check_connect :: "RedisProtocol \<Rightarrow> world \<Rightarrow> bool \<times> RedisProtocol \<times> world" where
  "check_connect p w =
     (let (b, p, w) = proto_is_open p w
      in if \<not> b then (False, p\<lparr>p_error := ''not connected to '' @ peer p\<rparr>, w)
         else (True, p, w))"

section \<open>Writing a command\<close>

definition check_argc :: "RedisCommand \<Rightarrow> int \<Rightarrow> RedisProtocol \<Rightarrow> bool \<times> RedisCommand \<times> RedisProtocol" where
  "check_argc c given_argc p =
     (let a = argc (command_info (cmd_in c));
          err = (if a = ARGC_NO_CHECKING then False
                 else if a \<ge> 0 then a \<noteq> given_argc
                 else given_argc < - a)
      in if err
         then let e = ''argc not matched, expect '' @ show_int a @ '', given '' @ show_int given_argc
              in (False, c\<lparr>cmd_out := set_error e (cmd_out c)\<rparr>, p\<lparr>p_error := e\<rparr>)
         else (True, c, p))"

text \<open>\<open>$<number of bytes> CR LF <data> CR LF\<close>\<close>

definition bulk_text :: "string \<Rightarrow> string" where
  "bulk_text arg =
     ''$'' @ show_nat (length arg) @ s_redis_line_end @ arg @ s_redis_line_end"

text \<open>The end of both writing functions: the text goes out, or the connection is closed.\<close>

definition write_text :: "string \<Rightarrow> RedisCommand \<Rightarrow> RedisProtocol \<Rightarrow> world
    \<Rightarrow> bool \<times> RedisCommand \<times> RedisProtocol \<times> world" where
  "write_text text c p w =
     (let (ec, tc, w) = TcpClient_write text (p_timeout p) (tcp_client p) w;
          p = p\<lparr>tcp_client := tc\<rparr>
      in if ec \<noteq> 0
         then let e = ''write '' @ peer p @ '' failed, '' @ ec_2_string ec w;
                  (p, w) = close_error e p w
              in (False, c\<lparr>cmd_out := set_error e (cmd_out c)\<rparr>, p, w)
         else (True, c, p, w))"

definition request_text :: "RedisInput \<Rightarrow> string" where
  "request_text i =
     ''*'' @ show_int (int32 (int32 (int (length (args i))) + 1)) @ s_redis_line_end
     @ bulk_text (command_str (command_info i)) @ concat (map bulk_text (args i))"

definition write_command :: "RedisCommand ptr \<Rightarrow> RedisProtocol \<Rightarrow> world
    \<Rightarrow> bool \<times> RedisCommand ptr \<times> RedisProtocol \<times> world" where
  "write_command cp p w =
     (case cp of None \<Rightarrow> (False, None, p\<lparr>p_error := ''EINVAL''\<rparr>, w)
      | Some c \<Rightarrow>
          let (ok, c, p) = check_argc c (int32 (int (length (args (cmd_in c))))) p
          in if \<not> ok then (False, Some c, p, w)
             else let (ok, c, p, w) = write_text (request_text (cmd_in c)) c p w
             in (ok, Some c, p, w))"

text \<open>
  \<open>write_commandv\<close>.  \<open>vs\<close> is the text that \<open>vsnprintf\<close> formats from the format and its arguments
  (\<open>None\<close>: it returns a negative number).  The call consumes the \<open>va_list\<close>, and another call with it is
  undefined, so a text that does not fit into the first buffer has no defined outcome.  \<open>boost::trim\<close> and \<open>boost::split\<close> on
  one character are the functions \<open>boost_trim\<close> and \<open>boost_split\<close> of the world.
\<close>

definition vsnprintf :: "string option \<Rightarrow> bool \<Rightarrow> string option option" where
  "vsnprintf vs consumed = do { assertion (\<not> consumed); Some vs }"

function format_loop :: "string option \<Rightarrow> bool \<Rightarrow> nat \<Rightarrow> string option" where
  "format_loop vs consumed buf_len = do {
     bytes \<leftarrow> vsnprintf vs consumed;
     (case bytes of
        Some s \<Rightarrow> if length s < buf_len then Some s else format_loop vs True (2 * buf_len)
      | None \<Rightarrow> format_loop vs True (2 * buf_len))
   }"
  by pat_completeness auto
termination
  by (relation "measure (\<lambda>(vs, consumed, n). if consumed then 0 else 1)")
    (auto simp: vsnprintf_def assertion_def split: if_splits)

declare format_loop.simps [simp del]

lemma format_loop_again: "format_loop vs True n = None"
  by (subst format_loop.simps) (simp add: vsnprintf_def assertion_def)

lemma format_loop_first:
  "format_loop vs False n = (case vs of Some s \<Rightarrow> if length s < n then Some s else None | None \<Rightarrow> None)"
  by (subst format_loop.simps) (auto simp: format_loop_again vsnprintf_def assertion_def split: option.split)

definition request_textv :: "RedisInput \<Rightarrow> string" where
  "request_textv i =
     ''*'' @ show_int (int32 (int (length (args i)))) @ s_redis_line_end
     @ concat (map bulk_text (args i))"

definition write_commandv :: "RedisCommand ptr \<Rightarrow> string option \<Rightarrow> RedisProtocol \<Rightarrow> world
    \<Rightarrow> (bool \<times> RedisCommand ptr \<times> RedisProtocol \<times> world) option" where
  "write_commandv cp vs p w =
     (case cp of None \<Rightarrow> Some (False, None, p\<lparr>p_error := ''EINVAL''\<rparr>, w)
      | Some c \<Rightarrow> do {
          buf \<leftarrow> format_loop vs False 64;
          let words = filter (\<lambda>s. s \<noteq> []) (boost_split w (CHR '' '') (boost_trim w buf));
          let c = c\<lparr>cmd_in := (cmd_in c)\<lparr>args := words\<rparr>\<rparr>;
          let given_argc = int32 (int (length words));
          if given_argc = 0
          then (let e = ''given argc is zero''
                in Some (False, Some (c\<lparr>cmd_out := set_error e (cmd_out c)\<rparr>), p\<lparr>p_error := e\<rparr>, w))
          else do {
            let c = c\<lparr>cmd_in := set_command_string (hd words) (cmd_in c)\<rparr>;
            if in_command (cmd_in c) = NOOP
            then (let e = ''invalid command: '' @ hd words
                  in Some (False, Some (c\<lparr>cmd_out := set_error e (cmd_out c)\<rparr>), p\<lparr>p_error := e\<rparr>, w))
            else (let (ok, c, p) = check_argc c (int32 (given_argc - 1)) p
                  in if \<not> ok then Some (False, Some c, p, w)
                     else let (ok, c, p, w) = write_text (request_textv (cmd_in c)) c p w
                     in Some (ok, Some c, p, w))
          }
        })"

section \<open>Reading lines and blocks\<close>

definition read_failed :: "string \<Rightarrow> RedisProtocol \<Rightarrow> string" where
  "read_failed what p = ''read '' @ peer p @ '' failed, '' @ what"

text \<open>What \<open>read_line\<close> and \<open>read\<close> do with the result of the TCP client.\<close>

definition check_line :: "string \<times> int \<Rightarrow> RedisProtocol \<Rightarrow> world \<Rightarrow> bool \<times> string \<times> RedisProtocol \<times> world" where
  "check_line r p w =
     (case r of (line, ec) \<Rightarrow>
        if ec \<noteq> 0
        then (False, line, close_error (read_failed (ec_2_string ec w) p) p w)
        else if line = [] then (False, line, close_error (read_failed ''empty line'' p) p w)
        else (True, line, p, w))"

definition read_timeout :: "RedisProtocol \<Rightarrow> int" where
  "read_timeout p = (if blocking_mode p then - 1 else p_timeout p)"

definition proto_read_line ::
  "RedisProtocol \<Rightarrow> world \<Rightarrow> (bool \<times> string \<times> RedisProtocol \<times> world) option" where
  "proto_read_line p w = do {
     (r, tc, w) \<leftarrow> TcpClient_read_line s_redis_line_end (read_timeout p) (tcp_client p) w;
     Some (check_line r (p\<lparr>tcp_client := tc\<rparr>) w)
   }"

definition proto_read ::
  "nat \<Rightarrow> RedisProtocol \<Rightarrow> world \<Rightarrow> (bool \<times> string \<times> RedisProtocol \<times> world) option" where
  "proto_read count p w = do {
     (r, tc, w) \<leftarrow> TcpClient_read count s_redis_line_end (read_timeout p) (tcp_client p) w;
     Some (check_line r (p\<lparr>tcp_client := tc\<rparr>) w)
   }"

definition parse_integer :: "string \<Rightarrow> world \<Rightarrow> (bool \<times> int \<times> world) option" where
  "parse_integer line w =
     (if line = [] then None
      else let (i, range) = strtol (tl line);
               w = (if range then w\<lparr>errno := ERANGE\<rparr> else w)
           in Some (\<not> (errno w = EINVAL \<or> errno w = ERANGE), i, w))"

text \<open>The result carries \<open>*out_bulk\<close> (meaningful when the call succeeds).\<close>

definition read_bulk_2 ::
  "string \<Rightarrow> RedisProtocol \<Rightarrow> world \<Rightarrow> (bool \<times> string ptr \<times> RedisProtocol \<times> world) option" where
  "read_bulk_2 header p w = do {
     (ok, i, w) \<leftarrow> parse_integer header w;
     if \<not> ok then Some (False, None, close_error (read_failed (''integer error : '' @ header) p) p w)
     else if i < - 1 \<or> i = 0
     then Some (False, None, close_error (read_failed (''unexpected integer : '' @ show_int i) p) p w)
     else if i = - 1 then Some (True, None, p, w)
     else do {
       (ok, bulk, p, w) \<leftarrow> proto_read (size_of_int i) p w;
       if \<not> ok then Some (False, None, p, w)
       else if size_of_int i \<noteq> length bulk
       then Some (False, None, close_error (read_failed (''unexpected reply '' @ bulk) p) p w)
       else Some (True, Some bulk, p, w)
     }
   }"

definition read_bulk ::
  "RedisProtocol \<Rightarrow> world \<Rightarrow> (bool \<times> string ptr \<times> RedisProtocol \<times> world) option" where
  "read_bulk p w = do {
     (ok, header, p, w) \<leftarrow> proto_read_line p w;
     if \<not> ok then Some (False, None, p, w)
     else if hd header = CHR ''$'' then read_bulk_2 header p w
     else Some (False, None, close_error (read_failed ''reply type error $'' p) p w)
   }"

text \<open>The loop of \<open>read_multi_bulk_2\<close>, with \<open>i - j\<close> rounds to go.\<close>

fun read_bulks :: "nat \<Rightarrow> mbulk \<Rightarrow> RedisProtocol \<Rightarrow> world
    \<Rightarrow> (bool \<times> mbulk \<times> RedisProtocol \<times> world) option" where
  "read_bulks 0 mbulks p w = Some (True, mbulks, p, w)"
| "read_bulks (Suc n) mbulks p w = do {
     (ok, bulk, p, w) \<leftarrow> read_bulk p w;
     if \<not> ok then Some (False, [], p, w)
     else read_bulks n (mbulks @ [bulk]) p w
   }"

text \<open>\<open>reserve\<close> throws beyond the largest vector of pointers.\<close>

definition vector_max_size :: int where
  "vector_max_size = 2 ^ 60 - 1"

definition read_multi_bulk_2 ::
  "string \<Rightarrow> RedisProtocol \<Rightarrow> world \<Rightarrow> (bool \<times> mbulk ptr \<times> RedisProtocol \<times> world) option" where
  "read_multi_bulk_2 header p w = do {
     (ok, i, w) \<leftarrow> parse_integer header w;
     if \<not> ok then Some (False, None, close_error (read_failed (''integer error : '' @ header) p) p w)
     else if i < - 1
     then Some (False, None, close_error (read_failed (''unexpected integer : '' @ show_int i) p) p w)
     else if i = - 1 then Some (True, None, p, w)
     else if i > vector_max_size then None
     else do {
       (ok, mbulks, p, w) \<leftarrow> read_bulks (nat i) [] p w;
       Some (ok, Some mbulks, p, w)
     }
   }"

section \<open>Reading a reply\<close>

text \<open>The statements \<open>close(); error_ = ...; output->set_error(error_); return false;\<close>\<close>

definition reply_failed :: "string \<Rightarrow> RedisOutput \<Rightarrow> RedisProtocol \<Rightarrow> world
    \<Rightarrow> bool \<times> RedisOutput \<times> RedisProtocol \<times> world" where
  "reply_failed what out p w =
     (False, set_error (read_failed what p) out, close_error (read_failed what p) p w)"

definition reply_status :: "kCommand \<Rightarrow> string \<Rightarrow> RedisOutput \<Rightarrow> RedisProtocol \<Rightarrow> world
    \<Rightarrow> bool \<times> RedisOutput \<times> RedisProtocol \<times> world" where
  "reply_status cmd buf out p w =
     (True, set_status (tl buf) out,
      (if \<not> transaction_mode p \<and> cmd = MULTI then p\<lparr>transaction_mode := True\<rparr>
       else if transaction_mode p \<and> cmd = DISCARD then p\<lparr>transaction_mode := False\<rparr>
       else p), w)"

definition reply_integer :: "string \<Rightarrow> RedisOutput \<Rightarrow> RedisProtocol \<Rightarrow> world
    \<Rightarrow> (bool \<times> RedisOutput \<times> RedisProtocol \<times> world) option" where
  "reply_integer buf out p w = do {
     (ok, i, w) \<leftarrow> parse_integer buf w;
     if ok then Some (True, set_i i out, p, w)
     else Some (reply_failed (''integer error : '' @ buf) out p w)
   }"

definition reply_bulk :: "string \<Rightarrow> RedisOutput \<Rightarrow> RedisProtocol \<Rightarrow> world
    \<Rightarrow> (bool \<times> RedisOutput \<times> RedisProtocol \<times> world) option" where
  "reply_bulk buf out p w = do {
     (ok, bulk, p, w) \<leftarrow> read_bulk_2 buf p w;
     if ok
     then (case bulk of
             Some b \<Rightarrow> Some (True, set_bulk b out, p, w)
           | None \<Rightarrow> Some (True, set_nil_bulk out, p, w))
     else Some (False, set_error (p_error p) out, p, w)
   }"

definition reply_mbulk :: "string \<Rightarrow> RedisOutput \<Rightarrow> RedisProtocol \<Rightarrow> world
    \<Rightarrow> (bool \<times> RedisOutput \<times> RedisProtocol \<times> world) option" where
  "reply_mbulk buf out p w = do {
     (ok, mbulks, p, w) \<leftarrow> read_multi_bulk_2 buf p w;
     if ok
     then (case mbulks of
             Some mb \<Rightarrow> Some (True, set_mbulks (Some mb) out, p, w)
           | None \<Rightarrow> Some (True, set_nil_mbulks out, p, w))
     else Some (False, set_error (p_error p) out, p, w)
   }"

text \<open>In transaction mode every command but \<open>MULTI\<close>, \<open>DISCARD\<close> and \<open>EXEC\<close> replies a status.\<close>

definition expected_type :: "bool \<Rightarrow> RedisInput \<Rightarrow> RedisProtocol \<Rightarrow> kReplyType" where
  "expected_type check i p =
     (if check \<and> transaction_mode p
         \<and> \<not> (in_command i = MULTI \<or> in_command i = DISCARD \<or> in_command i = EXEC)
      then kStatus else reply_type (command_info i))"

text \<open>The branch of special multi-bulks; \<open>children k\<close> reads \<open>k\<close> replies, \<open>is_top\<close> says that
  \<open>output\<close> is \<open>&command->out\<close>.\<close>

type_synonym children_reader =
  "nat \<Rightarrow> RedisProtocol \<Rightarrow> world \<Rightarrow> (bool \<times> RedisOutput list \<times> RedisProtocol \<times> world) option"

definition reply_smbulk :: "children_reader \<Rightarrow> kCommand \<Rightarrow> bool \<Rightarrow> string \<Rightarrow> RedisOutput
    \<Rightarrow> RedisProtocol \<Rightarrow> world \<Rightarrow> (bool \<times> RedisOutput \<times> RedisProtocol \<times> world) option" where
  "reply_smbulk children cmd is_top buf out p w = do {
     (ok, bulk_size, w) \<leftarrow> parse_integer buf w;
     if \<not> ok then Some (reply_failed (''integer error : '' @ buf) out p w)
     else do {
       (ok, out, p, w) \<leftarrow>
         (if bulk_size = - 1 then Some (True, set_nil_smbulks out, p, w)
          else do {
            (ok, smbulks, p, w) \<leftarrow> children (nat bulk_size) p w;
            Some (ok, (if ok then set_smbulks (Some smbulks) out else out), p, w)
          });
       if \<not> ok then Some (False, out, p, w)
       else Some (True, out,
         (if transaction_mode p \<and> cmd = EXEC \<and> is_top then p\<lparr>transaction_mode := False\<rparr> else p), w)
     }
   }"

text \<open>The \<open>switch\<close> over the first character of the line.\<close>

definition reply_switch :: "children_reader \<Rightarrow> kCommand \<Rightarrow> kReplyType \<Rightarrow> bool \<Rightarrow> bool \<Rightarrow> string
    \<Rightarrow> RedisOutput \<Rightarrow> RedisProtocol \<Rightarrow> world
    \<Rightarrow> (bool \<times> RedisOutput \<times> RedisProtocol \<times> world) option" where
  "reply_switch children cmd exp check is_top buf out p w =
     (if hd buf = CHR ''-''
      then Some (False, set_error (tl buf) out, p\<lparr>p_error := tl buf\<rparr>, w)
      else if hd buf = CHR ''+''
      then (if check \<and> exp \<noteq> kStatus then Some (reply_failed ''reply type error +'' out p w)
            else Some (reply_status cmd buf out p w))
      else if hd buf = CHR '':''
      then (if check \<and> exp \<noteq> kInteger then Some (reply_failed ''reply type error :'' out p w)
            else reply_integer buf out p w)
      else if hd buf = CHR ''$''
      then (if check \<and> exp \<noteq> kBulk then Some (reply_failed ''reply type error $'' out p w)
            else reply_bulk buf out p w)
      else if hd buf = CHR ''*''
      then (if check \<and> exp \<noteq> kMultiBulk \<and> exp \<noteq> kSpecialMultiBulk
            then Some (reply_failed ''reply type error *'' out p w)
            else if exp = kMultiBulk then reply_mbulk buf out p w
            else reply_smbulk children cmd is_top buf out p w)
      else Some (reply_failed (''unexpected reply '' @ buf) out p w))"

text \<open>
  \<open>__read_reply\<close> and the loop over the children of a special multi-bulk.  The first argument
  bounds the nesting of replies; \<open>reply_nesting_bounded\<close> shows that a number above the bytes the
  connection can deliver is enough.
\<close>

function do_read_reply :: "nat \<Rightarrow> RedisInput \<Rightarrow> bool \<Rightarrow> RedisOutput \<Rightarrow> bool \<Rightarrow> RedisProtocol \<Rightarrow> world
    \<Rightarrow> (bool \<times> RedisOutput \<times> RedisProtocol \<times> world) option"
  and read_children :: "nat \<Rightarrow> RedisInput \<Rightarrow> RedisOutput list \<Rightarrow> children_reader" where
  "do_read_reply 0 i is_top out check_reply_type p w = None"
| "do_read_reply (Suc n) i is_top out check_reply_type p w = do {
     let check = (check_reply_type \<and> reply_type (command_info i) \<noteq> kDepends);
     let exp = expected_type check i p;
     (ok, buf, p, w) \<leftarrow> proto_read_line p w;
     if \<not> ok then Some (False, set_error (p_error p) out, p, w)
     else do {
       assertion (buf \<noteq> []);
       reply_switch (\<lambda>k p w. read_children n i [] k p w) (in_command i) exp check is_top buf out p w
     }
   }"
| "read_children n i smbulks 0 p w = Some (True, smbulks, p, w)"
| "read_children n i smbulks (Suc k) p w = do {
     (ok, child, p, w) \<leftarrow> do_read_reply n i False new_output False p w;
     if \<not> ok then Some (False, [], p, w)
     else read_children n i (smbulks @ [child]) k p w
   }"
  by pat_completeness auto
termination
  by (relation "inv_image (less_than <*lex*> less_than <*lex*> less_than)
        (\<lambda>a. case a of Inl (n, _) \<Rightarrow> (n, 0, 0) | Inr (n, i, s, k, _) \<Rightarrow> (n, Suc 0, k))") auto

declare do_read_reply.simps [simp del] read_children.simps [simp del]

text \<open>The bytes that the connection can still deliver.\<close>

definition avail :: "RedisProtocol \<Rightarrow> world \<Rightarrow> nat" where
  "avail p w = tcp_avail (tcp_client p) w"

definition read_reply :: "RedisCommand ptr \<Rightarrow> RedisProtocol \<Rightarrow> world
    \<Rightarrow> (bool \<times> RedisCommand ptr \<times> RedisProtocol \<times> world) option" where
  "read_reply cp p w =
     (case cp of None \<Rightarrow> Some (False, None, p\<lparr>p_error := ''EINVAL''\<rparr>, w)
      | Some c \<Rightarrow> do {
          (ok, out, p, w) \<leftarrow> do_read_reply (Suc (avail p w)) (cmd_in c) True (cmd_out c) True p w;
          Some (ok, Some (c\<lparr>cmd_out := out\<rparr>), p, w)
        })"

section \<open>Executing commands\<close>

definition exec_command :: "RedisCommand ptr \<Rightarrow> RedisProtocol \<Rightarrow> world
    \<Rightarrow> (bool \<times> RedisCommand ptr \<times> RedisProtocol \<times> world) option" where
  "exec_command cp p w =
     (if cp = None then Some (False, None, p\<lparr>p_error := ''EINVAL''\<rparr>, w)
      else let (ok, cp, p, w) = write_command cp p w
      in if \<not> ok then Some (False, cp, p, w) else read_reply cp p w)"

text \<open>\<open>exec_commandv\<close> and the variadic overload that calls it.\<close>

definition exec_commandv :: "RedisCommand ptr \<Rightarrow> string option \<Rightarrow> RedisProtocol \<Rightarrow> world
    \<Rightarrow> (bool \<times> RedisCommand ptr \<times> RedisProtocol \<times> world) option" where
  "exec_commandv cp vs p w =
     (if cp = None then Some (False, None, p\<lparr>p_error := ''EINVAL''\<rparr>, w)
      else do {
        (ok, cp, p, w) \<leftarrow> write_commandv cp vs p w;
        if \<not> ok then Some (False, cp, p, w) else read_reply cp p w
      })"

definition pipeline_broken :: string where
  "pipeline_broken = ''connection has been broken during this pipeline operation''"

fun pipeline_write :: "RedisCommand ptr list \<Rightarrow> RedisProtocol \<Rightarrow> world
    \<Rightarrow> bool \<times> RedisCommand ptr list \<times> RedisProtocol \<times> world" where
  "pipeline_write [] p w = (True, [], p, w)"
| "pipeline_write (c # cs) p w =
     (let (ok, c, p, w) = write_command c p w
      in if \<not> ok then (False, c # cs, p, w)
         else let (b, p, w) = proto_is_open p w
         in if \<not> b then (False, c # cs, close_error pipeline_broken p w)
            else let (ok, cs, p, w) = pipeline_write cs p w in (ok, c # cs, p, w))"

fun pipeline_read :: "RedisCommand ptr list \<Rightarrow> RedisProtocol \<Rightarrow> world
    \<Rightarrow> (bool \<times> RedisCommand ptr list \<times> RedisProtocol \<times> world) option" where
  "pipeline_read [] p w = Some (True, [], p, w)"
| "pipeline_read (c # cs) p w = do {
     (ok, c, p, w) \<leftarrow> read_reply c p w;
     if \<not> ok then Some (False, c # cs, p, w)
     else (let (b, p, w) = proto_is_open p w
           in if \<not> b then Some (False, c # cs, close_error pipeline_broken p w)
              else do { (ok, cs, p, w) \<leftarrow> pipeline_read cs p w; Some (ok, c # cs, p, w) })
   }"

definition exec_pipeline :: "RedisCommand ptr list ptr \<Rightarrow> RedisProtocol \<Rightarrow> world
    \<Rightarrow> (bool \<times> RedisCommand ptr list ptr \<times> RedisProtocol \<times> world) option" where
  "exec_pipeline commands p w =
     (case commands of None \<Rightarrow> Some (False, None, p\<lparr>p_error := ''EINVAL''\<rparr>, w)
      | Some cs \<Rightarrow>
          (let (ok, cs, p, w) = pipeline_write cs p w
           in if \<not> ok then Some (False, Some cs, p, w)
              else do { (ok, cs, p, w) \<leftarrow> pipeline_read cs p w; Some (ok, Some cs, p, w) }))"

end
