(* ===== verification/Redis2.thy ===== *)
theory Redis2
  imports Redis_Protocol
begin

text \<open>
  The client for one server, \<open>src/src/redis.cpp\<close>.  Its state is a database index, a flag that
  the index still has to be selected, the commands queued in a transaction, and the protocol
  object.  The macros of the file are combinators with the macros' names; a method is a
  \<open>client_call\<close>: it returns its result (the success and the contents of its output cells), the
  client and the world, or does not return.

  Constants of type \<open>Redis2_<method>\<close> model the methods; an overload on a vector carries a
  suffix.  A \<open>double\<close> is its 64 bits; its text is \<open>boost::lexical_cast\<close>'s (the fields
  \<open>double_to_string\<close> and \<open>string_to_double\<close> of the world; a failing cast throws).
\<close>

section \<open>State and connection\<close>

record Redis2 =
  db_index :: int
  db_index_select_failure :: bool
  transaction_cmds :: "RedisCommand list"
  proto :: RedisProtocol

type_synonym 'r client_call = "Redis2 \<Rightarrow> world \<Rightarrow> ('r \<times> Redis2 \<times> world) option"

definition new_Redis2 :: "string \<Rightarrow> string \<Rightarrow> int \<Rightarrow> int \<Rightarrow> Redis2" where
  "new_Redis2 host port index timeout_ms =
     \<lparr>db_index = index, db_index_select_failure = True, transaction_cmds = [],
      proto = new_RedisProtocol host port timeout_ms\<rparr>"

definition last_error :: "string \<Rightarrow> Redis2 \<Rightarrow> Redis2" where
  "last_error err r = r\<lparr>proto := proto_set_error err (proto r)\<rparr>"

definition on_reset :: "Redis2 \<Rightarrow> Redis2" where
  "on_reset r =
     (let r = (if db_index r \<noteq> 0 then r\<lparr>db_index_select_failure := True\<rparr> else r)
      in r\<lparr>transaction_cmds := []\<rparr>)"

definition on_reply_type_error :: "RedisCommand \<Rightarrow> Redis2 \<Rightarrow> Redis2" where
  "on_reply_type_error c r =
     last_error (''expect '' @ reply_type_to_string (reply_type (command_info (cmd_in c)))
       @ '', but got '' @ reply_type_to_string (out_type (cmd_out c))) r"

definition Redis2_connect :: "Redis2 \<Rightarrow> world \<Rightarrow> bool \<times> Redis2 \<times> world" where
  "Redis2_connect r w = (let (ok, p, w) = proto_connect (proto r) w in (ok, r\<lparr>proto := p\<rparr>, w))"

definition Redis2_close :: "Redis2 \<Rightarrow> world \<Rightarrow> Redis2 \<times> world" where
  "Redis2_close r w = (let (p, w) = proto_close (proto r) w in (r\<lparr>proto := p\<rparr>, w))"

definition Redis2_available :: "Redis2 \<Rightarrow> world \<Rightarrow> bool \<times> world" where
  "Redis2_available r w = proto_available (proto r) w"

definition Redis2_is_open :: "Redis2 \<Rightarrow> world \<Rightarrow> bool \<times> Redis2 \<times> world" where
  "Redis2_is_open r w = (let (ok, p, w) = proto_is_open (proto r) w in (ok, r\<lparr>proto := p\<rparr>, w))"

definition Redis2_check_connect :: "Redis2 \<Rightarrow> world \<Rightarrow> bool \<times> Redis2 \<times> world" where
  "Redis2_check_connect r w = (let (ok, p, w) = check_connect (proto r) w in (ok, r\<lparr>proto := p\<rparr>, w))"

definition Redis2_set_blocking_mode :: "bool \<Rightarrow> Redis2 \<Rightarrow> Redis2" where
  "Redis2_set_blocking_mode b r = r\<lparr>proto := set_blocking_mode b (proto r)\<rparr>"

section \<open>Running one command\<close>

text \<open>\<open>proto_->exec_command(&c)\<close>\<close>

definition run_command :: "RedisCommand \<Rightarrow> (bool \<times> RedisCommand) client_call" where
  "run_command c r w = do {
     (ok, cp, p, w) \<leftarrow> exec_command (Some c) (proto r) w;
     Some ((ok, case cp of Some c \<Rightarrow> c | None \<Rightarrow> c), r\<lparr>proto := p\<rparr>, w)
   }"

text \<open>The declaration of a command and the \<open>push_arg\<close> statements that follow it.\<close>

definition command_with :: "kCommand \<Rightarrow> (RedisInput \<Rightarrow> RedisInput) list \<Rightarrow> RedisCommand" where
  "command_with cmd pushes =
     foldl (\<lambda>c push. c\<lparr>cmd_in := push (cmd_in c)\<rparr>) (new_command cmd) pushes"

definition Redis2_select :: "int \<Rightarrow> bool client_call" where
  "Redis2_select index r w =
     (let ((ok, _), p, w) = proto_assure_connect None (proto r) w;
          r = r\<lparr>proto := p\<rparr>
      in if \<not> ok then Some (False, r, w)
         else do {
           ((ok, c), r, w) \<leftarrow> run_command (command_with SELECT [push_arg_int index]) r w;
           if \<not> ok then Some (False, r, w)
           else (let r = r\<lparr>db_index := index\<rparr>
                 in if is_status_ok (cmd_out c)
                    then Some (True, r\<lparr>db_index_select_failure := False\<rparr>, w)
                    else Some (False, on_reply_type_error c (r\<lparr>db_index_select_failure := True\<rparr>), w))
         })"

definition assure_connect :: "bool client_call" where
  "assure_connect r w =
     (let ((ok, status), p, w) = proto_assure_connect (Some 0) (proto r) w;
          r = r\<lparr>proto := p\<rparr>
      in if \<not> ok then Some (False, r, w)
         else let r = (if status = Some 1 then on_reset r else r)
         in if db_index r \<noteq> 0 \<and> db_index_select_failure r
            then do {
              (ok, r, w) \<leftarrow> Redis2_select (db_index r) r w;
              if \<not> ok then Some (False, r, w) else Some (True, r, w)
            }
            else Some (True, r, w))"

section \<open>The macros\<close>

text \<open>Each takes the value that is returned (with \<open>false\<close>) on failure, and what follows it.\<close>

definition CHECK_EXPR :: "bool \<Rightarrow> 'r \<Rightarrow> 'r client_call \<Rightarrow> 'r client_call" where
  "CHECK_EXPR b fail k r w = (if \<not> b then Some (fail, last_error ''EINVAL'' r, w) else k r w)"

definition CHECK_PTR_PARAM :: "'a ptr \<Rightarrow> 'r \<Rightarrow> 'r client_call \<Rightarrow> 'r client_call" where
  "CHECK_PTR_PARAM p = CHECK_EXPR (p \<noteq> None)"

text \<open>\<open>if (!assure_connect()) return false; ... if (!proto_->exec_command(&c)) return false;\<close>\<close>

definition connected_run :: "RedisCommand \<Rightarrow> 'r \<Rightarrow> (RedisCommand \<Rightarrow> 'r client_call) \<Rightarrow> 'r client_call" where
  "connected_run c fail k r w = do {
     (ok, r, w) \<leftarrow> assure_connect r w;
     if \<not> ok then Some (fail, r, w)
     else do {
       ((ok, c), r, w) \<leftarrow> run_command c r w;
       if \<not> ok then Some (fail, r, w) else k c r w
     }
   }"

definition CHECK_STATUS_OK :: "RedisCommand \<Rightarrow> bool client_call" where
  "CHECK_STATUS_OK c r w =
     (if is_status_ok (cmd_out c) then Some (True, r, w)
      else Some (False, on_reply_type_error c r, w))"

definition CHECK_STATUS_PONG :: "RedisCommand \<Rightarrow> bool client_call" where
  "CHECK_STATUS_PONG c r w =
     (if is_status_pong (cmd_out c) then Some (True, r, w)
      else Some (False, on_reply_type_error c r, w))"

definition GET_INTEGER_REPLY :: "int ptr \<Rightarrow> RedisCommand \<Rightarrow> (bool \<times> int ptr) client_call" where
  "GET_INTEGER_REPLY ret c r w = do {
     (ok, ret) \<leftarrow> get_i ret (cmd_out c);
     if ok then Some ((True, ret), r, w) else Some ((False, ret), on_reply_type_error c r, w)
   }"

text \<open>\<open>*is_nil\<close> is written without a check of the pointer here.\<close>

definition GET_BULK_REPLY ::
  "string ptr \<Rightarrow> bool ptr \<Rightarrow> RedisCommand \<Rightarrow> (bool \<times> string ptr \<times> bool ptr) client_call" where
  "GET_BULK_REPLY ret is_nil c r w = do {
     (ok, ret, out) \<leftarrow> get_bulk ret (cmd_out c);
     let c = c\<lparr>cmd_out := out\<rparr>;
     if ok then do { assertion (is_nil \<noteq> None); Some ((True, ret, Some False), r, w) }
     else if is_nil_bulk (cmd_out c)
     then do { assertion (is_nil \<noteq> None); Some ((True, ret, Some True), r, w) }
     else Some ((False, ret, is_nil), on_reply_type_error c r, w)
   }"

definition GET_BULK_REPLY2 :: "string ptr \<Rightarrow> RedisCommand \<Rightarrow> (bool \<times> string ptr) client_call" where
  "GET_BULK_REPLY2 ret c r w = do {
     (ok, ret, out) \<leftarrow> get_bulk ret (cmd_out c);
     let c = c\<lparr>cmd_out := out\<rparr>;
     if ok then Some ((True, ret), r, w) else Some ((False, ret), on_reply_type_error c r, w)
   }"

definition GET_MBULKS_REPLY :: "mbulk ptr \<Rightarrow> RedisCommand \<Rightarrow> (bool \<times> mbulk ptr) client_call" where
  "GET_MBULKS_REPLY ret c r w = do {
     (ok, ret, out) \<leftarrow> get_mbulks ret (cmd_out c);
     let c = c\<lparr>cmd_out := out\<rparr>;
     if ok then Some ((True, ret), r, w) else Some ((False, ret), on_reply_type_error c r, w)
   }"

text \<open>The bodies shared by the methods of one reply type.\<close>

type_synonym int_call = "(bool \<times> int ptr) client_call"
type_synonym bulk_call = "(bool \<times> string ptr \<times> bool ptr) client_call"
type_synonym string_call = "(bool \<times> string ptr) client_call"
type_synonym mbulks_call = "(bool \<times> mbulk ptr) client_call"
type_synonym double_call = "(bool \<times> 64 word ptr) client_call"

definition integer_command :: "int ptr \<Rightarrow> RedisCommand \<Rightarrow> int_call" where
  "integer_command ret c =
     CHECK_PTR_PARAM ret (False, ret) (connected_run c (False, ret) (GET_INTEGER_REPLY ret))"

definition bulk_command :: "string ptr \<Rightarrow> bool ptr \<Rightarrow> RedisCommand \<Rightarrow> bulk_call" where
  "bulk_command ret is_nil c =
     CHECK_PTR_PARAM ret (False, ret, is_nil)
       (CHECK_PTR_PARAM is_nil (False, ret, is_nil)
         (connected_run c (False, ret, is_nil) (GET_BULK_REPLY ret is_nil)))"

definition bulk_command2 :: "string ptr \<Rightarrow> RedisCommand \<Rightarrow> string_call" where
  "bulk_command2 ret c =
     CHECK_PTR_PARAM ret (False, ret) (connected_run c (False, ret) (GET_BULK_REPLY2 ret))"

definition mbulks_command :: "mbulk ptr \<Rightarrow> RedisCommand \<Rightarrow> mbulks_call" where
  "mbulks_command ret c =
     CHECK_PTR_PARAM ret (False, ret) (connected_run c (False, ret) (GET_MBULKS_REPLY ret))"

definition status_command :: "RedisCommand \<Rightarrow> bool client_call" where
  "status_command c = connected_run c False CHECK_STATUS_OK"

text \<open>The end of the methods that return a \<open>double\<close>: \<open>boost::lexical_cast\<close> of the bulk.\<close>

definition GET_DOUBLE_REPLY :: "64 word ptr \<Rightarrow> RedisCommand \<Rightarrow> double_call" where
  "GET_DOUBLE_REPLY ret c r w = do {
     (ok, s, out) \<leftarrow> get_bulk (Some []) (cmd_out c);
     let c = c\<lparr>cmd_out := out\<rparr>;
     if ok
     then do { s \<leftarrow> s; d \<leftarrow> string_to_double w s; Some ((True, Some d), r, w) }
     else Some ((False, ret), on_reply_type_error c r, w)
   }"

definition double_command :: "64 word ptr \<Rightarrow> RedisCommand \<Rightarrow> double_call" where
  "double_command ret c =
     CHECK_PTR_PARAM ret (False, ret) (connected_run c (False, ret) (GET_DOUBLE_REPLY ret))"

record ZRangebyscoreLimit =
  zoffset :: int
  zlimit_count :: int

datatype kZUnionstoreAggregate = kSum | kMin | kMax

section \<open>Keys\<close>

definition Redis2_del :: "string \<Rightarrow> int ptr \<Rightarrow> int_call" where
  "Redis2_del key ret =
     integer_command ret (command_with DEL [push_arg key])"

definition Redis2_del_keys :: "string list \<Rightarrow> int ptr \<Rightarrow> int_call" where
  "Redis2_del_keys keys ret =
     integer_command ret (command_with DEL [push_args keys])"

text \<open>\<open>dump\<close> does not check \<open>is_nil\<close>.\<close>

definition Redis2_dump :: "string \<Rightarrow> string ptr \<Rightarrow> bool ptr \<Rightarrow> bulk_call" where
  "Redis2_dump key ret is_nil =
     CHECK_PTR_PARAM ret (False, ret, is_nil)
       (connected_run (command_with DUMP [push_arg key]) (False, ret, is_nil)
         (GET_BULK_REPLY ret is_nil))"

definition Redis2_exists :: "string \<Rightarrow> int ptr \<Rightarrow> int_call" where
  "Redis2_exists key ret =
     integer_command ret (command_with EXISTS [push_arg key])"

definition Redis2_expire :: "string \<Rightarrow> int \<Rightarrow> int ptr \<Rightarrow> int_call" where
  "Redis2_expire key seconds ret =
     integer_command ret (command_with EXPIRE [push_arg key, push_arg_int seconds])"

definition Redis2_expireat :: "string \<Rightarrow> int \<Rightarrow> int ptr \<Rightarrow> int_call" where
  "Redis2_expireat key abs_seconds ret =
     integer_command ret (command_with EXPIREAT [push_arg key, push_arg_int abs_seconds])"

definition Redis2_keys :: "string \<Rightarrow> mbulk ptr \<Rightarrow> mbulks_call" where
  "Redis2_keys pattern ret =
     mbulks_command ret (command_with KEYS [push_arg pattern])"

definition Redis2_move :: "string \<Rightarrow> int \<Rightarrow> int ptr \<Rightarrow> int_call" where
  "Redis2_move key db ret =
     integer_command ret (command_with MOVE [push_arg key, push_arg_int db])"

definition Redis2_persist :: "string \<Rightarrow> int ptr \<Rightarrow> int_call" where
  "Redis2_persist key ret =
     integer_command ret (command_with PERSIST [push_arg key])"

definition Redis2_pexpire :: "string \<Rightarrow> int \<Rightarrow> int ptr \<Rightarrow> int_call" where
  "Redis2_pexpire key milliseconds ret =
     integer_command ret (command_with PEXPIRE [push_arg key, push_arg_int milliseconds])"

definition Redis2_pexpireat :: "string \<Rightarrow> int \<Rightarrow> int ptr \<Rightarrow> int_call" where
  "Redis2_pexpireat key abs_milliseconds ret =
     integer_command ret (command_with PEXPIREAT [push_arg key, push_arg_int abs_milliseconds])"

definition Redis2_pttl :: "string \<Rightarrow> int ptr \<Rightarrow> int_call" where
  "Redis2_pttl key ret =
     integer_command ret (command_with PTTL [push_arg key])"

definition Redis2_restore :: "string \<Rightarrow> int \<Rightarrow> string \<Rightarrow> bool client_call" where
  "Redis2_restore key ttl value =
     status_command (command_with RESTORE [push_arg key, push_arg_int ttl, push_arg value])"

definition Redis2_randomkey :: "string ptr \<Rightarrow> bool ptr \<Rightarrow> bulk_call" where
  "Redis2_randomkey ret is_nil =
     bulk_command ret is_nil (command_with RANDOMKEY [])"

definition Redis2_sort :: "string \<Rightarrow> string list ptr \<Rightarrow> mbulk ptr \<Rightarrow> mbulks_call" where
  "Redis2_sort key phrases ret =
     mbulks_command ret (command_with SORT
       (push_arg key # (case phrases of None \<Rightarrow> [] | Some ph \<Rightarrow> [push_args ph])))"

definition Redis2_ttl :: "string \<Rightarrow> int ptr \<Rightarrow> int_call" where
  "Redis2_ttl key ret =
     integer_command ret (command_with TTL [push_arg key])"

definition Redis2_type :: "string \<Rightarrow> string ptr \<Rightarrow> string_call" where
  "Redis2_type key ret =
     CHECK_PTR_PARAM ret (False, ret)
       (connected_run (command_with TYPE_CMD [push_arg key]) (False, ret)
         (\<lambda>c r w. do {
            (ok, ret) \<leftarrow> get_status ret (cmd_out c);
            if ok then Some ((True, ret), r, w)
            else Some ((False, ret), on_reply_type_error c r, w)
          }))"

section \<open>Strings\<close>

definition Redis2_append :: "string \<Rightarrow> string \<Rightarrow> int ptr \<Rightarrow> int_call" where
  "Redis2_append key value ret =
     integer_command ret (command_with APPEND [push_arg key, push_arg value])"

definition Redis2_decr :: "string \<Rightarrow> int ptr \<Rightarrow> int_call" where
  "Redis2_decr key ret =
     integer_command ret (command_with DECR [push_arg key])"

definition Redis2_decrby :: "string \<Rightarrow> int \<Rightarrow> int ptr \<Rightarrow> int_call" where
  "Redis2_decrby key dec ret =
     integer_command ret (command_with DECRBY [push_arg key, push_arg_int dec])"

definition Redis2_get :: "string \<Rightarrow> string ptr \<Rightarrow> bool ptr \<Rightarrow> bulk_call" where
  "Redis2_get key ret is_nil =
     bulk_command ret is_nil (command_with GET [push_arg key])"

definition Redis2_getbit :: "string \<Rightarrow> int \<Rightarrow> int ptr \<Rightarrow> int_call" where
  "Redis2_getbit key offset ret =
     integer_command ret (command_with GETBIT [push_arg key, push_arg_int offset])"

definition Redis2_getrange :: "string \<Rightarrow> int \<Rightarrow> int \<Rightarrow> string ptr \<Rightarrow> bool ptr \<Rightarrow> bulk_call" where
  "Redis2_getrange key start stop ret is_nil =
     bulk_command ret is_nil (command_with GETRANGE [push_arg key, push_arg_int start, push_arg_int stop])"

definition Redis2_getset :: "string \<Rightarrow> string \<Rightarrow> string ptr \<Rightarrow> bool ptr \<Rightarrow> bulk_call" where
  "Redis2_getset key value ret is_nil =
     bulk_command ret is_nil (command_with GETSET [push_arg key, push_arg value])"

definition Redis2_incr :: "string \<Rightarrow> int ptr \<Rightarrow> int_call" where
  "Redis2_incr key ret =
     integer_command ret (command_with INCR [push_arg key])"

definition Redis2_incrby :: "string \<Rightarrow> int \<Rightarrow> int ptr \<Rightarrow> int_call" where
  "Redis2_incrby key inc ret =
     integer_command ret (command_with INCRBY [push_arg key, push_arg_int inc])"

definition Redis2_incrbyfloat :: "string \<Rightarrow> 64 word \<Rightarrow> 64 word ptr \<Rightarrow> double_call" where
  "Redis2_incrbyfloat key inc ret r w =
     double_command ret (command_with INCRBYFLOAT [push_arg key, push_arg_double (double_to_string w) inc]) r w"

definition Redis2_mget :: "string list \<Rightarrow> mbulk ptr \<Rightarrow> mbulks_call" where
  "Redis2_mget keys ret =
     mbulks_command ret (command_with MGET [push_args keys])"

text \<open>The loop that pushes pairs.\<close>

definition push_pairs :: "string list \<Rightarrow> string list \<Rightarrow> (RedisInput \<Rightarrow> RedisInput) list" where
  "push_pairs ks vs = concat (map (\<lambda>(k, v). [push_arg k, push_arg v]) (zip ks vs))"

definition Redis2_mset :: "string list \<Rightarrow> string list \<Rightarrow> bool client_call" where
  "Redis2_mset keys values =
     CHECK_EXPR (length keys = length values) False
       (status_command (command_with MSET (push_pairs keys values)))"

definition Redis2_psetex :: "string \<Rightarrow> int \<Rightarrow> string \<Rightarrow> bool client_call" where
  "Redis2_psetex key milliseconds value =
     status_command (command_with PSETEX [push_arg key, push_arg_int milliseconds, push_arg value])"

definition Redis2_set :: "string \<Rightarrow> string \<Rightarrow> bool client_call" where
  "Redis2_set key value =
     status_command (command_with SET [push_arg key, push_arg value])"

definition Redis2_setbit :: "string \<Rightarrow> int \<Rightarrow> int \<Rightarrow> int ptr \<Rightarrow> int_call" where
  "Redis2_setbit key offset bitval ret =
     integer_command ret (command_with SETBIT [push_arg key, push_arg_int offset, push_arg_int bitval])"

definition Redis2_setex :: "string \<Rightarrow> int \<Rightarrow> string \<Rightarrow> bool client_call" where
  "Redis2_setex key seconds value =
     status_command (command_with SETEX [push_arg key, push_arg_int seconds, push_arg value])"

definition Redis2_setnx :: "string \<Rightarrow> string \<Rightarrow> int ptr \<Rightarrow> int_call" where
  "Redis2_setnx key value ret =
     integer_command ret (command_with SETNX [push_arg key, push_arg value])"

definition Redis2_setrange :: "string \<Rightarrow> int \<Rightarrow> string \<Rightarrow> int ptr \<Rightarrow> int_call" where
  "Redis2_setrange key offset value ret =
     integer_command ret (command_with SETRANGE [push_arg key, push_arg_int offset, push_arg value])"

definition Redis2_strlen :: "string \<Rightarrow> int ptr \<Rightarrow> int_call" where
  "Redis2_strlen key ret =
     integer_command ret (command_with STRLEN [push_arg key])"

section \<open>Hashes\<close>

definition Redis2_hdel :: "string \<Rightarrow> string \<Rightarrow> int ptr \<Rightarrow> int_call" where
  "Redis2_hdel key field ret =
     integer_command ret (command_with HDEL [push_arg key, push_arg field])"

definition Redis2_hdel_fields :: "string \<Rightarrow> string list \<Rightarrow> int ptr \<Rightarrow> int_call" where
  "Redis2_hdel_fields key flds ret =
     integer_command ret (command_with HDEL [push_arg key, push_args flds])"

definition Redis2_hexists :: "string \<Rightarrow> string \<Rightarrow> int ptr \<Rightarrow> int_call" where
  "Redis2_hexists key field ret =
     integer_command ret (command_with HEXISTS [push_arg key, push_arg field])"

definition Redis2_hget :: "string \<Rightarrow> string \<Rightarrow> string ptr \<Rightarrow> bool ptr \<Rightarrow> bulk_call" where
  "Redis2_hget key field ret is_nil =
     bulk_command ret is_nil (command_with HGET [push_arg key, push_arg field])"

definition Redis2_hgetall :: "string \<Rightarrow> mbulk ptr \<Rightarrow> mbulks_call" where
  "Redis2_hgetall key ret =
     mbulks_command ret (command_with HGETALL [push_arg key])"

definition Redis2_hincrby :: "string \<Rightarrow> string \<Rightarrow> int \<Rightarrow> int ptr \<Rightarrow> int_call" where
  "Redis2_hincrby key field inc ret =
     integer_command ret (command_with HINCRBY [push_arg key, push_arg field, push_arg_int inc])"

definition Redis2_hincr :: "string \<Rightarrow> string \<Rightarrow> int ptr \<Rightarrow> int_call" where
  "Redis2_hincr key field ret = Redis2_hincrby key field 1 ret"

definition Redis2_hincrbyfloat :: "string \<Rightarrow> string \<Rightarrow> 64 word \<Rightarrow> 64 word ptr \<Rightarrow> double_call" where
  "Redis2_hincrbyfloat key field inc ret r w =
     double_command ret (command_with HINCRBYFLOAT [push_arg key, push_arg field, push_arg_double (double_to_string w) inc]) r w"

definition Redis2_hkeys :: "string \<Rightarrow> mbulk ptr \<Rightarrow> mbulks_call" where
  "Redis2_hkeys key ret =
     mbulks_command ret (command_with HKEYS [push_arg key])"

definition Redis2_hlen :: "string \<Rightarrow> int ptr \<Rightarrow> int_call" where
  "Redis2_hlen key ret =
     integer_command ret (command_with HLEN [push_arg key])"

definition Redis2_hmget :: "string \<Rightarrow> string list \<Rightarrow> mbulk ptr \<Rightarrow> mbulks_call" where
  "Redis2_hmget key flds ret =
     mbulks_command ret (command_with HMGET [push_arg key, push_args flds])"

definition Redis2_hmset :: "string \<Rightarrow> string list \<Rightarrow> string list \<Rightarrow> bool client_call" where
  "Redis2_hmset key flds values =
     CHECK_EXPR (length flds = length values) False
       (status_command (command_with HMSET (push_arg key # push_pairs flds values)))"

text \<open>\<open>hset\<close> does not check \<open>_return\<close>.\<close>

definition Redis2_hset :: "string \<Rightarrow> string \<Rightarrow> string \<Rightarrow> int ptr \<Rightarrow> int_call" where
  "Redis2_hset key field value ret =
     connected_run (command_with HSET [push_arg key, push_arg field, push_arg value]) (False, ret)
       (GET_INTEGER_REPLY ret)"

definition Redis2_hsetnx :: "string \<Rightarrow> string \<Rightarrow> string \<Rightarrow> int ptr \<Rightarrow> int_call" where
  "Redis2_hsetnx key field value ret =
     integer_command ret (command_with HSETNX [push_arg key, push_arg field, push_arg value])"

definition Redis2_hvals :: "string \<Rightarrow> mbulk ptr \<Rightarrow> mbulks_call" where
  "Redis2_hvals key ret =
     mbulks_command ret (command_with HVALS [push_arg key])"

section \<open>Lists\<close>

text \<open>\<open>bxpop\<close>: the reading timeout is off while the server blocks.\<close>

definition blocking_run :: "RedisCommand \<Rightarrow> (bool \<times> RedisCommand) client_call" where
  "blocking_run c r w = do {
     let blocked = blocking_mode (proto r);
     (res, r, w) \<leftarrow> run_command c (Redis2_set_blocking_mode True r) w;
     Some (res, Redis2_set_blocking_mode blocked r, w)
   }"

definition bxpop :: "bool \<Rightarrow> string list \<Rightarrow> int \<Rightarrow> string ptr \<Rightarrow> string ptr \<Rightarrow> bool ptr
    \<Rightarrow> (bool \<times> string ptr \<times> string ptr \<times> bool ptr) client_call" where
  "bxpop is_blpop keys timeout key member expired =
     (let fail = (False, key, member, expired) in
      CHECK_PTR_PARAM key fail (CHECK_PTR_PARAM member fail (CHECK_PTR_PARAM expired fail
        (\<lambda>r w. do {
           (ok, r, w) \<leftarrow> assure_connect r w;
           if \<not> ok then Some (fail, r, w)
           else do {
             ((ok, c), r, w) \<leftarrow> blocking_run (command_with (if is_blpop then BLPOP else BRPOP)
                 [push_args keys, push_arg_int timeout]) r w;
             if \<not> ok then Some (fail, r, w)
             else do {
               (ok, mb, out) \<leftarrow> get_mbulks (Some []) (cmd_out c);
               let c = c\<lparr>cmd_out := out\<rparr>;
               (case (ok, mb) of
                  (True, Some [Some k, Some m]) \<Rightarrow> Some ((True, Some k, Some m, Some False), r, w)
                | _ \<Rightarrow>
                    if is_nil_mbulks (cmd_out c) then Some ((True, key, member, Some True), r, w)
                    else Some (fail, on_reply_type_error c r, w))
             }
           }
         }))))"

definition Redis2_lindex :: "string \<Rightarrow> int \<Rightarrow> string ptr \<Rightarrow> bool ptr \<Rightarrow> bulk_call" where
  "Redis2_lindex key index ret is_nil =
     bulk_command ret is_nil (command_with LINDEX [push_arg key, push_arg_int index])"

definition Redis2_linsert :: "string \<Rightarrow> bool \<Rightarrow> string \<Rightarrow> string \<Rightarrow> int ptr \<Rightarrow> int_call" where
  "Redis2_linsert key before pivot value ret =
     integer_command ret (command_with LINSERT
       [push_arg key, push_arg_cstr (Some (if before then ''BEFORE'' else ''AFTER'')),
        push_arg pivot, push_arg value])"

definition Redis2_llen :: "string \<Rightarrow> int ptr \<Rightarrow> int_call" where
  "Redis2_llen key ret =
     integer_command ret (command_with LLEN [push_arg key])"

definition Redis2_lpop :: "string \<Rightarrow> string ptr \<Rightarrow> bool ptr \<Rightarrow> bulk_call" where
  "Redis2_lpop key ret is_nil =
     bulk_command ret is_nil (command_with LPOP [push_arg key])"

definition Redis2_lpush :: "string \<Rightarrow> string \<Rightarrow> int ptr \<Rightarrow> int_call" where
  "Redis2_lpush key value ret =
     integer_command ret (command_with LPUSH [push_arg key, push_arg value])"

definition Redis2_lpush_values :: "string \<Rightarrow> string list \<Rightarrow> int ptr \<Rightarrow> int_call" where
  "Redis2_lpush_values key values ret =
     integer_command ret (command_with LPUSH [push_arg key, push_args values])"

definition Redis2_lpushx :: "string \<Rightarrow> string \<Rightarrow> int ptr \<Rightarrow> int_call" where
  "Redis2_lpushx key value ret =
     integer_command ret (command_with LPUSHX [push_arg key, push_arg value])"

definition Redis2_lrange :: "string \<Rightarrow> int \<Rightarrow> int \<Rightarrow> mbulk ptr \<Rightarrow> mbulks_call" where
  "Redis2_lrange key start stop ret =
     mbulks_command ret (command_with LRANGE [push_arg key, push_arg_int start, push_arg_int stop])"

definition Redis2_lrem :: "string \<Rightarrow> int \<Rightarrow> string \<Rightarrow> int ptr \<Rightarrow> int_call" where
  "Redis2_lrem key count value ret =
     integer_command ret (command_with LREM [push_arg key, push_arg_int count, push_arg value])"

definition Redis2_lset :: "string \<Rightarrow> int \<Rightarrow> string \<Rightarrow> bool client_call" where
  "Redis2_lset key index value =
     status_command (command_with LSET [push_arg key, push_arg_int index, push_arg value])"

definition Redis2_ltrim :: "string \<Rightarrow> int \<Rightarrow> int \<Rightarrow> bool client_call" where
  "Redis2_ltrim key start stop =
     status_command (command_with LTRIM [push_arg key, push_arg_int start, push_arg_int stop])"

definition Redis2_rpop :: "string \<Rightarrow> string ptr \<Rightarrow> bool ptr \<Rightarrow> bulk_call" where
  "Redis2_rpop key ret is_nil =
     bulk_command ret is_nil (command_with RPOP [push_arg key])"

definition Redis2_rpush :: "string \<Rightarrow> string \<Rightarrow> int ptr \<Rightarrow> int_call" where
  "Redis2_rpush key value ret =
     integer_command ret (command_with RPUSH [push_arg key, push_arg value])"

definition Redis2_rpush_values :: "string \<Rightarrow> string list \<Rightarrow> int ptr \<Rightarrow> int_call" where
  "Redis2_rpush_values key values ret =
     integer_command ret (command_with RPUSH [push_arg key, push_args values])"

definition Redis2_rpushx :: "string \<Rightarrow> string \<Rightarrow> int ptr \<Rightarrow> int_call" where
  "Redis2_rpushx key value ret =
     integer_command ret (command_with RPUSHX [push_arg key, push_arg value])"

section \<open>Sets\<close>

definition Redis2_sadd :: "string \<Rightarrow> string \<Rightarrow> int ptr \<Rightarrow> int_call" where
  "Redis2_sadd key member ret =
     integer_command ret (command_with SADD [push_arg key, push_arg member])"

definition Redis2_sadd_members :: "string \<Rightarrow> string list \<Rightarrow> int ptr \<Rightarrow> int_call" where
  "Redis2_sadd_members key members ret =
     integer_command ret (command_with SADD [push_arg key, push_args members])"

definition Redis2_scard :: "string \<Rightarrow> int ptr \<Rightarrow> int_call" where
  "Redis2_scard key ret =
     integer_command ret (command_with SCARD [push_arg key])"

definition Redis2_sismember :: "string \<Rightarrow> string \<Rightarrow> int ptr \<Rightarrow> int_call" where
  "Redis2_sismember key member ret =
     integer_command ret (command_with SISMEMBER [push_arg key, push_arg member])"

definition Redis2_smembers :: "string \<Rightarrow> mbulk ptr \<Rightarrow> mbulks_call" where
  "Redis2_smembers key ret =
     mbulks_command ret (command_with SMEMBERS [push_arg key])"

definition Redis2_spop :: "string \<Rightarrow> string ptr \<Rightarrow> bool ptr \<Rightarrow> bulk_call" where
  "Redis2_spop key ret is_nil =
     bulk_command ret is_nil (command_with SPOP [push_arg key])"

definition Redis2_srandmember :: "string \<Rightarrow> string ptr \<Rightarrow> bool ptr \<Rightarrow> bulk_call" where
  "Redis2_srandmember key ret is_nil =
     bulk_command ret is_nil (command_with SRANDMEMBER [push_arg key])"

definition Redis2_srem :: "string \<Rightarrow> string \<Rightarrow> int ptr \<Rightarrow> int_call" where
  "Redis2_srem key member ret =
     integer_command ret (command_with SREM [push_arg key, push_arg member])"

definition Redis2_srem_members :: "string \<Rightarrow> string list \<Rightarrow> int ptr \<Rightarrow> int_call" where
  "Redis2_srem_members key members ret =
     integer_command ret (command_with SREM [push_arg key, push_args members])"

section \<open>Sorted sets\<close>

definition Redis2_zadd :: "string \<Rightarrow> 64 word \<Rightarrow> string \<Rightarrow> int ptr \<Rightarrow> int_call" where
  "Redis2_zadd key score member ret r w =
     integer_command ret (command_with ZADD [push_arg key, push_arg_double (double_to_string w) score, push_arg member]) r w"

definition Redis2_zadd_scores ::
  "string \<Rightarrow> 64 word list \<Rightarrow> string list \<Rightarrow> int ptr \<Rightarrow> int_call" where
  "Redis2_zadd_scores key scores members ret r w =
     CHECK_PTR_PARAM ret (False, ret) (CHECK_EXPR (length scores = length members) (False, ret)
       (connected_run (command_with ZADD (push_arg key #
           concat (map (\<lambda>(s, m). [push_arg_double (double_to_string w) s, push_arg m])
             (zip scores members))))
         (False, ret) (GET_INTEGER_REPLY ret))) r w"

definition Redis2_zcard :: "string \<Rightarrow> int ptr \<Rightarrow> int_call" where
  "Redis2_zcard key ret =
     integer_command ret (command_with ZCARD [push_arg key])"

definition Redis2_zcount :: "string \<Rightarrow> string \<Rightarrow> string \<Rightarrow> int ptr \<Rightarrow> int_call" where
  "Redis2_zcount key mn mx ret =
     integer_command ret (command_with ZCOUNT [push_arg key, push_arg mn, push_arg mx])"

definition Redis2_zincrby :: "string \<Rightarrow> 64 word \<Rightarrow> string \<Rightarrow> 64 word ptr \<Rightarrow> double_call" where
  "Redis2_zincrby key increment member ret r w =
     double_command ret (command_with ZINCRBY [push_arg key, push_arg_double (double_to_string w) increment, push_arg member]) r w"

definition zxxxrange ::
  "bool \<Rightarrow> string \<Rightarrow> int \<Rightarrow> int \<Rightarrow> bool \<Rightarrow> mbulk ptr \<Rightarrow> mbulks_call" where
  "zxxxrange rv key start stop withscores ret =
     mbulks_command ret (command_with (if rv then ZREVRANGE else ZRANGE)
       ([push_arg key, push_arg_int start, push_arg_int stop]
        @ (if withscores then [push_arg_cstr (Some ''WITHSCORES'')] else [])))"

definition Redis2_zrange :: "string \<Rightarrow> int \<Rightarrow> int \<Rightarrow> bool \<Rightarrow> mbulk ptr \<Rightarrow> mbulks_call" where
  "Redis2_zrange key start stop withscores ret = zxxxrange False key start stop withscores ret"

definition Redis2_zrevrange :: "string \<Rightarrow> int \<Rightarrow> int \<Rightarrow> bool \<Rightarrow> mbulk ptr \<Rightarrow> mbulks_call" where
  "Redis2_zrevrange key start stop withscores ret = zxxxrange True key start stop withscores ret"

definition zxxxrangebyscore :: "bool \<Rightarrow> string \<Rightarrow> string \<Rightarrow> string \<Rightarrow> bool
    \<Rightarrow> ZRangebyscoreLimit ptr \<Rightarrow> mbulk ptr \<Rightarrow> mbulks_call" where
  "zxxxrangebyscore rv key mn mx withscores limit ret =
     mbulks_command ret (command_with (if rv then ZREVRANGEBYSCORE else ZRANGEBYSCORE)
       ([push_arg key, push_arg mn, push_arg mx]
        @ (if withscores then [push_arg_cstr (Some ''WITHSCORES'')] else [])
        @ (case limit of None \<Rightarrow> []
           | Some l \<Rightarrow> [push_arg_cstr (Some ''LIMIT''), push_arg_int (zoffset l),
                        push_arg_int (zlimit_count l)])))"

definition Redis2_zrangebyscore :: "string \<Rightarrow> string \<Rightarrow> string \<Rightarrow> bool
    \<Rightarrow> ZRangebyscoreLimit ptr \<Rightarrow> mbulk ptr \<Rightarrow> mbulks_call" where
  "Redis2_zrangebyscore key mn mx withscores limit ret =
     zxxxrangebyscore False key mn mx withscores limit ret"

definition Redis2_zrevrangebyscore :: "string \<Rightarrow> string \<Rightarrow> string \<Rightarrow> bool
    \<Rightarrow> ZRangebyscoreLimit ptr \<Rightarrow> mbulk ptr \<Rightarrow> mbulks_call" where
  "Redis2_zrevrangebyscore key mx mn withscores limit ret =
     zxxxrangebyscore True key mx mn withscores limit ret"

definition zxxxrank :: "bool \<Rightarrow> string \<Rightarrow> string \<Rightarrow> int ptr \<Rightarrow> bool ptr
    \<Rightarrow> (bool \<times> int ptr \<times> bool ptr) client_call" where
  "zxxxrank rv key member ret not_exists =
     (let fail = (False, ret, not_exists) in
      CHECK_PTR_PARAM ret fail (CHECK_PTR_PARAM not_exists fail
        (connected_run (command_with (if rv then ZREVRANK else ZRANK) [push_arg key, push_arg member]) fail
          (\<lambda>c r w. do {
             (ok, ret) \<leftarrow> get_i ret (cmd_out c);
             if ok then Some ((True, ret, Some False), r, w)
             else if is_nil_bulk (cmd_out c) then Some ((True, ret, Some True), r, w)
             else Some ((False, ret, not_exists), on_reply_type_error c r, w)
           }))))"

definition Redis2_zrank :: "string \<Rightarrow> string \<Rightarrow> int ptr \<Rightarrow> bool ptr
    \<Rightarrow> (bool \<times> int ptr \<times> bool ptr) client_call" where
  "Redis2_zrank key member ret not_exists = zxxxrank False key member ret not_exists"

definition Redis2_zrevrank :: "string \<Rightarrow> string \<Rightarrow> int ptr \<Rightarrow> bool ptr
    \<Rightarrow> (bool \<times> int ptr \<times> bool ptr) client_call" where
  "Redis2_zrevrank key member ret not_exists = zxxxrank True key member ret not_exists"

definition Redis2_zrem :: "string \<Rightarrow> string \<Rightarrow> int ptr \<Rightarrow> int_call" where
  "Redis2_zrem key member ret =
     integer_command ret (command_with ZREM [push_arg key, push_arg member])"

definition Redis2_zrem_members :: "string \<Rightarrow> string list \<Rightarrow> int ptr \<Rightarrow> int_call" where
  "Redis2_zrem_members key members ret =
     integer_command ret (command_with ZREM [push_arg key, push_args members])"

definition Redis2_zremrangebyrank :: "string \<Rightarrow> int \<Rightarrow> int \<Rightarrow> int ptr \<Rightarrow> int_call" where
  "Redis2_zremrangebyrank key start stop ret =
     integer_command ret (command_with ZREMRANGEBYRANK [push_arg key, push_arg_int start, push_arg_int stop])"

definition Redis2_zremrangebyscore :: "string \<Rightarrow> string \<Rightarrow> string \<Rightarrow> int ptr \<Rightarrow> int_call" where
  "Redis2_zremrangebyscore key mn mx ret =
     integer_command ret (command_with ZREMRANGEBYSCORE [push_arg key, push_arg mn, push_arg mx])"

definition Redis2_zscore :: "string \<Rightarrow> string \<Rightarrow> 64 word ptr \<Rightarrow> bool ptr
    \<Rightarrow> (bool \<times> 64 word ptr \<times> bool ptr) client_call" where
  "Redis2_zscore key member ret is_nil =
     (let fail = (False, ret, is_nil) in
      CHECK_PTR_PARAM ret fail (CHECK_PTR_PARAM is_nil fail
        (connected_run (command_with ZSCORE [push_arg key, push_arg member]) fail
          (\<lambda>c r w. do {
             (ok, s, out) \<leftarrow> get_bulk (Some []) (cmd_out c);
             let c = c\<lparr>cmd_out := out\<rparr>;
             if ok
             then do { s \<leftarrow> s; d \<leftarrow> string_to_double w s; Some ((True, Some d, Some False), r, w) }
             else if is_nil_bulk (cmd_out c) then Some ((True, ret, Some True), r, w)
             else Some (fail, on_reply_type_error c r, w)
           }))))"

section \<open>Commands of a single server\<close>

definition Redis2_flushall :: "bool client_call" where
  "Redis2_flushall =
     status_command (command_with FLUSHALL [])"

definition Redis2_flushdb :: "bool client_call" where
  "Redis2_flushdb =
     status_command (command_with FLUSHDB [])"

definition Redis2_rename :: "string \<Rightarrow> string \<Rightarrow> bool client_call" where
  "Redis2_rename key newkey =
     status_command (command_with RENAME [push_arg key, push_arg newkey])"

definition Redis2_renamenx :: "string \<Rightarrow> string \<Rightarrow> int ptr \<Rightarrow> int_call" where
  "Redis2_renamenx key newkey ret =
     integer_command ret (command_with RENAMENX [push_arg key, push_arg newkey])"

definition Redis2_blpop :: "string list \<Rightarrow> int \<Rightarrow> string ptr \<Rightarrow> string ptr \<Rightarrow> bool ptr
    \<Rightarrow> (bool \<times> string ptr \<times> string ptr \<times> bool ptr) client_call" where
  "Redis2_blpop keys timeout key member expired = bxpop True keys timeout key member expired"

definition Redis2_brpop :: "string list \<Rightarrow> int \<Rightarrow> string ptr \<Rightarrow> string ptr \<Rightarrow> bool ptr
    \<Rightarrow> (bool \<times> string ptr \<times> string ptr \<times> bool ptr) client_call" where
  "Redis2_brpop keys timeout key member expired = bxpop False keys timeout key member expired"

definition Redis2_brpoplpush :: "string \<Rightarrow> string \<Rightarrow> int \<Rightarrow> string ptr \<Rightarrow> bool ptr
    \<Rightarrow> (bool \<times> string ptr \<times> bool ptr) client_call" where
  "Redis2_brpoplpush source destination timeout member expired =
     (let fail = (False, member, expired) in
      CHECK_PTR_PARAM member fail (CHECK_PTR_PARAM expired fail
        (\<lambda>r w. do {
           (ok, r, w) \<leftarrow> assure_connect r w;
           if \<not> ok then Some (fail, r, w)
           else do {
             ((ok, c), r, w) \<leftarrow> blocking_run (command_with BRPOPLPUSH
                 [push_arg source, push_arg destination, push_arg_int timeout]) r w;
             if \<not> ok then Some (fail, r, w)
             else do {
               (ok, member, out) \<leftarrow> get_bulk member (cmd_out c);
               let c = c\<lparr>cmd_out := out\<rparr>;
               if ok then Some ((True, member, Some False), r, w)
               else if is_nil_smbulks (cmd_out c) then Some ((True, member, Some True), r, w)
               else Some ((False, member, expired), on_reply_type_error c r, w)
             }
           }
         })))"

definition Redis2_rpoplpush :: "string \<Rightarrow> string \<Rightarrow> string ptr \<Rightarrow> bool ptr \<Rightarrow> bulk_call" where
  "Redis2_rpoplpush source destination ret is_nil =
     bulk_command ret is_nil (command_with RPOPLPUSH [push_arg source, push_arg destination])"

definition Redis2_sdiff :: "string list \<Rightarrow> mbulk ptr \<Rightarrow> mbulks_call" where
  "Redis2_sdiff keys ret =
     mbulks_command ret (command_with SDIFF [push_args keys])"

definition Redis2_sdiffstore :: "string \<Rightarrow> string list \<Rightarrow> int ptr \<Rightarrow> int_call" where
  "Redis2_sdiffstore destination keys ret =
     integer_command ret (command_with SDIFFSTORE [push_arg destination, push_args keys])"

definition Redis2_sinter :: "string list \<Rightarrow> mbulk ptr \<Rightarrow> mbulks_call" where
  "Redis2_sinter keys ret =
     mbulks_command ret (command_with SINTER [push_args keys])"

definition Redis2_sinterstore :: "string \<Rightarrow> string list \<Rightarrow> int ptr \<Rightarrow> int_call" where
  "Redis2_sinterstore destination keys ret =
     integer_command ret (command_with SINTERSTORE [push_arg destination, push_args keys])"

definition Redis2_smove :: "string \<Rightarrow> string \<Rightarrow> string \<Rightarrow> int ptr \<Rightarrow> int_call" where
  "Redis2_smove source destination member ret =
     integer_command ret (command_with SMOVE [push_arg source, push_arg destination, push_arg member])"

definition Redis2_sunion :: "string list \<Rightarrow> mbulk ptr \<Rightarrow> mbulks_call" where
  "Redis2_sunion keys ret =
     mbulks_command ret (command_with SUNION [push_args keys])"

definition Redis2_sunionstore :: "string \<Rightarrow> string list \<Rightarrow> int ptr \<Rightarrow> int_call" where
  "Redis2_sunionstore destination keys ret =
     integer_command ret (command_with SUNIONSTORE [push_arg destination, push_args keys])"

definition zxxxxxstore :: "bool \<Rightarrow> string \<Rightarrow> string list \<Rightarrow> 64 word list ptr
    \<Rightarrow> kZUnionstoreAggregate \<Rightarrow> int ptr \<Rightarrow> int_call" where
  "zxxxxxstore is_zinterstore destination keys weights agg ret r w =
     integer_command ret (command_with (if is_zinterstore then ZINTERSTORE else ZUNIONSTORE)
       ([push_arg destination, push_arg_int (int (length keys)), push_args keys]
        @ (case weights of None \<Rightarrow> []
           | Some ws \<Rightarrow> [push_arg_cstr (Some ''WEIGHTS''), push_arg_doubles (double_to_string w) ws])
        @ (case agg of
             kMin \<Rightarrow> [push_arg_cstr (Some ''AGGREGATE''), push_arg_cstr (Some ''MIN'')]
           | kMax \<Rightarrow> [push_arg_cstr (Some ''AGGREGATE''), push_arg_cstr (Some ''MAX'')]
           | kSum \<Rightarrow> []))) r w"

definition Redis2_zinterstore :: "string \<Rightarrow> string list \<Rightarrow> 64 word list ptr
    \<Rightarrow> kZUnionstoreAggregate \<Rightarrow> int ptr \<Rightarrow> int_call" where
  "Redis2_zinterstore destination keys weights agg ret =
     zxxxxxstore True destination keys weights agg ret"

definition Redis2_zunionstore :: "string \<Rightarrow> string list \<Rightarrow> 64 word list ptr
    \<Rightarrow> kZUnionstoreAggregate \<Rightarrow> int ptr \<Rightarrow> int_call" where
  "Redis2_zunionstore destination keys weights agg ret =
     zxxxxxstore False destination keys weights agg ret"

text \<open>Commands the caller builds.\<close>

definition Redis2_exec_command :: "RedisCommand ptr \<Rightarrow> (bool \<times> RedisCommand ptr) client_call" where
  "Redis2_exec_command cmdp =
     CHECK_PTR_PARAM cmdp (False, cmdp)
       (\<lambda>r w. do {
          (ok, r, w) \<leftarrow> assure_connect r w;
          if \<not> ok then Some ((False, cmdp), r, w)
          else do {
            (ok, c, p, w) \<leftarrow> exec_command cmdp (proto r) w;
            Some ((ok, c), r\<lparr>proto := p\<rparr>, w)
          }
        })"

definition Redis2_exec_commandv ::
  "RedisCommand ptr \<Rightarrow> string option \<Rightarrow> (bool \<times> RedisCommand ptr) client_call" where
  "Redis2_exec_commandv cmdp vs =
     CHECK_PTR_PARAM cmdp (False, cmdp)
       (\<lambda>r w. do {
          (ok, r, w) \<leftarrow> assure_connect r w;
          if \<not> ok then Some ((False, cmdp), r, w)
          else do {
            (ok, c, p, w) \<leftarrow> exec_commandv cmdp vs (proto r) w;
            Some ((ok, c), r\<lparr>proto := p\<rparr>, w)
          }
        })"

definition Redis2_exec_pipeline ::
  "RedisCommand ptr list ptr \<Rightarrow> (bool \<times> RedisCommand ptr list ptr) client_call" where
  "Redis2_exec_pipeline commands =
     CHECK_PTR_PARAM commands (False, commands)
       (\<lambda>r w. do {
          (ok, r, w) \<leftarrow> assure_connect r w;
          if \<not> ok then Some ((False, commands), r, w)
          else do {
            (ok, cs, p, w) \<leftarrow> exec_pipeline commands (proto r) w;
            Some ((ok, cs), r\<lparr>proto := p\<rparr>, w)
          }
        })"

definition Redis2_publish :: "string \<Rightarrow> string \<Rightarrow> int ptr \<Rightarrow> int_call" where
  "Redis2_publish channel message ret =
     integer_command ret (command_with PUBLISH [push_arg channel, push_arg message])"

section \<open>Transactions\<close>

definition Redis2_multi :: "bool client_call" where
  "Redis2_multi =
     status_command (command_with MULTI [])"

definition Redis2_unwatch :: "bool client_call" where
  "Redis2_unwatch =
     status_command (command_with UNWATCH [])"

definition Redis2_watch :: "string list \<Rightarrow> bool client_call" where
  "Redis2_watch keys =
     status_command (command_with WATCH [push_args keys])"

text \<open>\<open>add_command\<close> moves the command into a fresh one (the caller's becomes empty), runs it, and
  queues it.  The first overload returns \<open>false\<close> in every case.\<close>

definition add_command :: "RedisCommand ptr \<Rightarrow> (bool \<times> RedisCommand ptr) client_call" where
  "add_command cmdp =
     CHECK_PTR_PARAM cmdp (False, cmdp)
       (\<lambda>r w. let (ok, r, w) = Redis2_check_connect r w
        in if \<not> ok then Some ((False, cmdp), r, w)
           else do {
             c \<leftarrow> cmdp;
             let (inner, c) = swap_command (new_command NOOP) c;
             ((ok, inner), r, w) \<leftarrow> run_command inner r w;
             if \<not> ok then Some ((False, Some c), r, w)
             else Some ((False, Some c), r\<lparr>transaction_cmds := transaction_cmds r @ [inner]\<rparr>, w)
           })"

definition add_commandv ::
  "RedisCommand ptr \<Rightarrow> string option \<Rightarrow> (bool \<times> RedisCommand ptr) client_call" where
  "add_commandv cmdp vs =
     CHECK_PTR_PARAM cmdp (False, cmdp)
       (\<lambda>r w. let (ok, r, w) = Redis2_check_connect r w
        in if \<not> ok then Some ((False, cmdp), r, w)
           else do {
             c \<leftarrow> cmdp;
             let (inner, c) = swap_command (new_command NOOP) c;
             (ok, ip, p, w) \<leftarrow> exec_commandv (Some inner) vs (proto r) w;
             let r = r\<lparr>proto := p\<rparr>;
             inner \<leftarrow> ip;
             if \<not> ok then Some ((False, Some c), r, w)
             else Some ((True, Some c), r\<lparr>transaction_cmds := transaction_cmds r @ [inner]\<rparr>, w)
           })"

text \<open>One round of the loop of \<open>exec\<close>: the child goes into the queued command, and children
  that are all bulks become a multi-bulk.\<close>

definition deliver :: "RedisOutput \<Rightarrow> RedisCommand \<Rightarrow> RedisCommand option" where
  "deliver out c = do {
     out \<leftarrow> (case out of
        RedisOutput kSpecialMultiBulk (SmbulksPtr smb) \<Rightarrow>
          if convertible_2_mbulks smb
          then do {
            (_, _, mb) \<leftarrow> convert_smbulks (Some smb) (Some []);
            Some (set_mbulks mb out)
          }
          else Some out
      | _ \<Rightarrow> Some out);
     Some (c\<lparr>cmd_out := out\<rparr>)
   }"

fun deliver_all :: "RedisOutput list \<Rightarrow> RedisCommand list \<Rightarrow> RedisCommand list option" where
  "deliver_all (out # outs) (c # cs) = do {
     c \<leftarrow> deliver out c; cs \<leftarrow> deliver_all outs cs; Some (c # cs)
   }"
| "deliver_all _ _ = Some []"

definition Redis2_exec :: "RedisCommand list ptr \<Rightarrow> (bool \<times> RedisCommand list ptr) client_call" where
  "Redis2_exec commands =
     CHECK_PTR_PARAM commands (False, commands)
       (\<lambda>r w. let (ok, r, w) = Redis2_check_connect r w
        in if \<not> ok then Some ((False, commands), r, w)
           else do {
             ((ok, c), r, w) \<leftarrow> run_command (command_with EXEC []) r w;
             if \<not> ok then Some ((False, commands), r, w)
             else do {
               (ok, smb, out) \<leftarrow> get_smbulks (Some []) (cmd_out c);
               let c = c\<lparr>cmd_out := out\<rparr>;
               smb \<leftarrow> smb;
               if ok \<and> length smb = length (transaction_cmds r)
               then do {
                 cs \<leftarrow> deliver_all smb (transaction_cmds r);
                 Some ((True, Some cs), r\<lparr>transaction_cmds := []\<rparr>, w)
               }
               else Some ((False, commands), on_reply_type_error c r, w)
             }
           })"

definition Redis2_discard :: "bool client_call" where
  "Redis2_discard r w =
     (let (ok, r, w) = Redis2_check_connect r w
      in if \<not> ok then Some (False, r, w)
         else do {
           ((ok, c), r, w) \<leftarrow> run_command (command_with DISCARD []) r w;
           if \<not> ok then Some (False, r, w)
           else if is_status_ok (cmd_out c) then Some (True, r\<lparr>transaction_cmds := []\<rparr>, w)
           else Some (False, on_reply_type_error c r, w)
         })"

section \<open>Server\<close>

definition Redis2_ping :: "bool client_call" where
  "Redis2_ping = connected_run (command_with PING []) False CHECK_STATUS_PONG"

definition Redis2_bgrewriteaof :: "bool client_call" where
  "Redis2_bgrewriteaof =
     connected_run (command_with BGREWRITEAOF []) False (\<lambda>c r w. Some (is_status (cmd_out c), r, w))"

definition Redis2_bgsave :: "bool client_call" where
  "Redis2_bgsave =
     status_command (command_with BGSAVE [])"

definition Redis2_dbsize :: "int ptr \<Rightarrow> int_call" where
  "Redis2_dbsize ret =
     integer_command ret (command_with DBSIZE [])"

definition Redis2_info :: "string ptr \<Rightarrow> string_call" where
  "Redis2_info ret = bulk_command2 ret (command_with INFO [])"

definition Redis2_info_type :: "string \<Rightarrow> string ptr \<Rightarrow> string_call" where
  "Redis2_info_type type ret = bulk_command2 ret (command_with INFO [push_arg type])"

definition Redis2_lastsave :: "int ptr \<Rightarrow> int_call" where
  "Redis2_lastsave ret =
     integer_command ret (command_with LASTSAVE [])"

definition Redis2_slaveof :: "string \<Rightarrow> string \<Rightarrow> bool client_call" where
  "Redis2_slaveof host port =
     status_command (command_with SLAVEOF [push_arg host, push_arg port])"

end
