(* ===== verification/Protocol_Progress.thy ===== *)
theory Protocol_Progress
  imports Redis_Protocol
begin

text \<open>
  What reading a reply does in every world: the buffer invariant survives, the bytes that the
  connection can deliver only decrease, a failed read of the protocol closes the connection,
  and the bound on the nesting in \<open>read_reply\<close> is never reached.
\<close>

definition proto_inv :: "RedisProtocol \<Rightarrow> bool" where
  "proto_inv p = tcp_inv (tcp_client p)"

text \<open>From \<open>p\<close>, \<open>w\<close> on: the invariant holds and nothing was added to what can be read.\<close>

definition spent :: "RedisProtocol \<Rightarrow> world \<Rightarrow> RedisProtocol \<times> world \<Rightarrow> bool" where
  "spent p w s \<longleftrightarrow> proto_inv (fst s) \<and> avail (fst s) (snd s) \<le> avail p w"

lemma spent_refl: "proto_inv p \<Longrightarrow> spent p w (p, w)"
  by (simp add: spent_def)

lemma spent_trans: "spent p w (p', w') \<Longrightarrow> spent p' w' s \<Longrightarrow> spent p w s"
  by (simp add: spent_def)

lemma spent_inv: "spent p w (p', w') \<Longrightarrow> proto_inv p'"
  by (simp add: spent_def)

lemma spent_fields [simp]:
  "spent p w (p'\<lparr>p_error := e\<rparr>, w') = spent p w (p', w')"
  "spent p w (p'\<lparr>transaction_mode := b\<rparr>, w') = spent p w (p', w')"
  "spent p w (p', w'\<lparr>errno := n\<rparr>) = spent p w (p', w')"
  by (simp_all add: spent_def proto_inv_def avail_def tcp_avail_def)

lemma close_error_closed:
  assumes "close_error e p w = (p', w')"
  shows "fd (tcp_client p') = - 1 \<and> get_read_buffer (tbuf (tcp_client p')) = []
    \<and> \<not> blocking_mode p' \<and> \<not> transaction_mode p' \<and> p_error p' = e"
proof -
  obtain tc w1 where c: "TcpClient_close (tcp_client p) w = (tc, w1)" by force
  with TcpClient_close_closed [OF c] assms show ?thesis
    by (auto simp: close_error_def proto_close_def)
qed

lemma spent_close_error [simp]:
  assumes "spent p w (p', w')"
  shows "spent p w (close_error e p' w')"
proof -
  obtain tc w1 where c: "TcpClient_close (tcp_client p') w' = (tc, w1)" by force
  with TcpClient_close_avail [OF c] assms show ?thesis
    by (auto simp: close_error_def proto_close_def spent_def proto_inv_def avail_def)
qed

lemma check_line_spent:
  assumes "keeps (tcp_client p) w (r, tc, w')"
  shows "(\<lambda>(ok, line, s). spent p w s \<and> (ok \<longrightarrow> line \<noteq> [] \<and> avail (fst s) (snd s) < avail p w))
    (check_line r (p\<lparr>tcp_client := tc\<rparr>) w')"
proof -
  obtain line ec where r: "r = (line, ec)" by force
  have a: "tcp_inv tc" "tcp_avail tc w' + length line \<le> tcp_avail (tcp_client p) w"
    using assms by (auto simp: keeps_def r)
  then have s: "spent p w (p\<lparr>tcp_client := tc\<rparr>, w')"
    by (simp add: spent_def proto_inv_def avail_def)
  with a show ?thesis by (cases line) (auto simp: check_line_def r avail_def)
qed

lemma read_result_spent:
  assumes "whenever m (keeps (tcp_client p) w)"
  shows "whenever (do { (r, tc, w) \<leftarrow> m; Some (check_line r (p\<lparr>tcp_client := tc\<rparr>) w) })
    (\<lambda>(ok, line, s). spent p w s \<and> (ok \<longrightarrow> line \<noteq> [] \<and> avail (fst s) (snd s) < avail p w))"
proof (cases m)
  case (Some x)
  obtain r tc w' where "x = (r, tc, w')" by (cases x)
  with assms Some check_line_spent [of p w r tc w'] show ?thesis by simp
qed simp

lemma proto_read_line_spent:
  assumes "proto_inv p"
  shows "whenever (proto_read_line p w) (\<lambda>(ok, line, s). spent p w s
    \<and> (ok \<longrightarrow> line \<noteq> [] \<and> avail (fst s) (snd s) < avail p w))"
  using assms unfolding proto_read_line_def
  by (intro read_result_spent) (simp add: TcpClient_read_line_def proto_inv_def read_line_loop_keeps)

lemma proto_read_spent:
  assumes "proto_inv p"
  shows "whenever (proto_read n p w) (\<lambda>(ok, line, s). spent p w s)"
proof -
  have "whenever (proto_read n p w) (\<lambda>(ok, line, s). spent p w s
      \<and> (ok \<longrightarrow> line \<noteq> [] \<and> avail (fst s) (snd s) < avail p w))"
    using assms unfolding proto_read_def
    by (intro read_result_spent) (simp add: TcpClient_read_def proto_inv_def read_loop_keeps Let_def)
  then show ?thesis by (auto elim!: whenever_mono)
qed

lemma parse_integer_spent:
  "whenever (parse_integer l w) (\<lambda>(ok, i, w'). \<exists>e. w' = w\<lparr>errno := e\<rparr>)"
proof -
  have "\<exists>e. w = w\<lparr>errno := e\<rparr>" by (rule exI [of _ "errno w"]) simp
  then show ?thesis by (auto simp: parse_integer_def Let_def split: prod.splits)
qed


text \<open>The shape of the results of the reading operations, and its rules.\<close>

abbreviation spends :: "('a \<times> 'b \<times> RedisProtocol \<times> world) option \<Rightarrow> RedisProtocol \<Rightarrow> world \<Rightarrow> bool" where
  "spends m p w \<equiv> whenever m (\<lambda>(a, b, s). spent p w s)"

lemma spends_bind:
  assumes "spends m p w" "\<And>a b p' w'. m = Some (a, b, p', w') \<Longrightarrow> spent p w (p', w') \<Longrightarrow> spends (f a b p' w') p w"
  shows "spends (do { (a, b, p, w) \<leftarrow> m; f a b p w }) p w"
  using assms by (cases m) auto

lemma spends_trans: "spent p w (p', w') \<Longrightarrow> spends m p' w' \<Longrightarrow> spends m p w"
  by (auto elim!: whenever_mono intro: spent_trans)

lemma spends_parse:
  assumes "\<And>ok i e. spends (f ok i (w'\<lparr>errno := e\<rparr>)) p w"
  shows "spends (do { (ok, i, w) \<leftarrow> parse_integer l w'; f ok i w }) p w"
proof (cases "parse_integer l w'")
  case (Some x)
  with parse_integer_spent [of l w'] assms show ?thesis by auto
qed simp

lemma read_bulk_2_spent:
  assumes "proto_inv p"
  shows "spends (read_bulk_2 header p w) p w"
  unfolding read_bulk_2_def
proof (rule spends_parse)
  fix ok i e
  have s: "spent p w (p, w\<lparr>errno := e\<rparr>)" using assms by (simp add: spent_refl)
  have "spends (proto_read n p (w\<lparr>errno := e\<rparr>)) p w" for n
    using s proto_read_spent [OF assms] by (rule spends_trans)
  then have "spends (do { (ok, bulk, p, w) \<leftarrow> proto_read n p (w\<lparr>errno := e\<rparr>);
       if \<not> ok then Some (False, None, p, w)
       else if n \<noteq> length bulk
       then Some (False, None, close_error (read_failed (''unexpected reply '' @ bulk) p) p w)
       else Some (True, Some bulk, p, w) }) p w" for n
    by (rule spends_bind) simp
  with s show "spends (if \<not> ok then Some (False, None, close_error (read_failed (''integer error : '' @ header) p) p (w\<lparr>errno := e\<rparr>))
     else if i < - 1 \<or> i = 0
     then Some (False, None, close_error (read_failed (''unexpected integer : '' @ show_int i) p) p (w\<lparr>errno := e\<rparr>))
     else if i = - 1 then Some (True, None, p, w\<lparr>errno := e\<rparr>)
     else do {
       (ok, bulk, p, w) \<leftarrow> proto_read (size_of_int i) p (w\<lparr>errno := e\<rparr>);
       if \<not> ok then Some (False, None, p, w)
       else if size_of_int i \<noteq> length bulk
       then Some (False, None, close_error (read_failed (''unexpected reply '' @ bulk) p) p w)
       else Some (True, Some bulk, p, w)
     }) p w"
    by simp
qed

lemma read_line_spends: "proto_inv p \<Longrightarrow> spends (proto_read_line p w) p w"
  using proto_read_line_spent [of p w] by (auto elim!: whenever_mono)

lemma read_bulk_spent:
  assumes "proto_inv p"
  shows "spends (read_bulk p w) p w"
  unfolding read_bulk_def
proof (rule spends_bind [OF read_line_spends [OF assms]])
  fix ok :: bool and header p' w' assume s: "spent p w (p', w')"
  with read_bulk_2_spent [OF spent_inv] have "spends (read_bulk_2 header p' w') p w"
    by (blast intro: spends_trans)
  with s show "spends (if \<not> ok then Some (False, None, p', w')
      else if hd header = CHR ''$'' then read_bulk_2 header p' w'
      else Some (False, None, close_error (read_failed ''reply type error $'' p') p' w')) p w"
    by simp
qed

lemma read_bulks_spent: "proto_inv p \<Longrightarrow> spends (read_bulks n mb p w) p w"
proof (induction n arbitrary: mb p w)
  case 0
  then show ?case by (simp add: spent_refl)
next
  case (Suc n)
  show ?case
    unfolding read_bulks.simps
  proof (rule spends_bind [OF read_bulk_spent [OF Suc.prems]])
    fix ok :: bool and bulk p' w' assume s: "spent p w (p', w')"
    with Suc.IH [OF spent_inv] have "spends (read_bulks n (mb @ [bulk]) p' w') p w"
      by (blast intro: spends_trans)
    with s show "spends (if \<not> ok then Some (False, [], p', w')
        else read_bulks n (mb @ [bulk]) p' w') p w" by simp
  qed
qed

lemma read_multi_bulk_2_spent:
  assumes "proto_inv p"
  shows "spends (read_multi_bulk_2 header p w) p w"
  unfolding read_multi_bulk_2_def
proof (rule spends_parse)
  fix ok i e
  have s: "spent p w (p, w\<lparr>errno := e\<rparr>)" using assms by (simp add: spent_refl)
  have "spends (read_bulks n mb p (w\<lparr>errno := e\<rparr>)) p w" for n mb
    using s read_bulks_spent [OF assms] by (rule spends_trans)
  then have "spends (do { (ok, mbulks, p, w) \<leftarrow> read_bulks n mb p (w\<lparr>errno := e\<rparr>);
      Some (ok, Some mbulks, p, w) }) p w" for n mb
    by (rule spends_bind) simp
  with s show "spends (if \<not> ok then Some (False, None, close_error (read_failed (''integer error : '' @ header) p) p (w\<lparr>errno := e\<rparr>))
     else if i < - 1
     then Some (False, None, close_error (read_failed (''unexpected integer : '' @ show_int i) p) p (w\<lparr>errno := e\<rparr>))
     else if i = - 1 then Some (True, None, p, w\<lparr>errno := e\<rparr>)
     else if i > vector_max_size then None
     else do { (ok, mbulks, p, w) \<leftarrow> read_bulks (nat i) [] p (w\<lparr>errno := e\<rparr>);
       Some (ok, Some mbulks, p, w) }) p w"
    by simp
qed


section \<open>One reply\<close>

lemma reply_failed_spent [simp]:
  "spent p w (p', w') \<Longrightarrow> case reply_failed what out p' w' of (a, b, s) \<Rightarrow> spent p w s"
  by (simp add: reply_failed_def)

lemma reply_integer_spent: "proto_inv p \<Longrightarrow> spends (reply_integer buf out p w) p w"
  unfolding reply_integer_def by (rule spends_parse) (simp add: spent_refl)

lemma reply_bulk_spent: "proto_inv p \<Longrightarrow> spends (reply_bulk buf out p w) p w"
  unfolding reply_bulk_def
  by (rule spends_bind [OF read_bulk_2_spent]) (auto split: option.split)

lemma reply_mbulk_spent: "proto_inv p \<Longrightarrow> spends (reply_mbulk buf out p w) p w"
  unfolding reply_mbulk_def
  by (rule spends_bind [OF read_multi_bulk_2_spent]) (auto split: option.split)

lemma reply_smbulk_spent:
  assumes "proto_inv p" and ch: "\<And>k e. spends (children k p (w\<lparr>errno := e\<rparr>)) p w"
  shows "spends (reply_smbulk children cmd is_top buf out p w) p w"
  unfolding reply_smbulk_def
proof (rule spends_parse)
  fix ok i e
  have s: "spent p w (p, w\<lparr>errno := e\<rparr>)" using assms(1) by (simp add: spent_refl)
  have "spends (do { (ok, smbulks, p, w) \<leftarrow> children (nat i) p (w\<lparr>errno := e\<rparr>);
      Some (ok, (if ok then set_smbulks (Some smbulks) out else out), p, w) }) p w"
    by (rule spends_bind [OF ch]) simp
  with s have body: "spends (if i = - 1 then Some (True, set_nil_smbulks out, p, w\<lparr>errno := e\<rparr>)
      else do { (ok, smbulks, p, w) \<leftarrow> children (nat i) p (w\<lparr>errno := e\<rparr>);
        Some (ok, (if ok then set_smbulks (Some smbulks) out else out), p, w) }) p w"
    by simp
  have "spends (do {
       (ok, out, p, w) \<leftarrow>
         (if i = - 1 then Some (True, set_nil_smbulks out, p, w\<lparr>errno := e\<rparr>)
          else do { (ok, smbulks, p, w) \<leftarrow> children (nat i) p (w\<lparr>errno := e\<rparr>);
            Some (ok, (if ok then set_smbulks (Some smbulks) out else out), p, w) });
       if \<not> ok then Some (False, out, p, w)
       else Some (True, out,
         (if transaction_mode p \<and> cmd = EXEC \<and> is_top then p\<lparr>transaction_mode := False\<rparr> else p), w)
     }) p w"
    by (rule spends_bind [OF body]) simp
  with s show "spends (if \<not> ok then Some (reply_failed (''integer error : '' @ buf) out p (w\<lparr>errno := e\<rparr>))
      else do {
       (ok, out, p, w) \<leftarrow>
         (if i = - 1 then Some (True, set_nil_smbulks out, p, w\<lparr>errno := e\<rparr>)
          else do { (ok, smbulks, p, w) \<leftarrow> children (nat i) p (w\<lparr>errno := e\<rparr>);
            Some (ok, (if ok then set_smbulks (Some smbulks) out else out), p, w) });
       if \<not> ok then Some (False, out, p, w)
       else Some (True, out,
         (if transaction_mode p \<and> cmd = EXEC \<and> is_top then p\<lparr>transaction_mode := False\<rparr> else p), w)
     }) p w"
    by simp
qed

lemma reply_switch_spent:
  assumes "proto_inv p" and "\<And>k e. spends (children k p (w\<lparr>errno := e\<rparr>)) p w"
  shows "spends (reply_switch children cmd exp check is_top buf out p w) p w"
proof -
  have "spends (reply_smbulk children cmd is_top buf out p w) p w"
    using assms by (rule reply_smbulk_spent)
  with assms(1) reply_integer_spent [OF assms(1)] reply_bulk_spent [OF assms(1)]
    reply_mbulk_spent [OF assms(1)] show ?thesis
    by (simp add: reply_switch_def spent_refl reply_status_def)
qed

lemma avail_errno [simp]: "avail p (w\<lparr>errno := e\<rparr>) = avail p w"
  by (simp add: avail_def tcp_avail_def)

lemma spent_errno [simp]: "spent p (w\<lparr>errno := e\<rparr>) = spent p w"
  by (rule ext) (simp add: spent_def)

lemma read_children_spent:
  assumes "\<And>i p w. proto_inv p \<Longrightarrow> spends (do_read_reply n i False new_output False p w) p w"
  shows "proto_inv p \<Longrightarrow> spends (read_children n i sm k p w) p w"
proof (induction k arbitrary: sm p w)
  case 0
  then show ?case by (simp add: read_children.simps spent_refl)
next
  case (Suc k)
  show ?case
    unfolding read_children.simps
  proof (rule spends_bind [OF assms [OF Suc.prems]])
    fix ok child p' w' assume s: "spent p w (p', w')"
    with Suc.IH [OF spent_inv] have "spends (read_children n i (sm @ [child]) k p' w') p w"
      by (blast intro: spends_trans)
    with s show "spends (if \<not> ok then Some (False, [], p', w')
        else read_children n i (sm @ [child]) k p' w') p w" by simp
  qed
qed

lemma do_read_reply_spent: "proto_inv p \<Longrightarrow> spends (do_read_reply n i is_top out c p w) p w"
proof (induction n arbitrary: i is_top out c p w)
  case 0
  then show ?case by (simp add: do_read_reply.simps)
next
  case (Suc n)
  have ch: "proto_inv p \<Longrightarrow> spends (read_children n i sm k p w) p w" for i sm k p w
    using Suc.IH by (rule read_children_spent)
  show ?case
    unfolding do_read_reply.simps Let_def
  proof (rule spends_bind [OF read_line_spends [OF Suc.prems]])
    fix ok buf p' w' assume s: "spent p w (p', w')"
    have "spends (reply_switch (\<lambda>k p w. read_children n i [] k p w) cmd exp check is_top buf out p' w') p' w'"
      for cmd exp check
    proof (rule reply_switch_spent [OF spent_inv [OF s]])
      fix k e
      show "spends (read_children n i [] k p' (w'\<lparr>errno := e\<rparr>)) p' w'"
        using ch [OF spent_inv [OF s], of i "[]" k "w'\<lparr>errno := e\<rparr>"] by simp
    qed
    from spends_trans [OF s this] s
    show "spends (if \<not> ok then Some (False, set_error (p_error p') out, p', w')
      else do {
        assertion (buf \<noteq> []);
        reply_switch (\<lambda>k p w. read_children n i [] k p w) (in_command i)
          (expected_type (c \<and> reply_type (command_info i) \<noteq> kDepends) i p)
          (c \<and> reply_type (command_info i) \<noteq> kDepends) is_top buf out p' w' }) p w"
      by simp
  qed
qed

section \<open>The bound on the nesting\<close>

lemma reply_switch_cong:
  assumes "\<And>k e. children k p (w\<lparr>errno := e\<rparr>) = children' k p (w\<lparr>errno := e\<rparr>)"
  shows "reply_switch children cmd exp check is_top buf out p w
    = reply_switch children' cmd exp check is_top buf out p w"
proof -
  have "reply_smbulk children cmd is_top buf out p w = reply_smbulk children' cmd is_top buf out p w"
  proof (cases "parse_integer buf w")
    case (Some x)
    with parse_integer_spent [of buf w] obtain ok i e where "x = (ok, i, w\<lparr>errno := e\<rparr>)" by auto
    with Some assms show ?thesis by (simp add: reply_smbulk_def)
  qed (simp add: reply_smbulk_def)
  then show ?thesis by (simp add: reply_switch_def)
qed

lemma read_children_fuel:
  assumes IH: "\<And>p w. proto_inv p \<Longrightarrow> avail p w < b \<Longrightarrow>
      do_read_reply n i False new_output False p w = do_read_reply m i False new_output False p w"
  shows "proto_inv p \<Longrightarrow> avail p w < b \<Longrightarrow> read_children n i sm k p w = read_children m i sm k p w"
proof (induction k arbitrary: sm p w)
  case 0
  then show ?case by (simp add: read_children.simps)
next
  case (Suc k)
  note eq = IH [OF Suc.prems]
  show ?case
  proof (cases "do_read_reply m i False new_output False p w")
    case None
    with eq show ?thesis by (simp add: read_children.simps)
  next
    case (Some r)
    obtain ok child p' w' where r: "r = (ok, child, p', w')" by (cases r)
    from do_read_reply_spent [OF Suc.prems(1), of m i False new_output False w] Some r
    have "spent p w (p', w')" by simp
    then have "proto_inv p'" "avail p' w' < b" using Suc.prems(2) by (auto simp: spent_def)
    from Suc.IH [OF this] eq Some r show ?thesis by (simp add: read_children.simps)
  qed
qed

lemma do_read_reply_fuel:
  assumes "proto_inv p" "avail p w < n" "avail p w < m"
  shows "do_read_reply n i is_top out c p w = do_read_reply m i is_top out c p w"
  using assms
proof (induction n arbitrary: m i is_top out c p w)
  case 0
  then show ?case by simp
next
  case (Suc n)
  then obtain m' where m: "m = Suc m'" by (cases m) auto
  show ?case
  proof (cases "proto_read_line p w")
    case None
    then show ?thesis by (simp add: m do_read_reply.simps)
  next
    case (Some r)
    obtain ok buf p' w' where r: "r = (ok, buf, p', w')" by (cases r)
    from proto_read_line_spent [OF Suc.prems(1), of w] Some r
    have s: "proto_inv p'" "ok \<Longrightarrow> avail p' w' < avail p w" by (auto simp: spent_def)
    have "read_children n i [] k p' (w'\<lparr>errno := e\<rparr>) = read_children m' i [] k p' (w'\<lparr>errno := e\<rparr>)"
      if ok for k e
    proof (rule read_children_fuel [where b = "min n m'"])
      show "avail p' (w'\<lparr>errno := e\<rparr>) < min n m'" using s(2) [OF that] Suc.prems(2,3) m by simp
    qed (use s Suc.IH in auto)
    then have "ok \<Longrightarrow> reply_switch (\<lambda>k p w. read_children n i [] k p w) cmd exp check is_top buf out p' w'
        = reply_switch (\<lambda>k p w. read_children m' i [] k p w) cmd exp check is_top buf out p' w'"
      for cmd exp check by (rule reply_switch_cong)
    with Some r show ?thesis by (cases ok) (simp_all add: m do_read_reply.simps Let_def)
  qed
qed

section \<open>Failures\<close>

text \<open>What a broken exchange leaves behind.\<close>

definition closed :: "RedisProtocol \<Rightarrow> bool" where
  "closed p \<longleftrightarrow> fd (tcp_client p) = - 1 \<and> get_read_buffer (tbuf (tcp_client p)) = []
     \<and> \<not> blocking_mode p \<and> \<not> transaction_mode p"

lemma close_error_closed' [simp]: "closed (fst (close_error e p w))" "p_error (fst (close_error e p w)) = e"
  using close_error_closed [of e p w] by (simp_all add: closed_def prod_eq_iff)

text \<open>Reading a line or a block and a bulk reply closes the connection whenever it fails.\<close>

definition fails_closed :: "(bool \<times> 'b \<times> RedisProtocol \<times> world) option \<Rightarrow> bool" where
  "fails_closed m = whenever m (\<lambda>(ok, b, p, w). \<not> ok \<longrightarrow> closed p)"

lemma fails_closedI:
  "(\<And>p' w' b. m = Some (False, b, p', w') \<Longrightarrow> closed p') \<Longrightarrow> fails_closed m"
  by (cases m) (auto simp: fails_closed_def)

lemma fails_closedD: "fails_closed m \<Longrightarrow> m = Some (False, b, p', w') \<Longrightarrow> closed p'"
  by (simp add: fails_closed_def)

lemma close_error_eq: "close_error e p w = (p', w') \<Longrightarrow> closed p'"
  using close_error_closed' [of e p w] by simp

lemma read_line_fails_closed: "fails_closed (proto_read_line p w)"
  by (rule fails_closedI)
    (auto simp: proto_read_line_def check_line_def bind_eq_Some_conv split: if_splits intro: close_error_eq)

lemma read_fails_closed: "fails_closed (proto_read n p w)"
  by (rule fails_closedI)
    (auto simp: proto_read_def check_line_def bind_eq_Some_conv split: if_splits intro: close_error_eq)

lemma read_bulk_2_fails_closed: "fails_closed (read_bulk_2 h p w)"
  by (rule fails_closedI)
    (auto simp: read_bulk_2_def bind_eq_Some_conv split: if_splits
       intro: close_error_eq fails_closedD [OF read_fails_closed])

lemma read_bulk_fails_closed: "fails_closed (read_bulk p w)"
  by (rule fails_closedI)
    (auto simp: read_bulk_def bind_eq_Some_conv split: if_splits
       intro: close_error_eq fails_closedD [OF read_line_fails_closed]
         fails_closedD [OF read_bulk_2_fails_closed])

lemma read_bulks_fails_closed: "fails_closed (read_bulks n mb p w)"
proof (induction n arbitrary: mb p w)
  case (Suc n)
  then show ?case
    by (intro fails_closedI) (auto simp: bind_eq_Some_conv split: if_splits
      intro: fails_closedD [OF read_bulk_fails_closed] fails_closedD)
qed (simp add: fails_closed_def)

lemma read_multi_bulk_2_fails_closed: "fails_closed (read_multi_bulk_2 h p w)"
  by (rule fails_closedI)
    (auto simp: read_multi_bulk_2_def bind_eq_Some_conv split: if_splits
       intro: close_error_eq fails_closedD [OF read_bulks_fails_closed])

end
