(* ===== verification/Protocol_Replies.thy ===== *)
theory Protocol_Replies
  imports Protocol_Progress
begin

text \<open>
  The replies of a server as a grammar, and what the reading functions make of them.  A reply
  is encoded the way the protocol writes it; reading the encoding from a connection gives the
  value back and leaves the rest of the stream, whatever the chunks in which it arrives.
\<close>

section \<open>The grammar of replies\<close>

datatype reply =
    RStatus string
  | RError string
  | RInteger int
  | RBulk "string option"
  | RMulti "reply list option"

abbreviation (input) CRLF :: string where "CRLF \<equiv> [CHR 0x0D, CHR 0x0A]"

fun encode_bulk :: "string option \<Rightarrow> string" where
  "encode_bulk None = ''$-1'' @ CRLF"
| "encode_bulk (Some b) = ''$'' @ show_nat (length b) @ CRLF @ b @ CRLF"

fun encode :: "reply \<Rightarrow> string" where
  "encode (RStatus s) = ''+'' @ s @ CRLF"
| "encode (RError s) = ''-'' @ s @ CRLF"
| "encode (RInteger i) = '':'' @ show_int i @ CRLF"
| "encode (RBulk b) = encode_bulk b"
| "encode (RMulti None) = ''*-1'' @ CRLF"
| "encode (RMulti (Some rs)) = ''*'' @ show_nat (length rs) @ CRLF @ concat (map encode rs)"

text \<open>The replies the reader takes: no error inside, no empty bulk, integers of 64 bits.\<close>

definition bulk_ok :: "string option \<Rightarrow> bool" where
  "bulk_ok b \<longleftrightarrow> b \<noteq> Some []"

fun reply_ok :: "reply \<Rightarrow> bool" where
  "reply_ok (RStatus s) = (CHR 0x0D \<notin> set s)"
| "reply_ok (RError s) = False"
| "reply_ok (RInteger i) = (LONG_MIN \<le> i \<and> i \<le> LONG_MAX)"
| "reply_ok (RBulk b) = bulk_ok b"
| "reply_ok (RMulti None) = True"
| "reply_ok (RMulti (Some rs)) = list_all reply_ok rs"

text \<open>The object a reply becomes where no type is expected (a child of a special multi-bulk).\<close>

fun output_of :: "reply \<Rightarrow> RedisOutput" where
  "output_of (RStatus s) = RedisOutput kStatus (StatusPtr s)"
| "output_of (RError s) = RedisOutput kError (ErrorPtr s)"
| "output_of (RInteger i) = RedisOutput kInteger (IntPtr i)"
| "output_of (RBulk None) = RedisOutput kBulk NullPtr"
| "output_of (RBulk (Some b)) = RedisOutput kBulk (BulkPtr b)"
| "output_of (RMulti None) = RedisOutput kSpecialMultiBulk NullPtr"
| "output_of (RMulti (Some rs)) = RedisOutput kSpecialMultiBulk (SmbulksPtr (map output_of rs))"

section \<open>Steps of the reader\<close>

text \<open>\<open>strtol\<close>'s verdict is read off \<open>errno\<close>, which must not hold an earlier error.\<close>

definition errno_clean :: "world \<Rightarrow> bool" where
  "errno_clean w \<longleftrightarrow> errno w \<noteq> EINVAL \<and> errno w \<noteq> ERANGE"

definition proto_ready :: "RedisProtocol \<Rightarrow> world \<Rightarrow> bool" where
  "proto_ready p w \<longleftrightarrow> tcp_ready (tcp_client p) w \<and> errno_clean w"

abbreviation proto_stream :: "RedisProtocol \<Rightarrow> world \<Rightarrow> string" where
  "proto_stream p w \<equiv> tcp_stream (tcp_client p) w"

text \<open>A step of the reader: only the client changes, and the stream becomes \<open>rest\<close>.\<close>

definition reads :: "RedisProtocol \<Rightarrow> world \<Rightarrow> string \<Rightarrow> RedisProtocol \<Rightarrow> world \<Rightarrow> bool" where
  "reads p w rest p' w' \<longleftrightarrow>
     (\<exists>tc. p' = p\<lparr>tcp_client := tc\<rparr> \<and> fd tc = fd (tcp_client p)
        \<and> last_check_open_time tc = last_check_open_time (tcp_client p))
     \<and> proto_ready p' w' \<and> proto_stream p' w' = rest \<and> calm w w'"

lemma reads_trans: "reads p w s p' w' \<Longrightarrow> reads p' w' s' p'' w'' \<Longrightarrow> reads p w s' p'' w''"
  unfolding reads_def by (auto intro: calm_trans)

lemma reads_refl:
  assumes "proto_ready p w" "proto_stream p w = rest"
  shows "reads p w rest p w"
proof -
  have "p = p\<lparr>tcp_client := tcp_client p\<rparr>" by simp
  with assms show ?thesis unfolding reads_def by (intro conjI exI [of _ "tcp_client p"]) simp_all
qed

lemma readsD:
  assumes "reads p w rest p' w'"
  shows "proto_ready p' w'" "proto_stream p' w' = rest" "transaction_mode p' = transaction_mode p"
    "blocking_mode p' = blocking_mode p"
  using assms by (auto simp: reads_def)

lemma calm_clean: "calm w w' \<Longrightarrow> errno_clean w \<Longrightarrow> errno_clean w'"
  by (auto simp: calm_def errno_clean_def)

lemma read_line_step:
  assumes r: "proto_ready p w" and s: "proto_stream p w = line @ CRLF @ rest"
    and l: "line \<noteq> []" "CHR 0x0D \<notin> set line"
  obtains p' w' where "proto_read_line p w = Some (True, line, p', w')" "reads p w rest p' w'"
proof -
  have "first_line CRLF (proto_stream p w) line rest"
    using s l(2) by (intro no_CR_first_line) auto
  with r tcp.read_line_law [of "(tcp_client p, w)" line rest "read_timeout p"]
  obtain tc' w' where t: "TcpClient_read_line CRLF (read_timeout p) (tcp_client p) w = Some ((line, 0), tc', w')"
    "tcp_ready tc' w'" "tcp_stream tc' w' = rest" "conn_frame (tcp_client p, w) (tc', w')"
    by (auto simp: returns_iff proto_ready_def)
  have "proto_read_line p w = Some (True, line, p\<lparr>tcp_client := tc'\<rparr>, w')"
    using t(1) l(1) by (simp add: proto_read_line_def s_redis_line_end_def check_line_def)
  moreover have "reads p w rest (p\<lparr>tcp_client := tc'\<rparr>) w'"
    using t(2-4) r calm_clean by (auto simp: reads_def proto_ready_def conn_frame_def intro!: exI [of _ tc'])
  ultimately show ?thesis by (rule that)
qed

lemma read_block_step:
  assumes r: "proto_ready p w" and s: "proto_stream p w = block @ CRLF @ rest" and b: "block \<noteq> []"
  obtains p' w' where "proto_read (length block) p w = Some (True, block, p', w')" "reads p w rest p' w'"
proof -
  from r s tcp.read_block_law [of "(tcp_client p, w)" block CRLF rest "read_timeout p"]
  obtain tc' w' where t: "TcpClient_read (length block) CRLF (read_timeout p) (tcp_client p) w = Some ((block, 0), tc', w')"
    "tcp_ready tc' w'" "tcp_stream tc' w' = rest" "conn_frame (tcp_client p, w) (tc', w')"
    by (auto simp: returns_iff proto_ready_def)
  have "proto_read (length block) p w = Some (True, block, p\<lparr>tcp_client := tc'\<rparr>, w')"
    using t(1) b by (simp add: proto_read_def s_redis_line_end_def check_line_def)
  moreover have "reads p w rest (p\<lparr>tcp_client := tc'\<rparr>) w'"
    using t(2-4) r calm_clean by (auto simp: reads_def proto_ready_def conn_frame_def intro!: exI [of _ tc'])
  ultimately show ?thesis by (rule that)
qed

lemma parse_integer_show:
  "errno_clean w \<Longrightarrow> LONG_MIN \<le> i \<Longrightarrow> i \<le> LONG_MAX \<Longrightarrow> parse_integer (c # show_int i) w = Some (True, i, w)"
  by (simp add: parse_integer_def strtol_show_int errno_clean_def)

lemma parse_integer_length:
  "errno_clean w \<Longrightarrow> n < 2 ^ 63 \<Longrightarrow> parse_integer (c # show_nat n) w = Some (True, int n, w)"
  using parse_integer_show [of w "int n" c]
  by (simp add: show_int_of_nat LONG_MIN_def LONG_MAX_def)


section \<open>Bulks and multi-bulks\<close>

fun bulk_header :: "string option \<Rightarrow> string" where
  "bulk_header None = ''$-1''"
| "bulk_header (Some b) = ''$'' @ show_nat (length b)"

fun bulk_body :: "string option \<Rightarrow> string" where
  "bulk_body None = []"
| "bulk_body (Some b) = b @ CRLF"

lemma encode_bulk_split: "encode_bulk b = bulk_header b @ CRLF @ bulk_body b"
  by (cases b) simp_all

lemma show_nat_no_CR: "CHR 0x0D \<notin> set (show_nat n)"
  using show_int_no_CR [of "int n"] by (simp add: show_int_of_nat)

lemma bulk_header_line: "bulk_header b \<noteq> []" "hd (bulk_header b) = CHR ''$''"
  "CHR 0x0D \<notin> set (bulk_header b)"
  by (cases b; simp add: show_nat_no_CR)+

lemma stream_small: "proto_ready p w \<Longrightarrow> proto_stream p w = xs \<Longrightarrow> length xs < 2 ^ 31"
  by (auto simp: proto_ready_def tcp_ready_def)

lemma read_bulk_2_step:
  assumes r: "proto_ready p w" and s: "proto_stream p w = bulk_body b @ rest" and b: "bulk_ok b"
  obtains p' w' where "read_bulk_2 (bulk_header b) p w = Some (True, b, p', w')" "reads p w rest p' w'"
proof (cases b)
  case None
  have "show_int (- 1) = ''-1''" by code_simp
  then have "parse_integer (bulk_header b) w = Some (True, - 1, w)"
    using parse_integer_show [of w "- 1" "CHR ''$''"] r
    by (simp add: None proto_ready_def LONG_MIN_def LONG_MAX_def)
  with None s r that [of p w] show ?thesis by (simp add: read_bulk_2_def reads_refl)
next
  case (Some v)
  with b have v: "v \<noteq> []" by (simp add: bulk_ok_def)
  have s': "proto_stream p w = v @ CRLF @ rest" using s Some by simp
  have len: "length v < 2 ^ 31" using stream_small [OF r s'] by simp
  then have pi: "parse_integer (bulk_header b) w = Some (True, int (length v), w)"
    using parse_integer_length [of w "length v" "CHR ''$''"] r by (simp add: Some proto_ready_def)
  have sz: "size_of_int (int (length v)) = length v" using len by simp
  from read_block_step [OF r s' v] obtain p' w' where
    rb: "proto_read (length v) p w = Some (True, v, p', w')" "reads p w rest p' w'" .
  have "read_bulk_2 (bulk_header b) p w = Some (True, b, p', w')"
    using pi sz rb(1) v by (simp add: read_bulk_2_def Some)
  with rb(2) show ?thesis by (rule that [rotated])
qed

lemma read_bulk_step:
  assumes r: "proto_ready p w" and s: "proto_stream p w = encode_bulk b @ rest" and b: "bulk_ok b"
  obtains p' w' where "read_bulk p w = Some (True, b, p', w')" "reads p w rest p' w'"
proof -
  have "proto_stream p w = bulk_header b @ CRLF @ bulk_body b @ rest"
    using s by (simp add: encode_bulk_split)
  from read_line_step [OF r this bulk_header_line(1,3)] obtain p1 w1 where
    1: "proto_read_line p w = Some (True, bulk_header b, p1, w1)" "reads p w (bulk_body b @ rest) p1 w1" .
  from read_bulk_2_step [OF readsD(1,2) [OF 1(2)] b] obtain p' w' where
    2: "read_bulk_2 (bulk_header b) p1 w1 = Some (True, b, p', w')" "reads p1 w1 rest p' w'" .
  have "read_bulk p w = Some (True, b, p', w')"
    using 1(1) 2(1) bulk_header_line(2) by (simp add: read_bulk_def)
  with reads_trans [OF 1(2) 2(2)] show ?thesis by (rule that [rotated])
qed

lemma read_bulks_step:
  assumes "proto_ready p w" "proto_stream p w = concat (map encode_bulk bs) @ rest" "list_all bulk_ok bs"
  shows "\<exists>p' w'. read_bulks (length bs) acc p w = Some (True, acc @ bs, p', w') \<and> reads p w rest p' w'"
  using assms
proof (induction bs arbitrary: acc p w)
  case Nil
  then show ?case by (simp add: reads_refl)
next
  case (Cons b bs)
  have s: "proto_stream p w = encode_bulk b @ concat (map encode_bulk bs) @ rest" "bulk_ok b"
    using Cons.prems by auto
  from read_bulk_step [OF Cons.prems(1) s] obtain p1 w1 where
    1: "read_bulk p w = Some (True, b, p1, w1)" "reads p w (concat (map encode_bulk bs) @ rest) p1 w1" .
  from Cons.IH [OF readsD(1,2) [OF 1(2)], of "acc @ [b]"] Cons.prems(3) obtain p' w' where
    2: "read_bulks (length bs) (acc @ [b]) p1 w1 = Some (True, acc @ b # bs, p', w')" "reads p1 w1 rest p' w'"
    by auto
  from 1(1) 2(1) reads_trans [OF 1(2) 2(2)] show ?case by auto
qed

lemma encode_bulk_length: "1 \<le> length (encode_bulk b)"
  by (cases b) simp_all

lemma concat_length:
  assumes "\<And>x. x \<in> set xs \<Longrightarrow> 1 \<le> length (f x)"
  shows "length xs \<le> length (concat (map f xs))"
  using assms
proof (induction xs)
  case (Cons x xs)
  then have "1 \<le> length (f x)" "length xs \<le> length (concat (map f xs))" by auto
  then show ?case by simp
qed simp

lemma read_multi_bulk_2_step:
  assumes r: "proto_ready p w" and s: "proto_stream p w = concat (map encode_bulk bs) @ rest"
    and b: "list_all bulk_ok bs"
  obtains p' w' where "read_multi_bulk_2 (''*'' @ show_nat (length bs)) p w = Some (True, Some bs, p', w')"
    "reads p w rest p' w'"
proof -
  have len: "length bs < 2 ^ 31"
    using stream_small [OF r s] concat_length [of bs encode_bulk] encode_bulk_length by force
  then have "parse_integer (CHR ''*'' # show_nat (length bs)) w = Some (True, int (length bs), w)"
    using r by (intro parse_integer_length) (simp_all add: proto_ready_def)
  moreover obtain p' w' where
    "read_bulks (length bs) [] p w = Some (True, bs, p', w')" "reads p w rest p' w'"
    using read_bulks_step [OF r s b, of "[]"] by auto
  ultimately show ?thesis
    using that [of p' w'] len by (simp add: read_multi_bulk_2_def vector_max_size_def)
qed

section \<open>Replies where no type is expected\<close>

lemma do_read_reply_line:
  assumes r: "proto_ready p w" and s: "proto_stream p w = line @ CRLF @ rest"
    and l: "line \<noteq> []" "CHR 0x0D \<notin> set line"
  obtains p' w' where "reads p w rest p' w'" "avail p' w' < avail p w"
    "\<And>n i is_top out c. do_read_reply (Suc n) i is_top out c p w =
       (let check = (c \<and> reply_type (command_info i) \<noteq> kDepends)
        in reply_switch (\<lambda>k p w. read_children n i [] k p w) (in_command i) (expected_type check i p)
             check is_top line out p' w')"
proof -
  from read_line_step [OF r s l] obtain p' w' where
    1: "proto_read_line p w = Some (True, line, p', w')" "reads p w rest p' w'" .
  have "proto_inv p" using r by (simp add: proto_ready_def tcp_ready_def proto_inv_def)
  from proto_read_line_spent [OF this, of w] 1(1) have "avail p' w' < avail p w" by simp
  with 1 l show ?thesis by (intro that) (simp_all add: do_read_reply.simps Let_def)
qed


text \<open>Commands whose nested replies leave the transaction mode alone and are read as objects.\<close>

definition plain_input :: "RedisInput \<Rightarrow> bool" where
  "plain_input i \<longleftrightarrow>
     in_command i \<noteq> MULTI \<and> in_command i \<noteq> DISCARD \<and> reply_type (command_info i) \<noteq> kMultiBulk"

lemma encode_nonempty: "1 \<le> length (encode r)"
  by (cases r rule: encode.cases) (simp_all add: encode_bulk_length [unfolded One_nat_def])

text \<open>The statement of the next lemmas: reading \<open>r\<close> with nesting bound \<open>n\<close> gives its object.\<close>

definition reads_child :: "nat \<Rightarrow> RedisInput \<Rightarrow> reply \<Rightarrow> bool" where
  "reads_child n i r \<longleftrightarrow>
     (\<forall>p w rest out. proto_ready p w \<and> proto_stream p w = encode r @ rest \<and> avail p w < n \<longrightarrow>
       (\<exists>p' w'. do_read_reply n i False out False p w = Some (True, output_of r, p', w')
          \<and> reads p w rest p' w'))"

lemma read_children_step:
  assumes "\<And>r. r \<in> set rs \<Longrightarrow> reads_child n i r"
    and "proto_ready p w" "proto_stream p w = concat (map encode rs) @ rest" "avail p w < n"
  shows "\<exists>p' w'. read_children n i acc (length rs) p w = Some (True, acc @ map output_of rs, p', w')
    \<and> reads p w rest p' w'"
  using assms
proof (induction rs arbitrary: acc p w)
  case Nil
  then show ?case by (simp add: read_children.simps reads_refl)
next
  case (Cons r rs)
  have s: "proto_stream p w = encode r @ concat (map encode rs) @ rest" using Cons.prems(3) by simp
  from Cons.prems(1) [of r] Cons.prems(2,4) s obtain p1 w1 where
    1: "do_read_reply n i False new_output False p w = Some (True, output_of r, p1, w1)"
       "reads p w (concat (map encode rs) @ rest) p1 w1"
    unfolding reads_child_def by force
  have "proto_inv p" using Cons.prems(2) by (simp add: proto_ready_def tcp_ready_def proto_inv_def)
  from do_read_reply_spent [OF this, of n i False new_output False w] 1(1) Cons.prems(4)
  have "avail p1 w1 < n" by (simp add: spent_def)
  with Cons.IH [OF _ readsD(1,2) [OF 1(2)], of "acc @ [output_of r]"] Cons.prems(1) obtain p' w' where
    2: "read_children n i (acc @ [output_of r]) (length rs) p1 w1
          = Some (True, acc @ output_of r # map output_of rs, p', w')" "reads p1 w1 rest p' w'"
    by auto
  from 1(1) 2(1) reads_trans [OF 1(2) 2(2)] show ?case by (auto simp: read_children.simps)
qed

text \<open>Reading the header and the children of a special multi-bulk.\<close>

lemma reply_smbulk_step:
  assumes ch: "\<And>r. r \<in> set rs \<Longrightarrow> reads_child n i r"
    and r: "proto_ready p w" and s: "proto_stream p w = concat (map encode rs) @ rest"
    and a: "avail p w < n"
  shows "\<exists>p' w'. reads p w rest p' w' \<and> reply_smbulk (\<lambda>k p w. read_children n i [] k p w) cmd is_top
         (CHR ''*'' # show_nat (length rs)) out p w
       = Some (True, output_of (RMulti (Some rs)),
           (if transaction_mode p \<and> cmd = EXEC \<and> is_top then p'\<lparr>transaction_mode := False\<rparr> else p'), w')"
proof -
  have len: "length rs < 2 ^ 31"
    using stream_small [OF r s] concat_length [of rs encode] encode_nonempty by force
  then have pi: "parse_integer (CHR ''*'' # show_nat (length rs)) w = Some (True, int (length rs), w)"
    using r by (intro parse_integer_length) (simp_all add: proto_ready_def)
  obtain p' w' where
    c: "read_children n i [] (length rs) p w = Some (True, map output_of rs, p', w')" "reads p w rest p' w'"
    using read_children_step [OF ch r s a, of "[]"] by auto
  with pi c(1) readsD(3) [OF c(2)] show ?thesis
    by (intro exI [of _ p'] exI [of _ w']) (simp add: reply_smbulk_def set_smbulks_def)
qed

lemma reply_smbulk_nil:
  assumes "errno_clean w"
  shows "reply_smbulk children cmd is_top ''*-1'' out p w
    = Some (True, output_of (RMulti None),
        (if transaction_mode p \<and> cmd = EXEC \<and> is_top then p\<lparr>transaction_mode := False\<rparr> else p), w)"
proof -
  have "show_int (- 1) = ''-1''" by code_simp
  then have "parse_integer ''*-1'' w = Some (True, - 1, w)"
    using parse_integer_show [of w "- 1" "CHR ''*''"] assms by (simp add: LONG_MIN_def LONG_MAX_def)
  then show ?thesis by (simp add: reply_smbulk_def set_nil_smbulks_def)
qed

text \<open>The first line of a child.\<close>

lemma child_line:
  assumes r: "proto_ready p w" and s: "proto_stream p w = line @ CRLF @ rest"
    and l: "line \<noteq> []" "CHR 0x0D \<notin> set line" and a: "avail p w < n"
  obtains m p' w' where "n = Suc m" "reads p w rest p' w'" "avail p' w' < m"
    "do_read_reply n i False out False p w = reply_switch (\<lambda>k p w. read_children m i [] k p w)
       (in_command i) (reply_type (command_info i)) False False line out p' w'"
proof -
  obtain m where n: "n = Suc m" using a by (cases n) auto
  from do_read_reply_line [OF r s l] obtain p' w' where
    1: "reads p w rest p' w'" "avail p' w' < avail p w" and
    2: "\<And>n i is_top out c. do_read_reply (Suc n) i is_top out c p w =
       (let check = (c \<and> reply_type (command_info i) \<noteq> kDepends)
        in reply_switch (\<lambda>k p w. read_children n i [] k p w) (in_command i) (expected_type check i p)
             check is_top line out p' w')" by blast
  show ?thesis
  proof (rule that [OF n 1(1)])
    show "avail p' w' < m" using 1(2) a n by simp
    show "do_read_reply n i False out False p w = reply_switch (\<lambda>k p w. read_children m i [] k p w)
       (in_command i) (reply_type (command_info i)) False False line out p' w'"
      by (simp add: n 2 expected_type_def)
  qed
qed

lemma reads_childI:
  assumes "\<And>p w rest out. proto_ready p w \<Longrightarrow> proto_stream p w = encode r @ rest \<Longrightarrow> avail p w < n \<Longrightarrow>
    \<exists>p' w'. do_read_reply n i False out False p w = Some (True, output_of r, p', w') \<and> reads p w rest p' w'"
  shows "reads_child n i r"
  using assms unfolding reads_child_def by blast

lemma reads_child_status:
  assumes "plain_input i" "CHR 0x0D \<notin> set t"
  shows "reads_child n i (RStatus t)"
proof (rule reads_childI)
  fix p w rest and out :: RedisOutput
  assume r: "proto_ready p w" and s: "proto_stream p w = encode (RStatus t) @ rest" and a: "avail p w < n"
  have "proto_stream p w = (CHR ''+'' # t) @ CRLF @ rest" using s by simp
  moreover have "CHR ''+'' # t \<noteq> []" "CHR 0x0D \<notin> set (CHR ''+'' # t)" using assms(2) by auto
  ultimately obtain m p' w' where
    "reads p w rest p' w'" "do_read_reply n i False out False p w = reply_switch (\<lambda>k p w. read_children m i [] k p w)
       (in_command i) (reply_type (command_info i)) False False (CHR ''+'' # t) out p' w'"
    using child_line [OF r _ _ _ a] by metis
  then show "\<exists>p' w'. do_read_reply n i False out False p w = Some (True, output_of (RStatus t), p', w') \<and> reads p w rest p' w'"
    using assms(1) by (auto simp: reply_switch_def reply_status_def plain_input_def set_status_def)
qed

lemma reads_child_integer:
  assumes "LONG_MIN \<le> x" "x \<le> LONG_MAX"
  shows "reads_child n i (RInteger x)"
proof (rule reads_childI)
  fix p w rest and out :: RedisOutput
  assume r: "proto_ready p w" and s: "proto_stream p w = encode (RInteger x) @ rest" and a: "avail p w < n"
  have "proto_stream p w = (CHR '':'' # show_int x) @ CRLF @ rest" using s by simp
  moreover have "CHR '':'' # show_int x \<noteq> []" "CHR 0x0D \<notin> set (CHR '':'' # show_int x)"
    using show_int_no_CR by auto
  ultimately obtain m p' w' where
    1: "reads p w rest p' w'" "do_read_reply n i False out False p w = reply_switch (\<lambda>k p w. read_children m i [] k p w)
       (in_command i) (reply_type (command_info i)) False False (CHR '':'' # show_int x) out p' w'"
    using child_line [OF r _ _ _ a] by metis
  have "errno_clean w'" using readsD(1) [OF 1(1)] by (simp add: proto_ready_def)
  with 1 assms show "\<exists>p' w'. do_read_reply n i False out False p w = Some (True, output_of (RInteger x), p', w') \<and> reads p w rest p' w'"
    by (auto simp: reply_switch_def reply_integer_def parse_integer_show set_i_def)
qed

lemma reads_child_bulk:
  assumes "bulk_ok b"
  shows "reads_child n i (RBulk b)"
proof (rule reads_childI)
  fix p w rest and out :: RedisOutput
  assume r: "proto_ready p w" and s: "proto_stream p w = encode (RBulk b) @ rest" and a: "avail p w < n"
  have "proto_stream p w = bulk_header b @ CRLF @ bulk_body b @ rest" using s by (simp add: encode_bulk_split)
  from child_line [OF r this bulk_header_line(1,3) a, of i out] obtain m p1 w1 where
    1: "reads p w (bulk_body b @ rest) p1 w1" "do_read_reply n i False out False p w = reply_switch (\<lambda>k p w. read_children m i [] k p w)
       (in_command i) (reply_type (command_info i)) False False (bulk_header b) out p1 w1" by blast
  from read_bulk_2_step [OF readsD(1,2) [OF 1(1)] assms] obtain p' w' where
    2: "read_bulk_2 (bulk_header b) p1 w1 = Some (True, b, p', w')" "reads p1 w1 rest p' w'" .
  from reads_trans [OF 1(1) 2(2)] 1(2) 2(1) bulk_header_line(2) [of b]
  show "\<exists>p' w'. do_read_reply n i False out False p w = Some (True, output_of (RBulk b), p', w') \<and> reads p w rest p' w'"
    by (cases b) (auto simp: reply_switch_def reply_bulk_def set_bulk_def set_nil_bulk_def)
qed

lemma reads_child_nil:
  assumes "plain_input i"
  shows "reads_child n i (RMulti None)"
proof (rule reads_childI)
  fix p w rest and out :: RedisOutput
  assume r: "proto_ready p w" and s: "proto_stream p w = encode (RMulti None) @ rest" and a: "avail p w < n"
  have "proto_stream p w = ''*-1'' @ CRLF @ rest" using s by simp
  moreover have "''*-1'' \<noteq> []" "CHR 0x0D \<notin> set ''*-1''" by auto
  ultimately obtain m p' w' where
    1: "reads p w rest p' w'" "do_read_reply n i False out False p w = reply_switch (\<lambda>k p w. read_children m i [] k p w)
       (in_command i) (reply_type (command_info i)) False False ''*-1'' out p' w'"
    using child_line [OF r _ _ _ a] by metis
  have "errno_clean w'" using readsD(1) [OF 1(1)] by (simp add: proto_ready_def)
  with 1 assms show "\<exists>p' w'. do_read_reply n i False out False p w = Some (True, output_of (RMulti None), p', w') \<and> reads p w rest p' w'"
    by (auto simp: reply_switch_def reply_smbulk_nil plain_input_def)
qed

lemma reads_child_multi:
  assumes i: "plain_input i" and ch: "\<And>n r. r \<in> set rs \<Longrightarrow> reads_child n i r"
  shows "reads_child n i (RMulti (Some rs))"
proof (rule reads_childI)
  fix p w rest and out :: RedisOutput
  assume r: "proto_ready p w" and s: "proto_stream p w = encode (RMulti (Some rs)) @ rest" and a: "avail p w < n"
  let ?h = "CHR ''*'' # show_nat (length rs)"
  have "proto_stream p w = ?h @ CRLF @ concat (map encode rs) @ rest" using s by simp
  moreover have "?h \<noteq> []" "CHR 0x0D \<notin> set ?h" using show_nat_no_CR by auto
  ultimately obtain m p1 w1 where
    1: "reads p w (concat (map encode rs) @ rest) p1 w1" "avail p1 w1 < m"
       "do_read_reply n i False out False p w = reply_switch (\<lambda>k p w. read_children m i [] k p w)
       (in_command i) (reply_type (command_info i)) False False ?h out p1 w1"
    using child_line [OF r _ _ _ a] by metis
  from reply_smbulk_step [OF ch readsD(1,2) [OF 1(1)] 1(2), of "in_command i" False out] obtain p' w' where
    2: "reads p1 w1 rest p' w'"
    "reply_smbulk (\<lambda>k p w. read_children m i [] k p w) (in_command i) False ?h out p1 w1
       = Some (True, output_of (RMulti (Some rs)), p', w')" by auto
  from reads_trans [OF 1(1) 2(1)] 1(3) 2(2) i
  show "\<exists>p' w'. do_read_reply n i False out False p w = Some (True, output_of (RMulti (Some rs)), p', w') \<and> reads p w rest p' w'"
    by (auto simp: reply_switch_def plain_input_def)
qed

lemma reads_child_ok:
  assumes i: "plain_input i"
  shows "reply_ok r \<Longrightarrow> reads_child n i r"
proof (induction r arbitrary: n)
  case (RMulti m)
  show ?case
  proof (cases m)
    case None
    with i show ?thesis by (simp add: reads_child_nil)
  next
    case (Some rs)
    then have "reads_child n i r" if "r \<in> set rs" for n r
      using RMulti that by (auto simp: list_all_iff)
    with i show ?thesis unfolding Some by (rule reads_child_multi)
  qed
qed (use i in \<open>simp_all add: reads_child_status reads_child_integer reads_child_bulk\<close>)


section \<open>Replies of the expected type\<close>

text \<open>The outcome of \<open>read_reply\<close>: the object, the mode after it, and the rest of the stream.\<close>

definition replies :: "RedisCommand \<Rightarrow> RedisOutput \<Rightarrow> bool \<Rightarrow> string \<Rightarrow> RedisProtocol \<Rightarrow> world \<Rightarrow> bool" where
  "replies c out mode rest p w \<longleftrightarrow>
     (\<exists>p' w'. read_reply (Some c) p w
        = Some (True, Some (c\<lparr>cmd_out := out\<rparr>), p'\<lparr>transaction_mode := mode\<rparr>, w') \<and> reads p w rest p' w')"

lemma mode_update: "m = transaction_mode p \<Longrightarrow> p\<lparr>transaction_mode := m\<rparr> = p"
  by simp

text \<open>The first line of a reply.\<close>

lemma reply_line:
  assumes r: "proto_ready p w" and s: "proto_stream p w = line @ CRLF @ rest"
    and l: "line \<noteq> []" "CHR 0x0D \<notin> set line"
  obtains m p' w' where "reads p w rest p' w'" "avail p' w' < m"
    "do_read_reply (Suc (avail p w)) i True out True p w = reply_switch (\<lambda>k p w. read_children m i [] k p w)
       (in_command i) (expected_type (reply_type (command_info i) \<noteq> kDepends) i p)
       (reply_type (command_info i) \<noteq> kDepends) True line out p' w'"
proof -
  from do_read_reply_line [OF r s l] obtain p' w' where
    1: "reads p w rest p' w'" "avail p' w' < avail p w" and
    2: "\<And>n i is_top out c. do_read_reply (Suc n) i is_top out c p w =
       (let check = (c \<and> reply_type (command_info i) \<noteq> kDepends)
        in reply_switch (\<lambda>k p w. read_children n i [] k p w) (in_command i) (expected_type check i p)
             check is_top line out p' w')" by blast
  show ?thesis by (rule that [OF 1]) (simp add: 2 Let_def)
qed

text \<open>The type of the reply of a server: the one the table names; inside a transaction every command
  but the three that control it is answered with a status (\<open>QUEUED\<close>).\<close>

definition server_type :: "RedisInput \<Rightarrow> bool \<Rightarrow> kReplyType" where
  "server_type i in_transaction =
     (if in_transaction \<and> in_command i \<notin> {MULTI, DISCARD, EXEC} then kStatus else reply_type (command_info i))"

lemma expected_server_type: "expected_type True i p = server_type i (transaction_mode p)"
  by (simp add: expected_type_def server_type_def)

definition expects :: "RedisCommand \<Rightarrow> RedisProtocol \<Rightarrow> kReplyType \<Rightarrow> bool" where
  "expects c p t \<longleftrightarrow>
     (if reply_type (command_info (cmd_in c)) = kDepends then t \<noteq> kMultiBulk
      else server_type (cmd_in c) (transaction_mode p) = t)"

lemma expects_code:
  "expects c p t \<longleftrightarrow>
     (reply_type (command_info (cmd_in c)) = kDepends \<and> t \<noteq> kMultiBulk
      \<or> reply_type (command_info (cmd_in c)) \<noteq> kDepends \<and> expected_type True (cmd_in c) p = t)"
  by (simp add: expects_def expected_server_type)

definition mode_after_status :: "RedisCommand \<Rightarrow> RedisProtocol \<Rightarrow> bool" where
  "mode_after_status c p =
     (if in_command (cmd_in c) = MULTI then True
      else if in_command (cmd_in c) = DISCARD then False else transaction_mode p)"

lemma replies_status:
  assumes r: "proto_ready p w" and s: "proto_stream p w = encode (RStatus t) @ rest"
    and t: "CHR 0x0D \<notin> set t" and e: "expects c p kStatus"
  shows "replies c (output_of (RStatus t)) (mode_after_status c p) rest p w"
proof -
  let ?i = "cmd_in c"
  have "proto_stream p w = (CHR ''+'' # t) @ CRLF @ rest" using s by simp
  moreover have "CHR ''+'' # t \<noteq> []" "CHR 0x0D \<notin> set (CHR ''+'' # t)" using t by auto
  ultimately obtain m p' w' where
    1: "reads p w rest p' w'" "do_read_reply (Suc (avail p w)) ?i True (cmd_out c) True p w
      = reply_switch (\<lambda>k p w. read_children m ?i [] k p w)
       (in_command ?i) (expected_type (reply_type (command_info ?i) \<noteq> kDepends) ?i p)
       (reply_type (command_info ?i) \<noteq> kDepends) True (CHR ''+'' # t) (cmd_out c) p' w'"
    using reply_line [OF r] by metis
  have "read_reply (Some c) p w = Some (True, Some (c\<lparr>cmd_out := output_of (RStatus t)\<rparr>),
      p'\<lparr>transaction_mode := mode_after_status c p\<rparr>, w')"
    using 1(2) e readsD(3) [OF 1(1)]
    by (auto simp: read_reply_def reply_switch_def reply_status_def set_status_def expects_code
        mode_after_status_def mode_update)
  with 1(1) show ?thesis by (auto simp: replies_def)
qed

lemma replies_integer:
  assumes r: "proto_ready p w" and s: "proto_stream p w = encode (RInteger x) @ rest"
    and x: "LONG_MIN \<le> x" "x \<le> LONG_MAX" and e: "expects c p kInteger"
  shows "replies c (output_of (RInteger x)) (transaction_mode p) rest p w"
proof -
  let ?i = "cmd_in c"
  have "proto_stream p w = (CHR '':'' # show_int x) @ CRLF @ rest" using s by simp
  moreover have "CHR '':'' # show_int x \<noteq> []" "CHR 0x0D \<notin> set (CHR '':'' # show_int x)"
    using show_int_no_CR by auto
  ultimately obtain m p' w' where
    1: "reads p w rest p' w'" "do_read_reply (Suc (avail p w)) ?i True (cmd_out c) True p w
      = reply_switch (\<lambda>k p w. read_children m ?i [] k p w)
       (in_command ?i) (expected_type (reply_type (command_info ?i) \<noteq> kDepends) ?i p)
       (reply_type (command_info ?i) \<noteq> kDepends) True (CHR '':'' # show_int x) (cmd_out c) p' w'"
    using reply_line [OF r] by metis
  have "errno_clean w'" using readsD(1) [OF 1(1)] by (simp add: proto_ready_def)
  with 1(2) e readsD(3) [OF 1(1)] x
  have "read_reply (Some c) p w = Some (True, Some (c\<lparr>cmd_out := output_of (RInteger x)\<rparr>),
      p'\<lparr>transaction_mode := transaction_mode p\<rparr>, w')"
    by (auto simp: read_reply_def reply_switch_def reply_integer_def parse_integer_show set_i_def
        expects_code mode_update)
  with 1(1) show ?thesis by (auto simp: replies_def)
qed

lemma replies_bulk:
  assumes r: "proto_ready p w" and s: "proto_stream p w = encode (RBulk b) @ rest"
    and b: "bulk_ok b" and e: "expects c p kBulk"
  shows "replies c (output_of (RBulk b)) (transaction_mode p) rest p w"
proof -
  let ?i = "cmd_in c"
  have "proto_stream p w = bulk_header b @ CRLF @ bulk_body b @ rest" using s by (simp add: encode_bulk_split)
  then obtain m p1 w1 where
    1: "reads p w (bulk_body b @ rest) p1 w1" "do_read_reply (Suc (avail p w)) ?i True (cmd_out c) True p w
      = reply_switch (\<lambda>k p w. read_children m ?i [] k p w)
       (in_command ?i) (expected_type (reply_type (command_info ?i) \<noteq> kDepends) ?i p)
       (reply_type (command_info ?i) \<noteq> kDepends) True (bulk_header b) (cmd_out c) p1 w1"
    using reply_line [OF r _ bulk_header_line(1,3)] by metis
  from read_bulk_2_step [OF readsD(1,2) [OF 1(1)] b] obtain p' w' where
    2: "read_bulk_2 (bulk_header b) p1 w1 = Some (True, b, p', w')" "reads p1 w1 rest p' w'" .
  note 3 = reads_trans [OF 1(1) 2(2)]
  have "read_reply (Some c) p w = Some (True, Some (c\<lparr>cmd_out := output_of (RBulk b)\<rparr>),
      p'\<lparr>transaction_mode := transaction_mode p\<rparr>, w')"
    using 1(2) 2(1) e readsD(3) [OF 3] bulk_header_line(2) [of b]
    by (cases b) (auto simp: read_reply_def reply_switch_def reply_bulk_def set_bulk_def
        set_nil_bulk_def expects_code mode_update)
  with 3 show ?thesis by (auto simp: replies_def)
qed


lemma replies_mbulk:
  assumes r: "proto_ready p w" and s: "proto_stream p w = encode (RMulti (Some (map RBulk bs))) @ rest"
    and b: "list_all bulk_ok bs" and k: "reply_type (command_info (cmd_in c)) \<noteq> kDepends"
    and e: "expects c p kMultiBulk"
  shows "replies c (RedisOutput kMultiBulk (MbulksPtr bs)) (transaction_mode p) rest p w"
proof -
  let ?i = "cmd_in c" and ?h = "CHR ''*'' # show_nat (length bs)"
  have "proto_stream p w = ?h @ CRLF @ concat (map encode_bulk bs) @ rest"
    using s by (simp add: comp_def)
  moreover have "?h \<noteq> []" "CHR 0x0D \<notin> set ?h" using show_nat_no_CR by auto
  ultimately obtain m p1 w1 where
    1: "reads p w (concat (map encode_bulk bs) @ rest) p1 w1"
      "do_read_reply (Suc (avail p w)) ?i True (cmd_out c) True p w
      = reply_switch (\<lambda>k p w. read_children m ?i [] k p w)
       (in_command ?i) (expected_type (reply_type (command_info ?i) \<noteq> kDepends) ?i p)
       (reply_type (command_info ?i) \<noteq> kDepends) True ?h (cmd_out c) p1 w1"
    using reply_line [OF r] by metis
  from read_multi_bulk_2_step [OF readsD(1,2) [OF 1(1)] b] obtain p' w' where
    2: "read_multi_bulk_2 (''*'' @ show_nat (length bs)) p1 w1 = Some (True, Some bs, p', w')"
      "reads p1 w1 rest p' w'" .
  note 3 = reads_trans [OF 1(1) 2(2)]
  have "read_reply (Some c) p w = Some (True, Some (c\<lparr>cmd_out := RedisOutput kMultiBulk (MbulksPtr bs)\<rparr>),
      p'\<lparr>transaction_mode := transaction_mode p\<rparr>, w')"
    using 1(2) 2(1) e k readsD(3) [OF 3]
    by (auto simp: read_reply_def reply_switch_def reply_mbulk_def set_mbulks_def expects_code mode_update)
  with 3 show ?thesis by (auto simp: replies_def)
qed

text \<open>A special multi-bulk; that of \<open>EXEC\<close> ends the transaction.\<close>

definition mode_after_multi :: "RedisCommand \<Rightarrow> RedisProtocol \<Rightarrow> bool" where
  "mode_after_multi c p = (if in_command (cmd_in c) = EXEC then False else transaction_mode p)"

lemma replies_special:
  assumes r: "proto_ready p w" and s: "proto_stream p w = encode (RMulti (Some rs)) @ rest"
    and b: "list_all reply_ok rs" and i: "plain_input (cmd_in c)" and e: "expects c p kSpecialMultiBulk"
  shows "replies c (output_of (RMulti (Some rs))) (mode_after_multi c p) rest p w"
proof -
  let ?i = "cmd_in c" and ?h = "CHR ''*'' # show_nat (length rs)"
  have "proto_stream p w = ?h @ CRLF @ concat (map encode rs) @ rest" using s by simp
  moreover have "?h \<noteq> []" "CHR 0x0D \<notin> set ?h" using show_nat_no_CR by auto
  ultimately obtain m p1 w1 where
    1: "reads p w (concat (map encode rs) @ rest) p1 w1" "avail p1 w1 < m"
      "do_read_reply (Suc (avail p w)) ?i True (cmd_out c) True p w
      = reply_switch (\<lambda>k p w. read_children m ?i [] k p w)
       (in_command ?i) (expected_type (reply_type (command_info ?i) \<noteq> kDepends) ?i p)
       (reply_type (command_info ?i) \<noteq> kDepends) True ?h (cmd_out c) p1 w1"
    using reply_line [OF r] by metis
  have "reads_child m ?i r" if "r \<in> set rs" for r
    using reads_child_ok [OF i] b that by (simp add: list_all_iff)
  from reply_smbulk_step [OF this readsD(1,2) [OF 1(1)] 1(2), of "in_command ?i" True "cmd_out c"]
  obtain p' w' where 2: "reads p1 w1 rest p' w'"
    "reply_smbulk (\<lambda>k p w. read_children m ?i [] k p w) (in_command ?i) True ?h (cmd_out c) p1 w1
       = Some (True, output_of (RMulti (Some rs)),
           (if transaction_mode p1 \<and> in_command ?i = EXEC \<and> True
            then p'\<lparr>transaction_mode := False\<rparr> else p'), w')" by blast
  note 3 = reads_trans [OF 1(1) 2(1)]
  have "read_reply (Some c) p w = Some (True, Some (c\<lparr>cmd_out := output_of (RMulti (Some rs))\<rparr>),
      p'\<lparr>transaction_mode := mode_after_multi c p\<rparr>, w')"
    using 1(3) 2(2) e i readsD(3) [OF 3] readsD(3) [OF 1(1)]
    by (auto simp: read_reply_def reply_switch_def expects_code mode_update plain_input_def
        mode_after_multi_def expected_type_def)
  with 3 show ?thesis by (auto simp: replies_def)
qed

text \<open>An error of the server: the command fails, the connection stays usable.\<close>

lemma replies_error:
  assumes r: "proto_ready p w" and s: "proto_stream p w = encode (RError t) @ rest"
    and t: "CHR 0x0D \<notin> set t"
  shows "\<exists>p' w'. read_reply (Some c) p w
      = Some (False, Some (c\<lparr>cmd_out := output_of (RError t)\<rparr>), p'\<lparr>p_error := t\<rparr>, w')
    \<and> reads p w rest p' w'"
proof -
  let ?i = "cmd_in c"
  have "proto_stream p w = (CHR ''-'' # t) @ CRLF @ rest" using s by simp
  moreover have "CHR ''-'' # t \<noteq> []" "CHR 0x0D \<notin> set (CHR ''-'' # t)" using t by auto
  ultimately obtain m p' w' where
    1: "reads p w rest p' w'" "do_read_reply (Suc (avail p w)) ?i True (cmd_out c) True p w
      = reply_switch (\<lambda>k p w. read_children m ?i [] k p w)
       (in_command ?i) (expected_type (reply_type (command_info ?i) \<noteq> kDepends) ?i p)
       (reply_type (command_info ?i) \<noteq> kDepends) True (CHR ''-'' # t) (cmd_out c) p' w'"
    using reply_line [OF r] by metis
  then show ?thesis
    by (intro exI [of _ p'] exI [of _ w']) (simp add: read_reply_def reply_switch_def set_error_def)
qed


lemma replies_nil_mbulk:
  assumes r: "proto_ready p w" and s: "proto_stream p w = encode (RMulti None) @ rest"
    and k: "reply_type (command_info (cmd_in c)) \<noteq> kDepends" and e: "expects c p kMultiBulk"
  shows "replies c (RedisOutput kMultiBulk NullPtr) (transaction_mode p) rest p w"
proof -
  let ?i = "cmd_in c"
  have "proto_stream p w = ''*-1'' @ CRLF @ rest" using s by simp
  moreover have "''*-1'' \<noteq> []" "CHR 0x0D \<notin> set ''*-1''" by auto
  ultimately obtain m p' w' where
    1: "reads p w rest p' w'" "do_read_reply (Suc (avail p w)) ?i True (cmd_out c) True p w
      = reply_switch (\<lambda>k p w. read_children m ?i [] k p w)
       (in_command ?i) (expected_type (reply_type (command_info ?i) \<noteq> kDepends) ?i p)
       (reply_type (command_info ?i) \<noteq> kDepends) True ''*-1'' (cmd_out c) p' w'"
    using reply_line [OF r] by metis
  have "errno_clean w'" using readsD(1) [OF 1(1)] by (simp add: proto_ready_def)
  moreover have "show_int (- 1) = ''-1''" by code_simp
  ultimately have "parse_integer ''*-1'' w' = Some (True, - 1, w')"
    using parse_integer_show [of w' "- 1" "CHR ''*''"] by (simp add: LONG_MIN_def LONG_MAX_def)
  then have "read_reply (Some c) p w = Some (True, Some (c\<lparr>cmd_out := RedisOutput kMultiBulk NullPtr\<rparr>),
      p'\<lparr>transaction_mode := transaction_mode p\<rparr>, w')"
    using 1(2) e k readsD(3) [OF 1(1)]
    by (auto simp: read_reply_def reply_switch_def reply_mbulk_def read_multi_bulk_2_def
        set_nil_mbulks_def expects_code mode_update)
  with 1(1) show ?thesis by (auto simp: replies_def)
qed

lemma replies_nil_special:
  assumes r: "proto_ready p w" and s: "proto_stream p w = encode (RMulti None) @ rest"
    and i: "plain_input (cmd_in c)" and e: "expects c p kSpecialMultiBulk"
  shows "replies c (output_of (RMulti None)) (mode_after_multi c p) rest p w"
proof -
  let ?i = "cmd_in c"
  have "proto_stream p w = ''*-1'' @ CRLF @ rest" using s by simp
  moreover have "''*-1'' \<noteq> []" "CHR 0x0D \<notin> set ''*-1''" by auto
  ultimately obtain m p' w' where
    1: "reads p w rest p' w'" "do_read_reply (Suc (avail p w)) ?i True (cmd_out c) True p w
      = reply_switch (\<lambda>k p w. read_children m ?i [] k p w)
       (in_command ?i) (expected_type (reply_type (command_info ?i) \<noteq> kDepends) ?i p)
       (reply_type (command_info ?i) \<noteq> kDepends) True ''*-1'' (cmd_out c) p' w'"
    using reply_line [OF r] by metis
  have "errno_clean w'" using readsD(1) [OF 1(1)] by (simp add: proto_ready_def)
  then have "read_reply (Some c) p w = Some (True, Some (c\<lparr>cmd_out := output_of (RMulti None)\<rparr>),
      p'\<lparr>transaction_mode := mode_after_multi c p\<rparr>, w')"
    using 1(2) e i readsD(3) [OF 1(1)]
    by (auto simp: read_reply_def reply_switch_def reply_smbulk_nil expects_code mode_update
        plain_input_def mode_after_multi_def expected_type_def)
  with 1(1) show ?thesis by (auto simp: replies_def)
qed

section \<open>The specification of read_reply\<close>

text \<open>\<open>fits c p r\<close>: the reply \<open>r\<close> has the type the command expects; \<open>answer\<close> and \<open>answer_mode\<close>:
  the object the command receives and the transaction mode after it.\<close>

definition wants_mbulk :: "RedisCommand \<Rightarrow> RedisProtocol \<Rightarrow> bool" where
  "wants_mbulk c p \<longleftrightarrow>
     reply_type (command_info (cmd_in c)) \<noteq> kDepends \<and> expects c p kMultiBulk"

fun is_bulk_reply :: "reply \<Rightarrow> bool" where
  "is_bulk_reply (RBulk b) = bulk_ok b"
| "is_bulk_reply _ = False"

fun the_bulk :: "reply \<Rightarrow> string option" where
  "the_bulk (RBulk b) = b"
| "the_bulk _ = None"

fun fits :: "RedisCommand \<Rightarrow> RedisProtocol \<Rightarrow> reply \<Rightarrow> bool" where
  "fits c p (RStatus t) = (CHR 0x0D \<notin> set t \<and> expects c p kStatus)"
| "fits c p (RError t) = False"
| "fits c p (RInteger x) = (LONG_MIN \<le> x \<and> x \<le> LONG_MAX \<and> expects c p kInteger)"
| "fits c p (RBulk b) = (bulk_ok b \<and> expects c p kBulk)"
| "fits c p (RMulti m) =
     (if wants_mbulk c p then (case m of None \<Rightarrow> True | Some rs \<Rightarrow> list_all is_bulk_reply rs)
      else expects c p kSpecialMultiBulk \<and> plain_input (cmd_in c)
        \<and> (case m of None \<Rightarrow> True | Some rs \<Rightarrow> list_all reply_ok rs))"

fun answer :: "RedisCommand \<Rightarrow> RedisProtocol \<Rightarrow> reply \<Rightarrow> RedisOutput" where
  "answer c p (RMulti m) =
     (if wants_mbulk c p
      then RedisOutput kMultiBulk (case m of None \<Rightarrow> NullPtr | Some rs \<Rightarrow> MbulksPtr (map the_bulk rs))
      else output_of (RMulti m))"
| "answer c p r = output_of r"

fun answer_mode :: "RedisCommand \<Rightarrow> RedisProtocol \<Rightarrow> reply \<Rightarrow> bool" where
  "answer_mode c p (RStatus t) = mode_after_status c p"
| "answer_mode c p (RMulti m) = (if wants_mbulk c p then transaction_mode p else mode_after_multi c p)"
| "answer_mode c p r = transaction_mode p"

lemma bulk_replies: "list_all is_bulk_reply rs \<Longrightarrow>
  rs = map RBulk (map the_bulk rs) \<and> list_all bulk_ok (map the_bulk rs)"
proof (induction rs)
  case (Cons r rs)
  then show ?case by (cases r) auto
qed simp

lemma read_reply_fits:
  assumes r: "proto_ready p w" and s: "proto_stream p w = encode r @ rest" and f: "fits c p r"
  shows "replies c (answer c p r) (answer_mode c p r) rest p w"
proof (cases r)
  case (RStatus t)
  with assms replies_status [of p w t rest c] show ?thesis by simp
next
  case (RInteger x)
  with assms replies_integer [of p w x rest c] show ?thesis by simp
next
  case (RBulk b)
  with assms replies_bulk [of p w b rest c] show ?thesis by simp
next
  case (RMulti m)
  show ?thesis
  proof (cases "wants_mbulk c p")
    case True
    show ?thesis
    proof (cases m)
      case None
      with True RMulti assms replies_nil_mbulk [of p w rest c] show ?thesis
        by (simp add: wants_mbulk_def)
    next
      case (Some rs)
      with True RMulti f have b: "list_all is_bulk_reply rs" by simp
      from bulk_replies [OF b] s RMulti Some
      have "proto_stream p w = encode (RMulti (Some (map RBulk (map the_bulk rs)))) @ rest"
        by metis
      from replies_mbulk [OF r this] bulk_replies [OF b] True RMulti Some show ?thesis
        by (simp add: wants_mbulk_def)
    qed
  next
    case False
    with RMulti assms replies_nil_special [of p w rest c] replies_special [of p w _ rest c] show ?thesis
      by (cases m) auto
  qed
qed (use f in simp)

end
