(* ===== verification/Protocol_Requests.thy ===== *)
theory Protocol_Requests
  imports Protocol_Replies
begin

text \<open>
  What goes out on the wire.  \<open>decode_request\<close> is the reader of requests as the protocol
  defines it for a server; every request text is read back to the command name and its
  arguments, whatever bytes they hold.  A write that succeeds on a connection that stays open
  has sent the whole text.
\<close>

section \<open>The reference reader of requests\<close>

fun take_line :: "string \<Rightarrow> (string \<times> string) option" where
  "take_line [] = None"
| "take_line [c] = None"
| "take_line (c # d # cs) =
     (if c = CHR 0x0D \<and> d = CHR 0x0A then Some ([], cs)
      else map_option (\<lambda>(l, r). (c # l, r)) (take_line (d # cs)))"

definition decode_number :: "char \<Rightarrow> string \<Rightarrow> (nat \<times> string) option" where
  "decode_number tag s = do {
     (l, r) \<leftarrow> take_line s;
     if l \<noteq> [] \<and> hd l = tag \<and> tl l \<noteq> [] \<and> list_all is_digit (tl l)
     then Some (read_digits 0 (tl l), r) else None
   }"

definition decode_arg :: "string \<Rightarrow> (string \<times> string) option" where
  "decode_arg s = do {
     (n, r) \<leftarrow> decode_number (CHR ''$'') s;
     if n + 2 \<le> length r \<and> take 2 (drop n r) = s_redis_line_end
     then Some (take n r, drop (n + 2) r) else None
   }"

fun decode_args :: "nat \<Rightarrow> string \<Rightarrow> (string list \<times> string) option" where
  "decode_args 0 s = Some ([], s)"
| "decode_args (Suc n) s = do {
     (a, s) \<leftarrow> decode_arg s;
     (as, s) \<leftarrow> decode_args n s;
     Some (a # as, s)
   }"

definition decode_request :: "string \<Rightarrow> (string list \<times> string) option" where
  "decode_request s = do {
     (n, s) \<leftarrow> decode_number (CHR ''*'') s;
     decode_args n s
   }"

lemma take_line_append:
  "CHR 0x0D \<notin> set l \<Longrightarrow> take_line (l @ s_redis_line_end @ r) = Some (l, r)"
proof (induction l)
  case Nil
  then show ?case by (simp add: s_redis_line_end_def)
next
  case (Cons c l)
  then have IH: "take_line (l @ s_redis_line_end @ r) = Some (l, r)" by simp
  obtain d ds where "l @ s_redis_line_end @ r = d # ds"
    by (cases l) (auto simp: s_redis_line_end_def)
  with IH Cons.prems show ?case by auto
qed

lemma decode_number_append:
  "tag \<noteq> CHR 0x0D \<Longrightarrow> decode_number tag (tag # show_nat n @ s_redis_line_end @ r) = Some (n, r)"
  using take_line_append [of "tag # show_nat n" r] show_nat_digits [of _ n]
  by (auto simp: decode_number_def read_digits_show_nat show_nat_no_CR list_all_iff)

lemma decode_arg_append: "decode_arg (bulk_text a @ r) = Some (a, r)"
  by (simp add: decode_arg_def bulk_text_def decode_number_append) (simp add: s_redis_line_end_def)

lemma decode_args_append:
  "decode_args (length as) (concat (map bulk_text as) @ r) = Some (as, r)"
  by (induction as) (simp_all add: decode_arg_append)

lemma decode_request_append:
  "decode_request (''*'' @ show_nat (length as) @ s_redis_line_end @ concat (map bulk_text as) @ r)
   = Some (as, r)"
  by (simp add: decode_request_def decode_number_append decode_args_append)

lemma request_text_decode:
  assumes "length (args i) < 2 ^ 31 - 1"
  shows "decode_request (request_text i @ r) = Some (command_str (command_info i) # args i, r)"
proof -
  have "int32 (int (length (args i))) = int (length (args i))" using assms by (intro int32_nat_id) simp
  moreover have "int32 (int (length (args i)) + 1) = int (length (args i) + 1)"
    using assms by (subst int32_id) auto
  ultimately have "request_text i = ''*'' @ show_nat (length (command_str (command_info i) # args i))
      @ s_redis_line_end @ concat (map bulk_text (command_str (command_info i) # args i))"
    by (simp add: request_text_def show_int_of_nat [symmetric])
  then show ?thesis using decode_request_append [of "command_str (command_info i) # args i" r] by simp
qed

section \<open>Sending\<close>

text \<open>\<open>send\<close> takes something, or is interrupted.\<close>

definition send_ok :: "send_ret \<Rightarrow> bool" where
  "send_ok r = (case r of Sent n \<Rightarrow> 0 < n | SendFail e \<Rightarrow> e = EINTR)"

text \<open>Writing leaves these parts of the world alone.\<close>

definition wrote :: "world \<Rightarrow> world \<Rightarrow> bool" where
  "wrote w w' \<longleftrightarrow> recv_q w' = recv_q w \<and> strerror w' = strerror w
     \<and> (time_q w = [] \<longrightarrow> time_q w' = [] \<and> clock w' = clock w)"

lemma wrote_trans: "wrote u v \<Longrightarrow> wrote v w \<Longrightarrow> wrote u w"
  by (simp add: wrote_def)

lemma poll_write_polled: "polled w (snd (poll_write timeout w))"
  using retry_poll_polled [of w timeout]
  by (auto simp: poll_write_def split: prod.splits intro: polled_errno)

text \<open>Whatever happens, a prefix of the data is sent; the count says which one.\<close>

lemma writen_loop_prefix:
  assumes "writen_loop f timeout buf left w = (r, w')" "left = int (length buf)"
  shows "\<exists>k \<le> length buf. sent w' = sent w @ take k buf \<and> wrote w w'
    \<and> (case r of Inl e \<Rightarrow> e = - 1 | Inr l \<Rightarrow> l = int (length buf - k))"
  using assms
proof (induction "length (send_q w) + nat left" arbitrary: buf left w r w' rule: less_induct)
  case less
  show ?case
  proof (cases "0 < left")
    case False
    with less.prems show ?thesis
      by (auto simp: writen_loop.simps [of f timeout "[]" 0 w] wrote_def)
  next
    case True
    obtain p w1 where p: "poll_write timeout w = (p, w1)" by force
    have pw: "polled w w1" using poll_write_polled [of w timeout] by (simp add: p)
    note pd = polledD [OF pw]
    have full: "take (nat left) buf = buf" using less.prems(2) by simp
    obtain n w2 where sd: "sys_send f buf w1 = (n, w2)" by force
    have keep: "wrote w w2"
      using sd pd by (auto simp: wrote_def sys_send_def split: if_splits list.splits send_ret.splits)
    show ?thesis
    proof (cases "p = 1")
      case False
      with p True less.prems pd show ?thesis
        by (auto simp: writen_loop.simps [of f timeout buf "int (length buf)" w] wrote_def)
    next
      case p1: True
      consider (fail) "n = - 1" "errno w2 \<noteq> 4" "sent w2 = sent w" | (intr) "n = - 1" "errno w2 = 4" "sent w2 = sent w"
        | (zero) "n = 0" "sent w2 = sent w"
        | (some) k where "0 < k" "k \<le> length buf" "n = int k" "sent w2 = sent w @ take k buf"
        using sys_send_count [OF sd] pd by (cases "n = 0") auto
      then show ?thesis
      proof cases
        case fail
        with p p1 True less.prems sd full keep show ?thesis
          by (auto simp: writen_loop.simps [of f timeout buf "int (length buf)" w])
      next
        case intr
        with p p1 True less.prems sd full have rec: "writen_loop f timeout buf left w2 = (r, w')"
          by (simp add: writen_loop.simps [of f timeout buf "int (length buf)" w])
        have "length (send_q w2) < length (send_q w1)"
          using sys_send_interrupted [of f buf w1 w2] sd intr by simp
        then have "length (send_q w2) + nat left < length (send_q w) + nat left" using pd by simp
        from less.hyps [OF this rec less.prems(2)] intr keep show ?thesis
          by (auto intro: wrote_trans)
      next
        case zero
        with p p1 True less.prems sd full keep show ?thesis
          by (auto simp: writen_loop.simps [of f timeout buf "int (length buf)" w] wrote_def)
      next
        case (some k)
        with p p1 True less.prems sd full have rec: "writen_loop f timeout (drop k buf) (left - int k) w2 = (r, w')"
          by (simp add: writen_loop.simps [of f timeout buf "int (length buf)" w])
        have "length (send_q w2) + nat (left - int k) < length (send_q w1) + nat left"
          using sys_send_progress [OF sd _ _ True] some by simp
        then have lt: "length (send_q w2) + nat (left - int k) < length (send_q w) + nat left" using pd by simp
        have len: "left - int k = int (length (drop k buf))" using less.prems(2) some by simp
        from less.hyps [OF lt rec len] obtain j where
          j: "j \<le> length (drop k buf)" "sent w' = sent w2 @ take j (drop k buf)" "wrote w2 w'"
            "case r of Inl e \<Rightarrow> e = - 1 | Inr l \<Rightarrow> l = int (length (drop k buf) - j)" by blast
        have "sent w' = sent w @ take (k + j) buf" using some j(2) by (simp add: take_add)
        with j some keep show ?thesis
          by (intro exI [of _ "k + j"]) (auto intro: wrote_trans split: sum.splits)
      qed
    qed
  qed
qed


lemma timed_writen_prefix:
  assumes "timed_writen f buf timeout w = (n, w')" "length buf < 2 ^ 31"
  shows "\<exists>k \<le> length buf. sent w' = sent w @ take k buf \<and> wrote w w' \<and> (n = - 1 \<or> n = int k)"
proof -
  have len: "int32 (int (length buf)) = int (length buf)" using assms(2) by (rule int32_nat_id)
  obtain r w1 where r: "writen_loop f timeout buf (int (length buf)) w = (r, w1)" by force
  from writen_loop_prefix [OF r refl] assms(1) r show ?thesis
    by (auto simp: timed_writen_def len split: sum.splits)
qed

lemma close_sent:
  "TcpClient_close tc w = (tc', w') \<Longrightarrow> sent w' = sent w \<and> recv_q w' = recv_q w \<and> strerror w' = strerror w
     \<and> clock w' = clock w \<and> time_q w' = time_q w"
  using TcpClient_close_quiet [of tc w tc' w'] retry_close_recv_q [of w]
  by (auto simp: quiet_def TcpClient_close_def safe_close_def Let_def)

text \<open>A prefix goes out in any case; on a client that stays open it is everything.\<close>

lemma TcpClient_write_sent:
  assumes "TcpClient_write line timeout tc w = (ec, tc', w')" "length line < 2 ^ 31"
  shows "\<exists>k \<le> length line. sent w' = sent w @ take k line \<and> wrote w w'
    \<and> (fd tc' \<noteq> - 1 \<longrightarrow> k = length line \<and> ec = 0 \<and> fd tc' = fd tc \<and> tbuf tc' = tbuf tc)"
proof -
  have len: "int32 (int (length line)) = int (length line)" using assms(2) by (rule int32_nat_id)
  obtain n w1 where n: "timed_writen (fd tc) line timeout w = (n, w1)" by force
  from timed_writen_prefix [OF n assms(2)] obtain k where
    k: "k \<le> length line" "sent w1 = sent w @ take k line" "wrote w w1" "n = - 1 \<or> n = int k" by blast
  show ?thesis
  proof (cases "n = int (length line)")
    case True
    have "sent (snd (sys_time w1)) = sent w1" "wrote w1 (snd (sys_time w1))"
      by (auto simp: sys_time_def wrote_def split: list.splits)
    with True k n assms(1) len show ?thesis
      by (auto simp: TcpClient_write_def Let_def split: prod.splits intro: wrote_trans)
  next
    case False
    obtain tc2 w2 where c: "TcpClient_close tc w1 = (tc2, w2)" by force
    with False assms(1) n len have "tc' = tc2" "w' = w2" by (auto simp: TcpClient_write_def)
    with close_sent [OF c] TcpClient_close_closed [OF c] k show ?thesis
      by (auto simp: wrote_def)
  qed
qed

lemma close_error_sent:
  "sent (snd (close_error e p w)) = sent w"
  using close_sent [of "tcp_client p" w] by (auto simp: close_error_def proto_close_def split: prod.splits)

lemma write_command_sent:
  assumes "write_command (Some c) p w = (ok, cp, p', w')" "fd (tcp_client p') \<noteq> - 1" "ok"
    "length (request_text (cmd_in c)) < 2 ^ 31"
  shows "cp = Some c \<and> sent w' = sent w @ request_text (cmd_in c)"
proof -
  let ?t = "request_text (cmd_in c)"
  obtain ec tc w1 where t: "TcpClient_write ?t (p_timeout p) (tcp_client p) w = (ec, tc, w1)"
    by (cases "TcpClient_write ?t (p_timeout p) (tcp_client p) w")
  from assms(1,3) have ch: "check_argc c (int32 (int (length (args (cmd_in c))))) p = (True, c, p)"
    by (auto simp: write_command_def check_argc_def Let_def split: if_splits)
  with assms(1,3) t have "cp = Some c" "tc = tcp_client p'" "w' = w1"
    by (auto simp: write_command_def write_text_def Let_def split: if_splits prod.splits)
  with TcpClient_write_sent [OF t assms(4)] assms(2) show ?thesis by auto
qed

section \<open>A connection that takes the data\<close>

definition sends_ready :: "world \<Rightarrow> bool" where
  "sends_ready w = list_all send_ok (send_q w)"

lemma poll_write_ready:
  assumes "polls_ready w"
  shows "\<exists>w'. poll_write timeout w = (1, w') \<and> polls_ready w' \<and> polled w w'
    \<and> (errno w' = errno w \<or> errno w' = EINTR)"
proof -
  obtain r w' where r: "retry_poll timeout w = (r, w')" by force
  from retry_poll_ready [OF assms r] retry_poll_polled [of w timeout] r
  show ?thesis by (auto simp: poll_write_def)
qed

lemma sys_send_ready:
  assumes "sys_send f buf w = (n, w')" "f \<noteq> - 1" "sends_ready w" "buf \<noteq> []"
  shows "sends_ready w' \<and> poll_q w' = poll_q w
    \<and> (n = - 1 \<and> errno w' = EINTR \<or> 0 < n \<and> n \<le> int (length buf) \<and> errno w' = errno w)"
  using assms
  by (auto simp: sys_send_def sends_ready_def send_ok_def min_def split: if_splits list.splits send_ret.splits)

lemma writen_loop_ready:
  assumes "f \<noteq> - 1" "sends_ready w" "polls_ready w" "left = int (length buf)"
    "writen_loop f timeout buf left w = (r, w')"
  shows "r = Inr 0 \<and> sends_ready w' \<and> polls_ready w' \<and> (errno w' = errno w \<or> errno w' = EINTR)"
  using assms
proof (induction "length (send_q w) + nat left" arbitrary: buf left w rule: less_induct)
  case less
  show ?case
  proof (cases "0 < left")
    case False
    with less.prems show ?thesis by (auto simp: writen_loop.simps [of f timeout "[]" 0 w])
  next
    case True
    obtain w1 where p: "poll_write timeout w = (1, w1)" "polls_ready w1" "polled w w1"
      "errno w1 = errno w \<or> errno w1 = EINTR" using poll_write_ready [OF less.prems(3)] by blast
    note pd = polledD [OF p(3)]
    have full: "take (nat left) buf = buf" "buf \<noteq> []" using less.prems(4) True by auto
    obtain n w2 where sd: "sys_send f buf w1 = (n, w2)" by force
    have "sends_ready w1" using less.prems(2) pd by (simp add: sends_ready_def)
    note sr = sys_send_ready [OF sd less.prems(1) this full(2)]
    then have r2: "sends_ready w2" "polls_ready w2" using p(2) by (auto simp: polls_ready_def)
    show ?thesis
    proof (cases "n = - 1")
      case True
      with sr have e: "errno w2 = EINTR" by auto
      have rec: "writen_loop f timeout buf left w2 = (r, w')"
        using less.prems(4,5) \<open>0 < left\<close> p(1) sd full True e by (simp add: writen_loop.simps [of f timeout buf "int (length buf)" w])
      have "length (send_q w2) < length (send_q w1)"
        using sys_send_interrupted [of f buf w1 w2] sd True e by simp
      then have "length (send_q w2) + nat left < length (send_q w) + nat left" using pd by simp
      from less.hyps [OF this less.prems(1) r2 less.prems(4) rec] e show ?thesis by auto
    next
      case False
      with sr have n: "0 < n" "n \<le> int (length buf)" "errno w2 = errno w1" by auto
      have rec: "writen_loop f timeout (drop (nat n) buf) (left - n) w2 = (r, w')"
        using less.prems(4,5) \<open>0 < left\<close> p(1) sd full n by (simp add: writen_loop.simps [of f timeout buf "int (length buf)" w])
      have "length (send_q w2) + nat (left - n) < length (send_q w) + nat left"
        using sys_send_progress [OF sd _ _ True] n pd by simp
      moreover have "left - n = int (length (drop (nat n) buf))" using less.prems(4) n by simp
      ultimately show ?thesis using less.hyps [OF _ less.prems(1) r2 _ rec] n p(4) by auto
    qed
  qed
qed


section \<open>A command and its reply\<close>

text \<open>The specification of \<open>check_argc\<close>: an exact number, a least number, or anything.\<close>

definition argc_fits :: "int \<Rightarrow> nat \<Rightarrow> bool" where
  "argc_fits a n \<longleftrightarrow> a = ARGC_NO_CHECKING \<or> (if 0 \<le> a then a = int n else - a \<le> int n)"

lemma check_argc_iff:
  "fst (check_argc c (int n) p) \<longleftrightarrow> argc_fits (argc (command_info (cmd_in c))) n"
  by (auto simp: check_argc_def argc_fits_def Let_def)

lemma check_argc_fits:
  assumes "argc_fits (argc (command_info (cmd_in c))) n"
  shows "check_argc c (int n) p = (True, c, p)"
  using check_argc_iff [of c n p] assms by (auto simp: check_argc_def Let_def split: if_splits)

lemma write_command_ready:
  assumes r: "proto_ready p w" and s: "sends_ready w" and len: "length (request_text (cmd_in c)) < 2 ^ 31"
    and n: "length (args (cmd_in c)) < 2 ^ 31" and a: "argc_fits (argc (command_info (cmd_in c))) (length (args (cmd_in c)))"
  shows "\<exists>tc w'. write_command (Some c) p w = (True, Some c, p\<lparr>tcp_client := tc\<rparr>, w')
    \<and> sent w' = sent w @ request_text (cmd_in c) \<and> proto_ready (p\<lparr>tcp_client := tc\<rparr>) w'
    \<and> tcp_stream tc w' = proto_stream p w \<and> sends_ready w' \<and> wrote w w'
    \<and> (time_q w = [] \<longrightarrow> last_check_open_time tc = clock w)"
proof -
  let ?t = "request_text (cmd_in c)" and ?tc = "tcp_client p"
  have fd: "fd ?tc \<noteq> - 1" "polls_ready w" "errno_clean w"
    using r by (auto simp: proto_ready_def tcp_ready_def)
  have tl: "int32 (int (length ?t)) = int (length ?t)" using len by (rule int32_nat_id)
  obtain x w1 where wl: "writen_loop (fd ?tc) (p_timeout p) ?t (int (length ?t)) w = (x, w1)" by force
  from writen_loop_ready [OF fd(1) s fd(2) refl wl] writen_loop_prefix [OF wl refl]
  have w1: "x = Inr 0" "sends_ready w1" "polls_ready w1" "errno w1 = errno w \<or> errno w1 = EINTR"
    "sent w1 = sent w @ ?t" "wrote w w1" by auto
  obtain now w2 where t: "sys_time w1 = (now, w2)" by force
  then have w2: "sent w2 = sent w1" "recv_q w2 = recv_q w1" "errno w2 = errno w1" "poll_q w2 = poll_q w1"
    "send_q w2 = send_q w1" by (auto simp: sys_time_def split: list.splits)
  let ?tc' = "?tc\<lparr>last_check_open_time := now\<rparr>"
  have "TcpClient_write ?t (p_timeout p) ?tc w = (0, ?tc', w2)"
    using wl w1(1) t by (simp add: TcpClient_write_def timed_writen_def tl)
  moreover have "check_argc c (int32 (int (length (args (cmd_in c))))) p = (True, c, p)"
    using check_argc_fits [OF a] n by (simp add: int32_nat_id)
  ultimately have wc: "write_command (Some c) p w = (True, Some c, p\<lparr>tcp_client := ?tc'\<rparr>, w2)"
    by (simp add: write_command_def write_text_def)
  have "tcp_stream ?tc' w2 = proto_stream p w" using w1(6) w2(2) by (simp add: tcp_stream_def wrote_def)
  moreover from this have "proto_ready (p\<lparr>tcp_client := ?tc'\<rparr>) w2"
    using r w1 w2 by (auto simp: proto_ready_def tcp_ready_def tcp_inv_def polls_ready_def errno_clean_def)
  moreover have "sends_ready w2" using w1(2) w2(5) by (simp add: sends_ready_def)
  moreover have "wrote w w2 \<and> (time_q w = [] \<longrightarrow> now = clock w)"
    using w1(6) t by (auto simp: wrote_def sys_time_def split: list.splits)
  ultimately show ?thesis using wc w1(5) w2(1) by auto
qed

lemma fits_cong:
  "transaction_mode p' = transaction_mode p \<Longrightarrow>
   fits c p' r = fits c p r \<and> answer c p' r = answer c p r \<and> answer_mode c p' r = answer_mode c p r"
  by (cases r) (simp_all add: expects_code expected_type_def wants_mbulk_def mode_after_status_def
      mode_after_multi_def)

lemma exec_command_fits:
  assumes r: "proto_ready p w" and s: "sends_ready w" and len: "length (request_text (cmd_in c)) < 2 ^ 31"
    and n: "length (args (cmd_in c)) < 2 ^ 31" and a: "argc_fits (argc (command_info (cmd_in c))) (length (args (cmd_in c)))"
    and st: "proto_stream p w = encode rp @ rest" and f: "fits c p rp"
  shows "\<exists>p' w'. exec_command (Some c) p w = Some (True, Some (c\<lparr>cmd_out := answer c p rp\<rparr>), p', w')
    \<and> sent w' = sent w @ request_text (cmd_in c) \<and> proto_ready p' w' \<and> proto_stream p' w' = rest
    \<and> transaction_mode p' = answer_mode c p rp \<and> sends_ready w'
    \<and> (time_q w = [] \<longrightarrow> time_q w' = [] \<and> clock w' = clock w
        \<and> last_check_open_time (tcp_client p') = clock w)"
proof -
  from write_command_ready [OF r s len n a] obtain tc w1 where
    1: "write_command (Some c) p w = (True, Some c, p\<lparr>tcp_client := tc\<rparr>, w1)"
      "sent w1 = sent w @ request_text (cmd_in c)" "proto_ready (p\<lparr>tcp_client := tc\<rparr>) w1"
      "tcp_stream tc w1 = proto_stream p w" "sends_ready w1" "wrote w w1"
      "time_q w = [] \<longrightarrow> last_check_open_time tc = clock w" by blast
  let ?p = "p\<lparr>tcp_client := tc\<rparr>"
  have fc: "fits c ?p rp" "answer c ?p rp = answer c p rp" "answer_mode c ?p rp = answer_mode c p rp"
    using fits_cong [of ?p p c rp] f by auto
  from read_reply_fits [OF 1(3) _ fc(1)] 1(4) st have "replies c (answer c p rp) (answer_mode c p rp) rest ?p w1"
    by (simp add: fc)
  then obtain p' w' where
    2: "read_reply (Some c) ?p w1 = Some (True, Some (c\<lparr>cmd_out := answer c p rp\<rparr>),
          p'\<lparr>transaction_mode := answer_mode c p rp\<rparr>, w')" "reads ?p w1 rest p' w'"
    by (auto simp: replies_def)
  have "sent w' = sent w1" "sends_ready w'" using 2(2) 1(5) by (auto simp: reads_def calm_def quiet_def sends_ready_def)
  moreover have "proto_ready (p'\<lparr>transaction_mode := answer_mode c p rp\<rparr>) w'"
    using readsD(1) [OF 2(2)] by (simp add: proto_ready_def)
  moreover have "time_q w = [] \<longrightarrow> time_q w' = [] \<and> clock w' = clock w
      \<and> last_check_open_time (tcp_client p') = clock w"
    using 1(6,7) 2(2) by (auto simp: wrote_def reads_def calm_def quiet_def)
  ultimately show ?thesis using 1(1,2) 2(1) readsD(2) [OF 2(2)] by (auto simp: exec_command_def)
qed

end
