(* ===== verification/Protocol_Channel.thy ===== *)
theory Protocol_Channel
  imports Protocol_Requests
begin

text \<open>
  The protocol layer as its clients see it: a channel that takes commands and gives each the
  answer to its own request.  The contract is the locale \<open>command_channel\<close>, interpreted on
  \<open>exec_command\<close>; what follows from it for sequences of commands is proved once in the locale.
  \<open>exec_pipeline\<close>, which writes every request before it reads the first reply, is shown to give
  the same answers.
\<close>

section \<open>Sequences of commands\<close>

text \<open>Whether replies fit commands, what the commands receive, and the mode at the end.\<close>

fun replies_fit :: "('c \<Rightarrow> 'm \<Rightarrow> reply \<Rightarrow> bool) \<Rightarrow> ('c \<Rightarrow> 'm \<Rightarrow> reply \<Rightarrow> 'm) \<Rightarrow> 'c list \<Rightarrow> 'm \<Rightarrow> reply list \<Rightarrow> bool"
where
  "replies_fit ok step [] m [] = True"
| "replies_fit ok step (c # cs) m (r # rs) = (ok c m r \<and> replies_fit ok step cs (step c m r) rs)"
| "replies_fit ok step _ m _ = False"

fun answers :: "('c \<Rightarrow> 'm \<Rightarrow> reply \<Rightarrow> 'o) \<Rightarrow> ('c \<Rightarrow> 'm \<Rightarrow> reply \<Rightarrow> 'm) \<Rightarrow> 'c list \<Rightarrow> 'm \<Rightarrow> reply list \<Rightarrow> 'o list"
where
  "answers ans step (c # cs) m (r # rs) = ans c m r # answers ans step cs (step c m r) rs"
| "answers ans step _ m _ = []"

text \<open>Commands one after the other, until one fails.\<close>

fun run_all :: "('c \<Rightarrow> 's \<Rightarrow> ((bool \<times> 'o) \<times> 's) option) \<Rightarrow> 'c list \<Rightarrow> 's \<Rightarrow> ((bool \<times> 'o list) \<times> 's) option"
where
  "run_all ex [] s = Some ((True, []), s)"
| "run_all ex (c # cs) s = do {
     ((ok, o1), s) \<leftarrow> ex c s;
     if \<not> ok then Some ((False, [o1]), s)
     else do { ((ok, os), s) \<leftarrow> run_all ex cs s; Some ((ok, o1 # os), s) }
   }"

locale command_channel =
  fixes ready :: "'s \<Rightarrow> bool"
    and stream :: "'s \<Rightarrow> string"
    and log :: "'s \<Rightarrow> string"
    and mode :: "'s \<Rightarrow> 'm"
    and request :: "'c \<Rightarrow> string"
    and sendable :: "'c \<Rightarrow> bool"
    and ok :: "'c \<Rightarrow> 'm \<Rightarrow> reply \<Rightarrow> bool"
    and ans :: "'c \<Rightarrow> 'm \<Rightarrow> reply \<Rightarrow> 'o"
    and step :: "'c \<Rightarrow> 'm \<Rightarrow> reply \<Rightarrow> 'm"
    and exec :: "'c \<Rightarrow> 's \<Rightarrow> ((bool \<times> 'o) \<times> 's) option"
  assumes exec_law: "ready s \<Longrightarrow> sendable c \<Longrightarrow> stream s = encode r @ rest \<Longrightarrow> ok c (mode s) r \<Longrightarrow>
    returns (exec c s) (\<lambda>((b, out), s'). b \<and> out = ans c (mode s) r \<and> ready s' \<and> stream s' = rest
      \<and> log s' = log s @ request c \<and> mode s' = step c (mode s) r)"
begin

text \<open>Every command gets the answer to its own request, in order.\<close>

lemma run_all_answers:
  assumes "ready s" "list_all sendable cs" "stream s = concat (map encode rs) @ rest"
    "replies_fit ok step cs (mode s) rs"
  shows "returns (run_all exec cs s) (\<lambda>((b, outs), s'). b \<and> outs = answers ans step cs (mode s) rs
    \<and> ready s' \<and> stream s' = rest \<and> log s' = log s @ concat (map request cs))"
  using assms
proof (induction cs arbitrary: rs s)
  case Nil
  then show ?case by (cases rs) auto
next
  case (Cons c cs)
  then obtain r rs' where rs: "rs = r # rs'" by (cases rs) auto
  with Cons.prems have c: "sendable c" "stream s = encode r @ concat (map encode rs') @ rest" "ok c (mode s) r"
    by auto
  from exec_law [OF Cons.prems(1) c] obtain s1 where
    1: "exec c s = Some ((True, ans c (mode s) r), s1)" "ready s1" "stream s1 = concat (map encode rs') @ rest"
      "log s1 = log s @ request c" "mode s1 = step c (mode s) r" by (auto simp: returns_iff)
  from Cons.IH [OF 1(2) _ 1(3)] Cons.prems(2,4) rs 1(5) obtain s2 where
    2: "run_all exec cs s1 = Some ((True, answers ans step cs (mode s1) rs'), s2)" "ready s2"
      "stream s2 = rest" "log s2 = log s1 @ concat (map request cs)" by (auto simp: returns_iff)
  from 1 2 rs show ?case by simp
qed

end

section \<open>exec_command is a command channel\<close>

text \<open>The connection was checked less than 180 seconds ago, and the clock stands still.\<close>

definition conn_fresh :: "RedisProtocol \<Rightarrow> world \<Rightarrow> bool" where
  "conn_fresh p w \<longleftrightarrow> time_q w = [] \<and> clock w - last_check_open_time (tcp_client p) \<le> 180"

definition line_ready :: "RedisProtocol \<Rightarrow> world \<Rightarrow> bool" where
  "line_ready p w \<longleftrightarrow> proto_ready p w \<and> sends_ready w \<and> conn_fresh p w"

lemma proto_is_open_ready: "line_ready p w \<Longrightarrow> proto_is_open p w = (True, p, w)"
  by (simp add: line_ready_def proto_ready_def tcp_ready_def conn_fresh_def proto_is_open_def
      TcpClient_is_open_def is_open_fast_def sys_time_def)

text \<open>What a command must satisfy to be written: its arity, and a text of less than 2 GB.\<close>

definition sendable :: "RedisCommand \<Rightarrow> bool" where
  "sendable c \<longleftrightarrow> length (request_text (cmd_in c)) < 2 ^ 31 \<and> length (args (cmd_in c)) < 2 ^ 31
     \<and> argc_fits (argc (command_info (cmd_in c))) (length (args (cmd_in c)))"

text \<open>The specification depends on the object through the transaction mode only.\<close>

definition in_mode :: "bool \<Rightarrow> RedisProtocol" where
  "in_mode m = (new_RedisProtocol [] [] 0)\<lparr>transaction_mode := m\<rparr>"

lemma in_mode_cong:
  "fits c (in_mode (transaction_mode p)) r = fits c p r"
  "answer c (in_mode (transaction_mode p)) r = answer c p r"
  "answer_mode c (in_mode (transaction_mode p)) r = answer_mode c p r"
  using fits_cong [of "in_mode (transaction_mode p)" p c r] by (auto simp: in_mode_def)

definition exec_pair :: "RedisCommand \<Rightarrow> RedisProtocol \<times> world
    \<Rightarrow> ((bool \<times> RedisCommand option) \<times> RedisProtocol \<times> world) option" where
  "exec_pair c s = do { (ok, cp, p, w) \<leftarrow> exec_command (Some c) (fst s) (snd s); Some ((ok, cp), p, w) }"

interpretation channel: command_channel
  "\<lambda>(p, w). line_ready p w" "\<lambda>(p, w). proto_stream p w" "\<lambda>(p, w). sent w"
  "\<lambda>(p, w). transaction_mode p" "\<lambda>c. request_text (cmd_in c)" sendable
  "\<lambda>c m r. fits c (in_mode m) r" "\<lambda>c m r. Some (c\<lparr>cmd_out := answer c (in_mode m) r\<rparr>)"
  "\<lambda>c m r. answer_mode c (in_mode m) r" exec_pair
proof unfold_locales
  fix s :: "RedisProtocol \<times> world" and c r rest
  obtain p w where s: "s = (p, w)" by force
  assume "case s of (p, w) \<Rightarrow> line_ready p w" "sendable c"
    "(case s of (p, w) \<Rightarrow> proto_stream p w) = encode r @ rest"
    "fits c (in_mode (case s of (p, w) \<Rightarrow> transaction_mode p)) r"
  then have a: "proto_ready p w" "sends_ready w" "time_q w = []" "sendable c"
    "proto_stream p w = encode r @ rest" "fits c p r"
    by (auto simp: s line_ready_def conn_fresh_def in_mode_cong)
  from a(4) have b: "length (request_text (cmd_in c)) < 2 ^ 31" "length (args (cmd_in c)) < 2 ^ 31"
    "argc_fits (argc (command_info (cmd_in c))) (length (args (cmd_in c)))" by (auto simp: sendable_def)
  from exec_command_fits [OF a(1,2) b a(5,6)] a(3) obtain p' w' where
    "exec_command (Some c) p w = Some (True, Some (c\<lparr>cmd_out := answer c p r\<rparr>), p', w')"
    "sent w' = sent w @ request_text (cmd_in c)" "proto_ready p' w'" "proto_stream p' w' = rest"
    "transaction_mode p' = answer_mode c p r" "sends_ready w'" "time_q w' = []" "clock w' = clock w"
    "last_check_open_time (tcp_client p') = clock w" by auto
  then show "returns (exec_pair c s) (\<lambda>((b, out), s'). b
      \<and> out = Some (c\<lparr>cmd_out := answer c (in_mode (case s of (p, w) \<Rightarrow> transaction_mode p)) r\<rparr>)
      \<and> (case s' of (p, w) \<Rightarrow> line_ready p w) \<and> (case s' of (p, w) \<Rightarrow> proto_stream p w) = rest
      \<and> (case s' of (p, w) \<Rightarrow> sent w) = (case s of (p, w) \<Rightarrow> sent w) @ request_text (cmd_in c)
      \<and> (case s' of (p, w) \<Rightarrow> transaction_mode p)
          = answer_mode c (in_mode (case s of (p, w) \<Rightarrow> transaction_mode p)) r)"
    by (simp add: s exec_pair_def in_mode_cong line_ready_def conn_fresh_def)
qed

section \<open>Pipelines\<close>

lemma write_command_line:
  assumes "line_ready p w" "sendable c"
  obtains p' w' where "write_command (Some c) p w = (True, Some c, p', w')" "line_ready p' w'"
    "proto_stream p' w' = proto_stream p w" "sent w' = sent w @ request_text (cmd_in c)"
    "transaction_mode p' = transaction_mode p"
proof -
  from assms have a: "proto_ready p w" "sends_ready w" "time_q w = []"
    "length (request_text (cmd_in c)) < 2 ^ 31" "length (args (cmd_in c)) < 2 ^ 31"
    "argc_fits (argc (command_info (cmd_in c))) (length (args (cmd_in c)))"
    by (auto simp: line_ready_def conn_fresh_def sendable_def)
  from write_command_ready [OF a(1,2,4-6)] a(3) obtain tc w' where
    "write_command (Some c) p w = (True, Some c, p\<lparr>tcp_client := tc\<rparr>, w')"
    "sent w' = sent w @ request_text (cmd_in c)" "proto_ready (p\<lparr>tcp_client := tc\<rparr>) w'"
    "tcp_stream tc w' = proto_stream p w" "sends_ready w'" "wrote w w'"
    "last_check_open_time tc = clock w" by auto
  with a(3) show ?thesis
    by (intro that [of "p\<lparr>tcp_client := tc\<rparr>" w']) (auto simp: line_ready_def conn_fresh_def wrote_def)
qed

lemma pipeline_write_line:
  assumes "line_ready p w" "list_all sendable cs"
  shows "\<exists>p' w'. pipeline_write (map Some cs) p w = (True, map Some cs, p', w') \<and> line_ready p' w'
    \<and> proto_stream p' w' = proto_stream p w \<and> sent w' = sent w @ concat (map (\<lambda>c. request_text (cmd_in c)) cs)
    \<and> transaction_mode p' = transaction_mode p"
  using assms
proof (induction cs arbitrary: p w)
  case (Cons c cs)
  then have "sendable c" by simp
  from write_command_line [OF Cons.prems(1) this] obtain p1 w1 where
    1: "write_command (Some c) p w = (True, Some c, p1, w1)" "line_ready p1 w1"
      "proto_stream p1 w1 = proto_stream p w" "sent w1 = sent w @ request_text (cmd_in c)"
      "transaction_mode p1 = transaction_mode p" .
  from Cons.IH [OF 1(2)] Cons.prems(2) obtain p2 w2 where
    2: "pipeline_write (map Some cs) p1 w1 = (True, map Some cs, p2, w2)" "line_ready p2 w2"
      "proto_stream p2 w2 = proto_stream p1 w1"
      "sent w2 = sent w1 @ concat (map (\<lambda>c. request_text (cmd_in c)) cs)"
      "transaction_mode p2 = transaction_mode p1" by auto
  from 1 2 proto_is_open_ready [OF 1(2)] show ?case by simp
qed auto

lemma read_reply_line:
  assumes "line_ready p w" "proto_stream p w = encode r @ rest" "fits c p r"
  obtains p' w' where "read_reply (Some c) p w = Some (True, Some (c\<lparr>cmd_out := answer c p r\<rparr>), p', w')"
    "line_ready p' w'" "proto_stream p' w' = rest" "sent w' = sent w"
    "transaction_mode p' = answer_mode c p r"
proof -
  have r: "proto_ready p w" using assms(1) by (simp add: line_ready_def)
  from read_reply_fits [OF r assms(2,3)] obtain p' w' where
    1: "read_reply (Some c) p w = Some (True, Some (c\<lparr>cmd_out := answer c p r\<rparr>),
          p'\<lparr>transaction_mode := answer_mode c p r\<rparr>, w')" "reads p w rest p' w'"
    by (auto simp: replies_def)
  have "line_ready (p'\<lparr>transaction_mode := answer_mode c p r\<rparr>) w'" "sent w' = sent w"
    using 1(2) assms(1)
    by (auto simp: line_ready_def conn_fresh_def reads_def calm_def quiet_def sends_ready_def proto_ready_def)
  with 1 readsD(2) [OF 1(2)] show ?thesis by (intro that [OF 1(1)]) auto
qed

text \<open>The commands with their answers in them.\<close>

abbreviation answered :: "RedisCommand list \<Rightarrow> bool \<Rightarrow> reply list \<Rightarrow> RedisCommand option list" where
  "answered cs m rs \<equiv> answers (\<lambda>c m r. Some (c\<lparr>cmd_out := answer c (in_mode m) r\<rparr>))
     (\<lambda>c m r. answer_mode c (in_mode m) r) cs m rs"

abbreviation all_fit :: "RedisCommand list \<Rightarrow> bool \<Rightarrow> reply list \<Rightarrow> bool" where
  "all_fit cs m rs \<equiv> replies_fit (\<lambda>c m r. fits c (in_mode m) r) (\<lambda>c m r. answer_mode c (in_mode m) r) cs m rs"

lemma pipeline_read_line:
  assumes "line_ready p w" "proto_stream p w = concat (map encode rs) @ rest"
    "all_fit cs (transaction_mode p) rs"
  shows "\<exists>p' w'. pipeline_read (map Some cs) p w = Some (True, answered cs (transaction_mode p) rs, p', w')
    \<and> line_ready p' w' \<and> proto_stream p' w' = rest \<and> sent w' = sent w"
  using assms
proof (induction cs arbitrary: rs p w)
  case Nil
  then show ?case by (cases rs) auto
next
  case (Cons c cs)
  then obtain r rs' where rs: "rs = r # rs'" by (cases rs) auto
  with Cons.prems have c: "proto_stream p w = encode r @ concat (map encode rs') @ rest" "fits c p r"
    by (auto simp: in_mode_cong)
  from read_reply_line [OF Cons.prems(1) c] obtain p1 w1 where
    1: "read_reply (Some c) p w = Some (True, Some (c\<lparr>cmd_out := answer c p r\<rparr>), p1, w1)"
      "line_ready p1 w1" "proto_stream p1 w1 = concat (map encode rs') @ rest" "sent w1 = sent w"
      "transaction_mode p1 = answer_mode c p r" .
  from Cons.IH [OF 1(2,3)] Cons.prems(3) rs 1(5) obtain p2 w2 where
    2: "pipeline_read (map Some cs) p1 w1 = Some (True, answered cs (transaction_mode p1) rs', p2, w2)"
      "line_ready p2 w2" "proto_stream p2 w2 = rest" "sent w2 = sent w1" by (auto simp: in_mode_cong)
  from 1 2 rs proto_is_open_ready [OF 1(2)] show ?case by (simp add: in_mode_cong)
qed

end
