(* ===== verification/Redis2_Spec.thy ===== *)
theory Redis2_Spec
  imports Redis2 Protocol_Channel
begin

text \<open>
  What the methods of the client for one server promise: on a connection that works, a method
  sends one request with its name and its arguments and gives back what the server replied.
  Also: the selection of the database after a reconnection, and transactions.
\<close>

section \<open>Building commands\<close>

lemma command_with_in: "cmd_in (command_with cmd ps) = foldl (\<lambda>i push. push i) (new_input cmd) ps"
proof -
  have "cmd_in (foldl (\<lambda>c push. c\<lparr>cmd_in := push (cmd_in c)\<rparr>) c ps) = foldl (\<lambda>i push. push i) (cmd_in c) ps" for c
    by (induction ps arbitrary: c) auto
  from this [of "new_command cmd"] show ?thesis by (simp add: command_with_def new_command_def)
qed

named_theorems push_simps

lemma push_arg_args [push_simps]:
  "args (push_arg s i) = args i @ [s]"
  "args (push_arg_int n i) = args i @ [show_int n]"
  "args (push_arg_cstr (Some s) i) = args i @ [s]"
  "args (push_arg_double cast d i) = args i @ [cast d]"
  by (simp_all add: push_arg_def push_arg_int_def push_arg_cstr_def push_arg_double_def)

lemma push_args_args [push_simps]: "args (push_args ss i) = args i @ ss"
  unfolding push_args_def by (induction ss arbitrary: i) auto

lemma push_args_info [push_simps]:
  "command_info (push_args ss i) = command_info i" "in_command (push_args ss i) = in_command i"
  unfolding push_args_def by (induction ss arbitrary: i) auto

lemma push_info [push_simps]:
  "command_info (push_arg s i) = command_info i" "in_command (push_arg s i) = in_command i"
  "command_info (push_arg_int n i) = command_info i" "in_command (push_arg_int n i) = in_command i"
  "command_info (push_arg_cstr p i) = command_info i" "in_command (push_arg_cstr p i) = in_command i"
  "command_info (push_arg_double cast d i) = command_info i" "in_command (push_arg_double cast d i) = in_command i"
  by (simp_all add: push_arg_def push_arg_int_def push_arg_cstr_def push_arg_double_def split: option.split)

lemma new_input_simps [push_simps]:
  "args (new_input cmd) = []" "in_command (new_input cmd) = cmd"
  "command_info (new_input cmd) = s_command_map ! cmd_ord cmd"
  by (simp_all add: new_input_def)

lemma push_pairs_fold:
  "length ks = length vs \<Longrightarrow>
   args (foldl (\<lambda>i push. push i) i (push_pairs ks vs)) = args i @ concat (map (\<lambda>(k, v). [k, v]) (zip ks vs))
   \<and> command_info (foldl (\<lambda>i push. push i) i (push_pairs ks vs)) = command_info i
   \<and> in_command (foldl (\<lambda>i push. push i) i (push_pairs ks vs)) = in_command i"
  unfolding push_pairs_def
  by (induction ks vs arbitrary: i rule: list_induct2) (auto simp: push_simps)

section \<open>One command on a working connection\<close>

definition client_ready :: "Redis2 \<Rightarrow> world \<Rightarrow> bool" where
  "client_ready r w \<longleftrightarrow> line_ready (proto r) w \<and> (db_index r = 0 \<or> \<not> db_index_select_failure r)"

lemma assure_connect_ready: "client_ready r w \<Longrightarrow> assure_connect r w = Some (True, r, w)"
  by (auto simp: client_ready_def assure_connect_def proto_assure_connect_def proto_is_open_ready)

lemma run_command_answer:
  assumes "line_ready (proto r) w" "sendable c" "proto_stream (proto r) w = encode rp @ rest" "fits c (proto r) rp"
  obtains p' w' where "run_command c r w = Some ((True, c\<lparr>cmd_out := answer c (proto r) rp\<rparr>), r\<lparr>proto := p'\<rparr>, w')"
    "line_ready p' w'" "proto_stream p' w' = rest" "sent w' = sent w @ request_text (cmd_in c)"
    "transaction_mode p' = answer_mode c (proto r) rp"
proof -
  from channel.exec_law [of "(proto r, w)" c rp rest] assms obtain p' w' where
    1: "exec_pair c (proto r, w) = Some ((True, Some (c\<lparr>cmd_out := answer c (proto r) rp\<rparr>)), p', w')"
      "line_ready p' w'" "proto_stream p' w' = rest" "sent w' = sent w @ request_text (cmd_in c)"
      "transaction_mode p' = answer_mode c (proto r) rp"
    by (auto simp: returns_iff in_mode_cong)
  have "run_command c r w = Some ((True, c\<lparr>cmd_out := answer c (proto r) rp\<rparr>), r\<lparr>proto := p'\<rparr>, w')"
    using 1(1) by (auto simp: run_command_def exec_pair_def bind_eq_Some_conv)
  from that [OF this 1(2-5)] show ?thesis .
qed

lemma connected_run_answer:
  assumes "client_ready r w" "sendable c" "proto_stream (proto r) w = encode rp @ rest" "fits c (proto r) rp"
  obtains p' w' where "connected_run c fail k r w = k (c\<lparr>cmd_out := answer c (proto r) rp\<rparr>) (r\<lparr>proto := p'\<rparr>) w'"
    "client_ready (r\<lparr>proto := p'\<rparr>) w'" "proto_stream p' w' = rest" "sent w' = sent w @ request_text (cmd_in c)"
    "transaction_mode p' = answer_mode c (proto r) rp"
proof -
  have l: "line_ready (proto r) w" using assms(1) by (simp add: client_ready_def)
  from run_command_answer [OF l assms(2-4)] obtain p' w' where
    1: "run_command c r w = Some ((True, c\<lparr>cmd_out := answer c (proto r) rp\<rparr>), r\<lparr>proto := p'\<rparr>, w')"
      "line_ready p' w'" "proto_stream p' w' = rest" "sent w' = sent w @ request_text (cmd_in c)"
      "transaction_mode p' = answer_mode c (proto r) rp" .
  have "connected_run c fail k r w = k (c\<lparr>cmd_out := answer c (proto r) rp\<rparr>) (r\<lparr>proto := p'\<rparr>) w'"
    using 1(1) assure_connect_ready [OF assms(1)] by (simp add: connected_run_def)
  moreover have "client_ready (r\<lparr>proto := p'\<rparr>) w'" using assms(1) 1(2) by (simp add: client_ready_def)
  ultimately show ?thesis using 1(3-5) by (intro that)
qed

text \<open>The text of a request, as the protocol defines it, and the calls that are sent as such.\<close>

definition wire :: "string list \<Rightarrow> string" where
  "wire xs = ''*'' @ show_nat (length xs) @ s_redis_line_end @ concat (map bulk_text xs)"

lemma wire_decode: "decode_request (wire xs @ rest) = Some (xs, rest)"
  using decode_request_append [of xs rest] by (simp add: wire_def)

definition small :: "string list \<Rightarrow> bool" where
  "small xs \<longleftrightarrow> length xs < 2 ^ 31 \<and> length (wire xs) < 2 ^ 31"

lemma request_text_wire:
  assumes "small (command_str (command_info i) # args i)"
  shows "request_text i = wire (command_str (command_info i) # args i)"
proof -
  have n: "length (args i) < 2 ^ 31 - 1" using assms by (auto simp: small_def)
  have "int32 (int (length (args i))) = int (length (args i))" using n by (intro int32_nat_id) simp
  moreover have "int32 (int (length (args i)) + 1) = int (length (args i) + 1)"
    using n by (subst int32_id) auto
  ultimately show ?thesis by (simp add: request_text_def wire_def show_int_of_nat [symmetric])
qed

text \<open>\<open>served m name as rp res\<close>: outside a transaction, on a connection where the server's next
  reply is \<open>rp\<close>, the method \<open>m\<close> sends exactly the request \<open>name as\<close>, takes exactly that reply off
  the stream, and returns \<open>res\<close>; only \<open>MULTI\<close> enters the transaction mode.\<close>

definition served :: "'r client_call \<Rightarrow> string \<Rightarrow> string list \<Rightarrow> reply \<Rightarrow> 'r \<Rightarrow> bool" where
  "served m name as rp res \<longleftrightarrow>
     (\<forall>r w rest. client_ready r w \<and> \<not> transaction_mode (proto r) \<and> small (name # as)
        \<and> proto_stream (proto r) w = encode rp @ rest \<longrightarrow>
      (\<exists>p' w'. m r w = Some (res, r\<lparr>proto := p'\<rparr>, w') \<and> client_ready (r\<lparr>proto := p'\<rparr>) w'
         \<and> sent w' = sent w @ wire (name # as) \<and> proto_stream p' w' = rest
         \<and> (name \<noteq> ''MULTI'' \<longrightarrow> \<not> transaction_mode p')))"

text \<open>What the table says of the command that a method builds.\<close>

definition builds :: "RedisCommand \<Rightarrow> string \<Rightarrow> string list \<Rightarrow> kReplyType \<Rightarrow> bool" where
  "builds c name as t \<longleftrightarrow> command_str (command_info (cmd_in c)) = name \<and> args (cmd_in c) = as
     \<and> reply_type (command_info (cmd_in c)) = t \<and> argc_fits (argc (command_info (cmd_in c))) (length as)
     \<and> (in_command (cmd_in c) = MULTI \<longrightarrow> name = ''MULTI'')"

lemma builds_sendable:
  assumes "builds c name as t" "small (name # as)"
  shows "sendable c" "request_text (cmd_in c) = wire (name # as)"
proof -
  show "request_text (cmd_in c) = wire (name # as)"
    using assms request_text_wire [of "cmd_in c"] by (simp add: builds_def)
  with assms show "sendable c" by (auto simp: sendable_def builds_def small_def)
qed

lemma builds_mode:
  "builds c name as t \<Longrightarrow> \<not> transaction_mode p \<Longrightarrow> name \<noteq> ''MULTI'' \<longrightarrow> \<not> answer_mode c p rp"
  by (cases rp) (auto simp: builds_def mode_after_status_def mode_after_multi_def)

lemma served_run:
  assumes b: "builds c name as t" and t: "t \<noteq> kDepends"
    and f: "\<And>p. \<not> transaction_mode p \<Longrightarrow> fits c p rp"
    and k: "\<And>p r w. \<not> transaction_mode p \<Longrightarrow> k (c\<lparr>cmd_out := answer c p rp\<rparr>) r w = Some (res, r, w)"
  shows "served (connected_run c fail k) name as rp res"
  unfolding served_def
proof (intro allI impI, elim conjE)
  fix r w rest
  assume a: "client_ready r w" "\<not> transaction_mode (proto r)" "small (name # as)"
    "proto_stream (proto r) w = encode rp @ rest"
  from connected_run_answer [OF a(1) builds_sendable(1) [OF b a(3)] a(4) f [OF a(2)], of fail k]
  obtain p' w' where
    1: "connected_run c fail k r w = k (c\<lparr>cmd_out := answer c (proto r) rp\<rparr>) (r\<lparr>proto := p'\<rparr>) w'"
      "client_ready (r\<lparr>proto := p'\<rparr>) w'" "proto_stream p' w' = rest" "sent w' = sent w @ request_text (cmd_in c)"
      "transaction_mode p' = answer_mode c (proto r) rp" .
  then show "\<exists>p' w'. connected_run c fail k r w = Some (res, r\<lparr>proto := p'\<rparr>, w') \<and> client_ready (r\<lparr>proto := p'\<rparr>) w'
         \<and> sent w' = sent w @ wire (name # as) \<and> proto_stream p' w' = rest
         \<and> (name \<noteq> ''MULTI'' \<longrightarrow> \<not> transaction_mode p')"
    using k [OF a(2)] builds_sendable(2) [OF b a(3)] builds_mode [OF b a(2)] by auto
qed

lemma check_ptr_some [simp]: "CHECK_PTR_PARAM (Some v) fail k = k"
  by (intro ext) (simp add: CHECK_PTR_PARAM_def CHECK_EXPR_def)

lemma check_expr_true [simp]: "CHECK_EXPR True fail k = k"
  by (intro ext) (simp add: CHECK_EXPR_def)

lemma served_integer:
  assumes "builds c name as kInteger" "LONG_MIN \<le> x" "x \<le> LONG_MAX"
  shows "served (integer_command (Some v) c) name as (RInteger x) (True, Some x)"
  unfolding integer_command_def check_ptr_some using assms
  by (intro served_run) (auto simp: builds_def expects_code expected_type_def GET_INTEGER_REPLY_def get_i_def is_i_def)

lemma served_bulk:
  assumes "builds c name as kBulk" "s \<noteq> []"
  shows "served (bulk_command (Some v) (Some b) c) name as (RBulk (Some s)) (True, Some s, Some False)"
  unfolding bulk_command_def check_ptr_some using assms
  by (intro served_run [OF assms(1)]) (auto simp: builds_def expects_code expected_type_def GET_BULK_REPLY_def
      get_bulk_def is_bulk_def bulk_ok_def)

lemma served_nil:
  assumes "builds c name as kBulk"
  shows "served (bulk_command (Some v) (Some b) c) name as (RBulk None) (True, Some v, Some True)"
  unfolding bulk_command_def check_ptr_some using assms
  by (intro served_run [OF assms(1)]) (auto simp: builds_def expects_code expected_type_def GET_BULK_REPLY_def
      get_bulk_def is_bulk_def is_nil_bulk_def bulk_ok_def)

lemma served_mbulks:
  assumes "builds c name as kMultiBulk" "list_all bulk_ok bs"
  shows "served (mbulks_command (Some v) c) name as (RMulti (Some (map RBulk bs))) (True, Some bs)"
  unfolding mbulks_command_def check_ptr_some using assms
  by (intro served_run) (auto simp: builds_def expects_code expected_type_def wants_mbulk_def
      GET_MBULKS_REPLY_def get_mbulks_def is_mbulks_def list_all_iff comp_def)

lemma served_status:
  assumes "builds c name as kStatus"
  shows "served (status_command c) name as (RStatus ''OK'') True"
  unfolding status_command_def using assms
  by (intro served_run) (auto simp: builds_def expects_code expected_type_def CHECK_STATUS_OK_def is_status_ok_def)



section \<open>Selecting the database\<close>

lemma run_command_db:
  "whenever (run_command c r w) (\<lambda>(res, r', w'). db_index r' = db_index r
     \<and> db_index_select_failure r' = db_index_select_failure r \<and> transaction_cmds r' = transaction_cmds r)"
  by (auto simp: run_command_def whenever_iff bind_eq_Some_conv)

lemma select_db:
  "whenever (Redis2_select n r w) (\<lambda>(ok, r', w'). ok \<longrightarrow> db_index r' = n \<and> \<not> db_index_select_failure r')"
  by (auto simp: Redis2_select_def whenever_iff bind_eq_Some_conv Let_def on_reply_type_error_def
      last_error_def split: prod.splits if_splits)

lemma assure_connect_selected:
  "whenever (assure_connect r w) (\<lambda>(ok, r', w'). ok \<longrightarrow> db_index r' = 0 \<or> \<not> db_index_select_failure r')"
proof -
  have "db_index r' = 0 \<or> \<not> db_index_select_failure r'"
    if "Redis2_select n r1 w1 = Some (True, r', w')" for n r1 w1 r' w'
    using select_db [of n r1 w1] that by simp
  note sel = this
  show ?thesis
    unfolding whenever_iff
  proof (intro allI impI)
    fix x assume "assure_connect r w = Some x"
    then show "case x of (ok, r', w') \<Rightarrow> ok \<longrightarrow> db_index r' = 0 \<or> \<not> db_index_select_failure r'"
      by (auto simp: assure_connect_def bind_eq_Some_conv Let_def split: prod.splits if_splits dest: sel)
  qed
qed

text \<open>A connection that has to be made anew: \<open>SELECT\<close> is the first request on it.\<close>

lemma assure_connect_reselects:
  assumes c: "proto_is_open (proto r) w = (False, p1, w1)" "proto_connect p1 w1 = (True, p2, w2)"
    and n: "db_index r \<noteq> 0" and l: "line_ready p2 w2" "\<not> transaction_mode p2"
    and st: "proto_stream p2 w2 = encode (RStatus ''OK'') @ rest"
    and sm: "small [''SELECT'', show_int (db_index r)]"
  shows "\<exists>p' w'. assure_connect r w
      = Some (True, r\<lparr>proto := p', db_index_select_failure := False, transaction_cmds := []\<rparr>, w')
    \<and> sent w' = sent w2 @ wire [''SELECT'', show_int (db_index r)]
    \<and> proto_stream p' w' = rest \<and> line_ready p' w'"
proof -
  let ?c = "command_with SELECT [push_arg_int (db_index r)]"
  have row: "s_command_map ! cmd_ord SELECT = info SELECT ''SELECT'' 1 kStatus" by (simp add: s_command_map_def)
  have b: "builds ?c ''SELECT'' [show_int (db_index r)] kStatus"
    using row by (simp add: builds_def command_with_in push_simps argc_fits_def)
  have f: "fits ?c p2 (RStatus ''OK'')"
    using b l(2) by (simp add: builds_def expects_code expected_type_def)
  have m: "answer_mode ?c p2 (RStatus ''OK'') = False"
    using l(2) by (simp add: mode_after_status_def command_with_in push_simps)
  note sd = builds_sendable [OF b sm]
  define r2 where "r2 = on_reset (r\<lparr>proto := p2\<rparr>)"
  have r2: "r2 = r\<lparr>proto := p2, db_index_select_failure := True, transaction_cmds := []\<rparr>"
    using n by (simp add: r2_def on_reset_def)
  have p2: "proto r2 = p2" by (simp add: r2)
  have p2': "r2\<lparr>proto := p2\<rparr> = r2" using p2 by auto
  from run_command_answer [of r2 w2, unfolded p2, OF l(1) sd(1) st f] obtain p' w' where
    1: "run_command ?c r2 w2 = Some ((True, ?c\<lparr>cmd_out := answer ?c p2 (RStatus ''OK'')\<rparr>), r2\<lparr>proto := p'\<rparr>, w')"
      "line_ready p' w'" "proto_stream p' w' = rest" "sent w' = sent w2 @ request_text (cmd_in ?c)" .
  note 1(1)
  moreover have "proto_assure_connect None p2 w2 = ((True, None), p2, w2)"
    using proto_is_open_ready [OF l(1)] by (simp add: proto_assure_connect_def)
  ultimately have "Redis2_select (db_index r) r2 w2
      = Some (True, r2\<lparr>proto := p', db_index := db_index r, db_index_select_failure := False\<rparr>, w')"
    by (simp add: Redis2_select_def p2 p2' is_status_ok_def)
  then have "assure_connect r w = Some (True, r2\<lparr>proto := p', db_index := db_index r, db_index_select_failure := False\<rparr>, w')"
    using c n by (simp add: assure_connect_def proto_assure_connect_def r2_def [symmetric] r2)
  moreover have "r2\<lparr>proto := p', db_index := db_index r, db_index_select_failure := False\<rparr>
      = r\<lparr>proto := p', db_index_select_failure := False, transaction_cmds := []\<rparr>"
    unfolding r2 by (cases r) simp
  ultimately show ?thesis using 1(2-4) sd(2) by auto
qed

section \<open>Blocking commands\<close>

lemma blocking_run_restores:
  "whenever (blocking_run c r w) (\<lambda>(res, r', w'). blocking_mode (proto r') = blocking_mode (proto r))"
  by (auto simp: blocking_run_def whenever_iff bind_eq_Some_conv Redis2_set_blocking_mode_def set_blocking_mode_def)

text \<open>A call on a ready client leaves the blocking mode as it found it, whatever happens to the
  connection and whatever the server answers.\<close>

definition restores_mode :: "'r client_call \<Rightarrow> bool" where
  "restores_mode m \<longleftrightarrow>
     (\<forall>r w. client_ready r w \<longrightarrow>
        whenever (m r w) (\<lambda>(res, r', w'). blocking_mode (proto r') = blocking_mode (proto r)))"

lemma type_error_mode [simp]: "blocking_mode (proto (on_reply_type_error c r)) = blocking_mode (proto r)"
  by (simp add: on_reply_type_error_def last_error_def proto_set_error_def)

lemma restores_mode_blocking:
  assumes "\<And>ok c r w res r' w'. k ((ok, c), r, w) = Some (res, r', w') \<Longrightarrow> blocking_mode (proto r') = blocking_mode (proto r)"
  shows "restores_mode (\<lambda>r w. do { (ok, r, w) \<leftarrow> assure_connect r w; if \<not> ok then Some (fail, r, w)
     else do { x \<leftarrow> blocking_run c r w; k x } })"
  unfolding restores_mode_def
proof (intro allI impI)
  fix r w
  assume r: "client_ready r w"
  show "whenever (do { (ok, r, w) \<leftarrow> assure_connect r w; if \<not> ok then Some (fail, r, w)
      else do { x \<leftarrow> blocking_run c r w; k x } }) (\<lambda>(res, r', w'). blocking_mode (proto r') = blocking_mode (proto r))"
  proof (cases "blocking_run c r w")
    case (Some x)
    then obtain ok c' r1 w1 where x: "x = ((ok, c'), r1, w1)" by (cases x) auto
    with Some blocking_run_restores [of c r w] have "blocking_mode (proto r1) = blocking_mode (proto r)"
      by (simp add: whenever_iff)
    with x Some assms [of ok c' r1 w1] show ?thesis by (auto simp: assure_connect_ready [OF r] whenever_iff)
  qed (simp add: assure_connect_ready [OF r] whenever_iff)
qed

section \<open>Transactions\<close>

text \<open>What \<open>exec\<close> hands to a queued command: multi-bulks of plain bulks are converted.\<close>

definition plain_bulk :: "reply \<Rightarrow> bool" where
  "plain_bulk r = (case r of RBulk b \<Rightarrow> True | _ \<Rightarrow> False)"

fun delivered :: "reply \<Rightarrow> RedisOutput" where
  "delivered (RMulti (Some rs)) =
     (if list_all plain_bulk rs then RedisOutput kMultiBulk (MbulksPtr (map the_bulk rs))
      else output_of (RMulti (Some rs)))"
| "delivered r = output_of r"

lemma output_type_bulk: "out_type (output_of r) = kBulk \<longleftrightarrow> plain_bulk r"
  by (cases r rule: output_of.cases) (auto simp: plain_bulk_def)

lemma convertible_output: "convertible_2_mbulks (map output_of rs) = list_all plain_bulk rs"
  by (simp add: convertible_2_mbulks_def list_all_iff output_type_bulk)

lemma smbulks_output: "list_all plain_bulk rs \<Longrightarrow> smbulks_to_mbulks (map output_of rs) = Some (map the_bulk rs)"
proof (induction rs)
  case (Cons r rs)
  then obtain b where "r = RBulk b" by (auto simp: plain_bulk_def split: reply.splits)
  with Cons show ?case by (cases b) auto
qed simp

lemma deliver_output: "deliver (output_of r) c = Some (c\<lparr>cmd_out := delivered r\<rparr>)"
proof (cases r)
  case (RMulti m)
  then show ?thesis
    by (cases m) (auto simp: deliver_def convertible_output convert_smbulks_def smbulks_output set_mbulks_def)
next
  case (RBulk b)
  then show ?thesis by (cases b) (auto simp: deliver_def)
qed (auto simp: deliver_def)

lemma deliver_all_outputs:
  "length rs = length cs \<Longrightarrow>
   deliver_all (map output_of rs) cs = Some (map2 (\<lambda>r c. c\<lparr>cmd_out := delivered r\<rparr>) rs cs)"
  by (induction rs cs rule: list_induct2) (auto simp: deliver_output)

lemma exec_delivers:
  assumes l: "line_ready (proto r) w" and st: "proto_stream (proto r) w = encode (RMulti (Some rs)) @ rest"
    and ok: "list_all reply_ok rs" and len: "length rs = length (transaction_cmds r)"
  shows "\<exists>p' w'. Redis2_exec (Some cs) r w
      = Some ((True, Some (map2 (\<lambda>r c. c\<lparr>cmd_out := delivered r\<rparr>) rs (transaction_cmds r))),
              r\<lparr>proto := p', transaction_cmds := []\<rparr>, w')
    \<and> sent w' = sent w @ wire [''EXEC''] \<and> \<not> transaction_mode p' \<and> proto_stream p' w' = rest
    \<and> line_ready p' w'"
proof -
  let ?c = "command_with EXEC []" and ?o = "output_of (RMulti (Some rs))"
  have row: "s_command_map ! cmd_ord EXEC = info EXEC ''EXEC'' 0 kSpecialMultiBulk" by (simp add: s_command_map_def)
  have b: "builds ?c ''EXEC'' [] kSpecialMultiBulk"
    using row by (simp add: builds_def command_with_in push_simps argc_fits_def)
  have sm: "small [''EXEC'']"
    by (simp add: small_def wire_def bulk_text_def s_redis_line_end_def show_nat.simps)
  have e: "\<not> wants_mbulk ?c (proto r)" "fits ?c (proto r) (RMulti (Some rs))"
    using b ok by (auto simp: wants_mbulk_def builds_def expects_code expected_type_def plain_input_def
        command_with_in push_simps row)
  have m: "answer_mode ?c (proto r) (RMulti (Some rs)) = False"
    using e(1) by (simp add: mode_after_multi_def command_with_in push_simps)
  note sd = builds_sendable [OF b sm]
  from run_command_answer [OF l sd(1) st e(2)] m e(1) obtain p' w' where
    1: "run_command ?c r w = Some ((True, ?c\<lparr>cmd_out := ?o\<rparr>), r\<lparr>proto := p'\<rparr>, w')"
      "line_ready p' w'" "proto_stream p' w' = rest" "sent w' = sent w @ request_text (cmd_in ?c)"
      "\<not> transaction_mode p'"
    by auto
  note 1(1)
  moreover have "Redis2_check_connect r w = (True, r, w)"
    using proto_is_open_ready [OF l] by (simp add: Redis2_check_connect_def check_connect_def)
  ultimately show ?thesis
    using deliver_all_outputs [OF len] len 1 sd(2)
    by (auto simp: Redis2_exec_def get_smbulks_def is_smbulks_def)
qed

end
