(* ===== verification/Sample.thy ===== *)
theory Sample
  imports Redis2_Spec
begin

text \<open>
  A concrete connection, on which the hypotheses of the theorems about working connections are
  shown to hold: the descriptor is open, nothing is buffered, and the kernel delivers the given
  chunks, one per \<open>recv\<close>.
\<close>

text \<open>One function that trims and one that splits, for the functions of \<open>boost\<close>.\<close>

definition sample_trim :: "string \<Rightarrow> string" where
  "sample_trim s = rev (dropWhile is_space (rev (dropWhile is_space s)))"

fun sample_split :: "char \<Rightarrow> string \<Rightarrow> string list" where
  "sample_split d [] = [[]]"
| "sample_split d (c # cs) =
     (if c = d then [] # sample_split d cs
      else case sample_split d cs of [] \<Rightarrow> [[c]] | t # ts \<Rightarrow> (c # t) # ts)"

definition sample_world :: "string list \<Rightarrow> world" where
  "sample_world chunks =
     \<lparr>errno = 0, poll_q = [], poll_log = [], recv_q = map Recv chunks, send_q = [Sent 3], peek_q = [],
      socket_q = [], connect_q = [], sockopt_q = [], fcntl_q = [], ioctl_q = [], close_q = [],
      resolve_q = [], time_q = [], clock = 1000, sent = [], thread_id = 5, strerror = (\<lambda>_. ''error''),
      double_to_string = (\<lambda>_. ''0''), string_to_double = (\<lambda>_. Some 0),
      boost_trim = sample_trim, boost_split = sample_split, dns_cache = Map.empty\<rparr>"

definition sample_tcp :: TcpClient where
  "sample_tcp = new_TcpClient\<lparr>fd := 3, last_check_open_time := 990\<rparr>"

definition sample_proto :: RedisProtocol where
  "sample_proto = (new_RedisProtocol ''localhost'' ''6379'' 50)\<lparr>tcp_client := sample_tcp\<rparr>"

definition sample_client :: Redis2 where
  "sample_client = (new_Redis2 ''localhost'' ''6379'' 0 50)\<lparr>proto := sample_proto\<rparr>"

lemma sample_recv_stream: "[] \<notin> set chunks \<Longrightarrow> recv_stream (map Recv chunks) = concat chunks"
  by (induction chunks) auto

lemma sample_stream:
  "[] \<notin> set chunks \<Longrightarrow> tcp_stream sample_tcp (sample_world chunks) = concat chunks"
  by (simp add: tcp_stream_def sample_tcp_def new_TcpClient_def sample_world_def sample_recv_stream)

lemma sample_tcp_ready:
  "[] \<notin> set chunks \<Longrightarrow> length (concat chunks) < 2 ^ 31 \<Longrightarrow> tcp_ready sample_tcp (sample_world chunks)"
  by (simp add: tcp_ready_def sample_stream)
    (simp add: tcp_inv_def sample_tcp_def new_TcpClient_def new_buffer_inv polls_ready_def sample_world_def)

lemma sample_proto_tcp [simp]: "tcp_client sample_proto = sample_tcp"
  by (simp add: sample_proto_def)

lemma sample_line_ready:
  "[] \<notin> set chunks \<Longrightarrow> length (concat chunks) < 2 ^ 31 \<Longrightarrow> line_ready sample_proto (sample_world chunks)"
  by (simp add: line_ready_def proto_ready_def sample_tcp_ready)
    (simp add: errno_clean_def sends_ready_def send_ok_def conn_fresh_def sample_world_def sample_tcp_def)

lemma sample_client_proto [simp]:
  "proto sample_client = sample_proto" "transaction_mode sample_proto = False"
  "transaction_cmds sample_client = []"
  by (simp_all add: sample_client_def sample_proto_def new_RedisProtocol_def new_Redis2_def)

lemma sample_client_ready:
  "[] \<notin> set chunks \<Longrightarrow> length (concat chunks) < 2 ^ 31 \<Longrightarrow> client_ready sample_client (sample_world chunks)"
  by (simp add: client_ready_def sample_line_ready) (simp add: sample_client_def new_Redis2_def)

text \<open>What \<open>served\<close> says on the sample connection.\<close>

lemma served_sample:
  assumes "served m name as rp res" "small (name # as)" "concat chunks = encode rp" "[] \<notin> set chunks"
    "length (concat chunks) < 2 ^ 31"
  shows "\<exists>r' w'. m sample_client (sample_world chunks) = Some (res, r', w')
    \<and> sent w' = wire (name # as) \<and> proto_stream (proto r') w' = []"
proof -
  let ?w = "sample_world chunks"
  have "client_ready sample_client ?w \<and> \<not> transaction_mode (proto sample_client) \<and> small (name # as)
      \<and> proto_stream (proto sample_client) ?w = encode rp @ []"
    using assms sample_client_ready [of chunks] sample_stream [of chunks] by simp
  with assms(1) obtain p' w' where "m sample_client ?w = Some (res, sample_client\<lparr>proto := p'\<rparr>, w')"
    "sent w' = sent ?w @ wire (name # as)" "proto_stream p' w' = []"
    unfolding served_def by blast
  then show ?thesis by (auto simp: sample_world_def)
qed

end
