(* ===== verification/Connection_Properties.thy ===== *)
theory Connection_Properties
  imports Sample
begin

text \<open>
  The properties of the connection layer: the receive buffer, the reading and writing
  operations of \<open>TcpClient\<close> and the host cache, with a concrete instance of each that has
  hypotheses.
\<close>

section \<open>The receive buffer\<close>

text \<open>C27: the receive buffer is a byte queue.  As long as the content and the room asked for are
  together less than \<open>2^62\<close> bytes (then the doubled size is at most \<open>2^62\<close>, a size that \<open>std::vector<char>\<close> can
  have) and memory suffices, \<open>prepare\<close> makes the room asked for and keeps the content, storing \<open>bs\<close> into
  that room and \<open>produce\<close> append it, and \<open>consume\<close> takes bytes off the front; all keep the inequality
  \<open>read_ <= to_read_ <= size\<close> that the source states, and no assertion of the source fails.\<close>

theorem buffer_is_queue:
  assumes "buffer_inv b" "length (get_read_buffer b) + n < 2 ^ 62" "0 < n" "length bs \<le> n"
    and "0 < k" "k \<le> length (get_read_buffer b @ bs)"
  shows "returns (do { b \<leftarrow> prepare n False b; b \<leftarrow> produce (length bs) (store_to_read bs b); consume k b })
    (\<lambda>(s, b'). buffer_inv b' \<and> s @ get_read_buffer b' = get_read_buffer b @ bs \<and> length s = k)"
proof -
  have "returns (do { b \<leftarrow> prepare n False b; fill_buffer bs b })
      (\<lambda>b'. buffer_inv b' \<and> get_read_buffer b' = get_read_buffer b @ bs)"
    using assms(1-4) by (rule tb.prepare_fill)
  then obtain b1 where b1: "do { b \<leftarrow> prepare n False b; produce (length bs) (store_to_read bs b) } = Some b1"
    "buffer_inv b1" "get_read_buffer b1 = get_read_buffer b @ bs"
    by (auto simp: returns_iff fill_buffer_def)
  from tb.consume_law [OF b1(2) assms(5)] assms(6) b1(3) obtain b2 where
    2: "consume k b1 = Some (take k (get_read_buffer b1), b2)" "buffer_inv b2"
    "get_read_buffer b2 = drop k (get_read_buffer b1)" by (auto simp: returns_iff)
  have "do { b \<leftarrow> prepare n False b; b \<leftarrow> produce (length bs) (store_to_read bs b); consume k b }
      = do { b1 \<leftarrow> do { b \<leftarrow> prepare n False b; produce (length bs) (store_to_read bs b) }; consume k b1 }"
    by simp
  also have "\<dots> = Some (take k (get_read_buffer b1), b2)" by (simp only: b1(1) 2(1) bind.bind_lunit)
  finally have r: "do { b \<leftarrow> prepare n False b; b \<leftarrow> produce (length bs) (store_to_read bs b); consume k b }
      = Some (take k (get_read_buffer b1), b2)" .
  have "take k (get_read_buffer b1) @ get_read_buffer b2 = get_read_buffer b @ bs"
    unfolding 2(3) b1(3) by (rule append_take_drop_id)
  with r 2(2) b1(3) assms(6) show ?thesis by (simp del: take_append)
qed

theorem buffer_is_queue_witness:
  "returns (do { b \<leftarrow> prepare 600 False new_buffer; b \<leftarrow> produce (length ''abc'') (store_to_read ''abc'' b); consume 2 b })
     (\<lambda>(s, b'). buffer_inv b' \<and> s @ get_read_buffer b' = ''abc'' \<and> length s = 2)"
  using buffer_is_queue [of new_buffer 600 "''abc''" 2] new_buffer_inv by simp

text \<open>C28: the doubling loop of \<open>prepare\<close>, on a buffer whose size is a power of two, ends exactly
  when the requested size is below \<open>2^63\<close>; the size it then returns is a power of two above the
  request and, if the buffer grew, at most twice the request.  From \<open>2^63\<close> on the \<open>size_t\<close> wraps to
  zero and the loop never ends.\<close>

theorem prepare_growth:
  assumes "k \<le> 63"
  shows "(m < 2 ^ 63 \<longrightarrow> (\<exists>j. k \<le> j \<and> j \<le> 63 \<and> grow (2 ^ k) m = Some (2 ^ j)
        \<and> m < 2 ^ j \<and> (j = k \<or> 2 ^ (j - 1) \<le> m)))
    \<and> (2 ^ 63 \<le> m \<longrightarrow> grow (2 ^ k) m = None)"
  using grow_stops [OF assms] grow_diverges [OF assms] by blast

theorem prepare_growth_witness:
  "(\<exists>j. 9 \<le> j \<and> j \<le> 63 \<and> grow (2 ^ 9) 1000 = Some (2 ^ j) \<and> 1000 < (2::nat) ^ j)
   \<and> grow (2 ^ 9) (2 ^ 63) = None"
  using prepare_growth [of 9 1000] prepare_growth [of 9 "2 ^ 63"] by auto

section \<open>Reading\<close>

text \<open>C5: \<open>read_line\<close> depends on the bytes the peer sent and not on how they arrive.  On an open
  connection whose bytes (buffered ones first, then what \<open>recv\<close> delivers before it first fails) begin with
  a line and its delimiter it returns that line without the delimiter and error code 0, leaves exactly
  what follows, and stays open, for every way the bytes are split into chunks and for every
  number of interrupted \<open>poll\<close> calls.  (A \<open>recv\<close> that is itself interrupted is a failure to the
  code: it ends the stream.)\<close>

theorem read_line_cuts_line:
  assumes "tcp_ready tc w" "tcp_stream tc w = line @ CRLF @ rest" "CHR 0x0D \<notin> set line"
  shows "\<exists>tc' w'. TcpClient_read_line CRLF timeout tc w = Some ((line, 0), tc', w')
    \<and> tcp_ready tc' w' \<and> tcp_stream tc' w' = rest \<and> fd tc' = fd tc \<and> sent w' = sent w"
proof -
  have "first_line CRLF (tcp_stream tc w) line rest" using assms(2,3) by (intro no_CR_first_line) auto
  with assms(1) tcp.read_line_law [of "(tc, w)" line rest timeout] show ?thesis
    by (auto simp: returns_iff conn_frame_def calm_def quiet_def)
qed

theorem read_line_cuts_line_witness:
  "\<exists>tc' w'. TcpClient_read_line CRLF 50 sample_tcp (sample_world [''+O'', ''K'' @ [CHR 0x0D], CHR 0x0A # '':1'' @ CRLF])
     = Some ((''+OK'', 0), tc', w') \<and> tcp_stream tc' w' = '':1'' @ CRLF"
proof -
  let ?w = "sample_world [''+O'', ''K'' @ [CHR 0x0D], CHR 0x0A # '':1'' @ CRLF]"
  have h: "tcp_ready sample_tcp ?w" by (rule sample_tcp_ready) simp_all
  have s: "tcp_stream sample_tcp ?w = ''+OK'' @ CRLF @ '':1'' @ CRLF" by (subst sample_stream) simp_all
  have "CHR 0x0D \<notin> set ''+OK''" by simp
  from read_line_cuts_line [OF h s this, of 50] show ?thesis by auto
qed

text \<open>\<open>read\<close> of \<open>n\<close> bytes and a delimiter returns exactly the next \<open>n\<close> bytes, whatever they
  are, drops as many bytes as the delimiter has, and leaves the rest, for every way the bytes are
  split into chunks.\<close>

lemma read_cuts_block:
  assumes "tcp_ready tc w" "tcp_stream tc w = block @ e @ rest" "length e = 2"
  shows "\<exists>tc' w'. TcpClient_read (length block) CRLF timeout tc w = Some ((block, 0), tc', w')
    \<and> tcp_ready tc' w' \<and> tcp_stream tc' w' = rest \<and> fd tc' = fd tc \<and> sent w' = sent w"
  using assms tcp.read_block_law [of "(tc, w)" block e rest timeout]
  by (auto simp: returns_iff conn_frame_def calm_def quiet_def)

lemma read_cuts_block_witness:
  "\<exists>tc' w'. TcpClient_read 4 CRLF 50 sample_tcp (sample_world [''a'' @ CRLF, ''b'' @ CRLF @ ''+x''])
     = Some ((''a'' @ CRLF @ ''b'', 0), tc', w') \<and> tcp_stream tc' w' = ''+x''"
proof -
  let ?w = "sample_world [''a'' @ CRLF, ''b'' @ CRLF @ ''+x'']"
  have h: "tcp_ready sample_tcp ?w" by (rule sample_tcp_ready) simp_all
  have s: "tcp_stream sample_tcp ?w = (''a'' @ CRLF @ ''b'') @ CRLF @ ''+x''" by (subst sample_stream) simp_all
  have n: "length (''a'' @ CRLF @ ''b'') = 4" by simp
  from read_cuts_block [OF h s, of 50, unfolded n] show ?thesis by auto
qed

text \<open>If the delimiter never arrives, \<open>read_line\<close> still returns: with an empty line, the
  client closed and its buffer in order.\<close>

lemma read_line_gives_up:
  assumes "tcp_ready tc w" "\<forall>i. \<not> match_at d (tcp_stream tc w) i"
  shows "\<exists>ec tc' w'. TcpClient_read_line d timeout tc w = Some (([], ec), tc', w') \<and> fd tc' = - 1 \<and> tcp_inv tc'"
  using read_line_loop_fails [of tc w d timeout 0] assms by (auto simp: returns_iff TcpClient_read_line_def)

lemma read_line_gives_up_witness:
  "\<exists>ec tc' w'. TcpClient_read_line CRLF 50 sample_tcp (sample_world [''ab'']) = Some (([], ec), tc', w')
     \<and> fd tc' = - 1 \<and> tcp_inv tc'"
proof (rule read_line_gives_up)
  show "tcp_ready sample_tcp (sample_world [''ab''])" by (rule sample_tcp_ready) simp_all
  have "tcp_stream sample_tcp (sample_world [''ab'']) = ''ab''" by (subst sample_stream) simp_all
  then show "\<forall>i. \<not> match_at CRLF (tcp_stream sample_tcp (sample_world [''ab''])) i"
    by (auto simp: match_at_def take_Cons' drop_Cons' split: if_splits)
qed

section \<open>Writing\<close>

text \<open>C29: \<open>write\<close> puts a prefix of the data on the wire, in order and without repetition, however
  the kernel splits and interrupts the calls; if the client is open afterwards, the prefix is all
  of the data, the error code is 0 and the receive buffer is untouched.\<close>

theorem write_sends_prefix:
  assumes "TcpClient_write line timeout tc w = (ec, tc', w')" "length line < 2 ^ 31"
  shows "\<exists>k \<le> length line. sent w' = sent w @ take k line \<and> recv_q w' = recv_q w
    \<and> (fd tc' \<noteq> - 1 \<longrightarrow> k = length line \<and> ec = 0 \<and> fd tc' = fd tc \<and> tbuf tc' = tbuf tc)"
  using TcpClient_write_sent [OF assms] by (auto simp: wrote_def)

theorem write_sends_prefix_witness:
  "\<exists>k \<le> length ''hello''. sent (snd (snd (TcpClient_write ''hello'' 50 sample_tcp (sample_world [])))) = take k ''hello''"
proof -
  obtain ec tc' w' where t: "TcpClient_write ''hello'' 50 sample_tcp (sample_world []) = (ec, tc', w')"
    by (cases "TcpClient_write ''hello'' 50 sample_tcp (sample_world [])")
  have "length ''hello'' < 2 ^ 31" by simp
  from write_sends_prefix [OF t this] t show ?thesis by (auto simp: sample_world_def)
qed

section \<open>The host cache\<close>

text \<open>The host cache answers a name with the result of its first resolution, be it an address
  or an error, without another call of the resolver, until \<open>clear_cache\<close>; other names are not
  affected.  (So a name that failed to resolve once keeps failing.)\<close>

lemma resolver_caches:
  "(\<exists>ep' ec w'. resolve True host service ep w = (ep', ec, w')
      \<and> (\<forall>ep2 w2. dns_cache w2 = dns_cache w' \<longrightarrow> resolve True host service ep2 w2 = (ep', ec, w2))
      \<and> (\<forall>k. k \<noteq> (host, service) \<longrightarrow> dns_cache w' k = dns_cache w k))
   \<and> lookup_cache host service (clear_cache w) = None"
proof -
  obtain ep1 ec1 w1 where d: "do_resolve host service ep w = (ep1, ec1, w1)" by (cases "do_resolve host service ep w")
  have "dns_cache w1 = dns_cache w"
    using d by (auto simp: do_resolve_def resolve_host_def sys_getaddrinfo_def split: prod.splits
        list.splits gai_ret.splits if_splits)
  with d show ?thesis
    by (cases "dns_cache w (host, service)")
      (auto simp: resolve_def lookup_cache_def update_cache_def clear_cache_def split: prod.splits)
qed

lemma resolver_caches_witness:
  "\<exists>ep' ec w'. resolve True ''h'' ''1'' \<lparr>domain = 0, ep_type = 1, protocol = 0, address = []\<rparr> (sample_world []) = (ep', ec, w')
     \<and> resolve True ''h'' ''1'' ep' w' = (ep', ec, w')"
  using resolver_caches [of "''h''" "''1''" "\<lparr>domain = 0, ep_type = 1, protocol = 0, address = []\<rparr>" "sample_world []"]
  by blast

end
