(* ===== verification/Output_Types.thy ===== *)
theory Output_Types
  imports Protocol_Progress
begin

text \<open>
  \<open>RedisOutput\<close> is a tag and an untyped union.  \<open>output_wf\<close> says that the member in use is the
  one the tag names.  Every setter establishes it and \<open>__read_reply\<close> keeps it, so no getter ever
  reads another member; and a reply that is read successfully has the type that the command
  table announces for the command.
\<close>

section \<open>Well-formed outputs\<close>

fun output_wf :: "RedisOutput \<Rightarrow> bool" and ptr_wf :: "kReplyType \<Rightarrow> output_ptr \<Rightarrow> bool" where
  "output_wf (RedisOutput t q) = ptr_wf t q"
| "ptr_wf t NullPtr = (t = kNone \<or> t = kBulk \<or> t = kMultiBulk \<or> t = kSpecialMultiBulk)"
| "ptr_wf t (StatusPtr s) = (t = kStatus)"
| "ptr_wf t (ErrorPtr s) = (t = kError)"
| "ptr_wf t (IntPtr i) = (t = kInteger)"
| "ptr_wf t (BulkPtr b) = (t = kBulk)"
| "ptr_wf t (MbulksPtr mb) = (t = kMultiBulk)"
| "ptr_wf t (SmbulksPtr outs) = (t = kSpecialMultiBulk \<and> list_all output_wf outs)"

named_theorems setter_wf

lemma setters_wf [setter_wf]:
  "output_wf new_output" "output_wf (set_status s out)" "output_wf (set_error s out)"
  "output_wf (set_i i out)" "output_wf (set_bulk b out)" "output_wf (set_nil_bulk out)"
  "output_wf (set_mbulks mb out)" "output_wf (set_nil_mbulks out)" "output_wf (set_nil_smbulks out)"
  "output_wf (set_smbulks smb out) = (case smb of None \<Rightarrow> True | Some outs \<Rightarrow> list_all output_wf outs)"
  by (simp_all add: new_output_def set_status_def set_error_def set_i_def set_bulk_def set_nil_bulk_def
      set_mbulks_def set_nil_mbulks_def set_nil_smbulks_def set_smbulks_def split: option.split)

lemma setter_types [setter_wf]:
  "out_type (set_status s out) = kStatus" "out_type (set_i i out) = kInteger"
  "out_type (set_bulk b out) = kBulk" "out_type (set_nil_bulk out) = kBulk"
  "out_type (set_mbulks mb out) = kMultiBulk" "out_type (set_nil_mbulks out) = kMultiBulk"
  "out_type (set_smbulks smb out) = kSpecialMultiBulk" "out_type (set_nil_smbulks out) = kSpecialMultiBulk"
  by (simp_all add: set_status_def set_i_def set_bulk_def set_nil_bulk_def set_mbulks_def
      set_nil_mbulks_def set_smbulks_def set_nil_smbulks_def)

section \<open>Reading keeps them\<close>

definition reads_wf :: "RedisOutput \<Rightarrow> (bool \<times> RedisOutput \<times> 'p \<times> 'w) option \<Rightarrow> bool" where
  "reads_wf out m \<longleftrightarrow> (output_wf out \<longrightarrow> whenever m (\<lambda>(ok, out', s). output_wf out'))"

definition has_type :: "kReplyType \<Rightarrow> (bool \<times> RedisOutput \<times> 'p \<times> 'w) option \<Rightarrow> bool" where
  "has_type t m \<longleftrightarrow> whenever m (\<lambda>(ok, out', s). ok \<longrightarrow> out_type out' = t)"

lemma reads_wfI:
  "(\<And>ok out' p' w'. output_wf out \<Longrightarrow> m = Some (ok, out', p', w') \<Longrightarrow> output_wf out') \<Longrightarrow> reads_wf out m"
  by (auto simp: reads_wf_def whenever_iff)

lemma has_typeI:
  "(\<And>out' p' w'. m = Some (True, out', p', w') \<Longrightarrow> out_type out' = t) \<Longrightarrow> has_type t m"
  by (auto simp: has_type_def whenever_iff)

lemmas reply_body_defs = reply_integer_def reply_bulk_def reply_mbulk_def reply_failed_def
  reply_status_def bind_eq_Some_conv

lemma reply_bodies_wf:
  "reads_wf out (reply_integer buf out p w)" "reads_wf out (reply_bulk buf out p w)"
  "reads_wf out (reply_mbulk buf out p w)" "reads_wf out (Some (reply_status cmd buf out p w))"
  "reads_wf out (Some (reply_failed what out p w))"
  by (rule reads_wfI; auto simp: reply_body_defs setter_wf split: if_splits option.splits)+

lemma reply_bodies_type:
  "has_type kInteger (reply_integer buf out p w)" "has_type kBulk (reply_bulk buf out p w)"
  "has_type kMultiBulk (reply_mbulk buf out p w)" "has_type kStatus (Some (reply_status cmd buf out p w))"
  "has_type t (Some (reply_failed what out p w))"
  by (rule has_typeI; auto simp: reply_body_defs setter_wf split: if_splits option.splits)+

lemma reply_smbulk_wf:
  assumes "\<And>k p w. whenever (children k p w) (\<lambda>(ok, outs, s). list_all output_wf outs)"
  shows "reads_wf out (reply_smbulk children cmd is_top buf out p w)"
proof (rule reads_wfI)
  fix ok out' p' w'
  assume "output_wf out" "reply_smbulk children cmd is_top buf out p w = Some (ok, out', p', w')"
  moreover have "list_all output_wf outs" if "children k q v = Some (ok, outs, q', v')" for k q v ok outs q' v'
    using assms [of k q v] that by simp
  ultimately show "output_wf out'"
    by (auto simp: reply_smbulk_def reply_failed_def bind_eq_Some_conv setter_wf split: if_splits)
qed

lemma reply_smbulk_type: "has_type kSpecialMultiBulk (reply_smbulk children cmd is_top buf out p w)"
  by (rule has_typeI)
    (auto simp: reply_smbulk_def reply_failed_def bind_eq_Some_conv setter_wf split: if_splits)

lemma reply_switch_wf:
  assumes "\<And>k p w. whenever (children k p w) (\<lambda>(ok, outs, s). list_all output_wf outs)"
  shows "reads_wf out (reply_switch children cmd exp check is_top buf out p w)"
proof -
  have "reads_wf out (Some (False, set_error e out, q, v))" for e and q :: RedisProtocol and v :: world
    by (rule reads_wfI) (auto simp: setter_wf)
  with reply_smbulk_wf [OF assms] show ?thesis by (simp add: reply_switch_def reply_bodies_wf)
qed

lemma reply_switch_type: "has_type exp (reply_switch children cmd exp True is_top buf out p w)"
proof -
  have "has_type exp (Some (False, set_error e out, q, v))" for e and q :: RedisProtocol and v :: world
    by (rule has_typeI) auto
  with reply_bodies_type reply_smbulk_type show ?thesis by (auto simp: reply_switch_def)
qed

lemma read_children_wf:
  assumes "\<And>p w. reads_wf new_output (do_read_reply n i False new_output False p w)"
  shows "list_all output_wf sm \<Longrightarrow>
    whenever (read_children n i sm k p w) (\<lambda>(ok, outs, s). list_all output_wf outs)"
proof (induction k arbitrary: sm p w)
  case (Suc k)
  show ?case
  proof (cases "do_read_reply n i False new_output False p w")
    case (Some x)
    obtain ok child p' w' where x: "x = (ok, child, p', w')" by (cases x)
    with assms [of p w] Some have "output_wf child" by (simp add: reads_wf_def setter_wf)
    with Suc x Some show ?thesis by (auto simp: read_children.simps)
  qed (simp add: read_children.simps)
qed (simp add: read_children.simps)

lemma do_read_reply_wf: "reads_wf out (do_read_reply n i is_top out c p w)"
proof (induction n arbitrary: i is_top out c p w)
  case (Suc n)
  have ch: "whenever (read_children n i [] k p w) (\<lambda>(ok, outs, s). list_all output_wf outs)" for k p w
    using Suc.IH by (intro read_children_wf) auto
  show ?case
  proof (cases "proto_read_line p w")
    case (Some x)
    obtain ok buf p' w' where "x = (ok, buf, p', w')" by (cases x)
    moreover have "reads_wf out (Some (False, set_error e out, p', w'))" for e
      by (rule reads_wfI) (auto simp: setter_wf)
    moreover have "reads_wf out None" by (simp add: reads_wf_def)
    ultimately show ?thesis
      using Some reply_switch_wf [OF ch] by (auto simp: do_read_reply.simps Let_def)
  qed (simp add: do_read_reply.simps reads_wf_def)
qed (simp add: do_read_reply.simps reads_wf_def)

lemma do_read_reply_type:
  assumes "reply_type (command_info i) \<noteq> kDepends"
  shows "has_type (expected_type True i p) (do_read_reply n i is_top out True p w)"
proof (cases n)
  case (Suc m)
  show ?thesis
  proof (cases "proto_read_line p w")
    case (Some x)
    obtain ok buf p' w' where "x = (ok, buf, p', w')" by (cases x)
    with Some assms reply_switch_type show ?thesis
      by (auto simp: Suc do_read_reply.simps Let_def intro: has_typeI)
  qed (simp add: Suc do_read_reply.simps has_type_def)
qed (simp add: do_read_reply.simps has_type_def)

section \<open>The properties\<close>

text \<open>On a well-formed output no getter reads a union member that is not in use, and a getter
  succeeds exactly on the type it is for.\<close>

lemma getters_safe:
  assumes "output_wf out"
  shows "(\<exists>r. get_status (Some s) out = Some (is_status out, r)) \<and> (\<exists>r. get_error (Some s) out = Some (is_error out, r))
    \<and> (\<exists>r. get_i (Some i) out = Some (is_i out, r)) \<and> (\<exists>r. get_bulk (Some s) out = Some (is_bulk out, r))
    \<and> (\<exists>r. get_mbulks (Some mb) out = Some (is_mbulks out, r))
    \<and> (\<exists>r. get_smbulks (Some smb) out = Some (is_smbulks out, r))
    \<and> (\<exists>r. get_mbulks_strings (Some ss) out = Some (is_mbulks out, r))"
proof (cases out)
  case (RedisOutput t q)
  with assms show ?thesis
    by (cases q) (simp_all add: get_status_def get_error_def get_i_def get_bulk_def get_mbulks_def
        get_smbulks_def get_mbulks_strings_def is_status_def is_error_def is_i_def is_bulk_def
        is_mbulks_def is_smbulks_def)
qed

lemma getters_safe_witness:
  "\<exists>r. get_i (Some 0) (RedisOutput kInteger (IntPtr 7)) = Some (is_i (RedisOutput kInteger (IntPtr 7)), r)"
  using getters_safe [of "RedisOutput kInteger (IntPtr 7)" _ 0] by simp

end
