(* ===== verification/Protocol_Properties.thy ===== *)
theory Protocol_Properties
  imports Sample Output_Types
begin

text \<open>
  The properties of the protocol layer and of the command table, with a concrete instance of
  each that has hypotheses.
\<close>

section \<open>The command table\<close>

text \<open>The command table and its reverse map agree.  The row of every command of the
  enumeration is at the command's ordinal; looking up the name of a command, in any mixture of
  cases, gives that command with its row; a name that is not in the table gives \<open>NOOP\<close>.\<close>

lemma command_lookup:
  "(\<forall>n < 138. command (s_command_map ! n) = kCommand n)
   \<and> (\<forall>n s i. 1 \<le> n \<and> n \<le> 136 \<and> map toupper_char s = command_str (s_command_map ! n) \<longrightarrow>
        set_command_string s i = i\<lparr>in_command := kCommand n, command_info := s_command_map ! n\<rparr>)
   \<and> (\<forall>s i. map toupper_char s \<notin> command_str ` (set (take 136 (tl s_command_map))) \<longrightarrow>
        in_command (set_command_string s i) = NOOP)"
proof (intro conjI allI impI)
  fix n :: nat assume "n < 138" then show "command (s_command_map ! n) = kCommand n" by (rule command_map_index)
next
  fix n s i assume "1 \<le> n \<and> n \<le> 136 \<and> map toupper_char s = command_str (s_command_map ! n)"
  then show "set_command_string s i = i\<lparr>in_command := kCommand n, command_info := s_command_map ! n\<rparr>"
    using rev_map_lookup [of n] by (simp add: set_command_string_def set_command_def)
next
  fix s i assume a: "map toupper_char s \<notin> command_str ` (set (take 136 (tl s_command_map)))"
  have "map_of s_command_rev_map (map toupper_char s) = None"
  proof (rule ccontr)
    assume "map_of s_command_rev_map (map toupper_char s) \<noteq> None"
    then obtain c where "map_of s_command_rev_map (map toupper_char s) = Some c" by blast
    from map_of_SomeD [OF this] have "(map toupper_char s, c) \<in> set (take 136 (tl table_names))"
      by (simp only: set_rev_map)
    then have "map toupper_char s \<in> fst ` set (take 136 (tl table_names))" by force
    then have "map toupper_char s \<in> command_str ` set (take 136 (tl s_command_map))"
      by (simp add: table_names_def map_tl [symmetric] take_map image_image)
    with a show False by simp
  qed
  then show "in_command (set_command_string s i) = NOOP" by (simp add: set_command_string_def set_command_def)
qed

lemma command_lookup_witness:
  "in_command (set_command_string ''zAdD'' (new_input NOOP)) = ZADD \<and> command (s_command_map ! 27) = GET"
proof -
  have "command_str (s_command_map ! cmd_ord ZADD) = ''ZADD''" by (simp add: s_command_map_def)
  moreover have "map toupper_char ''zAdD'' = ''ZADD''" by code_simp
  ultimately have h: "1 \<le> cmd_ord ZADD \<and> cmd_ord ZADD \<le> 136
      \<and> map toupper_char ''zAdD'' = command_str (s_command_map ! cmd_ord ZADD)" by simp
  have "set_command_string ''zAdD'' (new_input NOOP)
      = (new_input NOOP)\<lparr>in_command := kCommand (cmd_ord ZADD), command_info := s_command_map ! cmd_ord ZADD\<rparr>"
    using command_lookup [THEN conjunct2, THEN conjunct1] h by blast
  moreover have "command (s_command_map ! 27) = GET" using command_lookup [THEN conjunct1] by simp
  ultimately show ?thesis by simp
qed

section \<open>Requests\<close>

text \<open>C2: what \<open>write_command\<close> puts on the wire can be read back: on a working connection it sends
  one text, from which a server that follows the protocol decodes the command's name followed by
  its arguments, in order, whatever bytes the arguments hold, and is left with exactly the bytes
  after it; nothing is taken off the incoming stream.\<close>

theorem request_roundtrip:
  assumes "line_ready p w" "sendable c" "length (args (cmd_in c)) < 2 ^ 31 - 1"
  shows "\<exists>p' w' t. write_command (Some c) p w = (True, Some c, p', w') \<and> sent w' = sent w @ t
    \<and> (\<forall>rest. decode_request (t @ rest) = Some (command_str (command_info (cmd_in c)) # args (cmd_in c), rest))
    \<and> proto_stream p' w' = proto_stream p w"
proof -
  from assms(1,2) have "proto_ready p w" "sends_ready w" "length (request_text (cmd_in c)) < 2 ^ 31"
    "length (args (cmd_in c)) < 2 ^ 31" "argc_fits (argc (command_info (cmd_in c))) (length (args (cmd_in c)))"
    by (simp_all add: line_ready_def sendable_def)
  from write_command_ready [OF this] obtain tc w' where
    "write_command (Some c) p w = (True, Some c, p\<lparr>tcp_client := tc\<rparr>, w')"
    "sent w' = sent w @ request_text (cmd_in c)" "tcp_stream tc w' = proto_stream p w" by blast
  with request_text_decode [OF assms(3)] show ?thesis by auto
qed

theorem request_roundtrip_witness:
  "\<exists>p' w' t. write_command (Some (command_with ECHO [push_arg (''a'' @ CRLF)])) sample_proto (sample_world [])
       = (True, Some (command_with ECHO [push_arg (''a'' @ CRLF)]), p', w')
     \<and> sent w' = t \<and> decode_request (t @ ''*1'') = Some ([''ECHO'', ''a'' @ CRLF], ''*1'')"
proof -
  let ?c = "command_with ECHO [push_arg (''a'' @ CRLF)]"
  have row: "s_command_map ! cmd_ord ECHO = info ECHO ''ECHO'' 1 kBulk" by (simp add: s_command_map_def)
  have l: "line_ready sample_proto (sample_world [])" by (rule sample_line_ready) simp_all
  have sd: "sendable ?c"
    using row by (simp add: sendable_def command_with_in push_simps argc_fits_def request_text_def bulk_text_def
        s_redis_line_end_def int32_def show_int_def show_nat.simps)
  have n: "length (args (cmd_in ?c)) < 2 ^ 31 - 1" by (simp add: command_with_in push_simps)
  from request_roundtrip [OF l sd n] row show ?thesis
    by (auto simp: command_with_in push_simps sample_world_def)
qed

text \<open>A command is refused before anything is sent exactly when its number of arguments does
  not fit the table: \<open>n\<close> for an exact count, \<open>-n\<close> for at least \<open>n\<close>, and any number for
  \<open>ARGC_NO_CHECKING\<close>; a refusal leaves the connection and the world alone and is reported in the
  command and in the error text.  Otherwise the text of the request is handed to the connection.\<close>

lemma argc_checked:
  assumes "length (args (cmd_in c)) < 2 ^ 31"
  shows "if argc_fits (argc (command_info (cmd_in c))) (length (args (cmd_in c)))
    then write_command (Some c) p w = (let (ok, c, p, w) = write_text (request_text (cmd_in c)) c p w in (ok, Some c, p, w))
    else \<exists>e. write_command (Some c) p w = (False, Some (c\<lparr>cmd_out := set_error e (cmd_out c)\<rparr>), p\<lparr>p_error := e\<rparr>, w)"
proof -
  have "int32 (int (length (args (cmd_in c)))) = int (length (args (cmd_in c)))" using assms by (rule int32_nat_id)
  with check_argc_iff [of c "length (args (cmd_in c))" p] check_argc_fits [of c "length (args (cmd_in c))" p]
  show ?thesis by (auto simp: write_command_def check_argc_def Let_def split: if_splits)
qed

lemma argc_checked_witness:
  "\<exists>e. write_command (Some (new_command GET)) sample_proto (sample_world [])
     = (False, Some ((new_command GET)\<lparr>cmd_out := set_error e new_output\<rparr>), sample_proto\<lparr>p_error := e\<rparr>, sample_world [])"
proof -
  have "s_command_map ! cmd_ord GET = info GET ''GET'' 1 kBulk" by (simp add: s_command_map_def)
  then show ?thesis
    using argc_checked [of "new_command GET" sample_proto "sample_world []"]
    by (simp add: new_command_def new_input_def argc_fits_def)
qed

section \<open>Replies\<close>

text \<open>C13: the tag of an output always names the union member in use.  \<open>read_reply\<close> keeps this for
  whatever the peer sends, nested replies included; and a successful reply to a command of a fixed
  type has the type that the command table announces, or is a status while a transaction is open.\<close>

theorem read_reply_typed:
  assumes "read_reply (Some c) p w = Some (ok, Some c', p', w')"
  shows "(output_wf (cmd_out c) \<longrightarrow> output_wf (cmd_out c'))
    \<and> (ok \<and> reply_type (command_info (cmd_in c)) \<noteq> kDepends \<longrightarrow>
         out_type (cmd_out c') = server_type (cmd_in c) (transaction_mode p))"
proof -
  from assms have r: "do_read_reply (Suc (avail p w)) (cmd_in c) True (cmd_out c) True p w
      = Some (ok, cmd_out c', p', w')"
    by (auto simp: read_reply_def bind_eq_Some_conv)
  show ?thesis
    using do_read_reply_wf [of "cmd_out c" "Suc (avail p w)" "cmd_in c" True True p w]
      do_read_reply_type [of "cmd_in c" p "Suc (avail p w)" True "cmd_out c" w]
    by (auto simp: r reads_wf_def has_type_def expected_server_type)
qed

theorem read_reply_typed_witness:
  "\<exists>c' p' w'. read_reply (Some (new_command DBSIZE)) sample_proto (sample_world ['':12'' @ CRLF]) = Some (True, Some c', p', w')
     \<and> output_wf (cmd_out c') \<and> out_type (cmd_out c') = kInteger"
proof -
  let ?c = "new_command DBSIZE" and ?w = "sample_world ['':12'' @ CRLF]"
  have row: "s_command_map ! cmd_ord DBSIZE = info DBSIZE ''DBSIZE'' 0 kInteger" by (simp add: s_command_map_def)
  have en: "concat ['':12'' @ CRLF] = encode (RInteger 12)" by code_simp
  have "line_ready sample_proto ?w" by (rule sample_line_ready) simp_all
  then have r: "proto_ready sample_proto ?w" by (simp add: line_ready_def)
  have s: "proto_stream sample_proto ?w = encode (RInteger 12) @ []"
    using en by (subst sample_proto_tcp, subst sample_stream) simp_all
  have "fits ?c sample_proto (RInteger 12)"
    using row by (simp add: expects_code expected_type_def new_command_def new_input_def LONG_MIN_def LONG_MAX_def)
  from read_reply_fits [OF r s this] obtain c' p' w' where
    rd: "read_reply (Some ?c) sample_proto ?w = Some (True, Some c', p', w')" by (auto simp: replies_def)
  from read_reply_typed [OF rd] row show ?thesis
    using rd by (auto simp: new_command_def new_input_def server_type_def setter_wf)
qed

text \<open>C1: \<open>read_reply\<close> decodes what a server encodes, for the replies the reader takes (\<open>fits\<close>): of
  the type the command expects, a status without CR, an integer of 64 bits, a bulk that is nil or not
  empty, and, for a multi-bulk, children of these kinds (for a special multi-bulk of every type but
  error, to any depth).  On a working connection (\<open>proto_ready\<close>: open, polls succeed or are
  interrupted, less than \<open>2^31\<close> bytes to come, \<open>errno\<close> not left at \<open>EINVAL\<close> or \<open>ERANGE\<close>) whose bytes begin with such a reply it succeeds, the command receives
  exactly that value, exactly the bytes of the reply are taken off the stream, nothing is sent, and the
  transaction mode follows \<open>MULTI\<close>, \<open>DISCARD\<close> and \<open>EXEC\<close>, for every split of the bytes into
  chunks.  Not covered are the replies the code does not take: an empty bulk and an error inside a
  multi-bulk make it fail, and an error reply is reported as such (\<open>error_reply_reported\<close>).\<close>

theorem read_reply_decodes:
  assumes "proto_ready p w" "proto_stream p w = encode r @ rest" "fits c p r"
  shows "\<exists>p' w'. read_reply (Some c) p w = Some (True, Some (c\<lparr>cmd_out := answer c p r\<rparr>), p', w')
    \<and> proto_ready p' w' \<and> proto_stream p' w' = rest \<and> sent w' = sent w
    \<and> transaction_mode p' = answer_mode c p r"
  using read_reply_fits [OF assms]
  by (auto simp: replies_def reads_def calm_def quiet_def proto_ready_def)

theorem read_reply_decodes_witness:
  "\<exists>p' w'. read_reply (Some (new_command EXEC)) sample_proto
       (sample_world [''*2'', CRLF @ ''*1'' @ CRLF @ '':5'' @ CRLF @ ''+Q'', CRLF])
     = Some (True, Some ((new_command EXEC)\<lparr>cmd_out := RedisOutput kSpecialMultiBulk (SmbulksPtr
         [RedisOutput kSpecialMultiBulk (SmbulksPtr [RedisOutput kInteger (IntPtr 5)]), RedisOutput kStatus (StatusPtr ''Q'')])\<rparr>), p', w')"
proof -
  let ?c = "new_command EXEC" and ?w = "sample_world [''*2'', CRLF @ ''*1'' @ CRLF @ '':5'' @ CRLF @ ''+Q'', CRLF]"
  let ?r = "RMulti (Some [RMulti (Some [RInteger 5]), RStatus ''Q''])"
  have row: "s_command_map ! cmd_ord EXEC = info EXEC ''EXEC'' 0 kSpecialMultiBulk" by (simp add: s_command_map_def)
  have en: "concat [''*2'', CRLF @ ''*1'' @ CRLF @ '':5'' @ CRLF @ ''+Q'', CRLF] = encode ?r" by code_simp
  have "line_ready sample_proto ?w" by (rule sample_line_ready) simp_all
  then have r: "proto_ready sample_proto ?w" by (simp add: line_ready_def)
  have s: "proto_stream sample_proto ?w = encode ?r @ []"
    using en by (subst sample_proto_tcp, subst sample_stream) simp_all
  have f: "\<not> wants_mbulk ?c sample_proto" "fits ?c sample_proto ?r"
    using row by (simp_all add: wants_mbulk_def expects_code expected_type_def new_command_def new_input_def
        LONG_MIN_def LONG_MAX_def plain_input_def)
  from read_reply_decodes [OF r s f(2)] f(1) show ?thesis by (auto simp: new_command_def)
qed

text \<open>C35: an error reply is handed to the caller and the connection stays usable: \<open>read_reply\<close>
  returns \<open>false\<close>, the command and the error text hold the message, exactly the bytes of the error
  are taken off the stream, and nothing is closed.\<close>

theorem error_reply_reported:
  assumes "proto_ready p w" "proto_stream p w = encode (RError t) @ rest" "CHR 0x0D \<notin> set t"
  shows "\<exists>p' w'. read_reply (Some c) p w = Some (False, Some (c\<lparr>cmd_out := RedisOutput kError (ErrorPtr t)\<rparr>), p', w')
    \<and> p_error p' = t \<and> proto_ready p' w' \<and> proto_stream p' w' = rest \<and> transaction_mode p' = transaction_mode p"
  using replies_error [OF assms] by (fastforce simp: reads_def proto_ready_def)

theorem error_reply_reported_witness:
  "\<exists>p' w'. read_reply (Some (new_command GET)) sample_proto (sample_world [''-ERR'', '' x'' @ CRLF @ ''+''])
     = Some (False, Some ((new_command GET)\<lparr>cmd_out := RedisOutput kError (ErrorPtr ''ERR x'')\<rparr>), p', w')
     \<and> proto_stream p' w' = ''+''"
proof -
  let ?w = "sample_world [''-ERR'', '' x'' @ CRLF @ ''+'']"
  have "line_ready sample_proto ?w" by (rule sample_line_ready) simp_all
  then have r: "proto_ready sample_proto ?w" by (simp add: line_ready_def)
  have s: "proto_stream sample_proto ?w = encode (RError ''ERR x'') @ ''+''"
    by (subst sample_proto_tcp, subst sample_stream) simp_all
  have "CHR 0x0D \<notin> set ''ERR x''" by simp
  from error_reply_reported [OF r s this, of "new_command GET"] show ?thesis by auto
qed

text \<open>\<open>__read_reply\<close> recurses once per level of nesting, and every level costs the peer at least
  one byte, so the nesting is bounded by the bytes that can arrive: a bound above their number
  is never reached.  (\<open>read_reply\<close> uses that number plus one.)\<close>

lemma reply_nesting_bounded:
  assumes "proto_inv p" "avail p w < n"
  shows "read_reply (Some c) p w = do {
    (ok, out, p, w) \<leftarrow> do_read_reply n (cmd_in c) True (cmd_out c) True p w;
    Some (ok, Some (c\<lparr>cmd_out := out\<rparr>), p, w) }"
  using do_read_reply_fuel [OF assms(1), of w "Suc (avail p w)" n] assms(2) by (simp add: read_reply_def)

lemma reply_nesting_bounded_witness:
  "read_reply (Some (new_command GET)) sample_proto (sample_world [''$-1'' @ CRLF]) = do {
    (ok, out, p, w) \<leftarrow> do_read_reply 100 (cmd_in (new_command GET)) True new_output True sample_proto (sample_world [''$-1'' @ CRLF]);
    Some (ok, Some ((new_command GET)\<lparr>cmd_out := out\<rparr>), p, w) }"
proof -
  have "proto_inv sample_proto"
    by (simp add: proto_inv_def tcp_inv_def sample_tcp_def new_TcpClient_def new_buffer_inv)
  moreover have "avail sample_proto (sample_world [''$-1'' @ CRLF]) < 100"
    by (simp add: avail_def tcp_avail_def sample_tcp_def new_TcpClient_def sample_world_def)
  ultimately show ?thesis using reply_nesting_bounded [of sample_proto _ 100 "new_command GET"]
    by (simp add: new_command_def)
qed

section \<open>Failures\<close>

text \<open>C34: no half-read reply is left behind: whenever reading a line, a block, a bulk or a
  multi-bulk fails, for whatever reason, the connection is closed, its buffer is empty, and the
  blocking and transaction modes are off, so the next command starts on a new connection.\<close>

theorem failed_reads_close:
  "fails_closed (proto_read_line p w) \<and> fails_closed (proto_read n p w) \<and> fails_closed (read_bulk_2 header p w)
   \<and> fails_closed (read_bulk p w) \<and> fails_closed (read_bulks n mb p w) \<and> fails_closed (read_multi_bulk_2 header p w)"
  by (intro conjI read_line_fails_closed read_fails_closed read_bulk_2_fails_closed read_bulk_fails_closed
      read_bulks_fails_closed read_multi_bulk_2_fails_closed)

text \<open>\<open>parse_integer\<close> judges \<open>strtol\<close> by \<open>errno\<close> without clearing it: while \<open>errno\<close> holds \<open>EINVAL\<close>
  or \<open>ERANGE\<close> from an earlier call every number is rejected, however it reads; after any other
  value every number of 64 bits is accepted with its value.\<close>

lemma parse_integer_errno:
  "(errno w = EINVAL \<or> errno w = ERANGE \<longrightarrow> (\<forall>c line. \<exists>i w'. parse_integer (c # line) w = Some (False, i, w')))
   \<and> (errno_clean w \<longrightarrow> (\<forall>c i. LONG_MIN \<le> i \<and> i \<le> LONG_MAX \<longrightarrow> parse_integer (c # show_int i) w = Some (True, i, w)))"
  using parse_integer_show [of w] by (auto simp: parse_integer_def Let_def split: prod.splits)

lemma parse_integer_errno_witness:
  "parse_integer '':42'' (sample_world []) = Some (True, 42, sample_world [])
   \<and> (\<exists>i w'. parse_integer '':42'' ((sample_world [])\<lparr>errno := ERANGE\<rparr>) = Some (False, i, w'))"
proof -
  have s: "show_int 42 = ''42''" by code_simp
  have "errno_clean (sample_world [])" "LONG_MIN \<le> 42 \<and> 42 \<le> LONG_MAX"
    by (simp_all add: errno_clean_def sample_world_def LONG_MIN_def LONG_MAX_def)
  then have "parse_integer (CHR '':'' # show_int 42) (sample_world []) = Some (True, 42, sample_world [])"
    using parse_integer_errno [of "sample_world []"] by blast
  moreover have "errno ((sample_world [])\<lparr>errno := ERANGE\<rparr>) = ERANGE" by simp
  then have "\<exists>i w'. parse_integer '':42'' ((sample_world [])\<lparr>errno := ERANGE\<rparr>) = Some (False, i, w')"
    using parse_integer_errno [of "(sample_world [])\<lparr>errno := ERANGE\<rparr>"] by blast
  ultimately show ?thesis using s by simp
qed

text \<open>An empty bulk cannot be received: a header \<open>$0\<close> makes \<open>read_bulk_2\<close> fail with
  \<open>unexpected integer\<close> and closes the connection, although the comments of \<open>redis_cmd.h\<close> list
  \<open>$0\<close> as the reply of an empty bulk.\<close>

lemma empty_bulk_rejected:
  assumes "errno_clean w"
  shows "\<exists>p' w'. read_bulk_2 ''$0'' p w = Some (False, None, p', w') \<and> closed p'
    \<and> p_error p' = ''read '' @ peer p @ '' failed, unexpected integer : 0''"
proof -
  have "show_int 0 = ''0''" by code_simp
  then have pi: "parse_integer ''$0'' w = Some (True, 0, w)" "show_int 0 = ''0''"
    using parse_integer_show [OF assms, of 0 "CHR ''$''"] by (simp_all add: LONG_MIN_def LONG_MAX_def)
  define e where "e = read_failed (''unexpected integer : '' @ ''0'') p"
  obtain p' w' where c: "close_error e p w = (p', w')" by force
  have "read_bulk_2 ''$0'' p w = Some (False, None, p', w')"
    using pi c by (simp add: read_bulk_2_def e_def)
  with close_error_eq [OF c] close_error_closed [OF c] show ?thesis by (simp add: e_def read_failed_def)
qed

lemma empty_bulk_rejected_witness:
  "\<exists>p' w'. read_bulk_2 ''$0'' sample_proto (sample_world []) = Some (False, None, p', w') \<and> closed p'"
proof -
  have "errno_clean (sample_world [])" by (simp add: errno_clean_def sample_world_def)
  from empty_bulk_rejected [OF this, of sample_proto] show ?thesis by blast
qed

section \<open>Commands\<close>

text \<open>The sample connection, with the replies of a server to two commands.\<close>

definition sample_replies :: "string list" where
  "sample_replies = [''+PO'', ''NG'' @ CRLF @ '':'', ''7'' @ CRLF]"

definition sample_commands :: "RedisCommand list" where
  "sample_commands = [new_command PING, new_command DBSIZE]"

lemma sample_session:
  "line_ready sample_proto (sample_world sample_replies)" "list_all sendable sample_commands"
  "proto_stream sample_proto (sample_world sample_replies) = concat (map encode [RStatus ''PONG'', RInteger 7]) @ []"
  "all_fit sample_commands (transaction_mode sample_proto) [RStatus ''PONG'', RInteger 7]"
proof -
  have rows: "s_command_map ! cmd_ord PING = info PING ''PING'' 0 kStatus"
    "s_command_map ! cmd_ord DBSIZE = info DBSIZE ''DBSIZE'' 0 kInteger" by (simp_all add: s_command_map_def)
  show "line_ready sample_proto (sample_world sample_replies)"
    by (rule sample_line_ready) (simp_all add: sample_replies_def)
  show "list_all sendable sample_commands"
    using rows by (simp add: sample_commands_def sendable_def new_command_def new_input_def argc_fits_def
        request_text_def bulk_text_def s_redis_line_end_def int32_def show_int_def show_nat.simps)
  have "concat sample_replies = concat (map encode [RStatus ''PONG'', RInteger 7])"
    by code_simp
  then show "proto_stream sample_proto (sample_world sample_replies) = concat (map encode [RStatus ''PONG'', RInteger 7]) @ []"
    by (subst sample_proto_tcp, subst sample_stream) (simp_all add: sample_replies_def)
  show "all_fit sample_commands (transaction_mode sample_proto) [RStatus ''PONG'', RInteger 7]"
    using rows by (simp add: sample_commands_def new_command_def new_input_def expects_code expected_type_def
        in_mode_def new_RedisProtocol_def mode_after_status_def LONG_MIN_def LONG_MAX_def)
qed

text \<open>C3: a sequence of commands on a working connection (\<open>line_ready\<close>: as for \<open>read_reply_decodes\<close>, and sends succeed and
  the connection was checked in the last 180 seconds), each answered by a reply that fits it
  (\<open>all_fit\<close>: the type the command expects, no error reply, no error and no empty bulk anywhere in it):
  every command gets the answer to its own request, in order; exactly the requests have been sent, in
  order; exactly the replies have been read.  The commands are \<open>sendable\<close> (below \<open>2^31\<close> bytes, the
  number of arguments their command asks for).  After a reply that does not fit this order is not
  claimed: an error inside a multi-bulk is left half read.\<close>

theorem commands_answered_in_order:
  assumes "line_ready p w" "list_all sendable cs" "proto_stream p w = concat (map encode rs) @ rest"
    "all_fit cs (transaction_mode p) rs"
  shows "\<exists>p' w'. run_all exec_pair cs (p, w) = Some ((True, answered cs (transaction_mode p) rs), p', w')
    \<and> line_ready p' w' \<and> proto_stream p' w' = rest
    \<and> sent w' = sent w @ concat (map (\<lambda>c. request_text (cmd_in c)) cs)"
  using channel.run_all_answers [of "(p, w)" cs rs rest] assms by (auto simp: returns_iff)

theorem commands_answered_in_order_witness:
  "\<exists>p' w'. run_all exec_pair sample_commands (sample_proto, sample_world sample_replies)
     = Some ((True, [Some ((new_command PING)\<lparr>cmd_out := RedisOutput kStatus (StatusPtr ''PONG'')\<rparr>),
                     Some ((new_command DBSIZE)\<lparr>cmd_out := RedisOutput kInteger (IntPtr 7)\<rparr>)]), p', w')"
  using commands_answered_in_order [OF sample_session] by (auto simp: sample_commands_def)

text \<open>C12: on replies that fit the commands (\<open>all_fit\<close>: the expected types, no error reply, no error
  and no empty bulk inside) a pipeline is an optimisation only: on a working connection, writing all
  requests before reading the first reply gives every command the same answer, puts the same
  bytes on the wire and leaves the same bytes unread as executing the commands one by one.  With a reply
  that does not fit they differ: the pipeline has then sent the later requests already.\<close>

theorem pipeline_equivalent:
  assumes "line_ready p w" "list_all sendable cs" "proto_stream p w = concat (map encode rs) @ rest"
    "all_fit cs (transaction_mode p) rs"
  shows "\<exists>outs p1 w1 p2 w2. exec_pipeline (Some (map Some cs)) p w = Some (True, Some outs, p1, w1)
    \<and> run_all exec_pair cs (p, w) = Some ((True, outs), p2, w2)
    \<and> sent w1 = sent w2 \<and> proto_stream p1 w1 = proto_stream p2 w2 \<and> line_ready p1 w1"
proof -
  from pipeline_write_line [OF assms(1,2)] obtain p1 w1 where
    1: "pipeline_write (map Some cs) p w = (True, map Some cs, p1, w1)" "line_ready p1 w1"
      "proto_stream p1 w1 = proto_stream p w" "sent w1 = sent w @ concat (map (\<lambda>c. request_text (cmd_in c)) cs)"
      "transaction_mode p1 = transaction_mode p" by blast
  from pipeline_read_line [OF 1(2), unfolded 1(3,5), OF assms(3,4)] obtain p2 w2 where
    2: "pipeline_read (map Some cs) p1 w1 = Some (True, answered cs (transaction_mode p) rs, p2, w2)"
      "line_ready p2 w2" "proto_stream p2 w2 = rest" "sent w2 = sent w1" by blast
  have 3: "exec_pipeline (Some (map Some cs)) p w = Some (True, Some (answered cs (transaction_mode p) rs), p2, w2)"
    using 1(1) 2(1) by (simp add: exec_pipeline_def)
  from channel.run_all_answers [of "(p, w)" cs rs rest] assms obtain p3 w3 where
    4: "run_all exec_pair cs (p, w) = Some ((True, answered cs (transaction_mode p) rs), p3, w3)"
    "proto_stream p3 w3 = rest" "sent w3 = sent w @ concat (map (\<lambda>c. request_text (cmd_in c)) cs)"
    by (auto simp: returns_iff)
  show ?thesis
    by (rule exI, rule exI [of _ p2], rule exI [of _ w2], rule exI [of _ p3], rule exI [of _ w3],
        intro conjI, rule 3, rule 4(1)) (simp_all add: 1(4) 2(2-4) 4(2,3))
qed

theorem pipeline_equivalent_witness:
  "\<exists>outs p1 w1 p2 w2. exec_pipeline (Some (map Some sample_commands)) sample_proto (sample_world sample_replies)
      = Some (True, Some outs, p1, w1)
    \<and> run_all exec_pair sample_commands (sample_proto, sample_world sample_replies) = Some ((True, outs), p2, w2)
    \<and> sent w1 = sent w2"
  using pipeline_equivalent [OF sample_session] by blast

end
