(* ===== verification/Output_Heap.thy ===== *)
theory Output_Heap
  imports Output_Types
begin

text \<open>
  The memory of outputs and commands (\<open>redis_cmd.h\<close>, \<open>redis_cmd.cpp\<close>).  \<open>Redis_Cmd\<close> treats an
  output as a value; the source keeps it in allocated pieces that own each other: an output owns
  the string, number or vector that its union points to, a vector of bulks owns its strings, a
  vector of outputs owns the outputs, and these own their pieces in turn.  Here the same functions
  are written over an explicit store of typed cells.  \<open>delete\<close> of an address that is not allocated, or is
  allocated with another type, is undefined (\<open>None\<close>); an address is never given out twice.
  Objects on the stack and members of other objects have addresses too.

  \<open>Output_Ownership\<close> says which value an object holds and which cells it owns, and
  \<open>Heap_Properties\<close> that these functions are those of \<open>Redis_Cmd\<close> and neither leak nor free twice.
\<close>

section \<open>The store\<close>

type_synonym addr = nat

datatype cell =
    StringCell string
  | IntCell int
  | MbulkCell "addr ptr list"
  | SmbulkCell "addr ptr list"
  | OutputCell kReplyType "addr ptr"
  | CommandCell RedisInput addr
  | CommandsCell "addr ptr list"

record heap =
  cells :: "addr \<rightharpoonup> cell"
  brk :: addr

definition new_cell :: "cell \<Rightarrow> heap \<Rightarrow> addr \<times> heap" where
  "new_cell c h = (brk h, h\<lparr>cells := (cells h)(brk h \<mapsto> c), brk := Suc (brk h)\<rparr>)"

definition put_cell :: "addr \<Rightarrow> cell \<Rightarrow> heap \<Rightarrow> heap" where
  "put_cell a c h = h\<lparr>cells := (cells h)(a \<mapsto> c)\<rparr>"

definition free_cell :: "addr \<Rightarrow> heap \<Rightarrow> heap" where
  "free_cell a h = h\<lparr>cells := (cells h)(a := None)\<rparr>"

definition load_string :: "addr \<Rightarrow> heap \<Rightarrow> string option" where
  "load_string a h = (case cells h a of Some (StringCell s) \<Rightarrow> Some s | _ \<Rightarrow> None)"

definition load_int :: "addr \<Rightarrow> heap \<Rightarrow> int option" where
  "load_int a h = (case cells h a of Some (IntCell i) \<Rightarrow> Some i | _ \<Rightarrow> None)"

definition load_mbulk :: "addr \<Rightarrow> heap \<Rightarrow> addr ptr list option" where
  "load_mbulk a h = (case cells h a of Some (MbulkCell v) \<Rightarrow> Some v | _ \<Rightarrow> None)"

definition load_smbulk :: "addr \<Rightarrow> heap \<Rightarrow> addr ptr list option" where
  "load_smbulk a h = (case cells h a of Some (SmbulkCell v) \<Rightarrow> Some v | _ \<Rightarrow> None)"

definition load_output :: "addr \<Rightarrow> heap \<Rightarrow> (kReplyType \<times> addr ptr) option" where
  "load_output a h = (case cells h a of Some (OutputCell t q) \<Rightarrow> Some (t, q) | _ \<Rightarrow> None)"

definition load_command :: "addr \<Rightarrow> heap \<Rightarrow> (RedisInput \<times> addr) option" where
  "load_command a h = (case cells h a of Some (CommandCell i b) \<Rightarrow> Some (i, b) | _ \<Rightarrow> None)"

definition load_commands :: "addr \<Rightarrow> heap \<Rightarrow> addr ptr list option" where
  "load_commands a h = (case cells h a of Some (CommandsCell v) \<Rightarrow> Some v | _ \<Rightarrow> None)"

lemmas load_defs = load_string_def load_int_def load_mbulk_def load_smbulk_def load_output_def
  load_command_def load_commands_def

section \<open>Deleting\<close>

definition delete_string :: "addr ptr \<Rightarrow> heap \<Rightarrow> heap option" where
  "delete_string q h =
     (case q of None \<Rightarrow> Some h | Some a \<Rightarrow> do { load_string a h; Some (free_cell a h) })"

definition delete_int :: "addr \<Rightarrow> heap \<Rightarrow> heap option" where
  "delete_int a h = do { load_int a h; Some (free_cell a h) }"

text \<open>\<open>BOOST_FOREACH(T * t, v) delete t;\<close>\<close>

fun delete_each :: "(addr ptr \<Rightarrow> heap \<Rightarrow> heap option) \<Rightarrow> addr ptr list \<Rightarrow> heap \<Rightarrow> heap option" where
  "delete_each del [] h = Some h"
| "delete_each del (q # qs) h = do { h \<leftarrow> del q h; delete_each del qs h }"

definition h_clear_mbulks :: "addr ptr \<Rightarrow> heap \<Rightarrow> heap option" where
  "h_clear_mbulks mbulks h =
     (case mbulks of None \<Rightarrow> Some h
      | Some a \<Rightarrow> do {
          v \<leftarrow> load_mbulk a h;
          h \<leftarrow> delete_each delete_string v h;
          Some (put_cell a (MbulkCell []) h)
        })"

definition h_delete_mbulks :: "addr ptr \<Rightarrow> heap \<Rightarrow> heap option" where
  "h_delete_mbulks mbulks h =
     (case mbulks of None \<Rightarrow> Some h
      | Some a \<Rightarrow> do { h \<leftarrow> h_clear_mbulks mbulks h; Some (free_cell a h) })"

text \<open>\<open>del\<close> is \<open>delete\<close> of one output, which runs its destructor.\<close>

definition h_clear_smbulks :: "(addr ptr \<Rightarrow> heap \<Rightarrow> heap option) \<Rightarrow> addr ptr \<Rightarrow> heap \<Rightarrow> heap option" where
  "h_clear_smbulks del smbulks h =
     (case smbulks of None \<Rightarrow> Some h
      | Some a \<Rightarrow> do {
          v \<leftarrow> load_smbulk a h;
          h \<leftarrow> delete_each del v h;
          Some (put_cell a (SmbulkCell []) h)
        })"

definition h_delete_smbulks :: "(addr ptr \<Rightarrow> heap \<Rightarrow> heap option) \<Rightarrow> addr ptr \<Rightarrow> heap \<Rightarrow> heap option" where
  "h_delete_smbulks del smbulks h =
     (case smbulks of None \<Rightarrow> Some h
      | Some a \<Rightarrow> do { h \<leftarrow> h_clear_smbulks del smbulks h; Some (free_cell a h) })"

text \<open>The \<open>switch\<close> of \<open>RedisOutput::clear\<close> for a pointer that is not null.\<close>

definition clear_switch :: "(addr ptr \<Rightarrow> heap \<Rightarrow> heap option) \<Rightarrow> kReplyType \<Rightarrow> addr \<Rightarrow> heap \<Rightarrow> heap option" where
  "clear_switch del_smbulks t m h =
     (case t of
        kStatus \<Rightarrow> delete_string (Some m) h
      | kError \<Rightarrow> delete_string (Some m) h
      | kInteger \<Rightarrow> delete_int m h
      | kBulk \<Rightarrow> delete_string (Some m) h
      | kMultiBulk \<Rightarrow> h_delete_mbulks (Some m) h
      | kSpecialMultiBulk \<Rightarrow> del_smbulks (Some m) h
      | _ \<Rightarrow> Some h)"

definition clear_with :: "(addr ptr \<Rightarrow> heap \<Rightarrow> heap option) \<Rightarrow> addr \<Rightarrow> heap \<Rightarrow> heap option" where
  "clear_with del_smbulks a h = do {
     (t, q) \<leftarrow> load_output a h;
     case q of None \<Rightarrow> Some h
     | Some m \<Rightarrow> do {
         h \<leftarrow> clear_switch del_smbulks t m h;
         Some (put_cell a (OutputCell t None) h)
       }
   }"

text \<open>\<open>delete output\<close>: the destructor, which calls \<open>clear\<close>, then the object itself.\<close>

definition delete_object :: "(addr \<Rightarrow> heap \<Rightarrow> heap option) \<Rightarrow> addr ptr \<Rightarrow> heap \<Rightarrow> heap option" where
  "delete_object destructor q h =
     (case q of None \<Rightarrow> Some h | Some a \<Rightarrow> do { h \<leftarrow> destructor a h; Some (free_cell a h) })"

text \<open>\<open>clear\<close> and the functions it calls recurse over nested outputs; \<open>n\<close> bounds the nesting (a
  vector that contains itself would be followed for ever).\<close>

primrec h_clear :: "nat \<Rightarrow> addr \<Rightarrow> heap \<Rightarrow> heap option" where
  "h_clear 0 = clear_with (\<lambda>q h. None)"
| "h_clear (Suc n) = clear_with (h_delete_smbulks (delete_object (h_clear n)))"

definition h_delete_output :: "nat \<Rightarrow> addr ptr \<Rightarrow> heap \<Rightarrow> heap option" where
  "h_delete_output n = delete_object (h_clear n)"

text \<open>\<open>delete command\<close>: the member \<open>out\<close> is destroyed with the command.\<close>

definition h_delete_command :: "nat \<Rightarrow> addr ptr \<Rightarrow> heap \<Rightarrow> heap option" where
  "h_delete_command n q h =
     (case q of None \<Rightarrow> Some h
      | Some a \<Rightarrow> do {
          (i, b) \<leftarrow> load_command a h;
          h \<leftarrow> h_delete_output n (Some b) h;
          Some (free_cell a h)
        })"

definition h_clear_commands :: "nat \<Rightarrow> addr ptr \<Rightarrow> heap \<Rightarrow> heap option" where
  "h_clear_commands n commands h =
     (case commands of None \<Rightarrow> Some h
      | Some a \<Rightarrow> do {
          v \<leftarrow> load_commands a h;
          h \<leftarrow> delete_each (h_delete_command n) v h;
          Some (put_cell a (CommandsCell []) h)
        })"

definition h_delete_commands :: "nat \<Rightarrow> addr ptr \<Rightarrow> heap \<Rightarrow> heap option" where
  "h_delete_commands n commands h =
     (case commands of None \<Rightarrow> Some h
      | Some a \<Rightarrow> do { h \<leftarrow> h_clear_commands n commands h; Some (free_cell a h) })"

text \<open>The destructors of \<open>ClearGuard\<close> and \<open>DeleteGuard\<close>, over the overloaded \<open>clear\<close> and \<open>_delete\<close>.\<close>

definition ClearGuard_destroy :: "(addr ptr \<Rightarrow> heap \<Rightarrow> heap option) \<Rightarrow> addr ptr \<Rightarrow> heap \<Rightarrow> heap option" where
  "ClearGuard_destroy clear t h = (if t \<noteq> None then clear t h else Some h)"

definition DeleteGuard_destroy :: "(addr ptr \<Rightarrow> heap \<Rightarrow> heap option) \<Rightarrow> addr ptr \<Rightarrow> heap \<Rightarrow> heap option" where
  "DeleteGuard_destroy del t h = (if t \<noteq> None then del t h else Some h)"

section \<open>Setters\<close>

text \<open>The assignments to \<open>reply_type\<close> and to \<open>ptr\<close>.\<close>

definition assign_type :: "kReplyType \<Rightarrow> addr \<Rightarrow> heap \<Rightarrow> heap option" where
  "assign_type t a h = do { (t', q) \<leftarrow> load_output a h; Some (put_cell a (OutputCell t q) h) }"

definition assign_ptr :: "addr ptr \<Rightarrow> addr \<Rightarrow> heap \<Rightarrow> heap option" where
  "assign_ptr q a h = do { (t, q') \<leftarrow> load_output a h; Some (put_cell a (OutputCell t q) h) }"

definition h_new_output :: "heap \<Rightarrow> addr \<times> heap" where
  "h_new_output = new_cell (OutputCell kNone None)"

text \<open>\<open>clear(); ptr.status = new std::string(s); reply_type = t;\<close>\<close>

definition h_set_cell :: "nat \<Rightarrow> kReplyType \<Rightarrow> cell \<Rightarrow> addr \<Rightarrow> heap \<Rightarrow> heap option" where
  "h_set_cell n t c a h = do {
     h \<leftarrow> h_clear n a h;
     let (m, h) = new_cell c h;
     h \<leftarrow> assign_ptr (Some m) a h;
     assign_type t a h
   }"

definition h_set_status :: "nat \<Rightarrow> string \<Rightarrow> addr \<Rightarrow> heap \<Rightarrow> heap option" where
  "h_set_status n s = h_set_cell n kStatus (StringCell s)"

definition h_set_error :: "nat \<Rightarrow> string \<Rightarrow> addr \<Rightarrow> heap \<Rightarrow> heap option" where
  "h_set_error n e = h_set_cell n kError (StringCell e)"

definition h_set_i :: "nat \<Rightarrow> int \<Rightarrow> addr \<Rightarrow> heap \<Rightarrow> heap option" where
  "h_set_i n i = h_set_cell n kInteger (IntCell i)"

definition h_set_bulk :: "nat \<Rightarrow> string \<Rightarrow> addr \<Rightarrow> heap \<Rightarrow> heap option" where
  "h_set_bulk n b = h_set_cell n kBulk (StringCell b)"

definition h_set_nil_bulk :: "nat \<Rightarrow> addr \<Rightarrow> heap \<Rightarrow> heap option" where
  "h_set_nil_bulk n a h = do { h \<leftarrow> h_clear n a h; assign_type kBulk a h }"

definition h_set_nil_mbulks :: "nat \<Rightarrow> addr \<Rightarrow> heap \<Rightarrow> heap option" where
  "h_set_nil_mbulks n a h = do { h \<leftarrow> h_clear n a h; assign_type kMultiBulk a h }"

definition h_set_nil_smbulks :: "nat \<Rightarrow> addr \<Rightarrow> heap \<Rightarrow> heap option" where
  "h_set_nil_smbulks n a h = do { h \<leftarrow> h_clear n a h; assign_type kSpecialMultiBulk a h }"

text \<open>\<open>swap\<close> of two vectors or two strings exchanges their contents.\<close>

definition swap_mbulk :: "addr \<Rightarrow> addr \<Rightarrow> heap \<Rightarrow> heap option" where
  "swap_mbulk a b h = do {
     u \<leftarrow> load_mbulk a h;
     v \<leftarrow> load_mbulk b h;
     Some (put_cell b (MbulkCell u) (put_cell a (MbulkCell v) h))
   }"

definition swap_smbulk :: "addr \<Rightarrow> addr \<Rightarrow> heap \<Rightarrow> heap option" where
  "swap_smbulk a b h = do {
     u \<leftarrow> load_smbulk a h;
     v \<leftarrow> load_smbulk b h;
     Some (put_cell b (SmbulkCell u) (put_cell a (SmbulkCell v) h))
   }"

definition swap_string :: "addr \<Rightarrow> addr \<Rightarrow> heap \<Rightarrow> heap option" where
  "swap_string a b h = do {
     s \<leftarrow> load_string a h;
     t \<leftarrow> load_string b h;
     Some (put_cell b (StringCell s) (put_cell a (StringCell t) h))
   }"

definition h_set_mbulks :: "nat \<Rightarrow> addr ptr \<Rightarrow> addr \<Rightarrow> heap \<Rightarrow> heap option" where
  "h_set_mbulks n mb a h = do {
     h \<leftarrow> h_clear n a h;
     h \<leftarrow> assign_type kMultiBulk a h;
     case mb of None \<Rightarrow> Some h
     | Some b \<Rightarrow> do {
         let (m, h) = new_cell (MbulkCell []) h;
         h \<leftarrow> assign_ptr (Some m) a h;
         swap_mbulk m b h
       }
   }"

definition h_set_smbulks :: "nat \<Rightarrow> addr ptr \<Rightarrow> addr \<Rightarrow> heap \<Rightarrow> heap option" where
  "h_set_smbulks n smb a h = do {
     h \<leftarrow> h_clear n a h;
     h \<leftarrow> assign_type kSpecialMultiBulk a h;
     case smb of None \<Rightarrow> Some h
     | Some b \<Rightarrow> do {
         let (m, h) = new_cell (SmbulkCell []) h;
         h \<leftarrow> assign_ptr (Some m) a h;
         swap_smbulk m b h
       }
   }"

section \<open>Getters\<close>

text \<open>The copying getters: \<open>if (reply_type==t && ptr.x) { *p = *ptr.x; return true; } return false;\<close>\<close>

definition h_get_copy :: "kReplyType \<Rightarrow> (addr \<Rightarrow> heap \<Rightarrow> 'x option) \<Rightarrow> ('x \<Rightarrow> cell) \<Rightarrow> addr ptr \<Rightarrow> addr
    \<Rightarrow> heap \<Rightarrow> (bool \<times> heap) option" where
  "h_get_copy t load mk p a h =
     (case p of None \<Rightarrow> Some (False, h)
      | Some b \<Rightarrow> do {
          (t', q) \<leftarrow> load_output a h;
          case q of
            Some m \<Rightarrow>
              if t' = t
              then do { x \<leftarrow> load m h; load b h; Some (True, put_cell b (mk x) h) }
              else Some (False, h)
          | None \<Rightarrow> Some (False, h)
        })"

definition h_get_status :: "addr ptr \<Rightarrow> addr \<Rightarrow> heap \<Rightarrow> (bool \<times> heap) option" where
  "h_get_status = h_get_copy kStatus load_string StringCell"

definition h_get_error :: "addr ptr \<Rightarrow> addr \<Rightarrow> heap \<Rightarrow> (bool \<times> heap) option" where
  "h_get_error = h_get_copy kError load_string StringCell"

definition h_get_i :: "addr ptr \<Rightarrow> addr \<Rightarrow> heap \<Rightarrow> (bool \<times> heap) option" where
  "h_get_i = h_get_copy kInteger load_int IntCell"

text \<open>Swapping getters.\<close>

definition h_get_bulk :: "addr ptr \<Rightarrow> addr \<Rightarrow> heap \<Rightarrow> (bool \<times> heap) option" where
  "h_get_bulk p a h =
     (case p of None \<Rightarrow> Some (False, h)
      | Some b \<Rightarrow> do {
          (t, q) \<leftarrow> load_output a h;
          case q of
            Some m \<Rightarrow>
              if t = kBulk then do { h \<leftarrow> swap_string b m h; Some (True, h) }
              else Some (False, h)
          | None \<Rightarrow> Some (False, h)
        })"

definition h_get_mbulks :: "addr ptr \<Rightarrow> addr \<Rightarrow> heap \<Rightarrow> (bool \<times> heap) option" where
  "h_get_mbulks p a h =
     (case p of None \<Rightarrow> Some (False, h)
      | Some b \<Rightarrow> do {
          h \<leftarrow> h_clear_mbulks (Some b) h;
          (t, q) \<leftarrow> load_output a h;
          case q of
            Some m \<Rightarrow>
              if t = kMultiBulk then do { h \<leftarrow> swap_mbulk b m h; Some (True, h) }
              else Some (False, h)
          | None \<Rightarrow> Some (False, h)
        })"

definition h_get_smbulks :: "nat \<Rightarrow> addr ptr \<Rightarrow> addr \<Rightarrow> heap \<Rightarrow> (bool \<times> heap) option" where
  "h_get_smbulks n p a h =
     (case p of None \<Rightarrow> Some (False, h)
      | Some b \<Rightarrow> do {
          h \<leftarrow> h_clear_smbulks (h_delete_output n) (Some b) h;
          (t, q) \<leftarrow> load_output a h;
          case q of
            Some m \<Rightarrow>
              if t = kSpecialMultiBulk then do { h \<leftarrow> swap_smbulk b m h; Some (True, h) }
              else Some (False, h)
          | None \<Rightarrow> Some (False, h)
        })"

section \<open>Vectors\<close>

text \<open>Inserting the elements of a vector into the same vector is undefined.\<close>

definition h_append_mbulks :: "addr ptr \<Rightarrow> addr ptr \<Rightarrow> heap \<Rightarrow> heap option" where
  "h_append_mbulks to from h =
     (case (to, from) of
        (Some a, Some b) \<Rightarrow> do {
          assertion (a \<noteq> b);
          u \<leftarrow> load_mbulk a h;
          v \<leftarrow> load_mbulk b h;
          Some (put_cell b (MbulkCell []) (put_cell a (MbulkCell (u @ v)) h))
        }
      | _ \<Rightarrow> Some h)"

definition h_append_smbulks :: "addr ptr \<Rightarrow> addr ptr \<Rightarrow> heap \<Rightarrow> heap option" where
  "h_append_smbulks to from h =
     (case (to, from) of
        (Some a, Some b) \<Rightarrow> do {
          assertion (a \<noteq> b);
          u \<leftarrow> load_smbulk a h;
          v \<leftarrow> load_smbulk b h;
          Some (put_cell b (SmbulkCell []) (put_cell a (SmbulkCell (u @ v)) h))
        }
      | _ \<Rightarrow> Some h)"

text \<open>The loop of \<open>convert(mbulk_t *, string_vector_t *)\<close>: the content of every string moves into a
  new element at the end of \<open>to\<close>.\<close>

fun take_strings :: "addr ptr list \<Rightarrow> string list \<Rightarrow> heap \<Rightarrow> (string list \<times> heap) option" where
  "take_strings [] to h = Some (to, h)"
| "take_strings (q # qs) to h =
     (case q of None \<Rightarrow> take_strings qs to h
      | Some a \<Rightarrow> do {
          s \<leftarrow> load_string a h;
          take_strings qs (to @ [s]) (put_cell a (StringCell []) h)
        })"

definition h_convert_mbulks :: "addr ptr \<Rightarrow> string list ptr \<Rightarrow> heap \<Rightarrow> (string list ptr \<times> heap) option" where
  "h_convert_mbulks from to h =
     (case (from, to) of
        (Some a, Some v) \<Rightarrow> do {
          qs \<leftarrow> load_mbulk a h;
          (strs, h) \<leftarrow> take_strings qs [] h;
          h \<leftarrow> h_clear_mbulks (Some a) h;
          Some (Some strs, h)
        }
      | _ \<Rightarrow> Some (to, h))"

definition h_get_mbulks_strings :: "string list ptr \<Rightarrow> addr \<Rightarrow> heap \<Rightarrow> (bool \<times> string list ptr \<times> heap) option" where
  "h_get_mbulks_strings p a h =
     (case p of None \<Rightarrow> Some (False, p, h)
      | Some v \<Rightarrow> do {
          (t, q) \<leftarrow> load_output a h;
          if t = kMultiBulk \<and> q \<noteq> None
          then do { (p, h) \<leftarrow> h_convert_mbulks q p h; Some (True, p, h) }
          else Some (False, p, h)
        })"

fun h_convertible_2_mbulks :: "addr ptr list \<Rightarrow> heap \<Rightarrow> bool option" where
  "h_convertible_2_mbulks [] h = Some True"
| "h_convertible_2_mbulks (q # qs) h = do {
     a \<leftarrow> q;
     (t, m) \<leftarrow> load_output a h;
     if t \<noteq> kBulk then Some False else h_convertible_2_mbulks qs h
   }"

text \<open>The loop of \<open>convert(smbulk_t *, mbulk_t *)\<close>: the pointers move into \<open>to\<close>.\<close>

fun take_bulks :: "addr ptr list \<Rightarrow> addr ptr list \<Rightarrow> heap \<Rightarrow> (addr ptr list \<times> heap) option" where
  "take_bulks [] to h = Some (to, h)"
| "take_bulks (q # qs) to h = do {
     a \<leftarrow> q;
     (t, m) \<leftarrow> load_output a h;
     case m of
       Some b \<Rightarrow> do { h \<leftarrow> assign_ptr None a h; take_bulks qs (to @ [Some b]) h }
     | None \<Rightarrow> take_bulks qs (to @ [None]) h
   }"

definition h_convert_smbulks :: "nat \<Rightarrow> addr ptr \<Rightarrow> addr ptr \<Rightarrow> heap \<Rightarrow> (bool \<times> heap) option" where
  "h_convert_smbulks n from to h =
     (case (from, to) of
        (Some a, Some b) \<Rightarrow> do {
          qs \<leftarrow> load_smbulk a h;
          ok \<leftarrow> h_convertible_2_mbulks qs h;
          if \<not> ok then Some (False, h)
          else do {
            h \<leftarrow> h_clear_mbulks (Some b) h;
            (v, h) \<leftarrow> take_bulks qs [] h;
            load_mbulk b h;
            h \<leftarrow> h_clear_smbulks (h_delete_output n) (Some a) (put_cell b (MbulkCell v) h);
            Some (True, h)
          }
        }
      | _ \<Rightarrow> Some (False, h))"

text \<open>\<open>RedisOutput::swap\<close> exchanges the unions and the tags, \<open>RedisCommand::swap\<close> the inputs and the outputs.\<close>

definition h_swap_output :: "addr \<Rightarrow> addr \<Rightarrow> heap \<Rightarrow> heap option" where
  "h_swap_output a b h = do {
     (t, q) \<leftarrow> load_output a h;
     (u, r) \<leftarrow> load_output b h;
     Some (put_cell b (OutputCell t q) (put_cell a (OutputCell u r) h))
   }"

definition h_swap_command :: "addr \<Rightarrow> addr \<Rightarrow> heap \<Rightarrow> heap option" where
  "h_swap_command a b h = do {
     (i, x) \<leftarrow> load_command a h;
     (j, y) \<leftarrow> load_command b h;
     h_swap_output x y (put_cell b (CommandCell i y) (put_cell a (CommandCell j x) h))
   }"

end
