(* ===== verification/Output_Ownership.thy ===== *)
theory Output_Ownership
  imports Output_Heap
begin

text \<open>
  Who owns which cell.  A representation predicate relates an object of the store to the value
  of \<open>Redis_Cmd\<close> it holds and to its footprint, the set of all cells that go with it.
  \<open>release S h\<close> is the store without the cells of \<open>S\<close>; deleting an object releases exactly its
  footprint: nothing twice, nothing left behind, nothing else.
\<close>

section \<open>Footprints\<close>

definition release :: "addr set \<Rightarrow> heap \<Rightarrow> heap" where
  "release S h = h\<lparr>cells := cells h |` (- S)\<rparr>"

definition heap_ok :: "heap \<Rightarrow> bool" where
  "heap_ok h \<longleftrightarrow> dom (cells h) \<subseteq> {..<brk h}"

lemma restrict_map_UNIV: "m |` UNIV = m"
  by (simp add: restrict_map_def)

lemma release_simps [simp]:
  "release {} h = h" "release A (release B h) = release (B \<union> A) h" "brk (release S h) = brk h"
  "cells (release S h) = cells h |` (- S)"
  by (simp_all add: release_def restrict_map_UNIV Int_commute Un_commute)

lemma cell_simps [simp]:
  "cells (put_cell a c h) = (cells h)(a \<mapsto> c)" "brk (put_cell a c h) = brk h"
  "cells (snd (new_cell c h)) = (cells h)(brk h \<mapsto> c)" "brk (snd (new_cell c h)) = Suc (brk h)"
  "fst (new_cell c h) = brk h"
  by (simp_all add: put_cell_def new_cell_def)

lemma free_cell_release: "free_cell a h = release {a} h"
  by (simp add: free_cell_def release_def) (auto simp: restrict_map_def fun_eq_iff)

lemma free_put_cell: "free_cell a (put_cell a c h) = release {a} h"
  by (simp add: free_cell_def put_cell_def release_def) (auto simp: restrict_map_def fun_eq_iff)

fun rep_list :: "(addr ptr \<Rightarrow> 'v \<Rightarrow> addr set \<Rightarrow> bool) \<Rightarrow> addr ptr list \<Rightarrow> 'v list \<Rightarrow> addr set \<Rightarrow> bool" where
  "rep_list P [] [] S = (S = {})"
| "rep_list P (q # qs) (v # vs) S = (\<exists>A B. P q v A \<and> rep_list P qs vs B \<and> A \<inter> B = {} \<and> S = A \<union> B)"
| "rep_list P qs vs S = False"

lemma rep_list_ConsI:
  "\<lbrakk>P q v A; rep_list P qs vs B; A \<inter> B = {}\<rbrakk> \<Longrightarrow> rep_list P (q # qs) (v # vs) (A \<union> B)"
  by auto

lemma rep_list_mono:
  "\<lbrakk>rep_list P qs vs S; \<And>q v A. \<lbrakk>v \<in> set vs; A \<subseteq> S; P q v A\<rbrakk> \<Longrightarrow> Q q v A\<rbrakk> \<Longrightarrow> rep_list Q qs vs S"
proof (induction qs arbitrary: vs S)
  case Nil
  then show ?case by (cases vs) simp_all
next
  case (Cons q qs)
  then obtain v ws A B where *: "vs = v # ws" "P q v A" "rep_list P qs ws B" "A \<inter> B = {}" "S = A \<union> B"
    by (cases vs) auto
  then have "rep_list Q qs ws B" by (auto intro!: Cons.IH Cons.prems(2))
  moreover from * have "Q q v A" by (auto intro!: Cons.prems(2))
  ultimately show ?case using * by auto
qed

lemma rep_list_cong [fundef_cong]:
  "\<lbrakk>qs = qs'; vs = vs'; S = S'; \<And>q v A. v \<in> set vs' \<Longrightarrow> P q v A = Q q v A\<rbrakk>
    \<Longrightarrow> rep_list P qs vs S = rep_list Q qs' vs' S'"
  using rep_list_mono [of P qs' vs' S' Q] rep_list_mono [of Q qs' vs' S' P] by blast

lemma rep_list_Cons2:
  "rep_list P qs (v # vs) S =
     (\<exists>q qs' A B. qs = q # qs' \<and> P q v A \<and> rep_list P qs' vs B \<and> A \<inter> B = {} \<and> S = A \<union> B)"
  by (cases qs) auto

lemma rep_list_Nil2 [simp]: "rep_list P qs [] S = (qs = [] \<and> S = {})"
  by (cases qs) auto

lemma rep_list_append:
  "\<lbrakk>rep_list P qs vs A; rep_list P rs ws B; A \<inter> B = {}\<rbrakk> \<Longrightarrow> rep_list P (qs @ rs) (vs @ ws) (A \<union> B)"
proof (induction P qs vs A rule: rep_list.induct)
  case (2 P q qs v vs S)
  then obtain C D where *: "P q v C" "rep_list P qs vs D" "C \<inter> D = {}" "S = C \<union> D" by auto
  with 2 have "rep_list P (qs @ rs) (vs @ ws) (D \<union> B)" by blast
  moreover have "C \<inter> (D \<union> B) = {}" "S \<union> B = C \<union> (D \<union> B)" using * 2(4) by auto
  ultimately show ?case using *(1) unfolding append_Cons rep_list.simps by blast
qed simp_all

section \<open>Objects that are owned\<close>

locale owned =
  fixes rep :: "(addr \<rightharpoonup> cell) \<Rightarrow> addr ptr \<Rightarrow> 'v \<Rightarrow> addr set \<Rightarrow> bool"
    and destroy :: "addr ptr \<Rightarrow> heap \<Rightarrow> heap option"
  assumes frame: "rep c q v S \<Longrightarrow> (\<And>x. x \<in> S \<Longrightarrow> c' x = c x) \<Longrightarrow> rep c' q v S"
    and inside: "rep c q v S \<Longrightarrow> S \<subseteq> dom c"
    and destroy: "rep (cells h) q v S \<Longrightarrow> destroy q h = Some (release S h)"
begin

lemma list_frame: "rep_list (rep c) qs vs S \<Longrightarrow> (\<And>x. x \<in> S \<Longrightarrow> c' x = c x) \<Longrightarrow> rep_list (rep c') qs vs S"
  by (erule rep_list_mono) (blast intro: frame)

lemma list_inside: "rep_list (rep c) qs vs S \<Longrightarrow> S \<subseteq> dom c"
proof (induction qs arbitrary: vs S)
  case Nil
  then show ?case by (cases vs) simp_all
next
  case (Cons q qs)
  then obtain v ws A B where "rep c q v A" "rep_list (rep c) qs ws B" "S = A \<union> B"
    by (cases vs) auto
  with Cons.IH inside show ?case by blast
qed

lemma delete_each: "rep_list (rep (cells h)) qs vs S \<Longrightarrow> delete_each destroy qs h = Some (release S h)"
proof (induction qs arbitrary: vs S h)
  case Nil
  then show ?case by (cases vs) simp_all
next
  case (Cons q qs)
  then obtain v ws A B where *: "rep (cells h) q v A" "rep_list (rep (cells h)) qs ws B"
      "A \<inter> B = {}" "S = A \<union> B"
    by (cases vs) auto
  have "rep_list (rep (cells (release A h))) qs ws B"
    by (rule list_frame [OF *(2)]) (use *(3) in \<open>auto simp: restrict_map_def\<close>)
  with Cons.IH * show ?case by (simp add: destroy)
qed

end

section \<open>Vectors of owned objects\<close>

text \<open>A vector whose cell is built by \<open>mk\<close> owns its elements.\<close>

definition rep_vector ::
  "(addr ptr list \<Rightarrow> cell) \<Rightarrow> ((addr \<rightharpoonup> cell) \<Rightarrow> addr ptr \<Rightarrow> 'v \<Rightarrow> addr set \<Rightarrow> bool)
    \<Rightarrow> (addr \<rightharpoonup> cell) \<Rightarrow> addr \<Rightarrow> 'v list \<Rightarrow> addr set \<Rightarrow> bool" where
  "rep_vector mk rep c a vs S \<longleftrightarrow>
     (\<exists>qs T. c a = Some (mk qs) \<and> rep_list (rep c) qs vs T \<and> a \<notin> T \<and> S = insert a T)"

lemma rep_vector_empty [simp]: "c a = Some (mk []) \<Longrightarrow> rep_vector mk rep c a [] {a}"
  by (simp add: rep_vector_def)

locale owned_vector = owned rep destroy
  for rep :: "(addr \<rightharpoonup> cell) \<Rightarrow> addr ptr \<Rightarrow> 'v \<Rightarrow> addr set \<Rightarrow> bool" and destroy +
  fixes mk :: "addr ptr list \<Rightarrow> cell"
    and clear :: "addr ptr \<Rightarrow> heap \<Rightarrow> heap option"
  assumes mk_eq: "mk u = mk v \<longleftrightarrow> u = v"
    and clear: "cells h a = Some (mk qs) \<Longrightarrow>
    clear (Some a) h = do { h \<leftarrow> delete_each destroy qs h; Some (put_cell a (mk []) h) }"
begin

lemma vector_frame:
  assumes "rep_vector mk rep c a vs S" "\<And>x. x \<in> S \<Longrightarrow> c' x = c x"
  shows "rep_vector mk rep c' a vs S"
proof -
  from assms(1) obtain qs T where *: "c a = Some (mk qs)" "rep_list (rep c) qs vs T" "a \<notin> T" "S = insert a T"
    by (auto simp: rep_vector_def)
  have "rep_list (rep c') qs vs T" by (rule list_frame [OF *(2)]) (use assms(2) *(4) in auto)
  with * assms(2) show ?thesis by (auto simp: rep_vector_def)
qed

lemma vector_inside: "rep_vector mk rep c a vs S \<Longrightarrow> S \<subseteq> dom c"
  by (auto simp: rep_vector_def dest: list_inside)

lemma vector_clear:
  "rep_vector mk rep (cells h) a vs S \<Longrightarrow> clear (Some a) h = Some (put_cell a (mk []) (release (S - {a}) h))"
  by (auto simp: rep_vector_def clear delete_each)

lemma vector_delete:
  "rep_vector mk rep (cells h) a vs S
    \<Longrightarrow> do { h \<leftarrow> clear (Some a) h; Some (free_cell a h) } = Some (release S h)"
  by (frule vector_clear) (auto simp: free_put_cell rep_vector_def insert_absorb)

text \<open>The elements of a vector can be hung on another vector cell.\<close>

lemma vector_cell:
  "rep_vector mk rep c a vs S \<Longrightarrow> c a = Some (mk qs) \<Longrightarrow> a \<in> S \<and> rep_list (rep c) qs vs (S - {a})"
  by (auto simp: rep_vector_def mk_eq)

lemma vector_moved:
  assumes "rep_vector mk rep c b vs M" "c b = Some (mk qs)" "c' m = Some (mk qs)" "m \<notin> M - {b}"
    and "\<And>x. x \<in> M - {b} \<Longrightarrow> c' x = c x"
  shows "rep_vector mk rep c' m vs (insert m (M - {b}))"
proof -
  have "rep_list (rep c') qs vs (M - {b})"
    by (rule list_frame [OF conjunct2 [OF vector_cell [OF assms(1,2)]] assms(5)])
  with assms(3,4) show ?thesis unfolding rep_vector_def by blast
qed

lemma vector_appended:
  assumes "rep_vector mk rep c a us A" "rep_vector mk rep c b vs B" "A \<inter> B = {}"
    and "c a = Some (mk ps)" "c b = Some (mk qs)"
  shows "rep_vector mk rep (c(a \<mapsto> mk (ps @ qs), b \<mapsto> mk [])) a (us @ vs) (A \<union> (B - {b}))"
proof -
  let ?c = "c(a \<mapsto> mk (ps @ qs), b \<mapsto> mk [])"
  note A = vector_cell [OF assms(1,4)] and B = vector_cell [OF assms(2,5)]
  have "rep_list (rep ?c) ps us (A - {a})"
    by (rule list_frame [OF conjunct2 [OF A]]) (use B assms(3) in auto)
  moreover have "rep_list (rep ?c) qs vs (B - {b})"
    by (rule list_frame [OF conjunct2 [OF B]]) (use A assms(3) in auto)
  ultimately have "rep_list (rep ?c) (ps @ qs) (us @ vs) ((A - {a}) \<union> (B - {b}))"
    by (rule rep_list_append) (use assms(3) in auto)
  moreover have "a \<noteq> b" "A \<union> (B - {b}) = insert a ((A - {a}) \<union> (B - {b}))"
      "a \<notin> (A - {a}) \<union> (B - {b})"
    using A B assms(3) by auto
  ultimately show ?thesis unfolding rep_vector_def by (metis fun_upd_apply)
qed

end

section \<open>Strings and vectors of strings\<close>

definition rep_string :: "(addr \<rightharpoonup> cell) \<Rightarrow> addr ptr \<Rightarrow> string option \<Rightarrow> addr set \<Rightarrow> bool" where
  "rep_string c q v S =
     (case v of None \<Rightarrow> q = None \<and> S = {}
      | Some s \<Rightarrow> \<exists>a. q = Some a \<and> c a = Some (StringCell s) \<and> S = {a})"

interpretation strings: owned rep_string delete_string
  by unfold_locales
    (auto simp: rep_string_def delete_string_def load_string_def free_cell_release split: option.splits)

abbreviation rep_mbulk :: "(addr \<rightharpoonup> cell) \<Rightarrow> addr \<Rightarrow> mbulk \<Rightarrow> addr set \<Rightarrow> bool" where
  "rep_mbulk \<equiv> rep_vector MbulkCell rep_string"

interpretation mbulks: owned_vector rep_string delete_string MbulkCell h_clear_mbulks
  by unfold_locales (simp_all add: h_clear_mbulks_def load_mbulk_def)

lemma delete_mbulks_releases:
  "rep_mbulk (cells h) a mb S \<Longrightarrow> h_delete_mbulks (Some a) h = Some (release S h)"
  using mbulks.vector_delete by (simp add: h_delete_mbulks_def)

section \<open>Outputs\<close>

fun rep_output :: "(addr \<rightharpoonup> cell) \<Rightarrow> addr \<Rightarrow> RedisOutput \<Rightarrow> addr set \<Rightarrow> bool"
  and rep_ptr :: "(addr \<rightharpoonup> cell) \<Rightarrow> addr ptr \<Rightarrow> output_ptr \<Rightarrow> addr set \<Rightarrow> bool" where
  "rep_output c a (RedisOutput t p) S \<longleftrightarrow>
     (\<exists>q T. c a = Some (OutputCell t q) \<and> rep_ptr c q p T \<and> a \<notin> T \<and> S = insert a T)"
| "rep_ptr c q NullPtr S \<longleftrightarrow> q = None \<and> S = {}"
| "rep_ptr c q (StatusPtr s) S \<longleftrightarrow> rep_string c q (Some s) S"
| "rep_ptr c q (ErrorPtr s) S \<longleftrightarrow> rep_string c q (Some s) S"
| "rep_ptr c q (IntPtr i) S \<longleftrightarrow> (\<exists>m. q = Some m \<and> c m = Some (IntCell i) \<and> S = {m})"
| "rep_ptr c q (BulkPtr s) S \<longleftrightarrow> rep_string c q (Some s) S"
| "rep_ptr c q (MbulksPtr mb) S \<longleftrightarrow> (\<exists>m. q = Some m \<and> rep_mbulk c m mb S)"
| "rep_ptr c q (SmbulksPtr outs) S \<longleftrightarrow>
     (\<exists>m qs T. q = Some m \<and> c m = Some (SmbulkCell qs) \<and> m \<notin> T \<and> S = insert m T
       \<and> rep_list (\<lambda>q out A. \<exists>a. q = Some a \<and> rep_output c a out A) qs outs T)"

text \<open>A bound on the nesting of an output; every output has one.\<close>

fun nested :: "nat \<Rightarrow> RedisOutput \<Rightarrow> bool" where
  "nested n (RedisOutput t (SmbulksPtr outs)) = (case n of 0 \<Rightarrow> False | Suc m \<Rightarrow> list_all (nested m) outs)"
| "nested n (RedisOutput t p) = True"

lemma nested_mono: "nested n out \<Longrightarrow> n \<le> m \<Longrightarrow> nested m out"
proof (induction n arbitrary: m out)
  case 0
  then show ?case by (cases "(0::nat, out)" rule: nested.cases) auto
next
  case (Suc n)
  then obtain k where m: "m = Suc k" "n \<le> k" by (cases m) auto
  have "list_all (nested n) outs \<Longrightarrow> list_all (nested k) outs" for outs
    using Suc.IH m(2) by (auto simp: list_all_iff)
  with Suc.prems(1) m show ?case by (cases "(m, out)" rule: nested.cases) simp_all
qed

lemma nested_exists: "\<exists>n. nested n out"
proof (induction out rule: RedisOutput.induct [where ?P2.0 = "\<lambda>p. \<exists>n. \<forall>t. nested n (RedisOutput t p)"])
  case (SmbulksPtr outs)
  then obtain f where "\<forall>out \<in> set outs. nested (f out) out" by metis
  then have "list_all (nested (Max (f ` set outs))) outs"
    by (auto simp: list_all_iff intro: nested_mono)
  then have "nested (Suc (Max (f ` set outs))) (RedisOutput t (SmbulksPtr outs))" for t by simp
  then show ?case by blast
qed auto

lemma rep_frame:
  shows "rep_output c a out S \<Longrightarrow> (\<And>x. x \<in> S \<Longrightarrow> c' x = c x) \<Longrightarrow> rep_output c' a out S"
    and "rep_ptr c q p S \<Longrightarrow> (\<And>x. x \<in> S \<Longrightarrow> c' x = c x) \<Longrightarrow> rep_ptr c' q p S"
proof (induction c a out S and c q p S rule: rep_output_rep_ptr.induct)
  case (8 c q outs S)
  then obtain m qs T where *: "q = Some m" "c m = Some (SmbulkCell qs)" "m \<notin> T" "S = insert m T"
      "rep_list (\<lambda>q out A. \<exists>a. q = Some a \<and> rep_output c a out A) qs outs T" by auto
  have "rep_list (\<lambda>q out A. \<exists>a. q = Some a \<and> rep_output c' a out A) qs outs T"
  proof (rule rep_list_mono [OF *(5)])
    fix q v A
    assume v: "v \<in> set outs" "A \<subseteq> T" "\<exists>a. q = Some a \<and> rep_output c a v A"
    then have "\<And>x. x \<in> A \<Longrightarrow> c' x = c x" using "8.prems"(2) *(4) by auto
    with "8.IH" [OF v(1)] v(3) show "\<exists>a. q = Some a \<and> rep_output c' a v A" by auto
  qed
  with * 8(3) show ?case by auto
next
  case (1 c a t p S)
  then obtain q T where *: "c a = Some (OutputCell t q)" "rep_ptr c q p T" "a \<notin> T" "S = insert a T"
    by auto
  with "1.IH" "1.prems"(2) have "rep_ptr c' q p T" "c' a = c a" by auto
  with * show ?case by auto
qed (auto intro: mbulks.vector_frame strings.frame)

lemma rep_inside:
  shows "rep_output c a out S \<Longrightarrow> S \<subseteq> dom c"
    and "rep_ptr c q p S \<Longrightarrow> S \<subseteq> dom c"
proof (induction c a out S and c q p S rule: rep_output_rep_ptr.induct)
  case (8 c q outs S)
  then obtain m qs T where *: "q = Some m" "c m = Some (SmbulkCell qs)" "S = insert m T"
      "rep_list (\<lambda>q out A. \<exists>a. q = Some a \<and> rep_output c a out A) qs outs T" by auto
  then have "rep_list (\<lambda>q out A. A \<subseteq> dom c) qs outs T" by (elim rep_list_mono) (use 8 in blast)
  then have "T \<subseteq> dom c"
    by (induction "\<lambda>(q :: addr ptr) (out :: RedisOutput) A. A \<subseteq> dom c" qs outs T rule: rep_list.induct) auto
  with * show ?case by auto
qed (auto dest: mbulks.vector_inside strings.inside)

section \<open>Deleting an output\<close>

text \<open>Outputs as \<open>delete\<close> sees them: well-formed and with a nesting within the bound.\<close>

definition rep_output_ptr :: "nat \<Rightarrow> (addr \<rightharpoonup> cell) \<Rightarrow> addr ptr \<Rightarrow> RedisOutput \<Rightarrow> addr set \<Rightarrow> bool" where
  "rep_output_ptr n c q out S \<longleftrightarrow> (\<exists>a. q = Some a \<and> rep_output c a out S \<and> output_wf out \<and> nested n out)"

abbreviation rep_smbulk :: "nat \<Rightarrow> (addr \<rightharpoonup> cell) \<Rightarrow> addr \<Rightarrow> RedisOutput list \<Rightarrow> addr set \<Rightarrow> bool" where
  "rep_smbulk n \<equiv> rep_vector SmbulkCell (rep_output_ptr n)"

lemma owned_smbulk:
  "owned (rep_output_ptr n) del \<Longrightarrow> owned_vector (rep_output_ptr n) del SmbulkCell (h_clear_smbulks del)"
  by (auto simp: owned_vector_def owned_vector_axioms_def h_clear_smbulks_def load_smbulk_def)

lemma delete_smbulks_releases:
  assumes "owned (rep_output_ptr n) del" "rep_smbulk n (cells h) a outs S"
  shows "h_delete_smbulks del (Some a) h = Some (release S h)"
  using owned_vector.vector_delete [OF owned_smbulk [OF assms(1)] assms(2)]
  by (simp add: h_delete_smbulks_def)

lemma rep_ptr_smbulk:
  assumes "rep_ptr c q (SmbulksPtr outs) S" "list_all output_wf outs" "list_all (nested n) outs"
  obtains m where "q = Some m" "rep_smbulk n c m outs S"
proof -
  obtain m qs T where *: "q = Some m" "c m = Some (SmbulkCell qs)" "m \<notin> T" "S = insert m T"
      "rep_list (\<lambda>q out A. \<exists>a. q = Some a \<and> rep_output c a out A) qs outs T"
    using assms(1) by auto
  have "rep_list (rep_output_ptr n c) qs outs T"
    by (rule rep_list_mono [OF *(5)]) (use assms(2,3) in \<open>auto simp: rep_output_ptr_def list_all_iff\<close>)
  with * that show ?thesis unfolding rep_vector_def by blast
qed

text \<open>\<open>clear\<close> releases all that hangs on the output and leaves the output, with its tag and no pointer.\<close>

lemma clear_with_releases:
  assumes "rep_output (cells h) a (RedisOutput t p) S" "ptr_wf t p"
    and "\<And>m outs. p = SmbulksPtr outs \<Longrightarrow> rep_ptr (cells h) (Some m) p (S - {a})
           \<Longrightarrow> del (Some m) h = Some (release (S - {a}) h)"
  shows "clear_with del a h = Some (put_cell a (OutputCell t None) (release (S - {a}) h))"
proof -
  from assms(1) obtain q T where *: "cells h a = Some (OutputCell t q)" "rep_ptr (cells h) q p T"
      "a \<notin> T" "S = insert a T" by auto
  then have T: "S - {a} = T" by auto
  show ?thesis
  proof (cases p)
    case NullPtr
    with * T show ?thesis
      by (simp add: clear_with_def load_output_def put_cell_def map_upd_triv)
  next
    case (SmbulksPtr outs)
    then obtain m where "q = Some m" using *(2) by auto
    moreover from this SmbulksPtr * T have "del (Some m) h = Some (release T h)"
      using assms(3) [of outs m] by simp
    ultimately show ?thesis using SmbulksPtr *(1) T assms(2)
      by (simp add: clear_with_def clear_switch_def load_output_def)
  qed (use * T assms(2) in \<open>auto simp: clear_with_def clear_switch_def load_output_def rep_string_def
        delete_string_def delete_int_def load_string_def load_int_def free_cell_release delete_mbulks_releases\<close>)
qed

lemma clear_releases:
  assumes "rep_output (cells h) a out S" "output_wf out" "nested n out"
    and "\<And>m. n = Suc m \<Longrightarrow> owned (rep_output_ptr m) (delete_object (h_clear m))"
  shows "h_clear n a h = Some (put_cell a (OutputCell (out_type out) None) (release (S - {a}) h))"
proof -
  obtain t p where out: "out = RedisOutput t p" by (cases out)
  have wf: "ptr_wf t p" using assms(2) out by simp
  show ?thesis
  proof (cases n)
    case 0
    with assms(3) out have "p \<noteq> SmbulksPtr outs" for outs by auto
    with clear_with_releases [OF assms(1) [unfolded out] wf] 0 show ?thesis by (simp add: out)
  next
    case (Suc m)
    have del: "h_delete_smbulks (delete_object (h_clear m)) (Some k) h = Some (release (S - {a}) h)"
      if p: "p = SmbulksPtr outs" and "rep_ptr (cells h) (Some k) p (S - {a})" for k outs
    proof -
      have "list_all (nested m) outs" "list_all output_wf outs" using assms(2,3) Suc p out by auto
      with that obtain k' where "Some k = Some k'" "rep_smbulk m (cells h) k' outs (S - {a})"
        using rep_ptr_smbulk by blast
      then show ?thesis using delete_smbulks_releases [OF assms(4) [OF Suc]] by simp
    qed
    from clear_with_releases [where del = "h_delete_smbulks (delete_object (h_clear m))", OF assms(1) [unfolded out] wf del] Suc show ?thesis by (simp add: out)
  qed
qed

lemma outputs_owned: "owned (rep_output_ptr n) (h_delete_output n)"
proof (induction n rule: less_induct)
  case (less n)
  then have IH: "\<And>m. n = Suc m \<Longrightarrow> owned (rep_output_ptr m) (delete_object (h_clear m))"
    by (simp add: h_delete_output_def)
  show "owned (rep_output_ptr n) (h_delete_output n)"
  proof
    fix h :: heap and q out S
    assume "rep_output_ptr n (cells h) q out S"
    then obtain a where a: "q = Some a" "rep_output (cells h) a out S" "output_wf out" "nested n out"
      by (auto simp: rep_output_ptr_def)
    then have "a \<in> S" by (cases out) auto
    then have "insert a S = S" by auto
    with a clear_releases [OF a(2-4) IH] show "h_delete_output n q h = Some (release S h)"
      by (simp add: h_delete_output_def delete_object_def free_put_cell)
  qed (auto simp: rep_output_ptr_def dest: rep_inside intro: rep_frame)
qed

interpretation outputs: owned "rep_output_ptr n" "h_delete_output n" for n
  by (rule outputs_owned)

interpretation smbulks: owned_vector "rep_output_ptr n" "h_delete_output n" SmbulkCell
    "h_clear_smbulks (h_delete_output n)" for n
  by (rule owned_smbulk [OF outputs_owned])

lemma rep_smbulk_ptr: "rep_smbulk n c m outs S \<Longrightarrow> rep_ptr c (Some m) (SmbulksPtr outs) S"
proof -
  assume "rep_smbulk n c m outs S"
  then obtain qs T where *: "c m = Some (SmbulkCell qs)" "rep_list (rep_output_ptr n c) qs outs T"
      "m \<notin> T" "S = insert m T"
    by (auto simp: rep_vector_def)
  have "rep_list (\<lambda>q out A. \<exists>a. q = Some a \<and> rep_output c a out A) qs outs T"
    by (rule rep_list_mono [OF *(2)]) (auto simp: rep_output_ptr_def)
  with * show ?thesis by auto
qed

lemma h_clear_releases:
  "\<lbrakk>rep_output (cells h) a out S; output_wf out; nested n out\<rbrakk>
    \<Longrightarrow> h_clear n a h = Some (put_cell a (OutputCell (out_type out) None) (release (S - {a}) h))"
  by (rule clear_releases) (simp_all flip: h_delete_output_def add: outputs_owned)

lemma rep_output_self: "rep_output c a out S \<Longrightarrow> a \<in> S"
  by (cases out) auto

section \<open>Commands\<close>

definition rep_command :: "nat \<Rightarrow> (addr \<rightharpoonup> cell) \<Rightarrow> addr ptr \<Rightarrow> RedisCommand \<Rightarrow> addr set \<Rightarrow> bool" where
  "rep_command n c q v S \<longleftrightarrow>
     (\<exists>a b T. q = Some a \<and> c a = Some (CommandCell (cmd_in v) b) \<and> rep_output_ptr n c (Some b) (cmd_out v) T
        \<and> a \<notin> T \<and> S = insert a T)"

interpretation commands: owned "rep_command n" "h_delete_command n" for n
proof
  fix c c' q v S
  assume "rep_command n c q v S" and eq: "\<And>x. x \<in> S \<Longrightarrow> c' x = c x"
  then obtain a b T where *: "q = Some a" "c a = Some (CommandCell (cmd_in v) b)"
      "rep_output_ptr n c (Some b) (cmd_out v) T" "a \<notin> T" "S = insert a T"
    by (auto simp: rep_command_def)
  have "rep_output_ptr n c' (Some b) (cmd_out v) T" by (rule outputs.frame [OF *(3)]) (use eq *(5) in auto)
  with * eq show "rep_command n c' q v S" by (auto simp: rep_command_def)
next
  fix c q v S
  assume "rep_command n c q v S"
  then show "S \<subseteq> dom c" by (auto simp: rep_command_def dest!: outputs.inside)
next
  fix h :: heap and q v S
  assume "rep_command n (cells h) q v S"
  then show "h_delete_command n q h = Some (release S h)"
    by (auto simp: rep_command_def h_delete_command_def load_command_def outputs.destroy free_cell_release)
qed

abbreviation rep_commands :: "nat \<Rightarrow> (addr \<rightharpoonup> cell) \<Rightarrow> addr \<Rightarrow> RedisCommand list \<Rightarrow> addr set \<Rightarrow> bool" where
  "rep_commands n \<equiv> rep_vector CommandsCell (rep_command n)"

interpretation command_vectors: owned_vector "rep_command n" "h_delete_command n" CommandsCell
    "h_clear_commands n" for n
  by unfold_locales (simp_all add: h_clear_commands_def load_commands_def)

lemma delete_commands_releases:
  "rep_commands n (cells h) a vs S \<Longrightarrow> h_delete_commands n (Some a) h = Some (release S h)"
  using command_vectors.vector_delete by (simp add: h_delete_commands_def)

section \<open>From one footprint to another\<close>

text \<open>The objects concerned had the footprint \<open>S\<close> and now have \<open>S'\<close>: what is not in \<open>S'\<close> any more
  has been freed, what is new comes from the allocator, and nothing else has changed.\<close>

definition reshapes :: "heap \<Rightarrow> addr set \<Rightarrow> heap \<Rightarrow> addr set \<Rightarrow> bool" where
  "reshapes h S h' S' \<longleftrightarrow>
     heap_ok h' \<and> brk h \<le> brk h' \<and> S' \<subseteq> S \<union> {brk h..<brk h'}
     \<and> dom (cells h') = (dom (cells h) - S) \<union> S'
     \<and> (\<forall>x. x \<notin> S \<and> x \<notin> S' \<longrightarrow> cells h' x = cells h x)"

lemma heap_ok_below: "heap_ok h \<Longrightarrow> S \<subseteq> dom (cells h) \<Longrightarrow> x \<in> S \<Longrightarrow> x < brk h"
  unfolding heap_ok_def by (meson lessThan_iff subsetD)

lemma heap_ok_fresh: "heap_ok h \<Longrightarrow> S \<subseteq> dom (cells h) \<Longrightarrow> brk h \<notin> S"
  using heap_ok_below by blast

lemma reshapesI:
  assumes "heap_ok h" "S \<subseteq> dom (cells h)" "S' \<subseteq> S \<union> dom upd" "dom upd \<subseteq> S'"
    and "S' \<subseteq> S \<union> {brk h..<brk h'}" "brk h \<le> brk h'" "cells h' = (cells h |` (- (S - S'))) ++ upd"
  shows "reshapes h S h' S'"
proof -
  have d: "dom (cells h') = (dom (cells h) - S) \<union> S'"
    using assms(2-4,7) by auto
  have "cells h' x = cells h x" if "x \<notin> S" "x \<notin> S'" for x
    using that assms(4,7) by (auto simp: map_add_def dom_def restrict_map_def split: option.split)
  moreover have "x < brk h'" if "x \<in> dom (cells h')" for x
  proof -
    have "x \<in> dom (cells h) \<or> x < brk h'" using that assms(2,5) unfolding d by fastforce
    then show ?thesis using heap_ok_below [OF assms(1) order_refl, of x] assms(6) by linarith
  qed
  ultimately show ?thesis using assms(5,6) d by (auto simp: reshapes_def heap_ok_def)
qed

lemma reshapes_shrink:
  assumes "heap_ok h" "S \<subseteq> dom (cells h)" "S' \<subseteq> S" "S' \<subseteq> dom (cells h')" "brk h' = brk h"
    and "\<And>x. x \<in> S - S' \<Longrightarrow> cells h' x = None" "\<And>x. x \<notin> S \<Longrightarrow> cells h' x = cells h x"
  shows "reshapes h S h' S'"
proof (rule reshapesI [OF assms(1,2), where upd = "cells h' |` S'"])
  show "cells h' = (cells h |` (- (S - S'))) ++ (cells h' |` S')"
  proof
    fix x
    show "cells h' x = ((cells h |` (- (S - S'))) ++ (cells h' |` S')) x"
      using assms(3,4) assms(6) [of x] assms(7) [of x]
      by (cases "x \<in> S'"; cases "x \<in> S") (auto simp: map_add_def restrict_map_def split: option.split)
  qed
qed (use assms in auto)

lemma reshapes_refl: "heap_ok h \<Longrightarrow> S \<subseteq> dom (cells h) \<Longrightarrow> reshapes h S h S"
  by (rule reshapes_shrink) auto

end
