(* ===== verification/Heap_Properties.thy ===== *)
theory Heap_Properties
  imports Output_Ownership
begin

text \<open>
  The functions over the store refine those over values: what a setter or a getter does to the
  object at an address is what the value-level function of the same name does to the value it
  holds, and the footprints account for every cell that is allocated or freed.
\<close>

section \<open>Setters\<close>

text \<open>The call returns, the object at \<open>a\<close>, which had the footprint \<open>S\<close>, then holds \<open>v\<close>.\<close>

definition sets_to :: "heap \<Rightarrow> addr \<Rightarrow> addr set \<Rightarrow> heap option \<Rightarrow> RedisOutput \<Rightarrow> bool" where
  "sets_to h a S m v \<longleftrightarrow> (\<exists>h' S'. m = Some h' \<and> rep_output (cells h') a v S' \<and> reshapes h S h' S')"

text \<open>The output at \<open>a\<close> with footprint \<open>S\<close>, as a setter finds it.\<close>

definition holds_output :: "nat \<Rightarrow> heap \<Rightarrow> addr \<Rightarrow> RedisOutput \<Rightarrow> addr set \<Rightarrow> bool" where
  "holds_output n h a out S \<longleftrightarrow> heap_ok h \<and> rep_output (cells h) a out S \<and> output_wf out \<and> nested n out"

lemma holds_outputD:
  assumes "holds_output n h a out S"
  shows "h_clear n a h = Some (put_cell a (OutputCell (out_type out) None) (release (S - {a}) h))"
    and "heap_ok h" "S \<subseteq> dom (cells h)" "a \<in> S" "a < brk h" "brk h \<notin> S"
proof -
  from assms have *: "heap_ok h" "rep_output (cells h) a out S" "output_wf out" "nested n out"
    by (simp_all add: holds_output_def)
  show "S \<subseteq> dom (cells h)" by (rule rep_inside(1) [OF *(2)])
  with * show "a < brk h" "brk h \<notin> S"
    using heap_ok_fresh [of h S] by (auto intro: heap_ok_below rep_output_self)
qed (use assms in \<open>auto simp: holds_output_def h_clear_releases rep_output_self\<close>)

lemma set_cell_steps:
  assumes "holds_output n h a out S"
  obtains h' where "h_set_cell n t c a h = Some h'" "reshapes h S h' {a, brk h}"
    "cells h' a = Some (OutputCell t (Some (brk h)))" "cells h' (brk h) = Some c" "a \<noteq> brk h"
proof -
  note H = holds_outputD [OF assms]
  let ?h' = "put_cell a (OutputCell t (Some (brk h))) (put_cell a (OutputCell (out_type out) (Some (brk h)))
    (snd (new_cell c (put_cell a (OutputCell (out_type out) None) (release (S - {a}) h)))))"
  have "h_set_cell n t c a h = Some ?h'"
    using H by (simp add: h_set_cell_def assign_ptr_def assign_type_def load_output_def split_beta)
  moreover have "reshapes h S ?h' {a, brk h}"
    by (rule reshapesI [where upd = "[brk h \<mapsto> c, a \<mapsto> OutputCell t (Some (brk h))]"])
      (use H in \<open>auto simp: restrict_map_def fun_eq_iff map_add_def\<close>)
  ultimately show ?thesis using that H(5) by force
qed

lemma set_nil_steps:
  assumes "holds_output n h a out S"
  obtains h' where "do { h \<leftarrow> h_clear n a h; assign_type t a h } = Some h'" "reshapes h S h' {a}"
    "cells h' a = Some (OutputCell t None)" "brk h' = brk h"
proof -
  note H = holds_outputD [OF assms]
  let ?h' = "put_cell a (OutputCell t None) (put_cell a (OutputCell (out_type out) None) (release (S - {a}) h))"
  have "do { h \<leftarrow> h_clear n a h; assign_type t a h } = Some ?h'"
    using H by (simp add: assign_type_def load_output_def)
  moreover have "reshapes h S ?h' {a}"
    by (rule reshapesI [where upd = "[a \<mapsto> OutputCell t None]"])
      (use H in \<open>auto simp: restrict_map_def fun_eq_iff map_add_def\<close>)
  ultimately show ?thesis using that by force
qed

lemma plain_setters:
  assumes "holds_output n h a out S"
  shows "sets_to h a S (h_set_status n s a h) (set_status s out)"
    "sets_to h a S (h_set_error n s a h) (set_error s out)"
    "sets_to h a S (h_set_i n i a h) (set_i i out)"
    "sets_to h a S (h_set_bulk n s a h) (set_bulk s out)"
proof -
  have *: "sets_to h a S (h_set_cell n t c a h) (RedisOutput t p)"
    if "\<And>d m. d m = Some c \<Longrightarrow> rep_ptr d (Some m) p {m}" for t c p
  proof -
    obtain h' where h': "h_set_cell n t c a h = Some h'" "reshapes h S h' {a, brk h}"
        "cells h' a = Some (OutputCell t (Some (brk h)))" "cells h' (brk h) = Some c" "a \<noteq> brk h"
      by (rule set_cell_steps [OF assms])
    with that have "rep_output (cells h') a (RedisOutput t p) {a, brk h}" by auto
    with h' show ?thesis unfolding sets_to_def by blast
  qed
  show "sets_to h a S (h_set_status n s a h) (set_status s out)"
    "sets_to h a S (h_set_error n s a h) (set_error s out)"
    "sets_to h a S (h_set_i n i a h) (set_i i out)"
    "sets_to h a S (h_set_bulk n s a h) (set_bulk s out)"
    unfolding h_set_status_def h_set_error_def h_set_i_def h_set_bulk_def
      set_status_def set_error_def set_i_def set_bulk_def
    by (rule *, simp add: rep_string_def)+
qed

lemma nil_setters:
  assumes "holds_output n h a out S"
  shows "sets_to h a S (h_set_nil_bulk n a h) (set_nil_bulk out)"
    "sets_to h a S (h_set_nil_mbulks n a h) (set_nil_mbulks out)"
    "sets_to h a S (h_set_nil_smbulks n a h) (set_nil_smbulks out)"
proof -
  have *: "sets_to h a S (do { h \<leftarrow> h_clear n a h; assign_type t a h }) (RedisOutput t NullPtr)" for t
  proof -
    obtain h' where h': "do { h \<leftarrow> h_clear n a h; assign_type t a h } = Some h'" "reshapes h S h' {a}"
        "cells h' a = Some (OutputCell t None)"
      by (rule set_nil_steps [OF assms])
    then have "rep_output (cells h') a (RedisOutput t NullPtr) {a}" by auto
    with h' show ?thesis unfolding sets_to_def by blast
  qed
  show "sets_to h a S (h_set_nil_bulk n a h) (set_nil_bulk out)"
    "sets_to h a S (h_set_nil_mbulks n a h) (set_nil_mbulks out)"
    "sets_to h a S (h_set_nil_smbulks n a h) (set_nil_smbulks out)"
    unfolding h_set_nil_bulk_def h_set_nil_mbulks_def h_set_nil_smbulks_def
      set_nil_bulk_def set_nil_mbulks_def set_nil_smbulks_def by (rule *)+
qed

lemma rep_outputI:
  "\<lbrakk>c a = Some (OutputCell t q); rep_ptr c q p T; a \<notin> T\<rbrakk> \<Longrightarrow> rep_output c a (RedisOutput t p) (insert a T)"
  by auto

text \<open>The setters for vectors take the elements out of the caller's vector.\<close>

lemma set_vector_cells:
  assumes "holds_output n h a out S" "M \<subseteq> dom (cells h)" "S \<inter> M = {}" "b \<in> M"
    and "cells h' = (cells h |` (- (S - {a})))(a \<mapsto> c1, brk h \<mapsto> c2, b \<mapsto> c3)" "brk h' = Suc (brk h)"
  shows "reshapes h (S \<union> M) h' ({a, brk h} \<union> M)" "brk h \<notin> M" "a \<noteq> b" "a \<noteq> brk h"
    "cells h' a = Some c1" "cells h' (brk h) = Some c2" "cells h' b = Some c3"
    "\<And>x. x \<in> M - {b} \<Longrightarrow> cells h' x = cells h x"
proof -
  note H = holds_outputD [OF assms(1)]
  have M: "brk h \<notin> M" "a \<notin> M" using heap_ok_fresh [OF H(2) assms(2)] assms(3) H(4) by auto
  then show "brk h \<notin> M" "a \<noteq> b" "a \<noteq> brk h" "cells h' a = Some c1" "cells h' (brk h) = Some c2"
    "cells h' b = Some c3"
    using assms(4,5) H(5) by auto
  show "cells h' x = cells h x" if "x \<in> M - {b}" for x
    using that M assms(3,5) by (auto simp: restrict_map_def)
  show "reshapes h (S \<union> M) h' ({a, brk h} \<union> M)"
    by (rule reshapesI [where upd = "[a \<mapsto> c1, brk h \<mapsto> c2, b \<mapsto> c3]"])
      (use H assms M in \<open>auto simp: restrict_map_def fun_eq_iff map_add_def\<close>)
qed

context owned_vector
begin

lemma vector_hung:
  assumes "holds_output n h a out S" "rep_vector mk rep (cells h) b vs M" "S \<inter> M = {}"
    and "cells h b = Some (mk qs)" "brk h' = Suc (brk h)"
    and "cells h' = (cells h |` (- (S - {a})))(a \<mapsto> OutputCell t (Some (brk h)), brk h \<mapsto> mk qs, b \<mapsto> mk [])"
    and "\<And>c A. \<lbrakk>rep_vector mk rep c (brk h) vs A; c a = Some (OutputCell t (Some (brk h))); a \<notin> A\<rbrakk>
           \<Longrightarrow> rep_output c a v (insert a A)"
  shows "\<exists>S'. b \<notin> S' \<and> reshapes h (S \<union> M) h' (insert b S') \<and> rep_output (cells h') a v S'
    \<and> rep_vector mk rep (cells h') b [] {b}"
proof -
  note H = holds_outputD [OF assms(1)] and M = vector_inside [OF assms(2)]
  have b: "b \<in> M" using vector_cell [OF assms(2,4)] by blast
  note N = set_vector_cells [OF assms(1) M assms(3) b assms(6,5)]
  let ?A = "insert (brk h) (M - {b})"
  have "rep_vector mk rep (cells h') (brk h) vs ?A"
    by (rule vector_moved [OF assms(2,4)]) (use N in auto)
  moreover have "a \<notin> ?A" using N H(4) assms(3) by auto
  ultimately have "rep_output (cells h') a v (insert a ?A)" using assms(7) N by blast
  moreover have "insert b (insert a ?A) = {a, brk h} \<union> M" "b \<notin> insert a ?A" using b N by auto
  ultimately show ?thesis using N by (metis rep_vector_empty)
qed

end

lemma set_mbulks_moves:
  assumes "holds_output n h a out S" "rep_mbulk (cells h) b mb M" "S \<inter> M = {}"
  shows "\<exists>h' S'. h_set_mbulks n (Some b) a h = Some h' \<and> b \<notin> S' \<and> reshapes h (S \<union> M) h' (insert b S')
    \<and> rep_output (cells h') a (set_mbulks (Some mb) out) S' \<and> rep_mbulk (cells h') b [] {b}"
proof -
  note H = holds_outputD [OF assms(1)] and M = mbulks.vector_inside [OF assms(2)]
  obtain qs where qs: "cells h b = Some (MbulkCell qs)" using assms(2) by (auto simp: rep_vector_def)
  then have b: "b \<in> M" "b \<notin> S" using mbulks.vector_cell [OF assms(2)] assms(3) by blast+
  let ?h' = "put_cell b (MbulkCell []) (put_cell (brk h) (MbulkCell qs)
    (put_cell a (OutputCell kMultiBulk (Some (brk h)))
      (snd (new_cell (MbulkCell []) (put_cell a (OutputCell kMultiBulk None)
        (put_cell a (OutputCell (out_type out) None) (release (S - {a}) h)))))))"
  have run: "h_set_mbulks n (Some b) a h = Some ?h'"
    using H qs b(2) heap_ok_below [OF H(2) M b(1)]
    by (auto simp: h_set_mbulks_def assign_type_def assign_ptr_def load_output_def swap_mbulk_def
        load_mbulk_def split_beta)
  have "\<exists>S'. b \<notin> S' \<and> reshapes h (S \<union> M) ?h' (insert b S')
      \<and> rep_output (cells ?h') a (set_mbulks (Some mb) out) S' \<and> rep_mbulk (cells ?h') b [] {b}"
    by (rule mbulks.vector_hung [OF assms qs]) (use H(5) in \<open>auto simp: fun_eq_iff set_mbulks_def\<close>)
  with run show ?thesis by blast
qed

lemma set_smbulks_moves:
  assumes "holds_output n h a out S" "rep_smbulk n (cells h) b outs M" "S \<inter> M = {}"
  shows "\<exists>h' S'. h_set_smbulks n (Some b) a h = Some h' \<and> b \<notin> S' \<and> reshapes h (S \<union> M) h' (insert b S')
    \<and> rep_output (cells h') a (set_smbulks (Some outs) out) S' \<and> rep_smbulk n (cells h') b [] {b}"
proof -
  note H = holds_outputD [OF assms(1)] and M = smbulks.vector_inside [OF assms(2)]
  obtain qs where qs: "cells h b = Some (SmbulkCell qs)" using assms(2) by (auto simp: rep_vector_def)
  then have b: "b \<in> M" "b \<notin> S" using smbulks.vector_cell [OF assms(2)] assms(3) by blast+
  let ?h' = "put_cell b (SmbulkCell []) (put_cell (brk h) (SmbulkCell qs)
    (put_cell a (OutputCell kSpecialMultiBulk (Some (brk h)))
      (snd (new_cell (SmbulkCell []) (put_cell a (OutputCell kSpecialMultiBulk None)
        (put_cell a (OutputCell (out_type out) None) (release (S - {a}) h)))))))"
  have run: "h_set_smbulks n (Some b) a h = Some ?h'"
    using H qs b(2) heap_ok_below [OF H(2) M b(1)]
    by (auto simp: h_set_smbulks_def assign_type_def assign_ptr_def load_output_def swap_smbulk_def
        load_smbulk_def split_beta)
  have "\<exists>S'. b \<notin> S' \<and> reshapes h (S \<union> M) ?h' (insert b S')
      \<and> rep_output (cells ?h') a (set_smbulks (Some outs) out) S' \<and> rep_smbulk n (cells ?h') b [] {b}"
    by (rule smbulks.vector_hung [OF assms qs])
      (use H(5) in \<open>auto simp: fun_eq_iff set_smbulks_def simp del: rep_output.simps
          intro: rep_outputI rep_smbulk_ptr\<close>)
  with run show ?thesis by blast
qed

section \<open>Getters\<close>

text \<open>The call returns \<open>ok\<close>; the two objects, which had the footprint \<open>F\<close>, then satisfy \<open>P\<close> and \<open>Q\<close>
  with separate footprints.\<close>

definition hands_over :: "heap \<Rightarrow> addr set \<Rightarrow> (bool \<times> heap) option \<Rightarrow> bool
    \<Rightarrow> ((addr \<rightharpoonup> cell) \<Rightarrow> addr set \<Rightarrow> bool) \<Rightarrow> ((addr \<rightharpoonup> cell) \<Rightarrow> addr set \<Rightarrow> bool) \<Rightarrow> bool" where
  "hands_over h F m ok P Q \<longleftrightarrow>
     (\<exists>h' A B. m = Some (ok, h') \<and> P (cells h') A \<and> Q (cells h') B \<and> A \<inter> B = {} \<and> reshapes h F h' (A \<union> B))"

lemma hands_overI:
  "\<lbrakk>m = Some (ok, h'); P (cells h') A; Q (cells h') B; A \<inter> B = {}; reshapes h F h' (A \<union> B)\<rbrakk>
    \<Longrightarrow> hands_over h F m ok P Q"
  by (auto simp: hands_over_def)

lemma rep_output_cell:
  assumes "rep_output c a out S"
  obtains q where "c a = Some (OutputCell (out_type out) q)" "q = None \<longleftrightarrow> out_ptr out = NullPtr"
proof -
  have "rep_ptr c q p T \<Longrightarrow> q = None \<longleftrightarrow> p = NullPtr" for q p T
    by (cases p) (auto simp: rep_string_def)
  with assms that show ?thesis by (cases out) fastforce
qed

context owned_vector
begin

lemma vector_emptied:
  assumes "heap_ok h" "rep_output (cells h) a out S" "rep_vector mk rep (cells h) b us M" "S \<inter> M = {}"
    and "cells h' = (cells h |` (- (M - {b})))(b \<mapsto> mk [])" "brk h' = brk h"
  shows "rep_output (cells h') a out S" "rep_vector mk rep (cells h') b [] {b}" "b \<notin> S"
    "reshapes h (S \<union> M) h' (S \<union> {b})"
proof -
  note M = vector_inside [OF assms(3)] and S = rep_inside(1) [OF assms(2)]
  have b: "b \<in> M" using assms(3) by (auto simp: rep_vector_def)
  with assms(4) show "b \<notin> S" by auto
  show "rep_output (cells h') a out S"
    by (rule rep_frame(1) [OF assms(2)]) (use assms(4,5) b in \<open>auto simp: restrict_map_def\<close>)
  show "rep_vector mk rep (cells h') b [] {b}" using assms(5) by simp
  show "reshapes h (S \<union> M) h' (S \<union> {b})"
    by (rule reshapesI [where upd = "[b \<mapsto> mk []]"])
      (use assms b M S in \<open>auto simp: restrict_map_def fun_eq_iff map_add_def\<close>)
qed

lemma vector_swapped:
  assumes "heap_ok h" "cells h a = Some (OutputCell t (Some m))" "rep_vector mk rep (cells h) m vs T" "a \<notin> T"
    and "rep_vector mk rep (cells h) b us M" "insert a T \<inter> M = {}" "cells h m = Some (mk qs)"
    and "cells h' = (cells h |` (- (M - {b})))(b \<mapsto> mk qs, m \<mapsto> mk [])" "brk h' = brk h"
  shows "rep_vector mk rep (cells h') b vs (insert b (T - {m}))" "rep_vector mk rep (cells h') m [] {m}"
    "cells h' a = Some (OutputCell t (Some m))" "a \<noteq> m" "{a, m} \<inter> insert b (T - {m}) = {}"
    "reshapes h (insert a T \<union> M) h' ({a, m} \<union> insert b (T - {m}))"
proof -
  note M = vector_inside [OF assms(5)] and T = vector_inside [OF assms(3)]
  have b: "b \<in> M" "m \<in> T" using assms(5) vector_cell [OF assms(3,7)] by (auto simp: rep_vector_def)
  then show ne: "a \<noteq> m" "{a, m} \<inter> insert b (T - {m}) = {}" using assms(4,6) by auto
  show "rep_vector mk rep (cells h') b vs (insert b (T - {m}))"
    by (rule vector_moved [OF assms(3,7)])
      (use assms(4,6,8) b in \<open>auto simp: restrict_map_def fun_upd_def\<close>)
  show "cells h' a = Some (OutputCell t (Some m))"
    using assms(2,4,6,8) b ne by (auto simp: restrict_map_def)
  show "rep_vector mk rep (cells h') m [] {m}" using assms(8) by simp
  show "reshapes h (insert a T \<union> M) h' ({a, m} \<union> insert b (T - {m}))"
    by (rule reshapesI [where upd = "[b \<mapsto> mk qs, m \<mapsto> mk []]"])
      (use assms b M T in \<open>auto simp: restrict_map_def fun_eq_iff map_add_def\<close>)
qed

end

lemma get_mbulks_refines:
  assumes "heap_ok h" "rep_output (cells h) a out S" "output_wf out"
    and "rep_mbulk (cells h) b us M" "S \<inter> M = {}" "get_mbulks (Some us) out = Some (ok, Some us', out')"
  shows "hands_over h (S \<union> M) (h_get_mbulks (Some b) a h) ok
    (\<lambda>c. rep_output c a out') (\<lambda>c. rep_mbulk c b us')"
proof (cases "is_mbulks out")
  case False
  let ?h' = "put_cell b (MbulkCell []) (release (M - {b}) h)"
  note E = mbulks.vector_emptied [OF assms(1,2,4,5), of ?h']
  have c: "cells ?h' = (cells h |` (- (M - {b})))(b \<mapsto> MbulkCell [])" "brk ?h' = brk h" by simp_all
  note E = E [OF c]
  obtain q where "cells ?h' a = Some (OutputCell (out_type out) q)" "out_type out = kMultiBulk \<Longrightarrow> q = None"
    using rep_output_cell [OF E(1)] False by (auto simp: is_mbulks_def)
  then have "h_get_mbulks (Some b) a h = Some (False, ?h')"
    using mbulks.vector_clear [OF assms(4)]
    by (auto simp: h_get_mbulks_def load_output_def simp del: cell_simps split: option.split)
  moreover have "ok = False" "us' = []" "out' = out" using assms(6) False by (auto simp: get_mbulks_def)
  ultimately show ?thesis using E by (intro hands_overI [of _ _ ?h' _ S _ "{b}"]) auto
next
  case True
  then obtain vs where out: "out = RedisOutput kMultiBulk (MbulksPtr vs)"
    using assms(3) by (cases out; cases "out_ptr out") (auto simp: is_mbulks_def)
  then obtain m T where m: "cells h a = Some (OutputCell kMultiBulk (Some m))" "rep_mbulk (cells h) m vs T"
      "a \<notin> T" "S = insert a T"
    using assms(2) by auto
  then obtain qs where qs: "cells h m = Some (MbulkCell qs)" by (auto simp: rep_vector_def)
  then have b: "b \<in> M" "m \<in> T" using assms(4) mbulks.vector_cell [OF m(2)] by (auto simp: rep_vector_def)
  let ?h' = "put_cell m (MbulkCell []) (put_cell b (MbulkCell qs) (put_cell b (MbulkCell []) (release (M - {b}) h)))"
  have ne: "a \<noteq> b" "m \<noteq> b" "a \<notin> M" "m \<notin> M" using b m assms(5) by auto
  with m(1) qs have run: "h_get_mbulks (Some b) a h = Some (True, ?h')"
    using mbulks.vector_clear [OF assms(4)]
    by (auto simp: h_get_mbulks_def load_output_def swap_mbulk_def load_mbulk_def)
  have d: "insert a T \<inter> M = {}" using assms(5) m(4) by simp
  note N = mbulks.vector_swapped [OF assms(1) m(1-3) assms(4) d qs, of ?h']
  have c: "cells ?h' = (cells h |` (- (M - {b})))(b \<mapsto> MbulkCell qs, m \<mapsto> MbulkCell [])" "brk ?h' = brk h"
    by simp_all
  note N = N [OF c]
  have "rep_output (cells ?h') a (RedisOutput kMultiBulk (MbulksPtr [])) (insert a {m})"
    using N by (intro rep_outputI) auto
  moreover have "ok = True" "us' = vs" "out' = RedisOutput kMultiBulk (MbulksPtr [])"
    using assms(6) True out by (auto simp: get_mbulks_def)
  ultimately show ?thesis
    using run N m(4) by (intro hands_overI [of _ _ ?h' _ "{a, m}" _ "insert b (T - {m})"]) auto
qed

lemma get_smbulks_refines:
  assumes "heap_ok h" "rep_output (cells h) a out S" "output_wf out" "nested (Suc n) out"
    and "rep_smbulk n (cells h) b us M" "S \<inter> M = {}" "get_smbulks (Some us) out = Some (ok, Some us', out')"
  shows "hands_over h (S \<union> M) (h_get_smbulks n (Some b) a h) ok
    (\<lambda>c. rep_output c a out') (\<lambda>c. rep_smbulk n c b us')"
proof (cases "is_smbulks out")
  case False
  let ?h' = "put_cell b (SmbulkCell []) (release (M - {b}) h)"
  note E = smbulks.vector_emptied [OF assms(1,2,5,6), of ?h']
  have c: "cells ?h' = (cells h |` (- (M - {b})))(b \<mapsto> SmbulkCell [])" "brk ?h' = brk h" by simp_all
  note E = E [OF c]
  obtain q where "cells ?h' a = Some (OutputCell (out_type out) q)" "out_type out = kSpecialMultiBulk \<Longrightarrow> q = None"
    using rep_output_cell [OF E(1)] False by (auto simp: is_smbulks_def)
  then have "h_get_smbulks n (Some b) a h = Some (False, ?h')"
    using smbulks.vector_clear [OF assms(5)]
    by (auto simp: h_get_smbulks_def load_output_def simp del: cell_simps split: option.split)
  moreover have "ok = False" "us' = []" "out' = out" using assms(7) False by (auto simp: get_smbulks_def)
  ultimately show ?thesis using E by (intro hands_overI [of _ _ ?h' _ S _ "{b}"]) auto
next
  case True
  then obtain vs where out: "out = RedisOutput kSpecialMultiBulk (SmbulksPtr vs)"
    using assms(3) by (cases out; cases "out_ptr out") (auto simp: is_smbulks_def)
  then obtain m T where m: "cells h a = Some (OutputCell kSpecialMultiBulk (Some m))" "rep_smbulk n (cells h) m vs T"
      "a \<notin> T" "S = insert a T"
    using assms(2-4) by (auto simp del: rep_ptr.simps elim: rep_ptr_smbulk)
  then obtain qs where qs: "cells h m = Some (SmbulkCell qs)" by (auto simp: rep_vector_def)
  then have b: "b \<in> M" "m \<in> T" using assms(5) smbulks.vector_cell [OF m(2)] by (auto simp: rep_vector_def)
  let ?h' = "put_cell m (SmbulkCell []) (put_cell b (SmbulkCell qs) (put_cell b (SmbulkCell []) (release (M - {b}) h)))"
  have ne: "a \<noteq> b" "m \<noteq> b" "a \<notin> M" "m \<notin> M" using b m assms(6) by auto
  with m(1) qs have run: "h_get_smbulks n (Some b) a h = Some (True, ?h')"
    using smbulks.vector_clear [OF assms(5)]
    by (auto simp: h_get_smbulks_def load_output_def swap_smbulk_def load_smbulk_def)
  have d: "insert a T \<inter> M = {}" using assms(6) m(4) by simp
  note N = smbulks.vector_swapped [OF assms(1) m(1-3) assms(5) d qs, of ?h']
  have c: "cells ?h' = (cells h |` (- (M - {b})))(b \<mapsto> SmbulkCell qs, m \<mapsto> SmbulkCell [])" "brk ?h' = brk h"
    by simp_all
  note N = N [OF c]
  have "rep_output (cells ?h') a (RedisOutput kSpecialMultiBulk (SmbulksPtr [])) (insert a {m})"
    using N by (intro rep_outputI) (auto intro: rep_smbulk_ptr)
  moreover have "ok = True" "us' = vs" "out' = RedisOutput kSpecialMultiBulk (SmbulksPtr [])"
    using assms(7) True out by (auto simp: get_smbulks_def)
  ultimately show ?thesis
    using run N m(4) by (intro hands_overI [of _ _ ?h' _ "{a, m}" _ "insert b (T - {m})"]) auto
qed

text \<open>The caller's string or number at \<open>b\<close>.\<close>

lemma kept_output:
  assumes "heap_ok h" "rep_output (cells h) a out S" "cells h b = Some c0" "b \<notin> S"
  shows "reshapes h (insert b S) (put_cell b c h) (S \<union> {b})" "rep_output (cells (put_cell b c h)) a out S"
    "reshapes h (insert b S) h (S \<union> {b})"
proof -
  note S = rep_inside(1) [OF assms(2)]
  show "reshapes h (insert b S) (put_cell b c h) (S \<union> {b})"
    by (rule reshapesI [where upd = "[b \<mapsto> c]"])
      (use assms S in \<open>auto simp: restrict_map_def fun_eq_iff map_add_def\<close>)
  show "reshapes h (insert b S) h (S \<union> {b})"
    by (rule reshapesI [where upd = Map.empty])
      (use assms S in \<open>auto simp: restrict_map_def fun_eq_iff map_add_def\<close>)
  show "rep_output (cells (put_cell b c h)) a out S"
    by (rule rep_frame(1) [OF assms(2)]) (use assms(4) in auto)
qed

lemma get_copy_hit:
  assumes "heap_ok h" "rep_output (cells h) a (RedisOutput t p) S" "cells h b = Some (mk v)" "b \<notin> S"
    and "\<And>m x. cells h m = Some (mk x) \<Longrightarrow> load m h = Some x"
    and "\<And>q T. rep_ptr (cells h) q p T \<Longrightarrow> \<exists>m. q = Some m \<and> cells h m = Some (mk x)"
  shows "hands_over h (insert b S) (h_get_copy t load mk (Some b) a h) True
    (\<lambda>c. rep_output c a (RedisOutput t p)) (\<lambda>c B. c b = Some (mk x) \<and> B = {b})"
proof -
  obtain m where "cells h a = Some (OutputCell t (Some m))" "cells h m = Some (mk x)"
    using assms(2,6) by fastforce
  then have "h_get_copy t load mk (Some b) a h = Some (True, put_cell b (mk x) h)"
    using assms(3,5) by (simp add: h_get_copy_def load_output_def)
  then show ?thesis using kept_output(1,2) [OF assms(1-4), of "mk x"] assms(4)
    by (intro hands_overI [of _ _ _ _ S _ "{b}"]) auto
qed

lemma get_copy_miss:
  assumes "heap_ok h" "rep_output (cells h) a out S" "cells h b = Some (mk v)" "b \<notin> S"
    and "out_type out = t \<Longrightarrow> out_ptr out = NullPtr"
  shows "hands_over h (insert b S) (h_get_copy t load mk (Some b) a h) False
    (\<lambda>c. rep_output c a out) (\<lambda>c B. c b = Some (mk v) \<and> B = {b})"
proof -
  obtain q where "cells h a = Some (OutputCell (out_type out) q)" "out_type out = t \<Longrightarrow> q = None"
    using rep_output_cell [OF assms(2)] assms(5) by auto
  then have "h_get_copy t load mk (Some b) a h = Some (False, h)"
    by (auto simp: h_get_copy_def load_output_def split: option.split)
  then show ?thesis using kept_output(3) [OF assms(1-4)] assms(2-4)
    by (intro hands_overI [of _ _ h _ S _ "{b}"]) auto
qed

lemma copy_getters_refine:
  assumes "heap_ok h" "rep_output (cells h) a out S" "output_wf out" "b \<notin> S"
  shows "\<lbrakk>cells h b = Some (StringCell v); get_status (Some v) out = Some (ok, Some v')\<rbrakk>
      \<Longrightarrow> hands_over h (insert b S) (h_get_status (Some b) a h) ok
            (\<lambda>c. rep_output c a out) (\<lambda>c B. c b = Some (StringCell v') \<and> B = {b})"
    and "\<lbrakk>cells h b = Some (StringCell v); get_error (Some v) out = Some (ok, Some v')\<rbrakk>
      \<Longrightarrow> hands_over h (insert b S) (h_get_error (Some b) a h) ok
            (\<lambda>c. rep_output c a out) (\<lambda>c B. c b = Some (StringCell v') \<and> B = {b})"
    and "\<lbrakk>cells h b = Some (IntCell i); get_i (Some i) out = Some (ok, Some i')\<rbrakk>
      \<Longrightarrow> hands_over h (insert b S) (h_get_i (Some b) a h) ok
            (\<lambda>c. rep_output c a out) (\<lambda>c B. c b = Some (IntCell i') \<and> B = {b})"
  using assms unfolding h_get_status_def get_status_def is_status_def
    h_get_error_def get_error_def is_error_def h_get_i_def get_i_def is_i_def
  by (cases out; cases "out_ptr out"; auto simp del: rep_output.simps simp: load_defs rep_string_def
      intro!: get_copy_hit get_copy_miss)+

lemma get_bulk_refines:
  assumes "heap_ok h" "rep_output (cells h) a out S" "output_wf out" "cells h b = Some (StringCell v)" "b \<notin> S"
    and "get_bulk (Some v) out = Some (ok, Some v', out')"
  shows "hands_over h (insert b S) (h_get_bulk (Some b) a h) ok
    (\<lambda>c. rep_output c a out') (\<lambda>c B. c b = Some (StringCell v') \<and> B = {b})"
proof (cases "is_bulk out")
  case True
  then obtain s where out: "out = RedisOutput kBulk (BulkPtr s)"
    using assms(3) by (cases out; cases "out_ptr out") (auto simp: is_bulk_def)
  then obtain m where m: "cells h a = Some (OutputCell kBulk (Some m))" "cells h m = Some (StringCell s)"
      "S = {a, m}" "a \<noteq> m"
    using assms(2) by (auto simp: rep_string_def)
  let ?h' = "put_cell m (StringCell v) (put_cell b (StringCell s) h)"
  have "h_get_bulk (Some b) a h = Some (True, ?h')"
    using assms(4) m by (simp add: h_get_bulk_def load_output_def load_string_def swap_string_def)
  moreover have "ok" "v' = s" "out' = RedisOutput kBulk (BulkPtr v)"
    using assms(6) True out by (auto simp: get_bulk_def)
  moreover have "rep_output (cells ?h') a (RedisOutput kBulk (BulkPtr v)) {a, m}"
    using m assms(5) by (auto simp: rep_string_def)
  moreover have "reshapes h (insert b S) ?h' ({a, m} \<union> {b})"
    by (rule reshapesI [where upd = "[b \<mapsto> StringCell s, m \<mapsto> StringCell v]"])
      (use assms m in \<open>auto simp: restrict_map_def fun_eq_iff map_add_def\<close>)
  ultimately show ?thesis using m assms(5) by (intro hands_overI [of _ _ ?h' _ S _ "{b}"]) auto
next
  case False
  obtain q where "cells h a = Some (OutputCell (out_type out) q)" "out_type out = kBulk \<Longrightarrow> q = None"
    using rep_output_cell [OF assms(2)] False by (auto simp: is_bulk_def)
  then have "h_get_bulk (Some b) a h = Some (False, h)"
    by (auto simp: h_get_bulk_def load_output_def split: option.split)
  moreover have "\<not> ok" "v' = v" "out' = out" using assms(6) False by (auto simp: get_bulk_def)
  ultimately show ?thesis using kept_output [OF assms(1,2,4,5)] assms(2,4,5)
    by (intro hands_overI [of _ _ h _ S _ "{b}"]) auto
qed

section \<open>Vectors\<close>

context owned_vector
begin

lemma append_moves:
  assumes "heap_ok h" "rep_vector mk rep (cells h) a us A" "rep_vector mk rep (cells h) b vs B" "A \<inter> B = {}"
    and "cells h a = Some (mk ps)" "cells h b = Some (mk qs)"
  defines "h' \<equiv> put_cell b (mk []) (put_cell a (mk (ps @ qs)) h)"
  shows "hands_over h (A \<union> B) (Some (True, h')) True
    (\<lambda>c. rep_vector mk rep c a (us @ vs)) (\<lambda>c. rep_vector mk rep c b [])"
proof (rule hands_overI [of _ _ h' _ "A \<union> (B - {b})" _ "{b}"])
  have ab: "a \<in> A" "b \<in> B" using vector_cell [OF assms(2,5)] vector_cell [OF assms(3,6)] by blast+
  then show "(A \<union> (B - {b})) \<inter> {b} = {}" using assms(4) by auto
  show "rep_vector mk rep (cells h') a (us @ vs) (A \<union> (B - {b}))"
    using vector_appended [OF assms(2-6)] by (simp add: h'_def)
  show "reshapes h (A \<union> B) h' (A \<union> (B - {b}) \<union> {b})"
    by (rule reshapesI [where upd = "[a \<mapsto> mk (ps @ qs), b \<mapsto> mk []]"])
      (use ab assms(1) vector_inside [OF assms(2)] vector_inside [OF assms(3)] in
        \<open>auto simp: h'_def restrict_map_def fun_eq_iff map_add_def\<close>)
qed (simp_all add: h'_def)

end

lemma append_mbulks_moves:
  assumes "heap_ok h" "rep_mbulk (cells h) a us A" "rep_mbulk (cells h) b vs B" "A \<inter> B = {}"
  shows "hands_over h (A \<union> B) (map_option (Pair True) (h_append_mbulks (Some a) (Some b) h)) True
    (\<lambda>c. rep_mbulk c a (us @ vs)) (\<lambda>c. rep_mbulk c b [])"
proof -
  obtain ps qs where *: "cells h a = Some (MbulkCell ps)" "cells h b = Some (MbulkCell qs)"
    using assms(2,3) by (auto simp: rep_vector_def)
  moreover have "a \<noteq> b" using assms(2-4) by (auto simp: rep_vector_def)
  ultimately show ?thesis using mbulks.append_moves [OF assms *]
    by (simp add: h_append_mbulks_def load_mbulk_def assertion_def)
qed

lemma append_smbulks_moves:
  assumes "heap_ok h" "rep_smbulk n (cells h) a us A" "rep_smbulk n (cells h) b vs B" "A \<inter> B = {}"
  shows "hands_over h (A \<union> B) (map_option (Pair True) (h_append_smbulks (Some a) (Some b) h)) True
    (\<lambda>c. rep_smbulk n c a (us @ vs)) (\<lambda>c. rep_smbulk n c b [])"
proof -
  obtain ps qs where *: "cells h a = Some (SmbulkCell ps)" "cells h b = Some (SmbulkCell qs)"
    using assms(2,3) by (auto simp: rep_vector_def)
  moreover have "a \<noteq> b" using assms(2-4) by (auto simp: rep_vector_def)
  ultimately show ?thesis using smbulks.append_moves [OF assms *]
    by (simp add: h_append_smbulks_def load_smbulk_def assertion_def)
qed

text \<open>\<open>convert\<close> into a vector of strings empties the strings, then frees them.\<close>

lemma take_strings_empties:
  "rep_list (rep_string (cells h)) qs mb T \<Longrightarrow>
     \<exists>h'. take_strings qs to h = Some (to @ map the (filter (\<lambda>s. s \<noteq> None) mb), h') \<and> brk h' = brk h
       \<and> rep_list (rep_string (cells h')) qs (map (map_option (\<lambda>s. [])) mb) T
       \<and> (\<forall>x. x \<notin> T \<longrightarrow> cells h' x = cells h x)"
proof (induction qs arbitrary: mb T to h)
  case Nil
  then show ?case by (cases mb) auto
next
  case (Cons q qs)
  then obtain v ws A B where *: "mb = v # ws" "rep_string (cells h) q v A"
      "rep_list (rep_string (cells h)) qs ws B" "A \<inter> B = {}" "T = A \<union> B"
    by (cases mb) auto
  show ?case
  proof (cases v)
    case None
    with * Cons.IH [OF *(3), of to] show ?thesis by (auto simp: rep_string_def)
  next
    case (Some s)
    then obtain a where a: "q = Some a" "cells h a = Some (StringCell s)" "A = {a}"
      using *(2) by (auto simp: rep_string_def)
    let ?h = "put_cell a (StringCell []) h"
    have "rep_list (rep_string (cells ?h)) qs ws B"
      by (rule strings.list_frame [OF *(3)]) (use *(4) a(3) in auto)
    from Cons.IH [OF this, of "to @ [s]"] obtain h' where h':
      "take_strings qs (to @ [s]) ?h = Some ((to @ [s]) @ map the (filter (\<lambda>s. s \<noteq> None) ws), h')"
      "brk h' = brk h" "rep_list (rep_string (cells h')) qs (map (map_option (\<lambda>s. [])) ws) B"
      "\<forall>x. x \<notin> B \<longrightarrow> cells h' x = cells ?h x" by auto
    moreover have "rep_string (cells h') q (Some []) A"
      using h'(4) *(4) a by (auto simp: rep_string_def)
    ultimately have "rep_list (rep_string (cells h')) (q # qs) (Some [] # map (map_option (\<lambda>s. [])) ws) T"
      using *(4,5) by (auto intro: rep_list_ConsI)
    with h' * a Some show ?thesis by (simp add: load_string_def)
  qed
qed

lemma convert_mbulks_empties:
  assumes "heap_ok h" "rep_mbulk (cells h) a mb M"
  shows "\<exists>h'. h_convert_mbulks (Some a) (Some v) h = Some (snd (convert_mbulks (Some mb) (Some v)), h')
    \<and> rep_mbulk (cells h') a [] {a} \<and> reshapes h M h' {a}"
proof -
  obtain qs where qs: "cells h a = Some (MbulkCell qs)" using assms(2) by (auto simp: rep_vector_def)
  note M = mbulks.vector_cell [OF assms(2) qs]
  obtain h1 where h1: "take_strings qs [] h = Some (map the (filter (\<lambda>s. s \<noteq> None) mb), h1)" "brk h1 = brk h"
      "rep_list (rep_string (cells h1)) qs (map (map_option (\<lambda>s. [])) mb) (M - {a})"
      "\<forall>x. x \<notin> M - {a} \<longrightarrow> cells h1 x = cells h x"
    using take_strings_empties [OF conjunct2 [OF M], of "[]"] by auto
  then have "rep_mbulk (cells h1) a (map (map_option (\<lambda>s. [])) mb) M"
    using M qs unfolding rep_vector_def by (metis Diff_iff insert_Diff singletonI)
  from mbulks.vector_clear [OF this] have
    "h_clear_mbulks (Some a) h1 = Some (put_cell a (MbulkCell []) (release (M - {a}) h1))" .
  then have "h_convert_mbulks (Some a) (Some v) h = Some (snd (convert_mbulks (Some mb) (Some v)),
      put_cell a (MbulkCell []) (release (M - {a}) h1))" (is "_ = Some (_, ?h')")
    using qs h1(1) by (simp add: h_convert_mbulks_def convert_mbulks_def load_mbulk_def)
  moreover have "reshapes h M ?h' {a}"
    by (rule reshapesI [where upd = "[a \<mapsto> MbulkCell []]"])
      (use assms(1) M h1(2,4) mbulks.vector_inside [OF assms(2)] in
        \<open>auto simp: restrict_map_def fun_eq_iff map_add_def\<close>)
  ultimately show ?thesis by (intro exI [of _ ?h']) simp
qed

text \<open>\<open>convert\<close> of a vector of outputs into a vector of bulks moves the strings and frees the outputs.\<close>

lemma convertible_2_mbulks_refines:
  "rep_list (rep_output_ptr n (cells h)) qs outs T
    \<Longrightarrow> h_convertible_2_mbulks qs h = Some (convertible_2_mbulks outs)"
proof (induction qs arbitrary: outs T)
  case Nil
  then show ?case by (cases outs) (simp_all add: convertible_2_mbulks_def)
next
  case (Cons q qs)
  then obtain out os A B where *: "outs = out # os" "rep_output_ptr n (cells h) q out A"
      "rep_list (rep_output_ptr n (cells h)) qs os B" by (cases outs) auto
  then obtain a r where "q = Some a" "cells h a = Some (OutputCell (out_type out) r)"
    by (auto simp: rep_output_ptr_def elim: rep_output_cell)
  with * Cons.IH [OF *(3)] show ?case by (simp add: convertible_2_mbulks_def load_output_def)
qed

lemma take_bulks_moves:
  assumes "rep_list (rep_output_ptr n (cells h)) qs outs T" "convertible_2_mbulks outs"
    "smbulks_to_mbulks outs = Some mb"
  shows "\<exists>v h' A B. take_bulks qs to h = Some (to @ v, h') \<and> brk h' = brk h
    \<and> rep_list (rep_string (cells h')) v mb A
    \<and> rep_list (rep_output_ptr n (cells h')) qs (map (\<lambda>out. RedisOutput kBulk NullPtr) outs) B
    \<and> A \<inter> B = {} \<and> T = A \<union> B \<and> (\<forall>x. x \<notin> T \<longrightarrow> cells h' x = cells h x)"
  using assms
proof (induction qs arbitrary: outs mb T to h)
  case Nil
  then show ?case by (cases outs) auto
next
  case (Cons q qs)
  then obtain out os C D where *: "outs = out # os" "rep_output_ptr n (cells h) q out C"
      "rep_list (rep_output_ptr n (cells h)) qs os D" "C \<inter> D = {}" "T = C \<union> D" by (cases outs) auto
  obtain a t p where a: "q = Some a" "out = RedisOutput kBulk p" "rep_output (cells h) a (RedisOutput kBulk p) C"
    using * Cons.prems(2) by (cases out) (auto simp: rep_output_ptr_def convertible_2_mbulks_def)
  have cv: "convertible_2_mbulks os" using * Cons.prems(2) by (simp add: convertible_2_mbulks_def)
  obtain s ws where mb: "mb = s # ws" "smbulks_to_mbulks os = Some ws"
      "p = (case s of None \<Rightarrow> NullPtr | Some s \<Rightarrow> BulkPtr s)"
    using Cons.prems(3) * a(2) by (auto simp: bind_eq_Some_conv split: output_ptr.splits)
  obtain r E where r: "cells h a = Some (OutputCell kBulk r)" "rep_string (cells h) r s E" "a \<notin> E" "C = insert a E"
    using a(3) mb(3) by (auto simp: rep_string_def split: option.splits)
  let ?h = "put_cell a (OutputCell kBulk None) h"
  have "rep_list (rep_output_ptr n (cells ?h)) qs os D"
    by (rule outputs.list_frame [OF *(3)]) (use *(4) r(4) in auto)
  from Cons.IH [OF this cv mb(2), of "to @ [r]"] obtain v h' A B where IH:
    "take_bulks qs (to @ [r]) ?h = Some ((to @ [r]) @ v, h')" "brk h' = brk h"
    "rep_list (rep_string (cells h')) v ws A"
    "rep_list (rep_output_ptr n (cells h')) qs (map (\<lambda>out. RedisOutput kBulk NullPtr) os) B"
    "A \<inter> B = {}" "D = A \<union> B" "\<forall>x. x \<notin> D \<longrightarrow> cells h' x = cells ?h x" by auto
  have run: "take_bulks (q # qs) to h = Some (to @ (r # v), h')"
    using a(1) r(1) IH(1) by (cases r) (simp_all add: load_output_def assign_ptr_def put_cell_def map_upd_triv)
  have "rep_string (cells h') r s E"
    by (rule strings.frame [OF r(2)]) (use IH(7) r(3,4) *(4) in auto)
  then have "rep_list (rep_string (cells h')) (r # v) mb (E \<union> A)"
    unfolding mb(1) by (rule rep_list_ConsI [OF _ IH(3)]) (use r(4) *(4) IH(6) in auto)
  moreover have "rep_output_ptr n (cells h') q (RedisOutput kBulk NullPtr) {a}"
    using a(1) IH(7) r(4) *(4) by (auto simp: rep_output_ptr_def)
  then have "rep_list (rep_output_ptr n (cells h')) (q # qs) (map (\<lambda>out. RedisOutput kBulk NullPtr) outs) ({a} \<union> B)"
    unfolding *(1) list.map by (rule rep_list_ConsI [OF _ IH(4)]) (use r(4) *(4) IH(6) in auto)
  moreover have "(E \<union> A) \<inter> ({a} \<union> B) = {}" "T = (E \<union> A) \<union> ({a} \<union> B)"
    using r(3,4) *(4,5) IH(5,6) by auto
  moreover have "\<forall>x. x \<notin> T \<longrightarrow> cells h' x = cells h x" using IH(7) *(5) r(4) by auto
  ultimately show ?case using run IH(2) by blast
qed

lemma convert_smbulks_runs:
  assumes "rep_smbulk n (cells h) a outs A" "rep_mbulk (cells h) b mb B" "A \<inter> B = {}"
    and "convertible_2_mbulks outs" "smbulks_to_mbulks outs = Some mb'"
  obtains h' w V where "h_convert_smbulks n (Some a) (Some b) h = Some (True, h')" "brk h' = brk h"
    "cells h' a = Some (SmbulkCell [])" "cells h' b = Some (MbulkCell w)"
    "rep_list (rep_string (cells h')) w mb' V" "V \<subseteq> A - {a}"
    "\<And>x. x \<notin> {a, b} \<union> V \<Longrightarrow> cells h' x = (if x \<in> A \<union> B then None else cells h x)"
proof -
  obtain qs where qs: "cells h a = Some (SmbulkCell qs)" using assms(1) by (auto simp: rep_vector_def)
  note a = smbulks.vector_cell [OF assms(1) qs]
  have b: "b \<in> B" "b \<notin> A" "a \<notin> B" "a \<noteq> b" using a assms(2,3) by (auto simp: rep_vector_def)
  let ?h1 = "put_cell b (MbulkCell []) (release (B - {b}) h)"
  have "rep_list (rep_output_ptr n (cells ?h1)) qs outs (A - {a})"
    by (rule outputs.list_frame [OF conjunct2 [OF a]]) (use assms(3) b in \<open>auto simp: restrict_map_def\<close>)
  from take_bulks_moves [OF this assms(4,5), of "[]"] obtain w h2 V W where T:
    "take_bulks qs [] ?h1 = Some ([] @ w, h2)" "brk h2 = brk ?h1" "rep_list (rep_string (cells h2)) w mb' V"
    "rep_list (rep_output_ptr n (cells h2)) qs (map (\<lambda>out. RedisOutput kBulk NullPtr) outs) W"
    "V \<inter> W = {}" "A - {a} = V \<union> W" "\<forall>x. x \<notin> A - {a} \<longrightarrow> cells h2 x = cells ?h1 x"
    by (elim exE conjE) (rule that)
  let ?h3 = "put_cell b (MbulkCell w) h2"
  have VW: "a \<notin> V" "b \<notin> V" "a \<notin> W" "b \<notin> W" using T(6) b by blast+
  have "rep_list (rep_output_ptr n (cells ?h3)) qs (map (\<lambda>out. RedisOutput kBulk NullPtr) outs) W"
    by (rule outputs.list_frame [OF T(4)]) (use VW in auto)
  moreover have "cells ?h3 a = Some (SmbulkCell qs)" using T(7) qs b by (simp add: restrict_map_def)
  ultimately have "rep_smbulk n (cells ?h3) a (map (\<lambda>out. RedisOutput kBulk NullPtr) outs) (insert a W)"
    using VW(3) unfolding rep_vector_def by blast
  note clear = smbulks.vector_clear [OF this]
  let ?h4 = "put_cell a (SmbulkCell []) (release (insert a W - {a}) ?h3)"
  have "load_mbulk b h2 = Some []" using T(7) b by (simp add: load_mbulk_def)
  then have run: "h_convert_smbulks n (Some a) (Some b) h = Some (True, ?h4)"
    using qs convertible_2_mbulks_refines [OF conjunct2 [OF a]] assms(4) mbulks.vector_clear [OF assms(2)] T(1) clear
    by (simp add: h_convert_smbulks_def load_smbulk_def del: cell_simps)
  have strs: "rep_list (rep_string (cells ?h4)) w mb' V"
    by (rule strings.list_frame [OF T(3)]) (use T(5) VW in \<open>auto simp: restrict_map_def\<close>)
  have "cells ?h4 x = (if x \<in> A \<union> B then None else cells h x)" if "x \<notin> {a, b} \<union> V" for x
  proof (cases "x \<in> W")
    case True
    with that T(6) have "x \<in> A" by blast
    with True that show ?thesis by (simp add: restrict_map_def)
  next
    case False
    with that T(6) have "x \<notin> A" by blast
    with False that T(7) show ?thesis by (simp add: restrict_map_def)
  qed
  with that [OF run _ _ _ strs] show ?thesis using T(2,6) VW b by (auto simp: restrict_map_def)
qed

lemma convert_smbulks_moves:
  assumes "heap_ok h" "rep_smbulk n (cells h) a outs A" "rep_mbulk (cells h) b mb B" "A \<inter> B = {}"
    and "convert_smbulks (Some outs) (Some mb) = Some (ok, Some outs', Some mb')"
  shows "hands_over h (A \<union> B) (h_convert_smbulks n (Some a) (Some b) h) ok
    (\<lambda>c. rep_smbulk n c a outs') (\<lambda>c. rep_mbulk c b mb')"
proof -
  note AB = smbulks.vector_inside [OF assms(2)] mbulks.vector_inside [OF assms(3)]
  have ab: "a \<in> A" "b \<in> B" "b \<notin> A" using assms(2-4) by (auto simp: rep_vector_def)
  show ?thesis
  proof (cases "convertible_2_mbulks outs")
    case False
    obtain qs where qs: "cells h a = Some (SmbulkCell qs)" using assms(2) by (auto simp: rep_vector_def)
    from convertible_2_mbulks_refines [OF conjunct2 [OF smbulks.vector_cell [OF assms(2) qs]]] False qs
    have "h_convert_smbulks n (Some a) (Some b) h = Some (False, h)"
      by (simp add: h_convert_smbulks_def load_smbulk_def)
    moreover have "\<not> ok" "outs' = outs" "mb' = mb" using assms(5) False by (auto simp: convert_smbulks_def)
    ultimately show ?thesis using assms(1-4) AB
      by (intro hands_overI [of _ _ h _ A _ B]) (auto intro: reshapes_refl)
  next
    case True
    with assms(5) have v: "ok" "outs' = []" "smbulks_to_mbulks outs = Some mb'"
      by (auto simp: convert_smbulks_def bind_eq_Some_conv)
    obtain h' w V where R: "h_convert_smbulks n (Some a) (Some b) h = Some (True, h')" "brk h' = brk h"
        "cells h' a = Some (SmbulkCell [])" "cells h' b = Some (MbulkCell w)"
        "rep_list (rep_string (cells h')) w mb' V" "V \<subseteq> A - {a}"
        "\<And>x. x \<notin> {a, b} \<union> V \<Longrightarrow> cells h' x = (if x \<in> A \<union> B then None else cells h x)"
      using convert_smbulks_runs [OF assms(2-4) True v(3)] by metis
    have b: "b \<notin> V" using R(6) ab by blast
    then have mb: "rep_mbulk (cells h') b mb' (insert b V)" using R(4,5) unfolding rep_vector_def by blast
    have "cells h' x = cells h x" if "x \<notin> A \<union> B" for x
    proof -
      have "x \<notin> {a, b} \<union> V" using that R(6) ab by blast
      with R(7) that show ?thesis by simp
    qed
    then have "reshapes h (A \<union> B) h' ({a} \<union> insert b V)"
      by (intro reshapes_shrink [OF assms(1)])
        (use AB R(2,6,7) ab mbulks.vector_inside [OF mb] in \<open>auto simp: R(3)\<close>)
    with R(1,3,6) v mb ab b show ?thesis
      by (intro hands_overI [of _ _ h' _ "{a}" _ "insert b V"]) auto
  qed
qed

lemma get_mbulks_strings_empties:
  assumes "heap_ok h" "rep_output (cells h) a out S" "output_wf out"
    and "get_mbulks_strings (Some v) out = Some (ok, v', out')"
  shows "\<exists>h' S'. h_get_mbulks_strings (Some v) a h = Some (ok, v', h') \<and> rep_output (cells h') a out' S'
    \<and> reshapes h S h' S'"
proof (cases "is_mbulks out")
  case False
  obtain q where "cells h a = Some (OutputCell (out_type out) q)" "out_type out = kMultiBulk \<Longrightarrow> q = None"
    using rep_output_cell [OF assms(2)] False by (auto simp: is_mbulks_def)
  then have "h_get_mbulks_strings (Some v) a h = Some (False, Some v, h)"
    by (auto simp: h_get_mbulks_strings_def load_output_def)
  moreover have "\<not> ok" "v' = Some v" "out' = out" using assms(4) False by (auto simp: get_mbulks_strings_def)
  ultimately show ?thesis using assms(1,2) rep_inside(1) [OF assms(2)] reshapes_refl by auto
next
  case True
  then obtain mb where out: "out = RedisOutput kMultiBulk (MbulksPtr mb)"
    using assms(3) by (cases out; cases "out_ptr out") (auto simp: is_mbulks_def)
  then obtain m T where m: "cells h a = Some (OutputCell kMultiBulk (Some m))" "rep_mbulk (cells h) m mb T"
      "a \<notin> T" "S = insert a T" using assms(2) by auto
  from convert_mbulks_empties [OF assms(1) m(2)] obtain h' where h':
    "h_convert_mbulks (Some m) (Some v) h = Some (snd (convert_mbulks (Some mb) (Some v)), h')"
    "rep_mbulk (cells h') m [] {m}" "reshapes h T h' {m}" by blast
  have mT: "m \<in> T" using m(2) by (auto simp: rep_vector_def)
  then have "cells h' a = cells h a" "a \<noteq> m" using h'(3) m(3) by (auto simp: reshapes_def)
  then have "rep_output (cells h') a (RedisOutput kMultiBulk (MbulksPtr [])) (insert a {m})"
    using h'(2) m(1) by (intro rep_outputI) auto
  moreover have "reshapes h S h' (insert a {m})"
    using h'(3) m mT by (auto simp: reshapes_def)
  moreover have "ok" "v' = snd (convert_mbulks (Some mb) (Some v))" "out' = RedisOutput kMultiBulk (MbulksPtr [])"
    using assms(4) True out by (auto simp: get_mbulks_strings_def)
  ultimately show ?thesis using h'(1) m(1) by (auto simp: h_get_mbulks_strings_def load_output_def)
qed

lemma rep_output_moved:
  assumes "rep_output c b out B" "c b = Some (OutputCell t q)" "c' a = Some (OutputCell t q)" "a \<notin> B - {b}"
    and "\<And>x. x \<in> B - {b} \<Longrightarrow> c' x = c x"
  shows "rep_output c' a out (insert a (B - {b}))"
proof -
  obtain p where out: "out = RedisOutput t p" "rep_ptr c q p (B - {b})" using assms(1,2) by (cases out) auto
  then show ?thesis using assms(3-5) by (auto intro!: rep_outputI rep_frame(2) [OF out(2)] simp del: rep_output.simps)
qed

lemma swap_output_exchanges:
  assumes "heap_ok h" "rep_output (cells h) a x A" "rep_output (cells h) b y B" "A \<inter> B = {}"
  shows "hands_over h (A \<union> B) (map_option (Pair True) (h_swap_output a b h)) True
    (\<lambda>c. rep_output c a y) (\<lambda>c. rep_output c b x)"
proof -
  obtain t q u r where c: "cells h a = Some (OutputCell t q)" "cells h b = Some (OutputCell u r)"
    using assms(2,3) by (auto elim!: rep_output_cell)
  have ab: "a \<in> A" "b \<in> B" "a \<notin> B" "b \<notin> A" "a \<noteq> b"
    using rep_output_self [OF assms(2)] rep_output_self [OF assms(3)] assms(4) by auto
  let ?h' = "put_cell b (OutputCell t q) (put_cell a (OutputCell u r) h)"
  have "h_swap_output a b h = Some ?h'" using c by (simp add: h_swap_output_def load_output_def)
  moreover have "rep_output (cells ?h') a y (insert a (B - {b}))"
    by (rule rep_output_moved [OF assms(3) c(2)]) (use ab in auto)
  moreover have "rep_output (cells ?h') b x (insert b (A - {a}))"
    by (rule rep_output_moved [OF assms(2) c(1)]) (use ab in auto)
  moreover have "reshapes h (A \<union> B) ?h' (insert a (B - {b}) \<union> insert b (A - {a}))"
    by (rule reshapesI [where upd = "[a \<mapsto> OutputCell u r, b \<mapsto> OutputCell t q]"])
      (use assms(1) ab rep_inside(1) [OF assms(2)] rep_inside(1) [OF assms(3)] in
        \<open>auto simp: restrict_map_def fun_eq_iff map_add_def\<close>)
  ultimately show ?thesis using ab assms(4)
    by (intro hands_overI [of _ _ ?h' _ "insert a (B - {b})" _ "insert b (A - {a})"]) auto
qed

section \<open>A sample store\<close>

text \<open>A store with one output, two elements of type bulk and integer, and a vector and a string of a caller.\<close>

definition sample_heap :: heap where
  "sample_heap = \<lparr>cells = [0 \<mapsto> OutputCell kSpecialMultiBulk (Some 1), 1 \<mapsto> SmbulkCell [Some 2, Some 4],
     2 \<mapsto> OutputCell kBulk (Some 3), 3 \<mapsto> StringCell ''a'', 4 \<mapsto> OutputCell kInteger (Some 5), 5 \<mapsto> IntCell 7,
     6 \<mapsto> MbulkCell [Some 7, None], 7 \<mapsto> StringCell ''b''], brk = 8\<rparr>"

definition sample_output :: RedisOutput where
  "sample_output = RedisOutput kSpecialMultiBulk
     (SmbulksPtr [RedisOutput kBulk (BulkPtr ''a''), RedisOutput kInteger (IntPtr 7)])"

lemma sample_heap_rep:
  "rep_output (cells sample_heap) 0 sample_output {0, 1, 2, 3, 4, 5}"
  "rep_mbulk (cells sample_heap) 6 [Some ''b'', None] {6, 7}"
  "output_wf sample_output" "heap_ok sample_heap" "nested 1 sample_output"
proof -
  have "rep_list (rep_string (cells sample_heap)) [Some 7, None] [Some ''b'', None] ({7} \<union> ({} \<union> {}))"
    by (intro rep_list_ConsI) (auto simp: sample_heap_def rep_string_def)
  then show "rep_mbulk (cells sample_heap) 6 [Some ''b'', None] {6, 7}"
    unfolding rep_vector_def by (intro exI [of _ "[Some 7, None]"] exI [of _ "{7}"]) (simp add: sample_heap_def)
  let ?P = "\<lambda>q out A. \<exists>a. q = Some a \<and> rep_output (cells sample_heap) a out A"
  have "rep_list ?P [Some 2, Some 4] [RedisOutput kBulk (BulkPtr ''a''), RedisOutput kInteger (IntPtr 7)]
      ({2, 3} \<union> ({4, 5} \<union> {}))"
    by (intro rep_list_ConsI) (auto simp: sample_heap_def rep_string_def)
  then have "rep_ptr (cells sample_heap) (Some 1) (out_ptr sample_output) (insert 1 ({2, 3} \<union> ({4, 5} \<union> {})))"
    unfolding sample_output_def RedisOutput.sel rep_ptr.simps
    by (intro exI [of _ 1] exI [of _ "[Some 2, Some 4]"] exI conjI) (auto simp: sample_heap_def)
  then have "rep_output (cells sample_heap) 0 sample_output (insert 0 (insert 1 ({2, 3} \<union> ({4, 5} \<union> {}))))"
    unfolding sample_output_def RedisOutput.sel by (rule rep_outputI [rotated]) (simp_all add: sample_heap_def)
  then show "rep_output (cells sample_heap) 0 sample_output {0, 1, 2, 3, 4, 5}"
    by (simp only: Un_insert_left Un_empty_left Un_empty_right)
qed (simp_all add: sample_output_def sample_heap_def heap_ok_def)

section \<open>The properties\<close>

text \<open>C14: deleting frees exactly what is owned.  However deep an output is nested, \<open>clear\<close> and \<open>delete\<close>
  return, free every cell of its footprint once (a second \<open>delete\<close> of a cell would be undefined) and
  leave every other cell alone; \<open>clear\<close> keeps the output itself, with its tag and a null pointer.  The
  same holds for vectors of bulks, of outputs and of commands.\<close>

theorem delete_frees_footprint:
  assumes "rep_output (cells h) a out S" "output_wf out"
  shows "(\<exists>k. \<forall>n\<ge>k. h_delete_output n (Some a) h = Some (release S h)
      \<and> h_clear n a h = Some (put_cell a (OutputCell (out_type out) None) (release (S - {a}) h)))
    \<and> (\<forall>b mb M. rep_mbulk (cells h) b mb M \<longrightarrow> h_delete_mbulks (Some b) h = Some (release M h)
        \<and> h_clear_mbulks (Some b) h = Some (put_cell b (MbulkCell []) (release (M - {b}) h)))
    \<and> (\<forall>n b outs M. rep_smbulk n (cells h) b outs M
        \<longrightarrow> h_delete_smbulks (h_delete_output n) (Some b) h = Some (release M h)
        \<and> h_clear_smbulks (h_delete_output n) (Some b) h = Some (put_cell b (SmbulkCell []) (release (M - {b}) h)))
    \<and> (\<forall>n b cs M. rep_commands n (cells h) b cs M \<longrightarrow> h_delete_commands n (Some b) h = Some (release M h)
        \<and> h_clear_commands n (Some b) h = Some (put_cell b (CommandsCell []) (release (M - {b}) h)))"
proof -
  obtain k where "nested k out" using nested_exists by blast
  then have "h_delete_output n (Some a) h = Some (release S h)
      \<and> h_clear n a h = Some (put_cell a (OutputCell (out_type out) None) (release (S - {a}) h))" if "n \<ge> k" for n
    using assms nested_mono [OF _ that] h_clear_releases outputs.destroy [of n h "Some a" out S]
    by (auto simp: rep_output_ptr_def)
  then show ?thesis
    by (intro conjI) (auto intro: delete_mbulks_releases mbulks.vector_clear
        delete_smbulks_releases [OF outputs_owned] smbulks.vector_clear delete_commands_releases
        command_vectors.vector_clear)
qed

theorem delete_frees_footprint_witness:
  "(\<exists>k. \<forall>n\<ge>k. h_delete_output n (Some 0) sample_heap = Some (release {0, 1, 2, 3, 4, 5} sample_heap))
   \<and> h_delete_mbulks (Some 6) sample_heap = Some (release {6, 7} sample_heap)"
  using delete_frees_footprint [OF sample_heap_rep(1,3), THEN conjunct1]
    delete_frees_footprint [OF sample_heap_rep(1,3), THEN conjunct2, THEN conjunct1, rule_format, OF sample_heap_rep(2)]
  by auto

text \<open>C15: a setter makes the object hold what the value-level setter says: it frees what the output owned
  before, allocates what it owns now, and touches nothing else; the setters for vectors take the
  elements out of the caller's vector, which is empty afterwards.\<close>

theorem setters_replace_content:
  assumes "holds_output n h a out S"
  shows "sets_to h a S (h_set_status n s a h) (set_status s out)
    \<and> sets_to h a S (h_set_error n s a h) (set_error s out)
    \<and> sets_to h a S (h_set_i n i a h) (set_i i out)
    \<and> sets_to h a S (h_set_bulk n s a h) (set_bulk s out)
    \<and> sets_to h a S (h_set_nil_bulk n a h) (set_nil_bulk out)
    \<and> sets_to h a S (h_set_nil_mbulks n a h) (set_nil_mbulks out)
    \<and> sets_to h a S (h_set_nil_smbulks n a h) (set_nil_smbulks out)
    \<and> (\<forall>b mb M. rep_mbulk (cells h) b mb M \<and> S \<inter> M = {} \<longrightarrow>
        (\<exists>h' S'. h_set_mbulks n (Some b) a h = Some h' \<and> b \<notin> S' \<and> reshapes h (S \<union> M) h' (insert b S')
          \<and> rep_output (cells h') a (set_mbulks (Some mb) out) S' \<and> rep_mbulk (cells h') b [] {b}))
    \<and> (\<forall>b outs M. rep_smbulk n (cells h) b outs M \<and> S \<inter> M = {} \<longrightarrow>
        (\<exists>h' S'. h_set_smbulks n (Some b) a h = Some h' \<and> b \<notin> S' \<and> reshapes h (S \<union> M) h' (insert b S')
          \<and> rep_output (cells h') a (set_smbulks (Some outs) out) S' \<and> rep_smbulk n (cells h') b [] {b}))"
  using plain_setters [OF assms] nil_setters [OF assms] set_mbulks_moves [OF assms] set_smbulks_moves [OF assms]
  by blast

theorem setters_replace_content_witness:
  "sets_to sample_heap 0 {0, 1, 2, 3, 4, 5} (h_set_i 1 8 0 sample_heap) (set_i 8 sample_output)"
  using setters_replace_content [of 1 sample_heap 0 sample_output "{0, 1, 2, 3, 4, 5}"] sample_heap_rep
  by (simp add: holds_output_def)

text \<open>C16: a getter whose destination is not null hands over what the value-level getter says.  The
  copying ones (\<open>get_status\<close>, \<open>get_error\<close>, \<open>get_i\<close>) leave the output as it is; the swapping ones
  (\<open>get_bulk\<close>, \<open>get_mbulks\<close>, \<open>get_smbulks\<close>) and the conversions of a special multi-bulk move the strings and vectors: what the caller's object owned
  before is freed, what it receives is no longer owned by the output, and no cell is shared, lost or
  freed twice.\<close>

theorem getters_hand_over:
  assumes "heap_ok h" "rep_output (cells h) a out S" "output_wf out"
  shows "(\<forall>b s ok s'. b \<notin> S \<and> cells h b = Some (StringCell s) \<and> get_status (Some s) out = Some (ok, Some s') \<longrightarrow>
        hands_over h (insert b S) (h_get_status (Some b) a h) ok
          (\<lambda>c. rep_output c a out) (\<lambda>c B. c b = Some (StringCell s') \<and> B = {b}))
    \<and> (\<forall>b s ok s'. b \<notin> S \<and> cells h b = Some (StringCell s) \<and> get_error (Some s) out = Some (ok, Some s') \<longrightarrow>
        hands_over h (insert b S) (h_get_error (Some b) a h) ok
          (\<lambda>c. rep_output c a out) (\<lambda>c B. c b = Some (StringCell s') \<and> B = {b}))
    \<and> (\<forall>b v ok v'. b \<notin> S \<and> cells h b = Some (IntCell v) \<and> get_i (Some v) out = Some (ok, Some v') \<longrightarrow>
        hands_over h (insert b S) (h_get_i (Some b) a h) ok
          (\<lambda>c. rep_output c a out) (\<lambda>c B. c b = Some (IntCell v') \<and> B = {b}))
    \<and> (\<forall>b s ok s' out'. b \<notin> S \<and> cells h b = Some (StringCell s) \<and> get_bulk (Some s) out = Some (ok, Some s', out') \<longrightarrow>
        hands_over h (insert b S) (h_get_bulk (Some b) a h) ok
          (\<lambda>c. rep_output c a out') (\<lambda>c B. c b = Some (StringCell s') \<and> B = {b}))
    \<and> (\<forall>b us M ok us' out'. S \<inter> M = {} \<and> rep_mbulk (cells h) b us M \<and> get_mbulks (Some us) out = Some (ok, Some us', out') \<longrightarrow>
        hands_over h (S \<union> M) (h_get_mbulks (Some b) a h) ok (\<lambda>c. rep_output c a out') (\<lambda>c. rep_mbulk c b us'))
    \<and> (\<forall>n b us M ok us' out'. S \<inter> M = {} \<and> rep_smbulk n (cells h) b us M \<and> nested (Suc n) out
        \<and> get_smbulks (Some us) out = Some (ok, Some us', out') \<longrightarrow>
        hands_over h (S \<union> M) (h_get_smbulks n (Some b) a h) ok (\<lambda>c. rep_output c a out') (\<lambda>c. rep_smbulk n c b us'))
    \<and> (\<forall>v ok v' out'. get_mbulks_strings (Some v) out = Some (ok, v', out') \<longrightarrow>
        (\<exists>h' S'. h_get_mbulks_strings (Some v) a h = Some (ok, v', h') \<and> rep_output (cells h') a out' S'
          \<and> reshapes h S h' S'))
    \<and> (\<forall>n d outs D b mb B ok outs' mb'. D \<inter> B = {} \<and> rep_smbulk n (cells h) d outs D \<and> rep_mbulk (cells h) b mb B
        \<and> convert_smbulks (Some outs) (Some mb) = Some (ok, Some outs', Some mb') \<longrightarrow>
        hands_over h (D \<union> B) (h_convert_smbulks n (Some d) (Some b) h) ok
          (\<lambda>c. rep_smbulk n c d outs') (\<lambda>c. rep_mbulk c b mb'))"
  by (intro conjI allI impI; (elim conjE)?; rule copy_getters_refine [OF assms] get_bulk_refines [OF assms]
      get_mbulks_refines [OF assms] get_smbulks_refines [OF assms] get_mbulks_strings_empties [OF assms]
      convert_smbulks_moves [OF assms(1)]; assumption)

theorem getters_hand_over_witness:
  "hands_over sample_heap ({0, 1, 2, 3, 4, 5} \<union> {6, 7}) (h_get_mbulks (Some 6) 0 sample_heap) False
     (\<lambda>c. rep_output c 0 sample_output) (\<lambda>c. rep_mbulk c 6 [])"
  by (rule getters_hand_over [OF sample_heap_rep(4,1,3), THEN conjunct2, THEN conjunct2, THEN conjunct2, THEN conjunct2, THEN conjunct1,
        rule_format], intro conjI, simp, rule sample_heap_rep(2))
    (simp add: get_mbulks_def is_mbulks_def sample_output_def)

end
