(* ===== verification/Redis2_Methods.thy ===== *)
theory Redis2_Methods
  imports Sample
begin

text \<open>
  The methods of the client for one server, family by family: each sends the request that its
  name and its parameters say and returns what the server replied.  The proofs go through the
  command table, so they also establish that every method passes a number of arguments that
  the table accepts and reads the type of reply that the table announces.
\<close>

section \<open>The rows of the command table\<close>

lemma info_at [push_simps]:
  "s_command_map ! Suc 0 = info APPEND ''APPEND'' (2) kInteger"
  "s_command_map ! 2 = info AUTH ''AUTH'' (1) kStatus"
  "s_command_map ! 3 = info BGREWRITEAOF ''BGREWRITEAOF'' (0) kStatus"
  "s_command_map ! 4 = info BGSAVE ''BGSAVE'' (0) kStatus"
  "s_command_map ! 5 = info BITCOUNT ''BITCOUNT'' (- 1) kInteger"
  "s_command_map ! 6 = info BITOP ''BITOP'' (- 3) kInteger"
  "s_command_map ! 7 = info BLPOP ''BLPOP'' (- 2) kMultiBulk"
  "s_command_map ! 8 = info BRPOP ''BRPOP'' (- 2) kMultiBulk"
  "s_command_map ! 9 = info BRPOPLPUSH ''BRPOPLPUSH'' (3) kDepends"
  "s_command_map ! 10 = info CONFIG ''CONFIG'' (- 1) kDepends"
  "s_command_map ! 11 = info DBSIZE ''DBSIZE'' (0) kInteger"
  "s_command_map ! 12 = info DEBUG ''DEBUG'' (- 1) kDepends"
  "s_command_map ! 13 = info DECR ''DECR'' (1) kInteger"
  "s_command_map ! 14 = info DECRBY ''DECRBY'' (2) kInteger"
  "s_command_map ! 15 = info DEL ''DEL'' (- 1) kInteger"
  "s_command_map ! 16 = info DISCARD ''DISCARD'' (0) kStatus"
  "s_command_map ! 17 = info DUMP ''DUMP'' (1) kBulk"
  "s_command_map ! 18 = info ECHO ''ECHO'' (1) kBulk"
  "s_command_map ! 19 = info EVAL ''EVAL'' (- 2) kDepends"
  "s_command_map ! 20 = info EVALSHA ''EVALSHA'' (- 2) kDepends"
  "s_command_map ! 21 = info EXEC ''EXEC'' (0) kSpecialMultiBulk"
  "s_command_map ! 22 = info EXISTS ''EXISTS'' (1) kInteger"
  "s_command_map ! 23 = info EXPIRE ''EXPIRE'' (2) kInteger"
  "s_command_map ! 24 = info EXPIREAT ''EXPIREAT'' (2) kInteger"
  "s_command_map ! 25 = info FLUSHALL ''FLUSHALL'' (0) kStatus"
  "s_command_map ! 26 = info FLUSHDB ''FLUSHDB'' (0) kStatus"
  "s_command_map ! 27 = info GET ''GET'' (1) kBulk"
  "s_command_map ! 28 = info GETBIT ''GETBIT'' (2) kInteger"
  "s_command_map ! 29 = info GETRANGE ''GETRANGE'' (3) kBulk"
  "s_command_map ! 30 = info GETSET ''GETSET'' (2) kBulk"
  "s_command_map ! 31 = info HDEL ''HDEL'' (- 2) kInteger"
  "s_command_map ! 32 = info HEXISTS ''HEXISTS'' (2) kInteger"
  "s_command_map ! 33 = info HGET ''HGET'' (2) kBulk"
  "s_command_map ! 34 = info HGETALL ''HGETALL'' (1) kMultiBulk"
  "s_command_map ! 35 = info HINCRBY ''HINCRBY'' (3) kInteger"
  "s_command_map ! 36 = info HINCRBYFLOAT ''HINCRBYFLOAT'' (3) kBulk"
  "s_command_map ! 37 = info HKEYS ''HKEYS'' (1) kMultiBulk"
  "s_command_map ! 38 = info HLEN ''HLEN'' (1) kInteger"
  "s_command_map ! 39 = info HMGET ''HMGET'' (- 2) kMultiBulk"
  "s_command_map ! 40 = info HMSET ''HMSET'' (- 3) kStatus"
  "s_command_map ! 41 = info HSET ''HSET'' (3) kInteger"
  "s_command_map ! 42 = info HSETNX ''HSETNX'' (3) kInteger"
  "s_command_map ! 43 = info HVALS ''HVALS'' (1) kMultiBulk"
  "s_command_map ! 44 = info INCR ''INCR'' (1) kInteger"
  "s_command_map ! 45 = info INCRBY ''INCRBY'' (2) kInteger"
  "s_command_map ! 46 = info INCRBYFLOAT ''INCRBYFLOAT'' (2) kBulk"
  "s_command_map ! 47 = info INFO ''INFO'' (ARGC_NO_CHECKING) kBulk"
  "s_command_map ! 48 = info KEYS ''KEYS'' (1) kMultiBulk"
  "s_command_map ! 49 = info LASTSAVE ''LASTSAVE'' (0) kInteger"
  "s_command_map ! 50 = info LINDEX ''LINDEX'' (2) kBulk"
  "s_command_map ! 51 = info LINSERT ''LINSERT'' (4) kInteger"
  "s_command_map ! 52 = info LLEN ''LLEN'' (1) kInteger"
  "s_command_map ! 53 = info LPOP ''LPOP'' (1) kBulk"
  "s_command_map ! 54 = info LPUSH ''LPUSH'' (- 2) kInteger"
  "s_command_map ! 55 = info LPUSHX ''LPUSHX'' (2) kInteger"
  "s_command_map ! 56 = info LRANGE ''LRANGE'' (3) kMultiBulk"
  "s_command_map ! 57 = info LREM ''LREM'' (3) kInteger"
  "s_command_map ! 58 = info LSET ''LSET'' (3) kStatus"
  "s_command_map ! 59 = info LTRIM ''LTRIM'' (3) kStatus"
  "s_command_map ! 60 = info MGET ''MGET'' (- 1) kMultiBulk"
  "s_command_map ! 61 = info MIGRATE ''MIGRATE'' (5) kStatus"
  "s_command_map ! 62 = info MONITOR ''MONITOR'' (0) kDepends"
  "s_command_map ! 63 = info MOVE ''MOVE'' (2) kInteger"
  "s_command_map ! 64 = info MSET ''MSET'' (- 2) kStatus"
  "s_command_map ! 65 = info MSETNX ''MSETNX'' (- 2) kInteger"
  "s_command_map ! 66 = info MULTI ''MULTI'' (0) kStatus"
  "s_command_map ! 67 = info OBJECT ''OBJECT'' (- 1) kDepends"
  "s_command_map ! 68 = info PERSIST ''PERSIST'' (1) kInteger"
  "s_command_map ! 69 = info PEXPIRE ''PEXPIRE'' (2) kInteger"
  "s_command_map ! 70 = info PEXPIREAT ''PEXPIREAT'' (2) kInteger"
  "s_command_map ! 71 = info PING ''PING'' (0) kStatus"
  "s_command_map ! 72 = info PSETEX ''PSETEX'' (3) kStatus"
  "s_command_map ! 73 = info PSUBSCRIBE ''PSUBSCRIBE'' (- 1) kSpecialMultiBulk"
  "s_command_map ! 74 = info PTTL ''PTTL'' (1) kInteger"
  "s_command_map ! 75 = info PUBLISH ''PUBLISH'' (2) kInteger"
  "s_command_map ! 76 = info PUNSUBSCRIBE ''PUNSUBSCRIBE'' (ARGC_NO_CHECKING) kSpecialMultiBulk"
  "s_command_map ! 77 = info QUIT ''QUIT'' (0) kStatus"
  "s_command_map ! 78 = info RANDOMKEY ''RANDOMKEY'' (0) kBulk"
  "s_command_map ! 79 = info RENAME ''RENAME'' (2) kStatus"
  "s_command_map ! 80 = info RENAMENX ''RENAMENX'' (2) kInteger"
  "s_command_map ! 81 = info RESTORE ''RESTORE'' (3) kStatus"
  "s_command_map ! 82 = info RPOP ''RPOP'' (1) kBulk"
  "s_command_map ! 83 = info RPOPLPUSH ''RPOPLPUSH'' (2) kBulk"
  "s_command_map ! 84 = info RPUSH ''RPUSH'' (- 2) kInteger"
  "s_command_map ! 85 = info RPUSHX ''RPUSHX'' (2) kInteger"
  "s_command_map ! 86 = info SADD ''SADD'' (- 2) kInteger"
  "s_command_map ! 87 = info SAVE ''SAVE'' (0) kDepends"
  "s_command_map ! 88 = info SCARD ''SCARD'' (1) kInteger"
  "s_command_map ! 89 = info SCRIPT ''SCRIPT'' (- 1) kDepends"
  "s_command_map ! 90 = info SDIFF ''SDIFF'' (- 1) kMultiBulk"
  "s_command_map ! 91 = info SDIFFSTORE ''SDIFFSTORE'' (- 2) kInteger"
  "s_command_map ! 92 = info SELECT ''SELECT'' (1) kStatus"
  "s_command_map ! 93 = info SET ''SET'' (2) kStatus"
  "s_command_map ! 94 = info SETBIT ''SETBIT'' (3) kInteger"
  "s_command_map ! 95 = info SETEX ''SETEX'' (3) kStatus"
  "s_command_map ! 96 = info SETNX ''SETNX'' (2) kInteger"
  "s_command_map ! 97 = info SETRANGE ''SETRANGE'' (3) kInteger"
  "s_command_map ! 98 = info SHUTDOWN ''SHUTDOWN'' (ARGC_NO_CHECKING) kStatus"
  "s_command_map ! 99 = info SINTER ''SINTER'' (- 1) kMultiBulk"
  "s_command_map ! 100 = info SINTERSTORE ''SINTERSTORE'' (- 2) kInteger"
  "s_command_map ! 101 = info SISMEMBER ''SISMEMBER'' (2) kInteger"
  "s_command_map ! 102 = info SLAVEOF ''SLAVEOF'' (2) kStatus"
  "s_command_map ! 103 = info SLOWLOG ''SLOWLOG'' (1) kDepends"
  "s_command_map ! 104 = info SMEMBERS ''SMEMBERS'' (1) kMultiBulk"
  "s_command_map ! 105 = info SMOVE ''SMOVE'' (3) kInteger"
  "s_command_map ! 106 = info SORT ''SORT'' (- 1) kMultiBulk"
  "s_command_map ! 107 = info SPOP ''SPOP'' (1) kBulk"
  "s_command_map ! 108 = info SRANDMEMBER ''SRANDMEMBER'' (1) kBulk"
  "s_command_map ! 109 = info SREM ''SREM'' (- 2) kInteger"
  "s_command_map ! 110 = info STRLEN ''STRLEN'' (1) kInteger"
  "s_command_map ! 111 = info SUBSCRIBE ''SUBSCRIBE'' (- 1) kSpecialMultiBulk"
  "s_command_map ! 112 = info SUNION ''SUNION'' (- 1) kMultiBulk"
  "s_command_map ! 113 = info SUNIONSTORE ''SUNIONSTORE'' (- 2) kInteger"
  "s_command_map ! 114 = info SYNC ''SYNC'' (ARGC_NO_CHECKING) kDepends"
  "s_command_map ! 115 = info TIME ''TIME'' (0) kMultiBulk"
  "s_command_map ! 116 = info TTL ''TTL'' (1) kInteger"
  "s_command_map ! 117 = info TYPE_CMD ''TYPE'' (1) kStatus"
  "s_command_map ! 118 = info UNSUBSCRIBE ''UNSUBSCRIBE'' (ARGC_NO_CHECKING) kSpecialMultiBulk"
  "s_command_map ! 119 = info UNWATCH ''UNWATCH'' (0) kStatus"
  "s_command_map ! 120 = info WATCH ''WATCH'' (- 1) kStatus"
  "s_command_map ! 121 = info ZADD ''ZADD'' (- 3) kInteger"
  "s_command_map ! 122 = info ZCARD ''ZCARD'' (1) kInteger"
  "s_command_map ! 123 = info ZCOUNT ''ZCOUNT'' (3) kInteger"
  "s_command_map ! 124 = info ZINCRBY ''ZINCRBY'' (3) kBulk"
  "s_command_map ! 125 = info ZINTERSTORE ''ZINTERSTORE'' (- 3) kInteger"
  "s_command_map ! 126 = info ZRANGE ''ZRANGE'' (- 3) kMultiBulk"
  "s_command_map ! 127 = info ZRANGEBYSCORE ''ZRANGEBYSCORE'' (- 3) kMultiBulk"
  "s_command_map ! 128 = info ZRANK ''ZRANK'' (2) kDepends"
  "s_command_map ! 129 = info ZREM ''ZREM'' (- 2) kInteger"
  "s_command_map ! 130 = info ZREMRANGEBYRANK ''ZREMRANGEBYRANK'' (3) kInteger"
  "s_command_map ! 131 = info ZREMRANGEBYSCORE ''ZREMRANGEBYSCORE'' (3) kInteger"
  "s_command_map ! 132 = info ZREVRANGE ''ZREVRANGE'' (- 3) kMultiBulk"
  "s_command_map ! 133 = info ZREVRANGEBYSCORE ''ZREVRANGEBYSCORE'' (- 3) kMultiBulk"
  "s_command_map ! 134 = info ZREVRANK ''ZREVRANK'' (2) kDepends"
  "s_command_map ! 135 = info ZSCORE ''ZSCORE'' (2) kBulk"
  "s_command_map ! 136 = info ZUNIONSTORE ''ZUNIONSTORE'' (- 3) kInteger"
  "s_command_map ! 137 = info COMMAND_MAX ''COMMAND_MAX'' (ARGC_NO_CHECKING) kNone"
  by (simp_all add: s_command_map_def)

lemma nonempty_length: "xs \<noteq> [] \<Longrightarrow> Suc 0 \<le> length xs"
  by (cases xs) auto

lemmas method_simps = builds_def command_with_in push_simps argc_fits_def nonempty_length

text \<open>C20: the 55 methods listed here (they have an integer reply and only texts and integers as
  parameters) send exactly one request, their command name followed by their parameters, and return the
  integer of the server's reply through \<open>_return\<close>; nothing more of the stream is consumed.  The client
  is ready (its connection is open and has just been checked, so that no reconnection sends \<open>SELECT\<close>
  first) and in no transaction, the request is below \<open>2^31\<close> bytes, the integer has 64 bits, vectors are
  not empty and \<open>_return\<close> is not null.  \<open>hset\<close>, \<open>hincr\<close> and \<open>linsert\<close>, and \<open>zadd\<close>, \<open>zinterstore\<close> and \<open>zunionstore\<close>,
  whose integer replies need conversions first, are in \<open>Redis2_Replies\<close>.\<close>

theorem integer_methods:
  assumes "LONG_MIN \<le> x" "x \<le> LONG_MAX"
    and "keys \<noteq> []" "flds \<noteq> []" "values \<noteq> []" "members \<noteq> []"
  shows "served (Redis2_del key (Some v)) ''DEL'' [key] (RInteger x) (True, Some x)
    \<and> served (Redis2_del_keys keys (Some v)) ''DEL'' keys (RInteger x) (True, Some x)
    \<and> served (Redis2_exists key (Some v)) ''EXISTS'' [key] (RInteger x) (True, Some x)
    \<and> served (Redis2_expire key seconds (Some v)) ''EXPIRE'' [key, show_int seconds] (RInteger x) (True, Some x)
    \<and> served (Redis2_expireat key abs_seconds (Some v)) ''EXPIREAT'' [key, show_int abs_seconds] (RInteger x) (True, Some x)
    \<and> served (Redis2_move key db (Some v)) ''MOVE'' [key, show_int db] (RInteger x) (True, Some x)
    \<and> served (Redis2_persist key (Some v)) ''PERSIST'' [key] (RInteger x) (True, Some x)
    \<and> served (Redis2_pexpire key milliseconds (Some v)) ''PEXPIRE'' [key, show_int milliseconds] (RInteger x) (True, Some x)
    \<and> served (Redis2_pexpireat key abs_milliseconds (Some v)) ''PEXPIREAT'' [key, show_int abs_milliseconds] (RInteger x) (True, Some x)
    \<and> served (Redis2_pttl key (Some v)) ''PTTL'' [key] (RInteger x) (True, Some x)
    \<and> served (Redis2_ttl key (Some v)) ''TTL'' [key] (RInteger x) (True, Some x)
    \<and> served (Redis2_append key value (Some v)) ''APPEND'' [key, value] (RInteger x) (True, Some x)
    \<and> served (Redis2_decr key (Some v)) ''DECR'' [key] (RInteger x) (True, Some x)
    \<and> served (Redis2_decrby key dec (Some v)) ''DECRBY'' [key, show_int dec] (RInteger x) (True, Some x)
    \<and> served (Redis2_getbit key offset (Some v)) ''GETBIT'' [key, show_int offset] (RInteger x) (True, Some x)
    \<and> served (Redis2_incr key (Some v)) ''INCR'' [key] (RInteger x) (True, Some x)
    \<and> served (Redis2_incrby key inc (Some v)) ''INCRBY'' [key, show_int inc] (RInteger x) (True, Some x)
    \<and> served (Redis2_setbit key offset bitval (Some v)) ''SETBIT'' [key, show_int offset, show_int bitval] (RInteger x) (True, Some x)
    \<and> served (Redis2_setnx key value (Some v)) ''SETNX'' [key, value] (RInteger x) (True, Some x)
    \<and> served (Redis2_setrange key offset value (Some v)) ''SETRANGE'' [key, show_int offset, value] (RInteger x) (True, Some x)
    \<and> served (Redis2_strlen key (Some v)) ''STRLEN'' [key] (RInteger x) (True, Some x)
    \<and> served (Redis2_hdel key field (Some v)) ''HDEL'' [key, field] (RInteger x) (True, Some x)
    \<and> served (Redis2_hdel_fields key flds (Some v)) ''HDEL'' ([key] @ flds) (RInteger x) (True, Some x)
    \<and> served (Redis2_hexists key field (Some v)) ''HEXISTS'' [key, field] (RInteger x) (True, Some x)
    \<and> served (Redis2_hincrby key field inc (Some v)) ''HINCRBY'' [key, field, show_int inc] (RInteger x) (True, Some x)
    \<and> served (Redis2_hlen key (Some v)) ''HLEN'' [key] (RInteger x) (True, Some x)
    \<and> served (Redis2_hsetnx key field value (Some v)) ''HSETNX'' [key, field, value] (RInteger x) (True, Some x)
    \<and> served (Redis2_llen key (Some v)) ''LLEN'' [key] (RInteger x) (True, Some x)
    \<and> served (Redis2_lpush key value (Some v)) ''LPUSH'' [key, value] (RInteger x) (True, Some x)
    \<and> served (Redis2_lpush_values key values (Some v)) ''LPUSH'' ([key] @ values) (RInteger x) (True, Some x)
    \<and> served (Redis2_lpushx key value (Some v)) ''LPUSHX'' [key, value] (RInteger x) (True, Some x)
    \<and> served (Redis2_lrem key count value (Some v)) ''LREM'' [key, show_int count, value] (RInteger x) (True, Some x)
    \<and> served (Redis2_rpush key value (Some v)) ''RPUSH'' [key, value] (RInteger x) (True, Some x)
    \<and> served (Redis2_rpush_values key values (Some v)) ''RPUSH'' ([key] @ values) (RInteger x) (True, Some x)
    \<and> served (Redis2_rpushx key value (Some v)) ''RPUSHX'' [key, value] (RInteger x) (True, Some x)
    \<and> served (Redis2_sadd key member (Some v)) ''SADD'' [key, member] (RInteger x) (True, Some x)
    \<and> served (Redis2_sadd_members key members (Some v)) ''SADD'' ([key] @ members) (RInteger x) (True, Some x)
    \<and> served (Redis2_scard key (Some v)) ''SCARD'' [key] (RInteger x) (True, Some x)
    \<and> served (Redis2_sismember key member (Some v)) ''SISMEMBER'' [key, member] (RInteger x) (True, Some x)
    \<and> served (Redis2_srem key member (Some v)) ''SREM'' [key, member] (RInteger x) (True, Some x)
    \<and> served (Redis2_srem_members key members (Some v)) ''SREM'' ([key] @ members) (RInteger x) (True, Some x)
    \<and> served (Redis2_zcard key (Some v)) ''ZCARD'' [key] (RInteger x) (True, Some x)
    \<and> served (Redis2_zcount key mn mx (Some v)) ''ZCOUNT'' [key, mn, mx] (RInteger x) (True, Some x)
    \<and> served (Redis2_zrem key member (Some v)) ''ZREM'' [key, member] (RInteger x) (True, Some x)
    \<and> served (Redis2_zrem_members key members (Some v)) ''ZREM'' ([key] @ members) (RInteger x) (True, Some x)
    \<and> served (Redis2_zremrangebyrank key start stop (Some v)) ''ZREMRANGEBYRANK'' [key, show_int start, show_int stop] (RInteger x) (True, Some x)
    \<and> served (Redis2_zremrangebyscore key mn mx (Some v)) ''ZREMRANGEBYSCORE'' [key, mn, mx] (RInteger x) (True, Some x)
    \<and> served (Redis2_renamenx key newkey (Some v)) ''RENAMENX'' [key, newkey] (RInteger x) (True, Some x)
    \<and> served (Redis2_sdiffstore destination keys (Some v)) ''SDIFFSTORE'' ([destination] @ keys) (RInteger x) (True, Some x)
    \<and> served (Redis2_sinterstore destination keys (Some v)) ''SINTERSTORE'' ([destination] @ keys) (RInteger x) (True, Some x)
    \<and> served (Redis2_smove source destination member (Some v)) ''SMOVE'' [source, destination, member] (RInteger x) (True, Some x)
    \<and> served (Redis2_sunionstore destination keys (Some v)) ''SUNIONSTORE'' ([destination] @ keys) (RInteger x) (True, Some x)
    \<and> served (Redis2_publish channel message (Some v)) ''PUBLISH'' [channel, message] (RInteger x) (True, Some x)
    \<and> served (Redis2_dbsize (Some v)) ''DBSIZE'' [] (RInteger x) (True, Some x)
    \<and> served (Redis2_lastsave (Some v)) ''LASTSAVE'' [] (RInteger x) (True, Some x)"
  unfolding
    Redis2_del_def Redis2_del_keys_def Redis2_exists_def Redis2_expire_def Redis2_expireat_def
    Redis2_move_def Redis2_persist_def Redis2_pexpire_def Redis2_pexpireat_def Redis2_pttl_def
    Redis2_ttl_def Redis2_append_def Redis2_decr_def Redis2_decrby_def Redis2_getbit_def
    Redis2_incr_def Redis2_incrby_def Redis2_setbit_def Redis2_setnx_def Redis2_setrange_def
    Redis2_strlen_def Redis2_hdel_def Redis2_hdel_fields_def Redis2_hexists_def
    Redis2_hincrby_def Redis2_hlen_def Redis2_hsetnx_def Redis2_llen_def Redis2_lpush_def
    Redis2_lpush_values_def Redis2_lpushx_def Redis2_lrem_def Redis2_rpush_def
    Redis2_rpush_values_def Redis2_rpushx_def Redis2_sadd_def Redis2_sadd_members_def
    Redis2_scard_def Redis2_sismember_def Redis2_srem_def Redis2_srem_members_def
    Redis2_zcard_def Redis2_zcount_def Redis2_zrem_def Redis2_zrem_members_def
    Redis2_zremrangebyrank_def Redis2_zremrangebyscore_def Redis2_renamenx_def
    Redis2_sdiffstore_def Redis2_sinterstore_def Redis2_smove_def Redis2_sunionstore_def
    Redis2_publish_def Redis2_dbsize_def Redis2_lastsave_def
  using assms by (intro conjI served_integer; simp add: method_simps)

lemmas small_simps = small_def wire_def bulk_text_def s_redis_line_end_def show_nat.simps

theorem integer_methods_witness:
  "\<exists>r' w'. Redis2_del ''k'' (Some 0) sample_client (sample_world ['':'', ''1'' @ CRLF])
     = Some ((True, Some 1), r', w') \<and> sent w' = wire [''DEL'', ''k''] \<and> proto_stream (proto r') w' = []"
proof -
  have h: "LONG_MIN \<le> 1" "1 \<le> LONG_MAX" by (simp_all add: LONG_MIN_def LONG_MAX_def)
  have ne: "[''k''] \<noteq> []" by simp
  have sm: "small [''DEL'', ''k'']" by (simp add: small_simps)
  have en: "concat ['':'', ''1'' @ CRLF] = encode (RInteger 1)" by code_simp
  show ?thesis
    using served_sample [OF integer_methods [OF h ne ne ne ne, THEN conjunct1] sm en] by simp
qed

text \<open>C21: the methods listed here, whose reply is a bulk, send their request and return either the
  bulk, with \<open>*is_nil\<close> false, or, for a nil reply, leave \<open>*_return\<close> alone and set \<open>*is_nil\<close>.  The bulk is not
  empty (an empty one makes the code fail and close the connection), the client is ready and in no
  transaction, the request is below \<open>2^31\<close> bytes, and the output parameters are not null.\<close>

theorem bulk_methods:
  assumes "s \<noteq> []"
  shows "served (Redis2_randomkey (Some v) (Some b)) ''RANDOMKEY'' [] (RBulk (Some s)) (True, Some s, Some False)
    \<and> served (Redis2_randomkey (Some v) (Some b)) ''RANDOMKEY'' [] (RBulk None) (True, Some v, Some True)
    \<and> served (Redis2_get key (Some v) (Some b)) ''GET'' [key] (RBulk (Some s)) (True, Some s, Some False)
    \<and> served (Redis2_get key (Some v) (Some b)) ''GET'' [key] (RBulk None) (True, Some v, Some True)
    \<and> served (Redis2_getrange key start stop (Some v) (Some b)) ''GETRANGE'' [key, show_int start, show_int stop] (RBulk (Some s)) (True, Some s, Some False)
    \<and> served (Redis2_getrange key start stop (Some v) (Some b)) ''GETRANGE'' [key, show_int start, show_int stop] (RBulk None) (True, Some v, Some True)
    \<and> served (Redis2_getset key value (Some v) (Some b)) ''GETSET'' [key, value] (RBulk (Some s)) (True, Some s, Some False)
    \<and> served (Redis2_getset key value (Some v) (Some b)) ''GETSET'' [key, value] (RBulk None) (True, Some v, Some True)
    \<and> served (Redis2_hget key field (Some v) (Some b)) ''HGET'' [key, field] (RBulk (Some s)) (True, Some s, Some False)
    \<and> served (Redis2_hget key field (Some v) (Some b)) ''HGET'' [key, field] (RBulk None) (True, Some v, Some True)
    \<and> served (Redis2_lindex key index (Some v) (Some b)) ''LINDEX'' [key, show_int index] (RBulk (Some s)) (True, Some s, Some False)
    \<and> served (Redis2_lindex key index (Some v) (Some b)) ''LINDEX'' [key, show_int index] (RBulk None) (True, Some v, Some True)
    \<and> served (Redis2_lpop key (Some v) (Some b)) ''LPOP'' [key] (RBulk (Some s)) (True, Some s, Some False)
    \<and> served (Redis2_lpop key (Some v) (Some b)) ''LPOP'' [key] (RBulk None) (True, Some v, Some True)
    \<and> served (Redis2_rpop key (Some v) (Some b)) ''RPOP'' [key] (RBulk (Some s)) (True, Some s, Some False)
    \<and> served (Redis2_rpop key (Some v) (Some b)) ''RPOP'' [key] (RBulk None) (True, Some v, Some True)
    \<and> served (Redis2_spop key (Some v) (Some b)) ''SPOP'' [key] (RBulk (Some s)) (True, Some s, Some False)
    \<and> served (Redis2_spop key (Some v) (Some b)) ''SPOP'' [key] (RBulk None) (True, Some v, Some True)
    \<and> served (Redis2_srandmember key (Some v) (Some b)) ''SRANDMEMBER'' [key] (RBulk (Some s)) (True, Some s, Some False)
    \<and> served (Redis2_srandmember key (Some v) (Some b)) ''SRANDMEMBER'' [key] (RBulk None) (True, Some v, Some True)
    \<and> served (Redis2_rpoplpush source destination (Some v) (Some b)) ''RPOPLPUSH'' [source, destination] (RBulk (Some s)) (True, Some s, Some False)
    \<and> served (Redis2_rpoplpush source destination (Some v) (Some b)) ''RPOPLPUSH'' [source, destination] (RBulk None) (True, Some v, Some True)"
  unfolding
    Redis2_randomkey_def Redis2_get_def Redis2_getrange_def Redis2_getset_def Redis2_hget_def
    Redis2_lindex_def Redis2_lpop_def Redis2_rpop_def Redis2_spop_def Redis2_srandmember_def
    Redis2_rpoplpush_def
  using assms by (intro conjI served_bulk served_nil; simp add: method_simps)

theorem bulk_methods_witness:
  "\<exists>r' w'. Redis2_randomkey (Some []) (Some True) sample_client (sample_world [''$'', ''3'' @ CRLF @ ''foo'', CRLF])
     = Some ((True, Some ''foo'', Some False), r', w') \<and> sent w' = wire [''RANDOMKEY'']
     \<and> proto_stream (proto r') w' = []"
proof -
  have ne: "''foo'' \<noteq> []" by simp
  have sm: "small [''RANDOMKEY'']" by (simp add: small_simps)
  have en: "concat [''$'', ''3'' @ CRLF @ ''foo'', CRLF] = encode (RBulk (Some ''foo''))" by code_simp
  show ?thesis using served_sample [OF bulk_methods [OF ne, THEN conjunct1] sm en] by simp
qed

text \<open>C22: the methods listed here, whose reply is a multi-bulk, send their request and return the
  elements of the reply in order, nil elements included.  No element is an empty bulk (such an element
  makes the code fail and close the connection), vectors of keys or fields are not empty, the
  client is ready and in no transaction, the request is below \<open>2^31\<close> bytes, and \<open>_return\<close> is not null.\<close>

theorem mbulk_methods:
  assumes "list_all bulk_ok bs" and "keys \<noteq> []" "flds \<noteq> []"
  shows "served (Redis2_keys pattern (Some v)) ''KEYS'' [pattern] (RMulti (Some (map RBulk bs))) (True, Some bs)
    \<and> served (Redis2_mget keys (Some v)) ''MGET'' keys (RMulti (Some (map RBulk bs))) (True, Some bs)
    \<and> served (Redis2_hgetall key (Some v)) ''HGETALL'' [key] (RMulti (Some (map RBulk bs))) (True, Some bs)
    \<and> served (Redis2_hkeys key (Some v)) ''HKEYS'' [key] (RMulti (Some (map RBulk bs))) (True, Some bs)
    \<and> served (Redis2_hmget key flds (Some v)) ''HMGET'' ([key] @ flds) (RMulti (Some (map RBulk bs))) (True, Some bs)
    \<and> served (Redis2_hvals key (Some v)) ''HVALS'' [key] (RMulti (Some (map RBulk bs))) (True, Some bs)
    \<and> served (Redis2_lrange key start stop (Some v)) ''LRANGE'' [key, show_int start, show_int stop] (RMulti (Some (map RBulk bs))) (True, Some bs)
    \<and> served (Redis2_smembers key (Some v)) ''SMEMBERS'' [key] (RMulti (Some (map RBulk bs))) (True, Some bs)
    \<and> served (Redis2_sdiff keys (Some v)) ''SDIFF'' keys (RMulti (Some (map RBulk bs))) (True, Some bs)
    \<and> served (Redis2_sinter keys (Some v)) ''SINTER'' keys (RMulti (Some (map RBulk bs))) (True, Some bs)
    \<and> served (Redis2_sunion keys (Some v)) ''SUNION'' keys (RMulti (Some (map RBulk bs))) (True, Some bs)"
  unfolding
    Redis2_keys_def Redis2_mget_def Redis2_hgetall_def Redis2_hkeys_def Redis2_hmget_def
    Redis2_hvals_def Redis2_lrange_def Redis2_smembers_def Redis2_sdiff_def Redis2_sinter_def
    Redis2_sunion_def
  using assms by (intro conjI served_mbulks; simp add: method_simps)

theorem mbulk_methods_witness:
  "\<exists>r' w'. Redis2_keys ''*'' (Some []) sample_client
       (sample_world [''*2'' @ CRLF @ ''$'', ''1'' @ CRLF @ ''a'' @ CRLF @ ''$-1'', CRLF])
     = Some ((True, Some [Some ''a'', None]), r', w') \<and> sent w' = wire [''KEYS'', ''*'']
     \<and> proto_stream (proto r') w' = []"
proof -
  have h: "list_all bulk_ok [Some ''a'', None]" "[''k''] \<noteq> []" by (simp_all add: bulk_ok_def)
  have sm: "small [''KEYS'', ''*'']" by (simp add: small_simps)
  have en: "concat [''*2'' @ CRLF @ ''$'', ''1'' @ CRLF @ ''a'' @ CRLF @ ''$-1'', CRLF]
    = encode (RMulti (Some (map RBulk [Some ''a'', None])))" by code_simp
  show ?thesis using served_sample [OF mbulk_methods [OF h(1,2,2), THEN conjunct1] sm en] by simp
qed

text \<open>C23: the 14 methods listed here, which expect the status \<open>OK\<close>, send their request and return
  \<open>true\<close> on \<open>+OK\<close>, on a ready client that is in no transaction, with a request below \<open>2^31\<close> bytes (and keys to
  \<open>watch\<close>).  The other methods with a status reply are not here: \<open>mset\<close>, \<open>hmset\<close>, \<open>type\<close>, \<open>ping\<close> and
  \<open>bgrewriteaof\<close> are in \<open>Redis2_Replies\<close>, and \<open>select\<close> and \<open>discard\<close> also change the client.\<close>

theorem status_methods:
  assumes "keys \<noteq> []"
  shows "served (Redis2_restore key ttl value) ''RESTORE'' [key, show_int ttl, value] (RStatus ''OK'') True
    \<and> served (Redis2_psetex key milliseconds value) ''PSETEX'' [key, show_int milliseconds, value] (RStatus ''OK'') True
    \<and> served (Redis2_set key value) ''SET'' [key, value] (RStatus ''OK'') True
    \<and> served (Redis2_setex key seconds value) ''SETEX'' [key, show_int seconds, value] (RStatus ''OK'') True
    \<and> served (Redis2_lset key index value) ''LSET'' [key, show_int index, value] (RStatus ''OK'') True
    \<and> served (Redis2_ltrim key start stop) ''LTRIM'' [key, show_int start, show_int stop] (RStatus ''OK'') True
    \<and> served Redis2_flushall ''FLUSHALL'' [] (RStatus ''OK'') True
    \<and> served Redis2_flushdb ''FLUSHDB'' [] (RStatus ''OK'') True
    \<and> served (Redis2_rename key newkey) ''RENAME'' [key, newkey] (RStatus ''OK'') True
    \<and> served Redis2_multi ''MULTI'' [] (RStatus ''OK'') True
    \<and> served Redis2_unwatch ''UNWATCH'' [] (RStatus ''OK'') True
    \<and> served (Redis2_watch keys) ''WATCH'' keys (RStatus ''OK'') True
    \<and> served Redis2_bgsave ''BGSAVE'' [] (RStatus ''OK'') True
    \<and> served (Redis2_slaveof host port) ''SLAVEOF'' [host, port] (RStatus ''OK'') True"
  unfolding
    Redis2_restore_def Redis2_psetex_def Redis2_set_def Redis2_setex_def Redis2_lset_def
    Redis2_ltrim_def Redis2_flushall_def Redis2_flushdb_def Redis2_rename_def Redis2_multi_def
    Redis2_unwatch_def Redis2_watch_def Redis2_bgsave_def Redis2_slaveof_def
  using assms by (intro conjI served_status; simp add: method_simps)

theorem status_methods_witness:
  "\<exists>r' w'. Redis2_restore ''k'' 5 ''v'' sample_client (sample_world [''+O'', ''K'', CRLF])
     = Some (True, r', w') \<and> sent w' = wire [''RESTORE'', ''k'', ''5'', ''v''] \<and> proto_stream (proto r') w' = []"
proof -
  have ne: "[''k''] \<noteq> []" by simp
  have sh: "show_int 5 = ''5''" by code_simp
  have sm: "small [''RESTORE'', ''k'', show_int 5, ''v'']" unfolding sh by (simp add: small_simps)
  have en: "concat [''+O'', ''K'', CRLF] = encode (RStatus ''OK'')" by code_simp
  show ?thesis using served_sample [OF status_methods [OF ne, THEN conjunct1] sm en] by (simp add: sh)
qed

end
