(* ===== verification/Redis2_Replies.thy ===== *)
theory Redis2_Replies
  imports Redis2_Methods
begin

text \<open>
  The methods that \<open>Redis2_Methods\<close> leaves out: those that convert numbers with
  \<open>boost::lexical_cast\<close>, that accept replies of two types, that build their arguments from
  several vectors, or that block.
\<close>

section \<open>Calls whose request and result depend on the conversions\<close>

text \<open>As \<open>served\<close>; the arguments may contain the text of a \<open>double\<close> and the result may be converted
  from a text, in the world after the exchange.  \<open>None\<close> is the exception of the conversion.\<close>

definition served_by :: "'r client_call \<Rightarrow> string \<Rightarrow> (world \<Rightarrow> string list) \<Rightarrow> reply \<Rightarrow> (world \<Rightarrow> 'r option) \<Rightarrow> bool" where
  "served_by m name as rp fin \<longleftrightarrow>
     (\<forall>r w rest. client_ready r w \<and> \<not> transaction_mode (proto r) \<and> small (name # as w)
        \<and> proto_stream (proto r) w = encode rp @ rest \<longrightarrow>
      (\<exists>p' w'. m r w = map_option (\<lambda>res. (res, r\<lparr>proto := p'\<rparr>, w')) (fin w')
         \<and> client_ready (r\<lparr>proto := p'\<rparr>) w' \<and> sent w' = sent w @ wire (name # as w) \<and> proto_stream p' w' = rest
         \<and> (name \<noteq> ''MULTI'' \<longrightarrow> \<not> transaction_mode p')))"

lemma served_by_run:
  assumes b: "\<And>w. builds (c w) name (as w) t"
    and f: "\<And>w p. \<not> transaction_mode p \<Longrightarrow> fits (c w) p rp"
    and k: "\<And>v p r w. \<not> transaction_mode p
      \<Longrightarrow> k ((c v)\<lparr>cmd_out := answer (c v) p rp\<rparr>) r w = map_option (\<lambda>res. (res, r, w)) (fin w)"
  shows "served_by (\<lambda>r w. connected_run (c w) fail k r w) name as rp fin"
  unfolding served_by_def
proof (intro allI impI, elim conjE)
  fix r w rest
  assume a: "client_ready r w" "\<not> transaction_mode (proto r)" "small (name # as w)"
    "proto_stream (proto r) w = encode rp @ rest"
  from connected_run_answer [OF a(1) builds_sendable(1) [OF b a(3)] a(4) f [OF a(2)], of fail k]
  obtain p' w' where
    1: "connected_run (c w) fail k r w = k ((c w)\<lparr>cmd_out := answer (c w) (proto r) rp\<rparr>) (r\<lparr>proto := p'\<rparr>) w'"
      "client_ready (r\<lparr>proto := p'\<rparr>) w'" "proto_stream p' w' = rest" "sent w' = sent w @ request_text (cmd_in (c w))"
      "transaction_mode p' = answer_mode (c w) (proto r) rp" .
  have "name \<noteq> ''MULTI'' \<longrightarrow> \<not> transaction_mode p'" using builds_mode [OF b a(2), of w rp] 1(5) by simp
  with 1 show "\<exists>p' w'. connected_run (c w) fail k r w = map_option (\<lambda>res. (res, r\<lparr>proto := p'\<rparr>, w')) (fin w')
      \<and> client_ready (r\<lparr>proto := p'\<rparr>) w' \<and> sent w' = sent w @ wire (name # as w) \<and> proto_stream p' w' = rest
         \<and> (name \<noteq> ''MULTI'' \<longrightarrow> \<not> transaction_mode p')"
    using k [OF a(2)] builds_sendable(2) [OF b a(3)] by auto
qed

lemma served_by_served: "served_by m name (\<lambda>w. as) rp (\<lambda>w. Some res) = served m name as rp res"
  by (simp add: served_by_def served_def)

lemmas served_run2 = served_by_run [where c = "\<lambda>w. c" and as = "\<lambda>w. as" and fin = "\<lambda>w. Some res"
    for c as res, unfolded served_by_served]

lemma expects_outside [simp]:
  "\<not> transaction_mode p \<Longrightarrow> expects c p t \<longleftrightarrow>
     (if reply_type (command_info (cmd_in c)) = kDepends then t \<noteq> kMultiBulk else reply_type (command_info (cmd_in c)) = t)"
  by (simp add: expects_def server_type_def)

lemma bind_Some_map: "m \<bind> (\<lambda>d. Some (f d)) = map_option f m"
  by (cases m) auto

lemma served_by_integer:
  assumes "\<And>w. builds (c w) name (as w) kInteger" "LONG_MIN \<le> x" "x \<le> LONG_MAX"
  shows "served_by (\<lambda>r w. integer_command (Some v) (c w) r w) name as (RInteger x) (\<lambda>w. Some (True, Some x))"
  unfolding integer_command_def check_ptr_some using assms
  by (intro served_by_run) (auto simp: builds_def GET_INTEGER_REPLY_def get_i_def is_i_def)

lemma served_by_double:
  assumes "\<And>w. builds (c w) name (as w) kBulk" "s \<noteq> []"
  shows "served_by (\<lambda>r w. double_command (Some v) (c w) r w) name as (RBulk (Some s))
    (\<lambda>w. map_option (\<lambda>d. (True, Some d)) (string_to_double w s))"
  unfolding double_command_def check_ptr_some using assms
  by (intro served_by_run [where t = kBulk]) (auto simp: builds_def GET_DOUBLE_REPLY_def get_bulk_def is_bulk_def bulk_ok_def
      bind_Some_map option.map_comp comp_def)

lemma served_bulk2:
  assumes "builds c name as kBulk" "s \<noteq> []"
  shows "served (bulk_command2 (Some v) c) name as (RBulk (Some s)) (True, Some s)"
  unfolding bulk_command2_def check_ptr_some using assms
  by (intro served_run2 [where t = kBulk]) (auto simp: builds_def GET_BULK_REPLY2_def get_bulk_def is_bulk_def bulk_ok_def)

section \<open>Blocking calls\<close>

lemma blocking_fields [simp]:
  "line_ready (p\<lparr>blocking_mode := b\<rparr>) w = line_ready p w"
  "expects c (p\<lparr>blocking_mode := b\<rparr>) t = expects c p t" "wants_mbulk c (p\<lparr>blocking_mode := b\<rparr>) = wants_mbulk c p"
  "fits c (p\<lparr>blocking_mode := b\<rparr>) rp = fits c p rp" "answer c (p\<lparr>blocking_mode := b\<rparr>) rp = answer c p rp"
  "answer_mode c (p\<lparr>blocking_mode := b\<rparr>) rp = answer_mode c p rp"
proof -
  show e: "expects c (p\<lparr>blocking_mode := b\<rparr>) t = expects c p t" for t by (simp add: expects_def)
  show w: "wants_mbulk c (p\<lparr>blocking_mode := b\<rparr>) = wants_mbulk c p" by (simp add: wants_mbulk_def e)
  show "fits c (p\<lparr>blocking_mode := b\<rparr>) rp = fits c p rp" "answer c (p\<lparr>blocking_mode := b\<rparr>) rp = answer c p rp"
    "answer_mode c (p\<lparr>blocking_mode := b\<rparr>) rp = answer_mode c p rp"
    by (cases rp; simp add: e w mode_after_status_def mode_after_multi_def)+
qed (simp add: line_ready_def proto_ready_def conn_fresh_def)

lemma blocking_run_answer:
  assumes "client_ready r w" "sendable c" "proto_stream (proto r) w = encode rp @ rest" "fits c (proto r) rp"
  obtains p' w' where "blocking_run c r w = Some ((True, c\<lparr>cmd_out := answer c (proto r) rp\<rparr>), r\<lparr>proto := p'\<rparr>, w')"
    "client_ready (r\<lparr>proto := p'\<rparr>) w'" "proto_stream p' w' = rest" "sent w' = sent w @ request_text (cmd_in c)"
    "transaction_mode p' = answer_mode c (proto r) rp"
proof -
  let ?r = "Redis2_set_blocking_mode True r"
  have p: "proto ?r = (proto r)\<lparr>blocking_mode := True\<rparr>" by (simp add: Redis2_set_blocking_mode_def set_blocking_mode_def)
  have "line_ready (proto ?r) w" "proto_stream (proto ?r) w = encode rp @ rest" "fits c (proto ?r) rp"
    using assms by (simp_all add: p client_ready_def)
  from run_command_answer [OF this(1) assms(2) this(2,3)] obtain p' w' where
    1: "run_command c ?r w = Some ((True, c\<lparr>cmd_out := answer c (proto ?r) rp\<rparr>), ?r\<lparr>proto := p'\<rparr>, w')"
      "line_ready p' w'" "proto_stream p' w' = rest" "sent w' = sent w @ request_text (cmd_in c)"
      "transaction_mode p' = answer_mode c (proto ?r) rp" .
  let ?p = "p'\<lparr>blocking_mode := blocking_mode (proto r)\<rparr>"
  have "blocking_run c r w = Some ((True, c\<lparr>cmd_out := answer c (proto r) rp\<rparr>), r\<lparr>proto := ?p\<rparr>, w')"
    using 1(1) by (simp add: blocking_run_def p Redis2_set_blocking_mode_def set_blocking_mode_def)
  from that [OF this] 1(2-5) assms(1) show ?thesis by (simp add: client_ready_def p)
qed

lemma served_blocking:
  assumes b: "builds c name as t" and f: "\<And>p. \<not> transaction_mode p \<Longrightarrow> fits c p rp"
    and k: "\<And>p r w. \<not> transaction_mode p \<Longrightarrow> k (c\<lparr>cmd_out := answer c p rp\<rparr>) r w = Some (res, r, w)"
  shows "served (\<lambda>r w. do {
      (ok, r, w) \<leftarrow> assure_connect r w;
      if \<not> ok then Some (fail, r, w)
      else do {
        ((ok, c), r, w) \<leftarrow> blocking_run c r w;
        if \<not> ok then Some (fail, r, w) else k c r w
      }
    }) name as rp res"
  unfolding served_def
proof (intro allI impI, elim conjE)
  fix r w rest
  assume a: "client_ready r w" "\<not> transaction_mode (proto r)" "small (name # as)"
    "proto_stream (proto r) w = encode rp @ rest"
  from blocking_run_answer [OF a(1) builds_sendable(1) [OF b a(3)] a(4) f [OF a(2)]] obtain p' w' where
    1: "blocking_run c r w = Some ((True, c\<lparr>cmd_out := answer c (proto r) rp\<rparr>), r\<lparr>proto := p'\<rparr>, w')"
      "client_ready (r\<lparr>proto := p'\<rparr>) w'" "proto_stream p' w' = rest" "sent w' = sent w @ request_text (cmd_in c)"
      "transaction_mode p' = answer_mode c (proto r) rp" .
  then show "\<exists>p' w'. do {
        (ok, r, w) \<leftarrow> assure_connect r w;
        if \<not> ok then Some (fail, r, w)
        else do {
          ((ok, c), r, w) \<leftarrow> blocking_run c r w;
          if \<not> ok then Some (fail, r, w) else k c r w
        }
      } = Some (res, r\<lparr>proto := p'\<rparr>, w') \<and> client_ready (r\<lparr>proto := p'\<rparr>) w'
      \<and> sent w' = sent w @ wire (name # as) \<and> proto_stream p' w' = rest
         \<and> (name \<noteq> ''MULTI'' \<longrightarrow> \<not> transaction_mode p')"
    using k [OF a(2)] builds_sendable(2) [OF b a(3)] assure_connect_ready [OF a(1)] builds_mode [OF b a(2)] by auto
qed

lemma served_bxpop:
  assumes "keys \<noteq> []" "k \<noteq> []" "m \<noteq> []"
  shows "served (bxpop bl keys timeout (Some kc) (Some mc) (Some ec)) (if bl then ''BLPOP'' else ''BRPOP'')
      (keys @ [show_int timeout]) (RMulti (Some [RBulk (Some k), RBulk (Some m)])) (True, Some k, Some m, Some False)"
    and "served (bxpop bl keys timeout (Some kc) (Some mc) (Some ec)) (if bl then ''BLPOP'' else ''BRPOP'')
      (keys @ [show_int timeout]) (RMulti None) (True, Some kc, Some mc, Some True)"
proof -
  let ?c = "command_with (if bl then BLPOP else BRPOP) [push_args keys, push_arg_int timeout]"
  have b: "builds ?c (if bl then ''BLPOP'' else ''BRPOP'') (keys @ [show_int timeout]) kMultiBulk"
    using assms(1) by (cases bl) (simp_all add: method_simps)
  note s = served_blocking [OF b]
  show "served (bxpop bl keys timeout (Some kc) (Some mc) (Some ec)) (if bl then ''BLPOP'' else ''BRPOP'')
      (keys @ [show_int timeout]) (RMulti (Some [RBulk (Some k), RBulk (Some m)])) (True, Some k, Some m, Some False)"
    unfolding bxpop_def Let_def check_ptr_some
    by (rule s) (use b assms in \<open>auto simp: builds_def wants_mbulk_def bulk_ok_def get_mbulks_def is_mbulks_def\<close>)
  show "served (bxpop bl keys timeout (Some kc) (Some mc) (Some ec)) (if bl then ''BLPOP'' else ''BRPOP'')
      (keys @ [show_int timeout]) (RMulti None) (True, Some kc, Some mc, Some True)"
    unfolding bxpop_def Let_def check_ptr_some
    by (rule s) (use b in \<open>auto simp: builds_def wants_mbulk_def get_mbulks_def is_mbulks_def is_nil_mbulks_def\<close>)
qed

lemma served_brpoplpush:
  assumes "m \<noteq> []"
  shows "served (Redis2_brpoplpush source destination timeout (Some mc) (Some ec)) ''BRPOPLPUSH''
      [source, destination, show_int timeout] (RBulk (Some m)) (True, Some m, Some False)"
    and "served (Redis2_brpoplpush source destination timeout (Some mc) (Some ec)) ''BRPOPLPUSH''
      [source, destination, show_int timeout] (RMulti None) (True, Some mc, Some True)"
proof -
  let ?c = "command_with BRPOPLPUSH [push_arg source, push_arg destination, push_arg_int timeout]"
  have b: "builds ?c ''BRPOPLPUSH'' [source, destination, show_int timeout] kDepends"
    by (simp add: method_simps)
  have pl: "plain_input (cmd_in ?c)" by (simp add: plain_input_def method_simps)
  show "served (Redis2_brpoplpush source destination timeout (Some mc) (Some ec)) ''BRPOPLPUSH''
      [source, destination, show_int timeout] (RBulk (Some m)) (True, Some m, Some False)"
    unfolding Redis2_brpoplpush_def Let_def check_ptr_some
    by (rule served_blocking [OF b]) (use b assms in \<open>auto simp: builds_def bulk_ok_def get_bulk_def is_bulk_def\<close>)
  show "served (Redis2_brpoplpush source destination timeout (Some mc) (Some ec)) ''BRPOPLPUSH''
      [source, destination, show_int timeout] (RMulti None) (True, Some mc, Some True)"
    unfolding Redis2_brpoplpush_def Let_def check_ptr_some
    by (rule served_blocking [OF b])
      (use b pl in \<open>auto simp: builds_def wants_mbulk_def get_bulk_def is_bulk_def is_nil_smbulks_def\<close>)
qed

section \<open>Arguments from vectors\<close>

definition interleave :: "string list \<Rightarrow> string list \<Rightarrow> string list" where
  "interleave xs ys = concat (map (\<lambda>(x, y). [x, y]) (zip xs ys))"

lemma length_interleave: "length xs = length ys \<Longrightarrow> length (interleave xs ys) = 2 * length xs"
  unfolding interleave_def by (induction xs ys rule: list_induct2) auto

lemma push_scores_fold:
  "length ss = length ms \<Longrightarrow>
   args (foldl (\<lambda>i push. push i) i (concat (map (\<lambda>(s, m). [push_arg_double cast s, push_arg m]) (zip ss ms))))
     = args i @ interleave (map cast ss) ms
   \<and> command_info (foldl (\<lambda>i push. push i) i (concat (map (\<lambda>(s, m). [push_arg_double cast s, push_arg m]) (zip ss ms))))
     = command_info i
   \<and> in_command (foldl (\<lambda>i push. push i) i (concat (map (\<lambda>(s, m). [push_arg_double cast s, push_arg m]) (zip ss ms))))
     = in_command i"
  unfolding interleave_def
  by (induction ss ms arbitrary: i rule: list_induct2) (auto simp: push_simps)

lemma push_doubles [push_simps]:
  "args (push_arg_doubles cast ds i) = args i @ map cast ds" "command_info (push_arg_doubles cast ds i) = command_info i"
  "in_command (push_arg_doubles cast ds i) = in_command i"
  unfolding push_arg_doubles_def by (induction ds arbitrary: i) auto

lemma built_pairs:
  assumes "length ks = length vs" "ks \<noteq> []"
  shows "builds (command_with MSET (push_pairs ks vs)) ''MSET'' (interleave ks vs) kStatus"
    "builds (command_with HMSET (push_arg key # push_pairs ks vs)) ''HMSET'' (key # interleave ks vs) kStatus"
  using assms push_pairs_fold [OF assms(1)] length_interleave [OF assms(1)]
  by (auto simp: method_simps interleave_def Suc_le_eq)

lemma built_scores:
  assumes "length ss = length ms" "ss \<noteq> []"
  shows "builds (command_with ZADD (push_arg key # concat (map (\<lambda>(s, m). [push_arg_double cast s, push_arg m]) (zip ss ms))))
    ''ZADD'' (key # interleave (map cast ss) ms) kInteger"
  using assms push_scores_fold [OF assms(1)] length_interleave [of "map cast ss" ms]
  by (auto simp: method_simps Suc_le_eq)

text \<open>The arguments of \<open>zinterstore\<close> and \<open>zunionstore\<close>.\<close>

definition store_args :: "string \<Rightarrow> string list \<Rightarrow> 64 word list ptr \<Rightarrow> kZUnionstoreAggregate \<Rightarrow> world \<Rightarrow> string list" where
  "store_args destination keys weights agg w =
     [destination, show_int (int (length keys))] @ keys
     @ (case weights of None \<Rightarrow> [] | Some ws \<Rightarrow> ''WEIGHTS'' # map (double_to_string w) ws)
     @ (case agg of kSum \<Rightarrow> [] | kMin \<Rightarrow> [''AGGREGATE'', ''MIN''] | kMax \<Rightarrow> [''AGGREGATE'', ''MAX''])"

text \<open>The arguments of the range methods.\<close>

definition range_args :: "bool \<Rightarrow> ZRangebyscoreLimit ptr \<Rightarrow> string list" where
  "range_args withscores limit =
     (if withscores then [''WITHSCORES''] else [])
     @ (case limit of None \<Rightarrow> [] | Some l \<Rightarrow> [''LIMIT'', show_int (zoffset l), show_int (zlimit_count l)])"

lemma served_store:
  assumes "LONG_MIN \<le> x" "x \<le> LONG_MAX" "keys \<noteq> []"
  shows "served_by (zxxxxxstore is_inter destination keys weights agg (Some v)) (if is_inter then ''ZINTERSTORE'' else ''ZUNIONSTORE'')
    (store_args destination keys weights agg) (RInteger x) (\<lambda>w. Some (True, Some x))"
proof -
  let ?c = "\<lambda>w. command_with (if is_inter then ZINTERSTORE else ZUNIONSTORE)
       ([push_arg destination, push_arg_int (int (length keys)), push_args keys]
        @ (case weights of None \<Rightarrow> []
           | Some ws \<Rightarrow> [push_arg_cstr (Some ''WEIGHTS''), push_arg_doubles (double_to_string w) ws])
        @ (case agg of
             kMin \<Rightarrow> [push_arg_cstr (Some ''AGGREGATE''), push_arg_cstr (Some ''MIN'')]
           | kMax \<Rightarrow> [push_arg_cstr (Some ''AGGREGATE''), push_arg_cstr (Some ''MAX'')]
           | kSum \<Rightarrow> []))"
  have "builds (?c w) (if is_inter then ''ZINTERSTORE'' else ''ZUNIONSTORE'') (store_args destination keys weights agg w) kInteger" for w
    using assms(3) by (cases is_inter; cases agg; cases weights; simp add: method_simps push_doubles store_args_def)
  from served_by_integer [of ?c, OF this assms(1,2), of v]
  show ?thesis by (simp add: served_by_def zxxxxxstore_def)
qed

lemma served_ranges:
  assumes "list_all bulk_ok bs"
  shows "served (zxxxrange rv key start stop withscores (Some v)) (if rv then ''ZREVRANGE'' else ''ZRANGE'')
      ([key, show_int start, show_int stop] @ range_args withscores None) (RMulti (Some (map RBulk bs))) (True, Some bs)"
    and "served (zxxxrangebyscore rv key mn mx withscores limit (Some v)) (if rv then ''ZREVRANGEBYSCORE'' else ''ZRANGEBYSCORE'')
      ([key, mn, mx] @ range_args withscores limit) (RMulti (Some (map RBulk bs))) (True, Some bs)"
  unfolding zxxxrange_def zxxxrangebyscore_def
  by (rule served_mbulks [OF _ assms]; cases rv; cases withscores; cases limit; simp add: method_simps range_args_def)+

lemma served_rank:
  assumes "LONG_MIN \<le> x" "x \<le> LONG_MAX"
  shows "served (zxxxrank rv key member (Some v) (Some ne)) (if rv then ''ZREVRANK'' else ''ZRANK'') [key, member]
      (RInteger x) (True, Some x, Some False)"
    and "served (zxxxrank rv key member (Some v) (Some ne)) (if rv then ''ZREVRANK'' else ''ZRANK'') [key, member]
      (RBulk None) (True, Some v, Some True)"
proof -
  let ?c = "command_with (if rv then ZREVRANK else ZRANK) [push_arg key, push_arg member]"
  have b: "builds ?c (if rv then ''ZREVRANK'' else ''ZRANK'') [key, member] kDepends"
    by (cases rv) (simp_all add: method_simps)
  show "served (zxxxrank rv key member (Some v) (Some ne)) (if rv then ''ZREVRANK'' else ''ZRANK'') [key, member]
      (RInteger x) (True, Some x, Some False)"
    unfolding zxxxrank_def Let_def check_ptr_some
    by (rule served_run2 [OF b]) (use b assms in \<open>auto simp: builds_def get_i_def is_i_def\<close>)
  show "served (zxxxrank rv key member (Some v) (Some ne)) (if rv then ''ZREVRANK'' else ''ZRANK'') [key, member]
      (RBulk None) (True, Some v, Some True)"
    unfolding zxxxrank_def Let_def check_ptr_some
    by (rule served_run2 [OF b]) (use b assms in \<open>auto simp: builds_def get_i_def is_i_def is_nil_bulk_def bulk_ok_def\<close>)
qed

lemma served_zscore:
  shows "s \<noteq> [] \<Longrightarrow> served_by (Redis2_zscore key member (Some v) (Some nl)) ''ZSCORE'' (\<lambda>w. [key, member]) (RBulk (Some s))
      (\<lambda>w. map_option (\<lambda>d. (True, Some d, Some False)) (string_to_double w s))"
    and "served (Redis2_zscore key member (Some v) (Some nl)) ''ZSCORE'' [key, member] (RBulk None) (True, Some v, Some True)"
proof -
  have b: "builds (command_with ZSCORE [push_arg key, push_arg member]) ''ZSCORE'' [key, member] kBulk"
    by (simp add: method_simps)
  show "served_by (Redis2_zscore key member (Some v) (Some nl)) ''ZSCORE'' (\<lambda>w. [key, member]) (RBulk (Some s))
      (\<lambda>w. map_option (\<lambda>d. (True, Some d, Some False)) (string_to_double w s))" if "s \<noteq> []"
    unfolding Redis2_zscore_def Let_def check_ptr_some
    by (rule served_by_run [OF b]) (use b that in \<open>auto simp: builds_def get_bulk_def is_bulk_def bulk_ok_def
          bind_Some_map option.map_comp comp_def\<close>)
  show "served (Redis2_zscore key member (Some v) (Some nl)) ''ZSCORE'' [key, member] (RBulk None) (True, Some v, Some True)"
    unfolding Redis2_zscore_def Let_def check_ptr_some
    by (rule served_run2 [OF b]) (use b in \<open>auto simp: builds_def get_bulk_def is_bulk_def is_nil_bulk_def bulk_ok_def\<close>)
qed

section \<open>Single cases\<close>

lemma served_hset:
  assumes "LONG_MIN \<le> x" "x \<le> LONG_MAX"
  shows "served (Redis2_hset key field value (Some v)) ''HSET'' [key, field, value] (RInteger x) (True, Some x)"
proof -
  have b: "builds (command_with HSET [push_arg key, push_arg field, push_arg value]) ''HSET'' [key, field, value] kInteger"
    by (simp add: method_simps)
  show ?thesis unfolding Redis2_hset_def
    by (rule served_run2 [OF b]) (use b assms in \<open>auto simp: builds_def GET_INTEGER_REPLY_def get_i_def is_i_def\<close>)
qed

lemma served_dump:
  assumes "s \<noteq> []"
  shows "served (Redis2_dump key (Some v) (Some nl)) ''DUMP'' [key] (RBulk (Some s)) (True, Some s, Some False)"
    and "served (Redis2_dump key (Some v) (Some nl)) ''DUMP'' [key] (RBulk None) (True, Some v, Some True)"
proof -
  have b: "builds (command_with DUMP [push_arg key]) ''DUMP'' [key] kBulk" by (simp add: method_simps)
  show "served (Redis2_dump key (Some v) (Some nl)) ''DUMP'' [key] (RBulk (Some s)) (True, Some s, Some False)"
    unfolding Redis2_dump_def check_ptr_some by (rule served_run2 [OF b])
      (use b assms in \<open>auto simp: builds_def GET_BULK_REPLY_def get_bulk_def is_bulk_def bulk_ok_def\<close>)
  show "served (Redis2_dump key (Some v) (Some nl)) ''DUMP'' [key] (RBulk None) (True, Some v, Some True)"
    unfolding Redis2_dump_def check_ptr_some by (rule served_run2 [OF b])
      (use b in \<open>auto simp: builds_def GET_BULK_REPLY_def get_bulk_def is_bulk_def is_nil_bulk_def bulk_ok_def\<close>)
qed

lemma served_words:
  assumes "CHR 0x0D \<notin> set s"
  shows "served (Redis2_type key (Some v)) ''TYPE'' [key] (RStatus s) (True, Some s)"
    and "served Redis2_bgrewriteaof ''BGREWRITEAOF'' [] (RStatus s) True"
    and "served Redis2_ping ''PING'' [] (RStatus ''PONG'') True"
proof -
  have b: "builds (command_with TYPE_CMD [push_arg key]) ''TYPE'' [key] kStatus"
    "builds (command_with BGREWRITEAOF []) ''BGREWRITEAOF'' [] kStatus" "builds (command_with PING []) ''PING'' [] kStatus"
    by (simp_all add: method_simps)
  show "served (Redis2_type key (Some v)) ''TYPE'' [key] (RStatus s) (True, Some s)"
    unfolding Redis2_type_def check_ptr_some by (rule served_run2 [OF b(1)])
      (use b(1) assms in \<open>auto simp: builds_def get_status_def is_status_def\<close>)
  show "served Redis2_bgrewriteaof ''BGREWRITEAOF'' [] (RStatus s) True"
    unfolding Redis2_bgrewriteaof_def by (rule served_run2 [OF b(2)])
      (use b(2) assms in \<open>auto simp: builds_def is_status_def\<close>)
  show "served Redis2_ping ''PING'' [] (RStatus ''PONG'') True"
    unfolding Redis2_ping_def by (rule served_run2 [OF b(3)])
      (use b(3) in \<open>auto simp: builds_def CHECK_STATUS_PONG_def is_status_pong_def\<close>)
qed

lemma served_checked: "b \<Longrightarrow> served m name as rp res \<Longrightarrow> served (CHECK_EXPR b fail m) name as rp res"
  by (simp add: served_def CHECK_EXPR_def)

lemma served_by_zadd:
  assumes "LONG_MIN \<le> x" "x \<le> LONG_MAX"
  shows "served_by (Redis2_zadd key score member (Some v)) ''ZADD'' (\<lambda>w. [key, double_to_string w score, member])
      (RInteger x) (\<lambda>w. Some (True, Some x))"
    and "length scores = length members \<Longrightarrow> scores \<noteq> [] \<Longrightarrow>
      served_by (Redis2_zadd_scores key scores members (Some v)) ''ZADD''
        (\<lambda>w. key # interleave (map (double_to_string w) scores) members) (RInteger x) (\<lambda>w. Some (True, Some x))"
proof -
  show "served_by (Redis2_zadd key score member (Some v)) ''ZADD'' (\<lambda>w. [key, double_to_string w score, member])
      (RInteger x) (\<lambda>w. Some (True, Some x))"
    unfolding Redis2_zadd_def by (rule served_by_integer [OF _ assms]) (simp add: method_simps)
  assume l: "length scores = length members" "scores \<noteq> []"
  show "served_by (Redis2_zadd_scores key scores members (Some v)) ''ZADD''
        (\<lambda>w. key # interleave (map (double_to_string w) scores) members) (RInteger x) (\<lambda>w. Some (True, Some x))"
    using served_by_integer [of "\<lambda>w. command_with ZADD (push_arg key #
        concat (map (\<lambda>(s, m). [push_arg_double (double_to_string w) s, push_arg m]) (zip scores members)))",
        OF built_scores [OF l] assms, of v] l
    by (simp add: served_by_def Redis2_zadd_scores_def integer_command_def CHECK_EXPR_def check_ptr_some)
qed

lemma served_by_floats:
  assumes "s \<noteq> []"
  shows "served_by (Redis2_incrbyfloat key inc (Some d)) ''INCRBYFLOAT'' (\<lambda>w. [key, double_to_string w inc])
      (RBulk (Some s)) (\<lambda>w. map_option (\<lambda>d. (True, Some d)) (string_to_double w s))"
    and "served_by (Redis2_hincrbyfloat key field inc (Some d)) ''HINCRBYFLOAT'' (\<lambda>w. [key, field, double_to_string w inc])
      (RBulk (Some s)) (\<lambda>w. map_option (\<lambda>d. (True, Some d)) (string_to_double w s))"
    and "served_by (Redis2_zincrby key inc member (Some d)) ''ZINCRBY'' (\<lambda>w. [key, double_to_string w inc, member])
      (RBulk (Some s)) (\<lambda>w. map_option (\<lambda>d. (True, Some d)) (string_to_double w s))"
  unfolding Redis2_incrbyfloat_def Redis2_hincrbyfloat_def Redis2_zincrby_def
  by (rule served_by_double [OF _ assms]; simp add: method_simps)+

text \<open>C24: the methods of sorted sets, and the others that convert a \<open>double\<close>, send their
  parameters in the order of the protocol, doubles as \<open>boost::lexical_cast\<close> prints them, scores
  interleaved with members, and optional clauses only when they are asked for; they return the
  integer, the elements, or the converted double of the reply.  Where the reply is nil, the value
  of \<open>*_return\<close> stays and the flag is set; where the text is no double, they throw.  This is on a ready
  client in no transaction, with a request below \<open>2^31\<close> bytes, for replies whose texts and elements are not
  empty (an empty bulk makes the code fail and close) and integers of 64 bits, with vectors that are
  not empty and match and output parameters that are not null.\<close>

theorem sorted_set_methods:
  assumes "LONG_MIN \<le> x" "x \<le> LONG_MAX" "s \<noteq> []" "list_all bulk_ok bs" "keys \<noteq> []"
    and "length scores = length members" "scores \<noteq> []"
  shows "served_by (Redis2_zadd key score member (Some v)) ''ZADD'' (\<lambda>w. [key, double_to_string w score, member])
      (RInteger x) (\<lambda>w. Some (True, Some x))
    \<and> served_by (Redis2_zadd_scores key scores members (Some v)) ''ZADD''
      (\<lambda>w. key # interleave (map (double_to_string w) scores) members) (RInteger x) (\<lambda>w. Some (True, Some x))
    \<and> served_by (Redis2_incrbyfloat key inc (Some d)) ''INCRBYFLOAT'' (\<lambda>w. [key, double_to_string w inc])
      (RBulk (Some s)) (\<lambda>w. map_option (\<lambda>d. (True, Some d)) (string_to_double w s))
    \<and> served_by (Redis2_hincrbyfloat key field inc (Some d)) ''HINCRBYFLOAT'' (\<lambda>w. [key, field, double_to_string w inc])
      (RBulk (Some s)) (\<lambda>w. map_option (\<lambda>d. (True, Some d)) (string_to_double w s))
    \<and> served_by (Redis2_zincrby key inc member (Some d)) ''ZINCRBY'' (\<lambda>w. [key, double_to_string w inc, member])
      (RBulk (Some s)) (\<lambda>w. map_option (\<lambda>d. (True, Some d)) (string_to_double w s))
    \<and> served_by (Redis2_zscore key member (Some d) (Some b)) ''ZSCORE'' (\<lambda>w. [key, member]) (RBulk (Some s))
      (\<lambda>w. map_option (\<lambda>d. (True, Some d, Some False)) (string_to_double w s))
    \<and> served (Redis2_zscore key member (Some d) (Some b)) ''ZSCORE'' [key, member] (RBulk None) (True, Some d, Some True)
    \<and> served (Redis2_zrank key member (Some v) (Some b)) ''ZRANK'' [key, member] (RInteger x) (True, Some x, Some False)
    \<and> served (Redis2_zrank key member (Some v) (Some b)) ''ZRANK'' [key, member] (RBulk None) (True, Some v, Some True)
    \<and> served (Redis2_zrevrank key member (Some v) (Some b)) ''ZREVRANK'' [key, member] (RInteger x) (True, Some x, Some False)
    \<and> served (Redis2_zrevrank key member (Some v) (Some b)) ''ZREVRANK'' [key, member] (RBulk None) (True, Some v, Some True)
    \<and> served (Redis2_zrange key start stop withscores (Some m)) ''ZRANGE''
      ([key, show_int start, show_int stop] @ range_args withscores None) (RMulti (Some (map RBulk bs))) (True, Some bs)
    \<and> served (Redis2_zrevrange key start stop withscores (Some m)) ''ZREVRANGE''
      ([key, show_int start, show_int stop] @ range_args withscores None) (RMulti (Some (map RBulk bs))) (True, Some bs)
    \<and> served (Redis2_zrangebyscore key mn mx withscores limit (Some m)) ''ZRANGEBYSCORE''
      ([key, mn, mx] @ range_args withscores limit) (RMulti (Some (map RBulk bs))) (True, Some bs)
    \<and> served (Redis2_zrevrangebyscore key mx mn withscores limit (Some m)) ''ZREVRANGEBYSCORE''
      ([key, mx, mn] @ range_args withscores limit) (RMulti (Some (map RBulk bs))) (True, Some bs)
    \<and> served_by (Redis2_zinterstore destination keys weights agg (Some v)) ''ZINTERSTORE''
      (store_args destination keys weights agg) (RInteger x) (\<lambda>w. Some (True, Some x))
    \<and> served_by (Redis2_zunionstore destination keys weights agg (Some v)) ''ZUNIONSTORE''
      (store_args destination keys weights agg) (RInteger x) (\<lambda>w. Some (True, Some x))"
  unfolding Redis2_zrank_def Redis2_zrevrank_def Redis2_zrange_def Redis2_zrevrange_def Redis2_zrangebyscore_def
    Redis2_zrevrangebyscore_def Redis2_zinterstore_def Redis2_zunionstore_def
  using assms served_by_zadd [OF assms(1,2)] served_by_floats [OF assms(3)] served_zscore
    served_rank [OF assms(1,2), of False] served_rank [OF assms(1,2), of True]
    served_ranges [OF assms(4), of False] served_ranges [OF assms(4), of True]
    served_store [OF assms(1,2,5), of False] served_store [OF assms(1,2,5), of True]
  by simp

theorem sorted_set_methods_witness:
  "\<exists>r' w'. Redis2_zadd ''k'' 7 ''m'' (Some 0) sample_client (sample_world ['':'', ''1'' @ CRLF])
     = Some ((True, Some 1), r', w') \<and> sent w' = wire [''ZADD'', ''k'', ''0'', ''m''] \<and> proto_stream (proto r') w' = []"
proof -
  let ?w = "sample_world ['':'', ''1'' @ CRLF]"
  have h: "LONG_MIN \<le> 1" "1 \<le> LONG_MAX" "''s'' \<noteq> []" "list_all bulk_ok []" "[''k''] \<noteq> []"
    "length [7 :: 64 word] = length [''m'']" "[7 :: 64 word] \<noteq> []" by (simp_all add: LONG_MIN_def LONG_MAX_def)
  have d: "double_to_string ?w 7 = ''0''" "sent ?w = []" by (simp_all add: sample_world_def)
  have sm: "small [''ZADD'', ''k'', ''0'', ''m'']" by (simp add: small_simps)
  have en: "encode (RInteger 1) = '':1'' @ CRLF" by code_simp
  have "client_ready sample_client ?w \<and> \<not> transaction_mode (proto sample_client)
      \<and> small (''ZADD'' # [''k'', double_to_string ?w 7, ''m'']) \<and> proto_stream (proto sample_client) ?w = encode (RInteger 1) @ []"
    unfolding d en using sm sample_client_ready [of "['':'', ''1'' @ CRLF]"] sample_stream [of "['':'', ''1'' @ CRLF]"]
    by simp
  from sorted_set_methods [OF h, THEN conjunct1, unfolded served_by_def, rule_format, OF this, of 0]
  obtain p' w' where "Redis2_zadd ''k'' 7 ''m'' (Some 0) sample_client ?w = Some ((True, Some 1), sample_client\<lparr>proto := p'\<rparr>, w')"
    "sent w' = sent ?w @ wire [''ZADD'', ''k'', double_to_string ?w 7, ''m'']" "proto_stream p' w' = []" by auto
  then show ?thesis unfolding d by auto
qed

lemma blocking_methods_restore:
  "restores_mode (bxpop bl keys timeout (Some k0) (Some s0) (Some b))"
  "restores_mode (Redis2_brpoplpush source destination timeout (Some s0) (Some b))"
  unfolding bxpop_def Redis2_brpoplpush_def Let_def check_ptr_some
  by (rule restores_mode_blocking;
      auto simp: bind_eq_Some_conv split: prod.splits if_splits list.splits option.splits bool.splits)+

text \<open>C25: the methods that build their arguments from two vectors, that return a status or
  the report of the server, or that pop from a list in blocking mode: the request, and the result
  for each of the replies listed, an expired timeout (nil) included.  Pairs are interleaved.  As in the other
  method properties the client is ready (its connection is open and \<open>is_open\<close> has just been
  checked), it is in no transaction, the request is below \<open>2^31\<close> bytes, the vectors are not empty and
  match, and a text or element of a reply is not the empty bulk and a status has no CR.  The
  blocking pops moreover leave the blocking mode of a ready client as it was, whatever the server or the
  connection does.\<close>

theorem blocking_and_vector_methods:
  assumes "LONG_MIN \<le> x" "x \<le> LONG_MAX" "s \<noteq> []" "CHR 0x0D \<notin> set s" "k \<noteq> []" "list_all bulk_ok bs" "keys \<noteq> []"
    and "length keys = length values" "length flds = length values"
  shows "served (Redis2_blpop keys timeout (Some k0) (Some s0) (Some b)) ''BLPOP'' (keys @ [show_int timeout])
      (RMulti (Some [RBulk (Some k), RBulk (Some s)])) (True, Some k, Some s, Some False)
    \<and> served (Redis2_blpop keys timeout (Some k0) (Some s0) (Some b)) ''BLPOP'' (keys @ [show_int timeout])
      (RMulti None) (True, Some k0, Some s0, Some True)
    \<and> served (Redis2_brpop keys timeout (Some k0) (Some s0) (Some b)) ''BRPOP'' (keys @ [show_int timeout])
      (RMulti (Some [RBulk (Some k), RBulk (Some s)])) (True, Some k, Some s, Some False)
    \<and> served (Redis2_brpop keys timeout (Some k0) (Some s0) (Some b)) ''BRPOP'' (keys @ [show_int timeout])
      (RMulti None) (True, Some k0, Some s0, Some True)
    \<and> served (Redis2_brpoplpush source destination timeout (Some s0) (Some b)) ''BRPOPLPUSH''
      [source, destination, show_int timeout] (RBulk (Some s)) (True, Some s, Some False)
    \<and> served (Redis2_brpoplpush source destination timeout (Some s0) (Some b)) ''BRPOPLPUSH''
      [source, destination, show_int timeout] (RMulti None) (True, Some s0, Some True)
    \<and> served (Redis2_mset keys values) ''MSET'' (interleave keys values) (RStatus ''OK'') True
    \<and> served (Redis2_hmset key flds values) ''HMSET'' (key # interleave flds values) (RStatus ''OK'') True
    \<and> served (Redis2_sort key phrases (Some m)) ''SORT'' (key # (case phrases of None \<Rightarrow> [] | Some ph \<Rightarrow> ph))
      (RMulti (Some (map RBulk bs))) (True, Some bs)
    \<and> served (Redis2_hset key field value (Some v)) ''HSET'' [key, field, value] (RInteger x) (True, Some x)
    \<and> served (Redis2_hincr key field (Some v)) ''HINCRBY'' [key, field, ''1''] (RInteger x) (True, Some x)
    \<and> served (Redis2_linsert key before pivot value (Some v)) ''LINSERT''
      [key, if before then ''BEFORE'' else ''AFTER'', pivot, value] (RInteger x) (True, Some x)
    \<and> served (Redis2_dump key (Some s0) (Some b)) ''DUMP'' [key] (RBulk (Some s)) (True, Some s, Some False)
    \<and> served (Redis2_dump key (Some s0) (Some b)) ''DUMP'' [key] (RBulk None) (True, Some s0, Some True)
    \<and> served (Redis2_type key (Some s0)) ''TYPE'' [key] (RStatus s) (True, Some s)
    \<and> served Redis2_bgrewriteaof ''BGREWRITEAOF'' [] (RStatus s) True
    \<and> served Redis2_ping ''PING'' [] (RStatus ''PONG'') True
    \<and> served (Redis2_info (Some s0)) ''INFO'' [] (RBulk (Some s)) (True, Some s)
    \<and> served (Redis2_info_type type (Some s0)) ''INFO'' [type] (RBulk (Some s)) (True, Some s)
    \<and> restores_mode (Redis2_blpop keys timeout (Some k0) (Some s0) (Some b))
    \<and> restores_mode (Redis2_brpop keys timeout (Some k0) (Some s0) (Some b))
    \<and> restores_mode (Redis2_brpoplpush source destination timeout (Some s0) (Some b))"
proof -
  have sh: "show_int 1 = ''1''" by code_simp
  have f: "flds \<noteq> []" using assms(7-9) by auto
  have 1: "served (Redis2_mset keys values) ''MSET'' (interleave keys values) (RStatus ''OK'') True"
    "served (Redis2_hmset key flds values) ''HMSET'' (key # interleave flds values) (RStatus ''OK'') True"
    unfolding Redis2_mset_def Redis2_hmset_def
    by (rule served_checked; use assms f built_pairs in \<open>auto intro: served_status\<close>)+
  have 2: "served (Redis2_sort key phrases (Some m)) ''SORT'' (key # (case phrases of None \<Rightarrow> [] | Some ph \<Rightarrow> ph))
      (RMulti (Some (map RBulk bs))) (True, Some bs)"
    unfolding Redis2_sort_def by (rule served_mbulks [OF _ assms(6)]) (cases phrases; simp add: method_simps)
  have 3: "served (Redis2_hincr key field (Some v)) ''HINCRBY'' [key, field, ''1''] (RInteger x) (True, Some x)"
    "served (Redis2_linsert key before pivot value (Some v)) ''LINSERT''
      [key, if before then ''BEFORE'' else ''AFTER'', pivot, value] (RInteger x) (True, Some x)"
    unfolding Redis2_hincr_def Redis2_hincrby_def Redis2_linsert_def
    by (rule served_integer; use assms in \<open>simp add: method_simps sh\<close>)+
  have 4: "served (Redis2_info (Some s0)) ''INFO'' [] (RBulk (Some s)) (True, Some s)"
    "served (Redis2_info_type type (Some s0)) ''INFO'' [type] (RBulk (Some s)) (True, Some s)"
    unfolding Redis2_info_def Redis2_info_type_def
    by (rule served_bulk2; use assms in \<open>simp add: method_simps\<close>)+
  show ?thesis
    unfolding Redis2_blpop_def Redis2_brpop_def
    using 1 2 3 4 served_bxpop [OF assms(7,5,3), of True] served_bxpop [OF assms(7,5,3), of False]
      served_brpoplpush [OF assms(3)] served_hset [OF assms(1,2)] served_dump [OF assms(3)] served_words [OF assms(4)]
      blocking_methods_restore
    by simp
qed

theorem blocking_and_vector_methods_witness:
  "\<exists>r' w'. Redis2_blpop [''k''] 0 (Some []) (Some []) (Some True) sample_client
       (sample_world [''*2'' @ CRLF @ ''$1'' @ CRLF, ''k'' @ CRLF @ ''$1'' @ CRLF @ ''v'', CRLF])
     = Some ((True, Some ''k'', Some ''v'', Some False), r', w') \<and> sent w' = wire [''BLPOP'', ''k'', ''0'']
     \<and> proto_stream (proto r') w' = []"
proof -
  have h: "LONG_MIN \<le> 1" "1 \<le> LONG_MAX" "''v'' \<noteq> []" "CHR 0x0D \<notin> set ''v''" "''k'' \<noteq> []" "list_all bulk_ok []"
    "[''k''] \<noteq> []" "length [''k''] = length [''v'']" "length [''k''] = length [''v'']"
    by (simp_all add: LONG_MIN_def LONG_MAX_def)
  have sh: "show_int 0 = ''0''" by code_simp
  have sm: "small (''BLPOP'' # ([''k''] @ [show_int 0]))" unfolding sh by (simp add: small_simps)
  have en: "concat [''*2'' @ CRLF @ ''$1'' @ CRLF, ''k'' @ CRLF @ ''$1'' @ CRLF @ ''v'', CRLF]
    = encode (RMulti (Some [RBulk (Some ''k''), RBulk (Some ''v'')]))" by code_simp
  show ?thesis
    using served_sample [OF blocking_and_vector_methods [OF h, THEN conjunct1] sm en] by (simp add: sh)
qed

end
