(* ===== verification/Redis2_Inv.thy ===== *)
theory Redis2_Inv
  imports Redis2 Protocol_Progress
begin

text \<open>
  The invariant of the client for one server, that of the receive buffer of its connection, and
  that every operation keeps it, whatever the system calls return.
\<close>

section \<open>The protocol layer\<close>

lemma proto_inv_error [simp]:
  "proto_inv (p\<lparr>p_error := e\<rparr>) = proto_inv p"
  "proto_inv (p\<lparr>blocking_mode := b\<rparr>) = proto_inv p"
  "proto_inv (p\<lparr>transaction_mode := m\<rparr>) = proto_inv p"
  by (simp_all add: proto_inv_def)

lemma proto_close_inv: "proto_close p w = (p', w') \<Longrightarrow> proto_inv p'"
  using TcpClient_close_closed [of "tcp_client p" w]
  by (auto simp: proto_close_def proto_inv_def Let_def split: prod.splits)

lemma close_error_inv: "close_error e p w = (p', w') \<Longrightarrow> proto_inv p'"
  using proto_close_inv [of p w] by (auto simp: close_error_def split: prod.splits)

lemma TcpClient_connect_inv: "TcpClient_connect h s t tc w = (ec, tc', w') \<Longrightarrow> tcp_inv tc'"
  using TcpClient_close_closed [of tc w]
  by (auto simp: TcpClient_connect_def Let_def tcp_inv_def split: prod.splits if_splits)

lemma proto_connect_inv: "proto_connect p w = (ok, p', w') \<Longrightarrow> proto_inv p'"
  by (auto simp: proto_connect_def Let_def proto_inv_def split: prod.splits if_splits
      dest: TcpClient_connect_inv close_error_inv [unfolded proto_inv_def])

lemma proto_is_open_inv: "proto_is_open p w = (b, p', w') \<Longrightarrow> proto_inv p \<Longrightarrow> proto_inv p'"
  by (auto simp: proto_is_open_def TcpClient_is_open_def Let_def proto_inv_def tcp_inv_def
      split: prod.splits if_splits)

lemma check_connect_inv: "check_connect p w = (b, p', w') \<Longrightarrow> proto_inv p \<Longrightarrow> proto_inv p'"
  by (auto simp: check_connect_def Let_def split: prod.splits if_splits dest: proto_is_open_inv)

lemma proto_assure_connect_inv:
  "proto_assure_connect st p w = (res, p', w') \<Longrightarrow> proto_inv p \<Longrightarrow> proto_inv p'"
  by (auto simp: proto_assure_connect_def Let_def split: prod.splits if_splits
      dest: proto_is_open_inv proto_connect_inv)

lemma TcpClient_write_inv: "TcpClient_write l t tc w = (ec, tc', w') \<Longrightarrow> tcp_inv tc \<Longrightarrow> tcp_inv tc'"
  by (auto simp: TcpClient_write_def Let_def tcp_inv_def split: prod.splits if_splits
      dest: TcpClient_close_closed [unfolded tcp_inv_def])

lemma write_text_inv: "write_text s c p w = (ok, c', p', w') \<Longrightarrow> proto_inv p \<Longrightarrow> proto_inv p'"
  by (auto simp: write_text_def Let_def proto_inv_def split: prod.splits if_splits
      dest: TcpClient_write_inv close_error_inv [unfolded proto_inv_def])

lemma write_command_inv: "write_command c p w = (ok, c', p', w') \<Longrightarrow> proto_inv p \<Longrightarrow> proto_inv p'"
  by (auto simp: write_command_def check_argc_def Let_def split: prod.splits if_splits option.splits
      dest!: write_text_inv)

lemma write_commandv_inv:
  "write_commandv c vs p w = Some (ok, c', p', w') \<Longrightarrow> proto_inv p \<Longrightarrow> proto_inv p'"
  by (auto simp: write_commandv_def check_argc_def Let_def bind_eq_Some_conv
      split: prod.splits if_splits option.splits dest!: write_text_inv)

lemma read_reply_inv: "read_reply c p w = Some (ok, c', p', w') \<Longrightarrow> proto_inv p \<Longrightarrow> proto_inv p'"
  using do_read_reply_spent [of p "Suc (avail p w)" _ True _ True w]
  by (fastforce simp: read_reply_def bind_eq_Some_conv spent_def whenever_iff split: option.splits)

lemma exec_command_inv: "exec_command c p w = Some (ok, c', p', w') \<Longrightarrow> proto_inv p \<Longrightarrow> proto_inv p'"
  by (auto simp: exec_command_def split: prod.splits if_splits dest: write_command_inv read_reply_inv)

lemma exec_commandv_inv:
  "exec_commandv c vs p w = Some (ok, c', p', w') \<Longrightarrow> proto_inv p \<Longrightarrow> proto_inv p'"
  by (auto simp: exec_commandv_def bind_eq_Some_conv split: prod.splits if_splits
      dest: write_commandv_inv read_reply_inv)

lemma pipeline_write_inv:
  "pipeline_write cs p w = (ok, cs', p', w') \<Longrightarrow> proto_inv p \<Longrightarrow> proto_inv p'"
proof (induction cs arbitrary: p w cs')
  case (Cons c cs)
  then show ?case
    by (auto split: prod.splits if_splits dest!: write_command_inv proto_is_open_inv close_error_inv)
qed simp

lemma pipeline_read_inv:
  "pipeline_read cs p w = Some (ok, cs', p', w') \<Longrightarrow> proto_inv p \<Longrightarrow> proto_inv p'"
proof (induction cs arbitrary: p w cs')
  case (Cons c cs)
  then show ?case
    by (auto simp: bind_eq_Some_conv split: prod.splits if_splits
        dest!: read_reply_inv proto_is_open_inv close_error_inv)
qed simp

lemma exec_pipeline_inv:
  "exec_pipeline cs p w = Some (ok, cs', p', w') \<Longrightarrow> proto_inv p \<Longrightarrow> proto_inv p'"
  by (auto simp: exec_pipeline_def bind_eq_Some_conv split: prod.splits if_splits option.splits
      dest!: pipeline_write_inv pipeline_read_inv)

section \<open>The client\<close>

definition client_inv :: "Redis2 \<Rightarrow> bool" where
  "client_inv r = proto_inv (proto r)"

definition keeps_inv :: "'r client_call \<Rightarrow> bool" where
  "keeps_inv m \<longleftrightarrow> (\<forall>r w. client_inv r \<longrightarrow> whenever (m r w) (\<lambda>(res, r', w'). client_inv r'))"

named_theorems keeps_rules

lemma keeps_invI:
  "(\<And>r w res r' w'. client_inv r \<Longrightarrow> m r w = Some (res, r', w') \<Longrightarrow> client_inv r') \<Longrightarrow> keeps_inv m"
  by (auto simp: keeps_inv_def whenever_iff)

lemma keeps_invD: "keeps_inv m \<Longrightarrow> m r w = Some (res, r', w') \<Longrightarrow> client_inv r \<Longrightarrow> client_inv r'"
  by (fastforce simp: keeps_inv_def whenever_iff)

lemma client_inv_fields [simp]:
  "client_inv (last_error e r) = client_inv r"
  "client_inv (on_reply_type_error c r) = client_inv r"
  "client_inv (r\<lparr>db_index := n\<rparr>) = client_inv r"
  "client_inv (r\<lparr>db_index_select_failure := b\<rparr>) = client_inv r"
  "client_inv (r\<lparr>transaction_cmds := cs\<rparr>) = client_inv r"
  "client_inv (on_reset r) = client_inv r"
  "client_inv (Redis2_set_blocking_mode b r) = client_inv r"
  by (simp_all add: client_inv_def last_error_def on_reply_type_error_def proto_set_error_def
      on_reset_def Redis2_set_blocking_mode_def set_blocking_mode_def Let_def)

lemma run_command_keeps [keeps_rules]: "keeps_inv (run_command c)"
  by (rule keeps_invI) (auto simp: run_command_def bind_eq_Some_conv client_inv_def dest: exec_command_inv)

lemma blocking_run_keeps [keeps_rules]: "keeps_inv (blocking_run c)"
  by (rule keeps_invI) (auto simp: blocking_run_def bind_eq_Some_conv dest!: keeps_invD [OF run_command_keeps])

lemma assured_inv:
  "proto_assure_connect st (proto r) w = (res, p', w') \<Longrightarrow> client_inv r \<Longrightarrow> client_inv (r\<lparr>proto := p'\<rparr>)"
  by (simp add: client_inv_def proto_assure_connect_inv)

lemma select_keeps [keeps_rules]: "keeps_inv (Redis2_select n)"
  by (rule keeps_invI) (auto simp: Redis2_select_def bind_eq_Some_conv Let_def
      split: prod.splits if_splits dest!: assured_inv keeps_invD [OF run_command_keeps])

lemma assure_connect_keeps [keeps_rules]: "keeps_inv assure_connect"
  by (rule keeps_invI) (auto simp: assure_connect_def bind_eq_Some_conv Let_def
      split: prod.splits if_splits dest!: assured_inv keeps_invD [OF select_keeps])

lemma check_expr_keeps [keeps_rules]: "keeps_inv k \<Longrightarrow> keeps_inv (CHECK_EXPR b fail k)"
  by (rule keeps_invI) (auto simp: CHECK_EXPR_def split: if_splits dest: keeps_invD)

lemma check_ptr_keeps [keeps_rules]: "keeps_inv k \<Longrightarrow> keeps_inv (CHECK_PTR_PARAM p fail k)"
  by (simp add: CHECK_PTR_PARAM_def check_expr_keeps)

lemma connected_run_keeps [keeps_rules]:
  "(\<And>c. keeps_inv (k c)) \<Longrightarrow> keeps_inv (connected_run c fail k)"
  by (rule keeps_invI) (auto simp: connected_run_def bind_eq_Some_conv split: if_splits
      dest!: keeps_invD [OF assure_connect_keeps] keeps_invD [OF run_command_keeps] dest: keeps_invD)

lemma reply_macros_keep [keeps_rules]:
  "keeps_inv (CHECK_STATUS_OK c)" "keeps_inv (CHECK_STATUS_PONG c)" "keeps_inv (GET_INTEGER_REPLY ret c)"
  "keeps_inv (GET_BULK_REPLY sret nil c)" "keeps_inv (GET_BULK_REPLY2 sret c)"
  "keeps_inv (GET_MBULKS_REPLY mret c)" "keeps_inv (GET_DOUBLE_REPLY dret c)"
  by (rule keeps_invI; auto simp: CHECK_STATUS_OK_def CHECK_STATUS_PONG_def GET_INTEGER_REPLY_def
      GET_BULK_REPLY_def GET_BULK_REPLY2_def GET_MBULKS_REPLY_def GET_DOUBLE_REPLY_def
      bind_eq_Some_conv Let_def split: if_splits)+

lemma command_bodies_keep [keeps_rules]:
  "keeps_inv (integer_command ret c)" "keeps_inv (bulk_command sret nil c)" "keeps_inv (bulk_command2 sret c)"
  "keeps_inv (mbulks_command mret c)" "keeps_inv (status_command c)" "keeps_inv (double_command dret c)"
  unfolding integer_command_def bulk_command_def bulk_command2_def mbulks_command_def status_command_def
    double_command_def
  by (intro keeps_rules)+

section \<open>Every method\<close>

text \<open>A method that reads the world to print a number.\<close>

lemma world_keeps: "(\<And>w. keeps_inv (m w)) \<Longrightarrow> keeps_inv (\<lambda>r w. m w r w)"
  by (rule keeps_invI) (auto dest: keeps_invD)

lemmas keep_step = bind_eq_Some_conv Let_def split_def

lemma reply_bodies_keep [keeps_rules]:
  "keeps_inv (Redis2_type key sret)" "keeps_inv (zxxxrank rv key member ret ne)"
  "keeps_inv (Redis2_zscore key member dret nil)" "keeps_inv (Redis2_bgrewriteaof)"
  unfolding Redis2_type_def zxxxrank_def Redis2_zscore_def Redis2_bgrewriteaof_def Let_def
  by (intro keeps_rules; rule keeps_invI; auto simp: keep_step split: if_splits)+

lemma assured_keeps [keeps_rules]:
  assumes "keeps_inv k"
  shows "keeps_inv (\<lambda>r w. do { (ok, r, w) \<leftarrow> assure_connect r w; if \<not> ok then Some (fail, r, w) else k r w })"
  by (rule keeps_invI) (auto simp: keep_step split: if_splits
      dest!: keeps_invD [OF assure_connect_keeps] dest: keeps_invD [OF assms])

lemma check_connect_client_inv:
  "Redis2_check_connect r w = (ok, r', w') \<Longrightarrow> client_inv r \<Longrightarrow> client_inv r'"
  by (auto simp: Redis2_check_connect_def client_inv_def split: prod.splits dest: check_connect_inv)

lemma checked_keeps [keeps_rules]:
  assumes "keeps_inv k"
  shows "keeps_inv (\<lambda>r w. let (ok, r, w) = Redis2_check_connect r w in if \<not> ok then Some (fail, r, w) else k r w)"
  by (rule keeps_invI) (auto split: prod.splits if_splits dest!: check_connect_client_inv dest: keeps_invD [OF assms])

lemma run_then_keeps [keeps_rules]:
  assumes "\<And>ok c. keeps_inv (k ok c)"
  shows "keeps_inv (\<lambda>r w. do { ((ok, c), r, w) \<leftarrow> run_command cmd r w; k ok c r w })"
    "keeps_inv (\<lambda>r w. do { ((ok, c), r, w) \<leftarrow> blocking_run cmd r w; k ok c r w })"
  by (rule keeps_invI; auto simp: keep_step dest!: keeps_invD [OF run_command_keeps]
      keeps_invD [OF blocking_run_keeps] dest: keeps_invD [OF assms])+

lemma bxpop_keeps [keeps_rules]: "keeps_inv (bxpop is_blpop keys timeout key member expired)"
  unfolding bxpop_def Let_def
  by (intro keeps_rules; rule keeps_invI; auto simp: keep_step split: if_splits bool.splits list.splits option.splits)

lemma brpoplpush_keeps [keeps_rules]: "keeps_inv (Redis2_brpoplpush source destination timeout member expired)"
  unfolding Redis2_brpoplpush_def Let_def
  by (intro keeps_rules; rule keeps_invI; auto simp: keep_step split: if_splits)

lemma exec_client_inv:
  "exec_command cp (proto r) w = Some (ok, cp', p', w') \<Longrightarrow> client_inv r \<Longrightarrow> client_inv (r\<lparr>proto := p'\<rparr>)"
  "exec_commandv cp vs (proto r) w = Some (ok, cp', p', w') \<Longrightarrow> client_inv r \<Longrightarrow> client_inv (r\<lparr>proto := p'\<rparr>)"
  "exec_pipeline cps (proto r) w = Some (ok, cps', p', w') \<Longrightarrow> client_inv r \<Longrightarrow> client_inv (r\<lparr>proto := p'\<rparr>)"
  by (auto simp: client_inv_def dest: exec_command_inv exec_commandv_inv exec_pipeline_inv)

lemma exec_bodies_keep [keeps_rules]:
  "keeps_inv (Redis2_exec_command cp)" "keeps_inv (Redis2_exec_commandv cp vs)"
  "keeps_inv (Redis2_exec_pipeline cps)"
  unfolding Redis2_exec_command_def Redis2_exec_commandv_def Redis2_exec_pipeline_def
  by (intro keeps_rules; rule keeps_invI; auto simp: keep_step dest!: exec_client_inv)+

lemma queue_keeps [keeps_rules]: "keeps_inv (add_command cp)" "keeps_inv (add_commandv cp vs)"
  unfolding add_command_def add_commandv_def
  by (intro keeps_rules; rule keeps_invI; auto simp: keep_step split: if_splits
      dest!: exec_client_inv keeps_invD [OF run_command_keeps])+

lemma transaction_end_keeps [keeps_rules]: "keeps_inv (Redis2_exec cs)" "keeps_inv Redis2_discard"
  unfolding Redis2_exec_def Redis2_discard_def [abs_def]
  by (intro keeps_rules; rule keeps_invI; auto simp: keep_step split: if_splits)+

lemmas method_defs =
  Redis2_del_def Redis2_del_keys_def Redis2_dump_def Redis2_exists_def Redis2_expire_def
  Redis2_expireat_def Redis2_keys_def Redis2_move_def Redis2_persist_def Redis2_pexpire_def
  Redis2_pexpireat_def Redis2_pttl_def Redis2_restore_def Redis2_randomkey_def Redis2_sort_def
  Redis2_ttl_def Redis2_append_def Redis2_decr_def Redis2_decrby_def Redis2_get_def
  Redis2_getbit_def Redis2_getrange_def Redis2_getset_def Redis2_incr_def Redis2_incrby_def
  Redis2_mget_def Redis2_mset_def Redis2_psetex_def Redis2_set_def Redis2_setbit_def
  Redis2_setex_def Redis2_setnx_def Redis2_setrange_def Redis2_strlen_def Redis2_hdel_def
  Redis2_hdel_fields_def Redis2_hexists_def Redis2_hget_def Redis2_hgetall_def
  Redis2_hincrby_def Redis2_hincr_def Redis2_hkeys_def Redis2_hlen_def Redis2_hmget_def
  Redis2_hmset_def Redis2_hset_def Redis2_hsetnx_def Redis2_hvals_def Redis2_lindex_def
  Redis2_linsert_def Redis2_llen_def Redis2_lpop_def Redis2_lpush_def Redis2_lpush_values_def
  Redis2_lpushx_def Redis2_lrange_def Redis2_lrem_def Redis2_lset_def Redis2_ltrim_def
  Redis2_rpop_def Redis2_rpush_def Redis2_rpush_values_def Redis2_rpushx_def Redis2_sadd_def
  Redis2_sadd_members_def Redis2_scard_def Redis2_sismember_def Redis2_smembers_def
  Redis2_spop_def Redis2_srandmember_def Redis2_srem_def Redis2_srem_members_def
  Redis2_zcard_def Redis2_zcount_def zxxxrange_def Redis2_zrange_def Redis2_zrevrange_def
  zxxxrangebyscore_def Redis2_zrangebyscore_def Redis2_zrevrangebyscore_def Redis2_zrank_def
  Redis2_zrevrank_def Redis2_zrem_def Redis2_zrem_members_def Redis2_zremrangebyrank_def
  Redis2_zremrangebyscore_def Redis2_flushall_def Redis2_flushdb_def Redis2_rename_def
  Redis2_renamenx_def Redis2_blpop_def Redis2_brpop_def Redis2_rpoplpush_def Redis2_sdiff_def
  Redis2_sdiffstore_def Redis2_sinter_def Redis2_sinterstore_def Redis2_smove_def
  Redis2_sunion_def Redis2_sunionstore_def Redis2_zinterstore_def Redis2_zunionstore_def
  Redis2_publish_def Redis2_multi_def Redis2_unwatch_def Redis2_watch_def Redis2_ping_def
  Redis2_bgsave_def Redis2_dbsize_def Redis2_info_def Redis2_info_type_def Redis2_lastsave_def
  Redis2_slaveof_def

lemma printing_keeps [keeps_rules]:
  "keeps_inv (Redis2_incrbyfloat key inc dret)"
  "keeps_inv (Redis2_hincrbyfloat key field inc dret)"
  "keeps_inv (Redis2_zadd key score member ret)"
  "keeps_inv (Redis2_zadd_scores key scores members ret)"
  "keeps_inv (Redis2_zincrby key increment member dret)"
  "keeps_inv (zxxxxxstore is_zinterstore destination keys weights agg ret)"
  unfolding Redis2_incrbyfloat_def [abs_def] Redis2_hincrbyfloat_def [abs_def] Redis2_zadd_def [abs_def]
    Redis2_zadd_scores_def [abs_def] Redis2_zincrby_def [abs_def] zxxxxxstore_def [abs_def]
  by (rule world_keeps, intro keeps_rules)+


end
