(* ===== verification/Tcp_Liveness.thy ===== *)
theory Tcp_Liveness
  imports Tcp_Progress "HOL-Library.Sublist"
begin

text \<open>
  The reading loops of \<open>TcpClient\<close> end and no \<open>assert\<close> of the buffer fails, in every world:
  whatever the sizes in which the bytes arrive and whichever system call fails.  The one thing
  that can keep a call from returning is a size: the growth loop of \<open>prepare\<close> never ends when
  it is asked for \<open>2^63\<close> bytes or more (\<open>prepare_growth\<close>).  So the bytes still to come are
  assumed to announce no such size (\<open>modest\<close>), and a \<open>recv\<close> to deliver less than 2 GiB at
  once, as the kernel does.
\<close>

section \<open>What is still to come\<close>

fun recv_text :: "recv_ret list \<Rightarrow> string" where
  "recv_text [] = []"
| "recv_text (Recv bs # q) = bs @ recv_text q"
| "recv_text (RecvFail e # q) = recv_text q"

fun recv_small :: "recv_ret \<Rightarrow> bool" where
  "recv_small (Recv bs) = (length bs < 2 ^ 31)"
| "recv_small (RecvFail e) = True"

text \<open>No \<open>$\<close> or \<open>*\<close> is followed by a number of \<open>2^60\<close> or more.\<close>

fun modest :: "string \<Rightarrow> bool" where
  "modest [] = True"
| "modest (c # cs) \<longleftrightarrow>
     (c = CHR ''$'' \<or> c = CHR ''*'' \<longrightarrow> list_all (\<lambda>l. strtol_value l < 2 ^ 60) (prefixes cs)) \<and> modest cs"

definition tcp_text :: "TcpClient \<Rightarrow> world \<Rightarrow> string" where
  "tcp_text tc w = get_read_buffer (tbuf tc) @ recv_text (recv_q w)"

definition tcp_live :: "TcpClient \<Rightarrow> world \<Rightarrow> bool" where
  "tcp_live tc w \<longleftrightarrow> tcp_inv tc \<and> modest (tcp_text tc w) \<and> length (tcp_text tc w) < 2 ^ 61
     \<and> list_all recv_small (recv_q w)"

lemma modest_append: "modest (xs @ ys) \<Longrightarrow> modest xs \<and> modest ys"
  by (induction xs) (auto simp: list_all_iff)

lemma modest_tl: "modest s \<Longrightarrow> hd s = CHR ''$'' \<or> hd s = CHR ''*'' \<Longrightarrow> s \<noteq> [] \<Longrightarrow> strtol_value (tl s) < 2 ^ 60"
  by (cases s) (auto simp: list_all_iff)

text \<open>A number of 18 digits or less is below the bound.\<close>

lemma read_digits_bound: "read_digits acc s < (acc + 1) * 10 ^ length s"
proof (induction s arbitrary: acc)
  case (Cons c cs)
  show ?case
  proof (cases "is_digit c")
    case True
    then have "10 * acc + digit_val c + 1 \<le> (acc + 1) * 10"
      by (auto simp: is_digit_def digit_val_def)
    then have "(10 * acc + digit_val c + 1) * 10 ^ length cs \<le> (acc + 1) * 10 * 10 ^ length cs"
      by (rule mult_right_mono) simp
    with Cons.IH [of "10 * acc + digit_val c"]
    have "read_digits (10 * acc + digit_val c) cs < (acc + 1) * 10 * 10 ^ length cs" by (rule order.strict_trans2)
    with True show ?thesis by (simp add: algebra_simps)
  next
    case False
    have "acc < (acc + 1) * 1" by simp
    also have "\<dots> \<le> (acc + 1) * 10 ^ length (c # cs)" by (intro mult_left_mono) simp_all
    finally show ?thesis using False by simp
  qed
qed simp

lemma strtol_value_bound:
  assumes "length s \<le> 18"
  shows "strtol_value s < 2 ^ 60"
proof -
  have le: "length (dropWhile is_space s) \<le> length s" by (rule length_dropWhile_le)
  have "read_digits 0 t < 10 ^ 18" if "length t \<le> 18" for t
  proof -
    have "(10::nat) ^ length t \<le> 10 ^ 18" using that by (intro power_increasing) simp_all
    with read_digits_bound [of 0 t] show ?thesis by simp
  qed
  then have d: "int (read_digits 0 t) < 2 ^ 60" if "length t \<le> 18" for t using that by fastforce
  show ?thesis
  proof (cases "dropWhile is_space s")
    case (Cons c cs)
    with le assms have "length cs \<le> 18" "length (c # cs) \<le> 18" by simp_all
    with d [of cs] d [of "c # cs"] Cons show ?thesis by (auto simp: strtol_value_def)
  next
    case Nil
    show ?thesis unfolding strtol_value_def Nil by simp
  qed
qed

lemma short_modest: "length s \<le> 19 \<Longrightarrow> modest s"
proof (induction s)
  case (Cons c cs)
  have "strtol_value l < 2 ^ 60" if "prefix l cs" for l
    using that Cons.prems prefix_length_le [OF that] by (intro strtol_value_bound) simp
  with Cons show ?case by (auto simp: list_all_iff)
qed simp

lemma tcp_liveD: "tcp_live tc w \<Longrightarrow> tcp_inv tc" "tcp_live tc w \<Longrightarrow> length (get_read_buffer (tbuf tc)) < 2 ^ 61"
  by (auto simp: tcp_live_def tcp_text_def)

text \<open>Dropping bytes off the front, as \<open>close\<close> and \<open>consume\<close> do.\<close>

lemma tcp_live_suffix:
  assumes "tcp_live tc w" "tcp_inv tc'" "tcp_text tc w = s @ tcp_text tc' w'" "list_all recv_small (recv_q w')"
  shows "tcp_live tc' w' \<and> modest s"
  using assms modest_append [of s "tcp_text tc' w'"] by (auto simp: tcp_live_def)

lemma sys_recv_text:
  assumes "sys_recv f len w = (n, bs, w')" "list_all recv_small (recv_q w)"
  shows "recv_text (recv_q w) = bs @ recv_text (recv_q w') \<and> list_all recv_small (recv_q w')
    \<and> length bs \<le> len \<and> int32 n = n \<and> (0 < n \<longrightarrow> n = int (length bs)) \<and> (n \<le> 0 \<longrightarrow> bs = [])"
proof -
  have "int32 n = n"
  proof (cases "n = - 1")
    case True
    then show ?thesis by (simp add: int32_def)
  next
    case False
    then have "n = 0 \<or> 0 < n \<and> nat n < 2 ^ 31"
      using assms by (auto simp: sys_recv_def split: if_splits list.splits recv_ret.splits)
    then show ?thesis by (intro int32_id) auto
  qed
  with assms show ?thesis
    by (auto simp: sys_recv_def split: if_splits list.splits recv_ret.splits)
qed

lemma timed_read_text:
  assumes "timed_read f len timeout w = (c, bs, w')" "list_all recv_small (recv_q w)"
  shows "recv_text (recv_q w) = bs @ recv_text (recv_q w') \<and> list_all recv_small (recv_q w')
    \<and> length bs \<le> len \<and> (0 < c \<longrightarrow> c = int (length bs)) \<and> (c \<le> 0 \<longrightarrow> bs = [])"
proof -
  obtain p w1 where p: "poll_read timeout w = (p, w1)" by force
  obtain n bs1 w2 where r: "sys_recv f len w1 = (n, bs1, w2)" by (cases "sys_recv f len w1")
  have q: "recv_q w1 = recv_q w" using poll_read_recv_q [OF p] by simp
  from assms(2) q sys_recv_text [OF r] have "recv_text (recv_q w) = bs1 @ recv_text (recv_q w2)
      \<and> list_all recv_small (recv_q w2) \<and> length bs1 \<le> len \<and> int32 n = n \<and> (0 < n \<longrightarrow> n = int (length bs1)) \<and> (n \<le> 0 \<longrightarrow> bs1 = [])"
    by simp
  with assms p r q show ?thesis by (auto simp: timed_read_def split: if_splits)
qed

lemma TcpClient_close_live:
  assumes "tcp_live tc w" "TcpClient_close tc w = (tc', w')"
  shows "tcp_live tc' w'"
proof -
  have q: "recv_q w' = recv_q w"
    using assms(2) retry_close_recv_q [of w] by (auto simp: TcpClient_close_def safe_close_def Let_def)
  with TcpClient_close_closed [OF assms(2)] assms(1) tcp_live_suffix [OF assms(1), of tc' "get_read_buffer (tbuf tc)" w']
  show ?thesis by (auto simp: tcp_text_def tcp_live_def)
qed

section \<open>The loops\<close>

text \<open>The result of a reading operation.\<close>

definition lives :: "(string \<times> int) \<times> TcpClient \<times> world \<Rightarrow> bool" where
  "lives = (\<lambda>((l, ec), tc, w). tcp_live tc w \<and> modest l)"

lemma close_lives:
  "tcp_live tc w \<Longrightarrow> lives (let (tc', w') = TcpClient_close tc w in (([], errno w'), tc', w'))"
  using TcpClient_close_live [of tc w] by (auto simp: lives_def split: prod.splits)

lemma cut_lives:
  assumes l: "tcp_live tc w" and n: "0 < n" "n \<le> length (get_read_buffer (tbuf tc))" "m \<le> n"
  shows "returns (consume n (tbuf tc))
    (\<lambda>(s, b). lives ((take m (get_read_buffer (tbuf tc)), 0), tc\<lparr>tbuf := b\<rparr>, w))"
proof -
  have inv: "buffer_inv (tbuf tc)" using l by (simp add: tcp_live_def tcp_inv_def)
  have "lives ((take m (get_read_buffer (tbuf tc)), 0), tc\<lparr>tbuf := b\<rparr>, w)"
    if b: "buffer_inv b" "get_read_buffer b = drop n (get_read_buffer (tbuf tc))" for b
  proof -
    let ?d = "get_read_buffer (tbuf tc)"
    have "tcp_text tc w = take n ?d @ tcp_text (tc\<lparr>tbuf := b\<rparr>) w" by (simp add: tcp_text_def b)
    from tcp_live_suffix [OF l _ this] b l have t: "tcp_live (tc\<lparr>tbuf := b\<rparr>) w \<and> modest (take n ?d)"
      by (simp add: tcp_inv_def tcp_live_def)
    have "take n ?d = take m ?d @ drop m (take n ?d)"
      using n(3) append_take_drop_id [of m "take n ?d"] by (simp add: min_def)
    with t modest_append [of "take m ?d" "drop m (take n ?d)"] show ?thesis by (simp add: lives_def)
  qed
  then show ?thesis using consume_ok [OF inv n(1,2)] by (auto elim!: returns_mono)
qed

text \<open>One turn of either loop: room is made, bytes arrive and are stored.\<close>

definition tcp_live_turn :: "TcpClient \<Rightarrow> TcpClientBuffer \<Rightarrow> int \<Rightarrow> string \<Rightarrow> world \<Rightarrow> bool" where
  "tcp_live_turn tc b c bs w' \<longleftrightarrow>
     (c \<le> 0 \<longrightarrow> tcp_live (tc\<lparr>tbuf := b\<rparr>) w')
     \<and> (0 < c \<longrightarrow> (\<exists>b'. produce (nat c) (store_to_read bs b) = Some b' \<and> tcp_live (tc\<lparr>tbuf := b'\<rparr>) w'
         \<and> read_size b' = read_size (tbuf tc) + nat c))"

lemma refill_live:
  assumes l: "tcp_live tc w" and n: "read_size (tbuf tc) + n < 2 ^ 62"
  shows "\<exists>b. prepare n False (tbuf tc) = Some b \<and>
    (\<forall>c bs w'. timed_read (fd tc) (free_size b) timeout w = (c, bs, w') \<longrightarrow> tcp_live_turn tc b c bs w')"
proof -
  have inv: "buffer_inv (tbuf tc)" using l by (simp add: tcp_live_def tcp_inv_def)
  from prepare_ok [OF inv n, of False] obtain b where b: "prepare n False (tbuf tc) = Some b"
    "buffer_inv b" "get_read_buffer b = get_read_buffer (tbuf tc)" by (auto simp: returns_iff)
  have sm: "list_all recv_small (recv_q w)" using l by (simp add: tcp_live_def)
  show ?thesis
  proof (intro exI conjI allI impI)
    show "prepare n False (tbuf tc) = Some b" by (rule b(1))
    fix c bs w' assume t: "timed_read (fd tc) (free_size b) timeout w = (c, bs, w')"
    note tt = timed_read_text [OF t sm]
    have w': "list_all recv_small (recv_q w')" "tcp_text tc w = get_read_buffer (tbuf tc) @ bs @ recv_text (recv_q w')"
      using tt by (simp_all add: tcp_text_def)
    have read: "tcp_live (tc\<lparr>tbuf := b'\<rparr>) w'"
      if "buffer_inv b'" "get_read_buffer b' = get_read_buffer (tbuf tc) @ bs" for b'
      using that w' l by (simp add: tcp_live_def tcp_inv_def tcp_text_def)
    have room: "length bs \<le> free_size b" using tt by simp
    from store_produce_ok [OF b(2) room] obtain b' where b': "produce (length bs) (store_to_read bs b) = Some b'"
      "buffer_inv b'" "get_read_buffer b' = get_read_buffer (tbuf tc) @ bs" by (auto simp: returns_iff b(3))
    have "read_size b' = read_size (tbuf tc) + length bs"
      using b'(3) length_get_read_buffer [OF b'(2)] length_get_read_buffer [OF inv] by simp
    with b' read [OF b'(2,3)] read [OF b(2)] b(3) tt
    show "tcp_live_turn tc b c bs w'" by (auto simp: tcp_live_turn_def)
  qed
qed

lemma read_line_loop_lives:
  assumes "d \<noteq> []"
  shows "tcp_live tc w \<Longrightarrow> returns (read_line_loop d timeout off tc w) lives"
proof (induction "recv_weight (recv_q w)" arbitrary: tc w off rule: less_induct)
  case less
  let ?data = "get_read_buffer (tbuf tc)"
  have inv: "buffer_inv (tbuf tc)" using less.prems by (simp add: tcp_live_def tcp_inv_def)
  note rs = length_get_read_buffer [OF inv, symmetric]
  obtain res off' where sr: "(if length d \<le> length ?data then search_delim d ?data off
      else (None, off)) = (res, off')" by fastforce
  show ?case
  proof (cases res)
    case (Some p)
    with sr have "search_delim d ?data off = (Some p, off')" by (auto split: if_splits)
    from search_delim_Some [OF this] have n: "0 < p + length d" "p + length d \<le> length ?data"
      using assms by auto
    from cut_lives [OF less.prems n, of p] sr Some show ?thesis
      by (simp add: read_line_loop.simps [of d timeout off tc w] rs returns_bind Let_def)
        (auto simp: returns_iff)
  next
    case None
    have "read_size (tbuf tc) + kDefaultBufferSize < 2 ^ 62" using tcp_liveD(2) [OF less.prems] by (simp add: rs)
    from refill_live [OF less.prems this, where timeout = timeout] obtain b where
      b: "prepare kDefaultBufferSize False (tbuf tc) = Some b"
      "\<And>c bs w'. timed_read (fd tc) (free_size b) timeout w = (c, bs, w') \<Longrightarrow> tcp_live_turn tc b c bs w'" by blast
    obtain c bs w' where t: "timed_read (fd tc) (free_size b) timeout w = (c, bs, w')"
      by (cases "timed_read (fd tc) (free_size b) timeout w")
    show ?thesis
    proof (cases "0 < c")
      case True
      with b(2) [OF t] obtain b' where "produce (nat c) (store_to_read bs b) = Some b'" "tcp_live (tc\<lparr>tbuf := b'\<rparr>) w'"
        by (auto simp: tcp_live_turn_def)
      with less.hyps [OF timed_read_progress [OF t True]] sr None b(1) t True show ?thesis
        by (simp add: read_line_loop.simps [of d timeout off tc w] rs)
    next
      case False
      with b(2) [OF t] have "tcp_live (tc\<lparr>tbuf := b\<rparr>) w'" by (simp add: tcp_live_turn_def)
      from close_lives [OF this] sr None b(1) t False show ?thesis
        by (auto simp: read_line_loop.simps [of d timeout off tc w] rs Let_def split: prod.splits)
    qed
  qed
qed

text \<open>The room asked for is what is missing of the block.\<close>

lemma read_loop_lives:
  assumes "0 < expect" "expect < 2 ^ 62"
  shows "tcp_live tc w \<Longrightarrow> read_size (tbuf tc) < expect \<longrightarrow> to_read = expect - read_size (tbuf tc) \<Longrightarrow>
    returns (read_loop expect dsz timeout to_read tc w) lives"
proof (induction "recv_weight (recv_q w)" arbitrary: tc w to_read rule: less_induct)
  case less
  let ?data = "get_read_buffer (tbuf tc)"
  have inv: "buffer_inv (tbuf tc)" using less.prems by (simp add: tcp_live_def tcp_inv_def)
  note rs = length_get_read_buffer [OF inv, symmetric]
  show ?case
  proof (cases "expect \<le> length ?data")
    case True
    with cut_lives [OF less.prems(1) assms(1) True, of "expect - dsz"] show ?thesis
      by (simp add: read_loop.simps [of expect dsz timeout to_read tc w] rs returns_bind Let_def)
        (auto simp: returns_iff)
  next
    case False
    then have tr: "to_read + read_size (tbuf tc) = expect" using less.prems(2) by (simp add: rs)
    then have "read_size (tbuf tc) + to_read < 2 ^ 62" using assms(2) by simp
    from refill_live [OF less.prems(1) this, where timeout = timeout] obtain b where
      b: "prepare to_read False (tbuf tc) = Some b"
      "\<And>c bs w'. timed_read (fd tc) (free_size b) timeout w = (c, bs, w') \<Longrightarrow> tcp_live_turn tc b c bs w'" by blast
    obtain c bs w' where t: "timed_read (fd tc) (free_size b) timeout w = (c, bs, w')"
      by (cases "timed_read (fd tc) (free_size b) timeout w")
    show ?thesis
    proof (cases "0 < c")
      case True
      with b(2) [OF t] obtain b' where b': "produce (nat c) (store_to_read bs b) = Some b'" "tcp_live (tc\<lparr>tbuf := b'\<rparr>) w'"
        "read_size b' = read_size (tbuf tc) + nat c" by (auto simp: tcp_live_turn_def)
      have left: "read_size b' < expect \<longrightarrow> size_sub to_read (nat c) = expect - read_size b'"
      proof
        assume "read_size b' < expect"
        then have "nat c \<le> to_read" "to_read < 2 ^ 64" using tr b'(3) assms(2) by auto
        with tr b'(3) show "size_sub to_read (nat c) = expect - read_size b'" by simp
      qed
      with less.hyps [OF timed_read_progress [OF t True], of "tc\<lparr>tbuf := b'\<rparr>"] b' False b(1) t True show ?thesis
        by (simp add: read_loop.simps [of expect dsz timeout to_read tc w] rs)
    next
      case False': False
      with b(2) [OF t] have "tcp_live (tc\<lparr>tbuf := b\<rparr>) w'" by (simp add: tcp_live_turn_def)
      from close_lives [OF this] False b(1) t False' show ?thesis
        by (auto simp: read_loop.simps [of expect dsz timeout to_read tc w] rs Let_def split: prod.splits)
    qed
  qed
qed

lemma TcpClient_read_line_lives:
  "tcp_live tc w \<Longrightarrow> d \<noteq> [] \<Longrightarrow> returns (TcpClient_read_line d timeout tc w) lives"
  unfolding TcpClient_read_line_def by (rule read_line_loop_lives)

lemma TcpClient_read_lives:
  assumes l: "tcp_live tc w" and n: "0 < n + length d" "n + length d < 2 ^ 62"
  shows "returns (TcpClient_read n d timeout tc w) lives"
proof -
  have "size_add n (length d) = n + length d" using n(2) by simp
  moreover have "read_size (tbuf tc) < n + length d \<longrightarrow>
      size_sub (n + length d) (read_size (tbuf tc)) = n + length d - read_size (tbuf tc)"
    using n(2) by simp
  ultimately show ?thesis unfolding TcpClient_read_def Let_def
    by (simp add: read_loop_lives [OF n l])
qed

end
