(* ===== verification/Protocol_Liveness.thy ===== *)
theory Protocol_Liveness
  imports Protocol_Progress Output_Types Tcp_Liveness
begin

text \<open>
  Every operation of the protocol layer returns, in every world whose bytes announce no size of
  \<open>2^60\<close> or more, and leaves such a world: no loop runs forever, no assertion fails, the depth
  bound of \<open>read_reply\<close> is not reached.  \<open>goes\<close> is the success of a reading operation, with one
  rule for each way of composing them (collected in \<open>goes_rules\<close>).
\<close>

definition proto_live :: "RedisProtocol \<Rightarrow> world \<Rightarrow> bool" where
  "proto_live p w = tcp_live (tcp_client p) w"

definition goes :: "('a \<times> 'b \<times> RedisProtocol \<times> world) option \<Rightarrow> bool" where
  "goes m \<longleftrightarrow> returns m (\<lambda>(a, b, p, w). proto_live p w)"

named_theorems goes_rules

lemma proto_live_fields [simp]:
  "proto_live (p\<lparr>p_error := e\<rparr>) w = proto_live p w"
  "proto_live (p\<lparr>transaction_mode := b\<rparr>) w = proto_live p w"
  "proto_live (p\<lparr>blocking_mode := b\<rparr>) w = proto_live p w"
  "proto_live p (w\<lparr>errno := n\<rparr>) = proto_live p w"
  by (simp_all add: proto_live_def tcp_live_def tcp_text_def)

lemma proto_live_inv: "proto_live p w \<Longrightarrow> proto_inv p"
  by (simp add: proto_live_def proto_inv_def tcp_live_def)

lemma goes_Some [simp]: "goes (Some (a, b, p, w)) = proto_live p w"
  by (simp add: goes_def)

lemma goes_Some_pair [simp]: "goes (Some (a, b, s)) = proto_live (fst s) (snd s)"
  by (cases s) simp

lemma goes_None [simp]: "\<not> goes None"
  by (simp add: goes_def)

lemma goes_if [goes_rules]: "(c \<Longrightarrow> goes m) \<Longrightarrow> (\<not> c \<Longrightarrow> goes n) \<Longrightarrow> goes (if c then m else n)"
  by simp

lemma goes_bind [goes_rules]:
  assumes "goes m" "\<And>a b p' w'. m = Some (a, b, p', w') \<Longrightarrow> proto_live p' w' \<Longrightarrow> goes (f a b p' w')"
  shows "goes (do { (a, b, p, w) \<leftarrow> m; f a b p w })"
  using assms by (cases m) (auto simp: goes_def)

lemma goes_parse [goes_rules]:
  assumes "line \<noteq> []" "\<And>ok e. goes (f ok (fst (strtol (tl line))) (w\<lparr>errno := e\<rparr>))"
  shows "goes (do { (ok, i, w) \<leftarrow> parse_integer line w; f ok i w })"
proof -
  have "\<exists>e. w = w\<lparr>errno := e\<rparr>" by (rule exI [of _ "errno w"]) simp
  then have "\<exists>ok e. parse_integer line w = Some (ok, fst (strtol (tl line)), w\<lparr>errno := e\<rparr>)"
    using assms(1) by (auto simp: parse_integer_def Let_def split: prod.splits)
  with assms(2) show ?thesis by auto
qed

lemma close_error_live:
  "proto_live p w \<Longrightarrow> proto_live (fst (close_error e p w)) (snd (close_error e p w))"
  using TcpClient_close_live [of "tcp_client p" w]
  by (auto simp: proto_live_def close_error_def proto_close_def split: prod.splits)

lemma reply_failed_live [simp]: "proto_live p w \<Longrightarrow> goes (Some (reply_failed what out p w))"
  by (simp add: reply_failed_def close_error_live)

section \<open>Lines and blocks\<close>

lemma check_line_live:
  assumes "lives ((l, ec), tc, w')"
  shows "(\<lambda>(ok, line, p', w'). proto_live p' w' \<and> modest line)
    (check_line (l, ec) (p\<lparr>tcp_client := tc\<rparr>) w')"
proof -
  let ?p = "p\<lparr>tcp_client := tc\<rparr>"
  have l: "proto_live ?p w'" "modest l" using assms by (simp_all add: lives_def proto_live_def)
  have "proto_live p1 w1" if "close_error e ?p w' = (p1, w1)" for e p1 w1
    using close_error_live [OF l(1), of e] that by simp
  with l show ?thesis by (auto simp: check_line_def split: prod.splits)
qed

lemma checked_returns:
  assumes "returns m lives"
  shows "returns (do { (r, tc, w) \<leftarrow> m; Some (check_line r (p\<lparr>tcp_client := tc\<rparr>) w) })
    (\<lambda>(ok, line, p', w'). proto_live p' w' \<and> modest line)"
proof -
  from assms obtain l ec tc w' where "m = Some ((l, ec), tc, w')" "lives ((l, ec), tc, w')"
    by (auto simp: returns_iff)
  with check_line_live [of l ec tc w' p] show ?thesis by simp
qed

lemma proto_read_line_returns:
  assumes "proto_live p w"
  shows "returns (proto_read_line p w) (\<lambda>(ok, line, p', w'). proto_live p' w' \<and> modest line)"
  unfolding proto_read_line_def using assms
  by (intro checked_returns TcpClient_read_line_lives) (simp_all add: proto_live_def s_redis_line_end_def)

lemma proto_read_line_goes: "proto_live p w \<Longrightarrow> goes (proto_read_line p w)"
  unfolding goes_def by (rule returns_mono [OF proto_read_line_returns]) auto

lemma proto_read_goes:
  assumes "proto_live p w" "n \<le> 2 ^ 61"
  shows "goes (proto_read n p w)"
  unfolding goes_def proto_read_def
  by (rule returns_mono [OF checked_returns [OF TcpClient_read_lives]])
    (use assms in \<open>auto simp: proto_live_def s_redis_line_end_def\<close>)

text \<open>A line that starts with \<open>$\<close> or \<open>*\<close> announces a size below \<open>2^60\<close>.\<close>

definition header_ok :: "string \<Rightarrow> bool" where
  "header_ok line \<longleftrightarrow> line \<noteq> [] \<and> fst (strtol (tl line)) < 2 ^ 60"

lemma header_okI:
  assumes "modest line" "line \<noteq> []" "hd line = CHR ''$'' \<or> hd line = CHR ''*''"
  shows "header_ok line"
  using modest_tl [OF assms(1,3,2)] assms(2)
  by (auto simp: header_ok_def strtol_def Let_def LONG_MAX_def LONG_MIN_def)

section \<open>Bulks\<close>

lemma read_bulk_2_goes:
  assumes "proto_live p w" "header_ok header"
  shows "goes (read_bulk_2 header p w)"
  unfolding read_bulk_2_def
proof (rule goes_parse)
  show "header \<noteq> []" using assms(2) by (simp add: header_ok_def)
  fix ok e
  let ?i = "fst (strtol (tl header))" and ?w = "w\<lparr>errno := e\<rparr>"
  have l: "proto_live p ?w" using assms(1) by simp
  show "goes (if \<not> ok then Some (False, None, close_error (read_failed (''integer error : '' @ header) p) p ?w)
     else if ?i < - 1 \<or> ?i = 0
     then Some (False, None, close_error (read_failed (''unexpected integer : '' @ show_int ?i) p) p ?w)
     else if ?i = - 1 then Some (True, None, p, ?w)
     else do {
       (ok, bulk, p, w) \<leftarrow> proto_read (size_of_int ?i) p ?w;
       if \<not> ok then Some (False, None, p, w)
       else if size_of_int ?i \<noteq> length bulk
       then Some (False, None, close_error (read_failed (''unexpected reply '' @ bulk) p) p w)
       else Some (True, Some bulk, p, w) })"
  proof (intro goes_if goes_bind)
    assume "\<not> (?i < - 1 \<or> ?i = 0)" "?i \<noteq> - 1"
    then have "0 \<le> ?i" "?i < 2 ^ 60" using assms(2) by (auto simp: header_ok_def)
    then have "size_of_int ?i \<le> 2 ^ 61" by simp
    with l show "goes (proto_read (size_of_int ?i) p ?w)" by (rule proto_read_goes)
  qed (use l in \<open>simp_all add: close_error_live\<close>)
qed

lemma line_header:
  assumes "proto_live p w" "proto_read_line p w = Some (True, line, p', w')"
  shows "line \<noteq> []" "hd line = CHR ''$'' \<or> hd line = CHR ''*'' \<Longrightarrow> header_ok line"
proof -
  show l: "line \<noteq> []" using proto_read_line_spent [OF proto_live_inv [OF assms(1)], of w] assms(2) by simp
  assume "hd line = CHR ''$'' \<or> hd line = CHR ''*''"
  moreover have "modest line" using proto_read_line_returns [OF assms(1)] assms(2) by simp
  ultimately show "header_ok line" using l by (intro header_okI)
qed

lemma read_bulk_goes:
  assumes "proto_live p w"
  shows "goes (read_bulk p w)"
  unfolding read_bulk_def
proof (intro goes_bind goes_if proto_read_line_goes assms)
  fix ok line p' w'
  assume "proto_read_line p w = Some (ok, line, p', w')" "\<not> \<not> ok" "hd line = CHR ''$''" "proto_live p' w'"
  with line_header [OF assms, of line p' w'] show "goes (read_bulk_2 line p' w')"
    by (intro read_bulk_2_goes) simp_all
qed (simp_all add: close_error_live)

lemma read_bulks_goes: "proto_live p w \<Longrightarrow> goes (read_bulks n mb p w)"
  by (induction n arbitrary: mb p w) (auto intro!: goes_bind read_bulk_goes)

lemma read_multi_bulk_2_goes:
  assumes l: "proto_live p w" and h: "header_ok header"
  shows "goes (read_multi_bulk_2 header p w)"
  unfolding read_multi_bulk_2_def
proof (rule goes_parse)
  show "header \<noteq> []" using h by (simp add: header_ok_def)
  fix ok e
  have "\<not> fst (strtol (tl header)) > vector_max_size" using h by (simp add: header_ok_def vector_max_size_def)
  with l show "goes (if \<not> ok then Some (False, None, close_error (read_failed (''integer error : '' @ header) p) p (w\<lparr>errno := e\<rparr>))
     else if fst (strtol (tl header)) < - 1
     then Some (False, None, close_error (read_failed (''unexpected integer : '' @ show_int (fst (strtol (tl header)))) p) p (w\<lparr>errno := e\<rparr>))
     else if fst (strtol (tl header)) = - 1 then Some (True, None, p, w\<lparr>errno := e\<rparr>)
     else if fst (strtol (tl header)) > vector_max_size then None
     else do { (ok, mbulks, p, w) \<leftarrow> read_bulks (nat (fst (strtol (tl header)))) [] p (w\<lparr>errno := e\<rparr>);
       Some (ok, Some mbulks, p, w) })"
    by (auto simp: close_error_live intro!: goes_bind read_bulks_goes)
qed

section \<open>Replies\<close>

lemma reply_integer_goes: "proto_live p w \<Longrightarrow> buf \<noteq> [] \<Longrightarrow> goes (reply_integer buf out p w)"
  unfolding reply_integer_def by (rule goes_parse) simp_all

lemma reply_bulk_goes: "proto_live p w \<Longrightarrow> header_ok buf \<Longrightarrow> goes (reply_bulk buf out p w)"
  unfolding reply_bulk_def by (intro goes_bind read_bulk_2_goes) (auto split: option.split)

lemma reply_mbulk_goes: "proto_live p w \<Longrightarrow> header_ok buf \<Longrightarrow> goes (reply_mbulk buf out p w)"
  unfolding reply_mbulk_def by (intro goes_bind read_multi_bulk_2_goes) (auto split: option.split)

lemma reply_smbulk_goes:
  assumes "proto_live p w" "buf \<noteq> []" and ch: "\<And>k e. goes (children k p (w\<lparr>errno := e\<rparr>))"
  shows "goes (reply_smbulk children cmd is_top buf out p w)"
  unfolding reply_smbulk_def
  by (intro goes_parse goes_if goes_bind ch) (use assms in simp_all)

lemma reply_switch_goes:
  assumes "proto_live p w" "buf \<noteq> []" "hd buf = CHR ''$'' \<or> hd buf = CHR ''*'' \<Longrightarrow> header_ok buf"
    and "\<And>k e. goes (children k p (w\<lparr>errno := e\<rparr>))"
  shows "goes (reply_switch children cmd exp check is_top buf out p w)"
proof -
  have "goes (reply_smbulk children cmd is_top buf out p w)"
    using assms(1,2,4) by (rule reply_smbulk_goes)
  with assms show ?thesis
    unfolding reply_switch_def
    by (intro goes_if) (simp_all add: reply_status_def reply_integer_goes reply_bulk_goes reply_mbulk_goes)
qed

lemma read_children_goes:
  assumes IH: "\<And>p w. proto_live p w \<Longrightarrow> avail p w < n \<Longrightarrow> goes (do_read_reply n i False new_output False p w)"
  shows "proto_live p w \<Longrightarrow> avail p w < n \<Longrightarrow> goes (read_children n i sm k p w)"
proof (induction k arbitrary: sm p w)
  case (Suc k)
  show ?case
    unfolding read_children.simps
  proof (intro goes_bind goes_if IH Suc.prems)
    fix ok child p' w'
    assume "do_read_reply n i False new_output False p w = Some (ok, child, p', w')" "proto_live p' w'"
    with do_read_reply_spent [OF proto_live_inv [OF Suc.prems(1)], of n i False new_output False w] Suc.prems(2)
    show "goes (read_children n i (sm @ [child]) k p' w')" by (intro Suc.IH) (auto simp: spent_def)
  qed simp
qed (simp add: read_children.simps)

lemma do_read_reply_goes:
  "proto_live p w \<Longrightarrow> avail p w < n \<Longrightarrow> goes (do_read_reply n i is_top out c p w)"
proof (induction n arbitrary: i is_top out c p w)
  case (Suc n)
  show ?case
    unfolding do_read_reply.simps Let_def
  proof (intro goes_bind goes_if proto_read_line_goes Suc.prems)
    fix ok buf p' w'
    assume r: "proto_read_line p w = Some (ok, buf, p', w')" and l: "proto_live p' w'" and "\<not> \<not> ok"
    with line_header [OF Suc.prems(1), of buf p' w'] have h: "buf \<noteq> []"
      "hd buf = CHR ''$'' \<or> hd buf = CHR ''*'' \<Longrightarrow> header_ok buf" by simp_all
    have a: "avail p' w' < n"
      using proto_read_line_spent [OF proto_live_inv [OF Suc.prems(1)], of w] r \<open>\<not> \<not> ok\<close> Suc.prems(2) by simp
    have "goes (read_children n i [] k p' (w'\<lparr>errno := e\<rparr>))" for k e
      using l a by (intro read_children_goes Suc.IH) simp_all
    with l h show "goes (do { assertion (buf \<noteq> []);
        reply_switch (\<lambda>k p w. read_children n i [] k p w) (in_command i)
          (expected_type (c \<and> reply_type (command_info i) \<noteq> kDepends) i p)
          (c \<and> reply_type (command_info i) \<noteq> kDepends) is_top buf out p' w' })"
      by (simp add: reply_switch_goes)
  qed simp
qed simp

lemma read_reply_goes: "proto_live p w \<Longrightarrow> goes (read_reply cp p w)"
  unfolding read_reply_def by (auto split: option.split intro!: goes_bind do_read_reply_goes)

section \<open>Connecting and writing\<close>

text \<open>The calls that do not read leave the bytes to come alone.\<close>

lemma retry_poll_recv_q: "retry_poll timeout w = (p, w') \<Longrightarrow> recv_q w' = recv_q w"
  using retry_poll_polled [of w timeout] by (auto dest: polledD)

lemma retry_connect_recv_q: "recv_q (snd (retry_connect w)) = recv_q w"
proof (induction w rule: retry_connect.induct)
  case (1 w)
  obtain r w1 where s: "sys_connect w = (r, w1)" by force
  then have "recv_q w1 = recv_q w" by (auto simp: sys_connect_def split: list.splits sys_ret.splits)
  with "1.IH" s show ?case
    by (cases "r = - 1 \<and> errno w1 = EINTR") (auto simp: retry_connect.simps [of w])
qed

lemma retry_peek_recv_q: "recv_q (snd (retry_peek w)) = recv_q w"
proof (induction w rule: retry_peek.induct)
  case (1 w)
  obtain r w1 where s: "sys_recv_peek w = (r, w1)" by force
  then have "recv_q w1 = recv_q w" by (auto simp: sys_recv_peek_def split: list.splits sys_ret.splits)
  with "1.IH" s show ?case
    by (cases "r = - 1 \<and> errno w1 = EINTR") (auto simp: retry_peek.simps [of w])
qed

lemma set_nonblock_recv_q: "set_nonblock w = (r, w') \<Longrightarrow> recv_q w' = recv_q w"
  by (auto simp: set_nonblock_def sys_fcntl_def Let_def split: list.splits sys_ret.splits if_splits)

lemma timed_connect_recv_q: "timed_connect t w = (r, w') \<Longrightarrow> recv_q w' = recv_q w"
proof -
  assume a: "timed_connect t w = (r, w')"
  obtain r1 w1 where 1: "set_nonblock w = (r1, w1)" by force
  obtain r2 w2 where 2: "retry_connect w1 = (r2, w2)" by force
  obtain r3 w3 where 3: "retry_poll t w2 = (r3, w3)" by force
  have "recv_q w1 = recv_q w" "recv_q w2 = recv_q w1" "recv_q w3 = recv_q w2"
    using set_nonblock_recv_q [OF 1] retry_connect_recv_q [of w1] retry_poll_recv_q [OF 3] 2 by simp_all
  with a 1 2 3 show ?thesis
    by (auto simp: timed_connect_def sys_getsockopt_error_def Let_def split: list.splits sys_ret.splits if_splits)
qed

lemma resolve_recv_q: "resolve b h s ep w = (ep', ec, w') \<Longrightarrow> recv_q w' = recv_q w"
  by (auto simp: resolve_def do_resolve_def resolve_host_def sys_getaddrinfo_def update_cache_def Let_def
      split: list.splits gai_ret.splits option.splits if_splits)

lemma sys_recv_q:
  "sys_socket w = (r, w') \<Longrightarrow> recv_q w' = recv_q w" "sys_time w = (r, w') \<Longrightarrow> recv_q w' = recv_q w"
  by (auto simp: sys_socket_def sys_time_def split: list.splits sys_ret.splits)

lemma writen_loop_recv_q: "recv_q (snd (writen_loop f timeout buf left w)) = recv_q w"
proof (induction f timeout buf left w rule: writen_loop.induct)
  case (1 f timeout buf left w)
  obtain p w1 where p: "poll_write timeout w = (p, w1)" by force
  obtain n w2 where s: "sys_send f (take (nat left) buf) w1 = (n, w2)" by force
  have "recv_q w1 = recv_q w" using poll_read_recv_q p by (simp add: poll_write_eq)
  moreover have "recv_q w2 = recv_q w1"
    using s by (auto simp: sys_send_def split: if_splits list.splits send_ret.splits)
  ultimately show ?case
    using 1 p s by (subst writen_loop.simps) (auto simp: Let_def)
qed

lemma tcp_live_recv_q: "recv_q w' = recv_q w \<Longrightarrow> tcp_live tc w' = tcp_live tc w"
  by (simp add: tcp_live_def tcp_text_def)

lemma tcp_live_fields [simp]:
  "tcp_live (tc\<lparr>fd := n\<rparr>) w = tcp_live tc w" "tcp_live (tc\<lparr>last_check_open_time := t\<rparr>) w = tcp_live tc w"
  by (simp_all add: tcp_live_def tcp_text_def tcp_inv_def)

lemma TcpClient_connect_live:
  assumes "TcpClient_connect h s t tc w = (ec, tc', w')" "tcp_live tc w"
  shows "tcp_live tc' w'"
proof -
  obtain tc1 w1 where c: "TcpClient_close tc w = (tc1, w1)" by force
  have l: "tcp_live tc1 w1" using TcpClient_close_live [OF assms(2) c] .
  have close: "recv_q (snd (safe_close v)) = recv_q v" for v by (simp add: safe_close_def retry_close_recv_q)
  let ?ep = "\<lparr>domain = AF_INET, ep_type = SOCK_STREAM, protocol = IPPROTO_TCP, address = []\<rparr>"
  obtain ep ec1 w2 where r: "resolve True h s ?ep w1 = (ep, ec1, w2)" by (cases "resolve True h s ?ep w1")
  obtain sock w3 where k: "sys_socket w2 = (sock, w3)" by force
  obtain r4 w4 where n: "timed_connect (connect_timeout t) w3 = (r4, w4)" by force
  obtain now w5 where m: "sys_time w4 = (now, w5)" by force
  have q: "recv_q w2 = recv_q w1" "recv_q w3 = recv_q w1" "recv_q w4 = recv_q w1" "recv_q w5 = recv_q w1"
    "recv_q (snd (safe_close w4)) = recv_q w1"
    using resolve_recv_q [OF r] sys_recv_q(1) [OF k] timed_connect_recv_q [OF n] sys_recv_q(2) [OF m] close [of w4]
    by simp_all
  from assms(1) have "w' \<in> {w2, w3, snd (safe_close w4), w5} \<and> (tc' = tc1 \<or> tc' = tc1\<lparr>fd := sock, last_check_open_time := now\<rparr>)"
    by (auto simp: TcpClient_connect_def c r k n m Let_def split: if_splits)
  then have "recv_q w' = recv_q w1" "tcp_live tc' w1 = tcp_live tc1 w1" using q by auto
  with l show ?thesis by (simp add: tcp_live_recv_q [of w' w1])
qed

lemma TcpClient_is_open_live:
  assumes "TcpClient_is_open tc w = (b, tc', w')" "tcp_live tc w"
  shows "tcp_live tc' w'"
proof -
  obtain now w1 where m: "sys_time w = (now, w1)" by force
  obtain opn w2 where k: "is_open_slow w1 = (opn, w2)" by force
  have "recv_q w2 = recv_q w1"
    using k retry_peek_recv_q [of w1] by (auto simp: is_open_slow_def Let_def split: prod.splits if_splits)
  with sys_recv_q(2) [OF m] have q: "recv_q w1 = recv_q w" "recv_q w2 = recv_q w" by simp_all
  from assms(1) have "w' \<in> {w, w1, w2} \<and> (tc' = tc \<or> tc' = tc\<lparr>last_check_open_time := now\<rparr>)"
    by (auto simp: TcpClient_is_open_def m k Let_def split: if_splits)
  then have "recv_q w' = recv_q w" "tcp_live tc' w = tcp_live tc w" using q by auto
  with assms(2) show ?thesis by (simp add: tcp_live_recv_q [of w' w])
qed

lemma TcpClient_write_live:
  assumes "TcpClient_write l t tc w = (ec, tc', w')" "tcp_live tc w"
  shows "tcp_live tc' w'"
proof -
  obtain x w1 where x: "writen_loop (fd tc) t l (int32 (int (length l))) w = (x, w1)" by force
  have q: "recv_q w1 = recv_q w"
    using x writen_loop_recv_q [of "fd tc" t l "int32 (int (length l))" w] by simp
  obtain n where wr: "timed_writen (fd tc) l t w = (n, w1)"
    by (cases x) (simp_all add: timed_writen_def x)
  with assms(2) have l1: "tcp_live tc w1" using q by (simp add: tcp_live_recv_q [of w1 w])
  show ?thesis
  proof (cases "n \<noteq> int32 (int (length l))")
    case True
    with assms(1) wr TcpClient_close_live [OF l1] show ?thesis
      by (auto simp: TcpClient_write_def split: prod.splits)
  next
    case False
    obtain now w2 where m: "sys_time w1 = (now, w2)" by force
    with False assms(1) wr have "tc' = tc\<lparr>last_check_open_time := now\<rparr>" "w' = w2"
      by (simp_all add: TcpClient_write_def)
    with l1 sys_recv_q(2) [OF m] show ?thesis by (simp add: tcp_live_recv_q [of w2 w1])
  qed
qed

section \<open>The protocol\<close>

named_theorems live_dest

lemma close_error_lives [live_dest]: "close_error e p w = (p', w') \<Longrightarrow> proto_live p w \<Longrightarrow> proto_live p' w'"
  using close_error_live [of p w e] by simp

lemma proto_close_live [live_dest]: "proto_close p w = (p', w') \<Longrightarrow> proto_live p w \<Longrightarrow> proto_live p' w'"
  using TcpClient_close_live [of "tcp_client p" w]
  by (auto simp: proto_live_def proto_close_def split: prod.splits)

lemma proto_connect_live [live_dest]:
  "proto_connect p w = (b, p', w') \<Longrightarrow> proto_live p w \<Longrightarrow> proto_live p' w'"
proof -
  assume c: "proto_connect p w = (b, p', w')" and l: "proto_live p w"
  obtain ec tc w1 where t: "TcpClient_connect (p_host p) (p_port p) (p_timeout p) (tcp_client p) w = (ec, tc, w1)"
    by (cases "TcpClient_connect (p_host p) (p_port p) (p_timeout p) (tcp_client p) w")
  with l have "proto_live (p\<lparr>tcp_client := tc\<rparr>) w1" by (simp add: proto_live_def TcpClient_connect_live)
  with c t close_error_lives show ?thesis
    by (auto simp: proto_connect_def Let_def split: prod.splits if_splits)
qed

lemma proto_is_open_live [live_dest]:
  "proto_is_open p w = (b, p', w') \<Longrightarrow> proto_live p w \<Longrightarrow> proto_live p' w'"
  by (auto simp: proto_is_open_def proto_live_def Let_def split: prod.splits dest: TcpClient_is_open_live)

lemma check_connect_live [live_dest]:
  "check_connect p w = (b, p', w') \<Longrightarrow> proto_live p w \<Longrightarrow> proto_live p' w'"
  by (auto simp: check_connect_def Let_def split: prod.splits if_splits dest: proto_is_open_live)

lemma proto_assure_connect_live [live_dest]:
  "proto_assure_connect st p w = (res, p', w') \<Longrightarrow> proto_live p w \<Longrightarrow> proto_live p' w'"
  by (auto simp: proto_assure_connect_def Let_def split: prod.splits if_splits
      dest: proto_is_open_live proto_connect_live)

lemma write_text_live:
  "write_text s c p w = (ok, c', p', w') \<Longrightarrow> proto_live p w \<Longrightarrow> proto_live p' w'"
proof -
  assume wr: "write_text s c p w = (ok, c', p', w')" and l: "proto_live p w"
  obtain ec tc w1 where t: "TcpClient_write s (p_timeout p) (tcp_client p) w = (ec, tc, w1)"
    by (cases "TcpClient_write s (p_timeout p) (tcp_client p) w")
  with l have "proto_live (p\<lparr>tcp_client := tc\<rparr>) w1" by (simp add: proto_live_def TcpClient_write_live)
  with wr t close_error_lives show ?thesis
    by (auto simp: write_text_def Let_def split: prod.splits if_splits)
qed

lemma write_command_live [live_dest]:
  "write_command c p w = (ok, c', p', w') \<Longrightarrow> proto_live p w \<Longrightarrow> proto_live p' w'"
  by (auto simp: write_command_def check_argc_def Let_def split: prod.splits if_splits option.splits
      dest!: write_text_live)

lemma exec_command_goes: "proto_live p w \<Longrightarrow> goes (exec_command cp p w)"
  by (auto simp: exec_command_def split: prod.splits dest: write_command_live intro: read_reply_goes)

lemma write_commandv_goes:
  assumes "proto_live p w" "format_loop vs False 64 \<noteq> None"
  shows "goes (write_commandv cp vs p w)"
  using assms by (auto simp: write_commandv_def check_argc_def Let_def split: option.splits prod.splits if_splits
      dest!: write_text_live)

lemma exec_commandv_goes:
  assumes "proto_live p w" "format_loop vs False 64 \<noteq> None"
  shows "goes (exec_commandv cp vs p w)"
  unfolding exec_commandv_def
  by (intro goes_if goes_bind write_commandv_goes read_reply_goes) (use assms in auto)

lemma pipeline_write_live:
  "pipeline_write cs p w = (ok, cs', p', w') \<Longrightarrow> proto_live p w \<Longrightarrow> proto_live p' w'"
proof (induction cs arbitrary: p w cs')
  case (Cons c cs)
  then show ?case by (auto split: prod.splits if_splits dest!: live_dest)
qed simp

lemma pipeline_read_goes: "proto_live p w \<Longrightarrow> goes (pipeline_read cs p w)"
proof (induction cs arbitrary: p w)
  case (Cons c cs)
  show ?case
    unfolding pipeline_read.simps
  proof (intro goes_bind goes_if read_reply_goes Cons.prems)
    fix ok c' p' w' assume l: "proto_live p' w'"
    then show "goes (let (b, p, w) = proto_is_open p' w'
        in if \<not> b then Some (False, c' # cs, close_error pipeline_broken p w)
           else do { (ok, cs, p, w) \<leftarrow> pipeline_read cs p w; Some (ok, c' # cs, p, w) })"
      by (auto split: prod.splits dest!: proto_is_open_live intro!: close_error_live goes_bind Cons.IH)
  qed simp
qed simp

lemma exec_pipeline_goes: "proto_live p w \<Longrightarrow> goes (exec_pipeline cs p w)"
  by (auto simp: exec_pipeline_def split: option.split prod.splits
      dest: pipeline_write_live intro!: goes_bind pipeline_read_goes)

end
