(* ===== verification/Redis2_Liveness.thy ===== *)
theory Redis2_Liveness
  imports Redis2_Inv Sample Protocol_Liveness
begin

text \<open>
  Every method of the client returns: total correctness, with the state predicate
  \<open>client_live\<close>, in every world whose bytes announce no size of \<open>2^60\<close> or more.  The rules
  in \<open>completes_rules\<close> follow the macros of \<open>redis.cpp\<close>; a getter is only applied to a reply that
  was read, and such an output is well formed.
\<close>

definition client_live :: "Redis2 \<Rightarrow> world \<Rightarrow> bool" where
  "client_live r w = proto_live (proto r) w"

definition completes :: "'r client_call \<Rightarrow> bool" where
  "completes m \<longleftrightarrow> (\<forall>r w. client_live r w \<longrightarrow> returns (m r w) (\<lambda>(res, r', w'). client_live r' w'))"

named_theorems completes_rules

lemma completesI: "(\<And>r w. client_live r w \<Longrightarrow> returns (m r w) (\<lambda>(res, r', w'). client_live r' w')) \<Longrightarrow> completes m"
  by (simp add: completes_def)

lemma completesD: "completes m \<Longrightarrow> client_live r w \<Longrightarrow> returns (m r w) (\<lambda>(res, r', w'). client_live r' w')"
  by (simp add: completes_def)

lemma client_live_fields [simp]:
  "client_live (last_error e r) w = client_live r w"
  "client_live (on_reply_type_error c r) w = client_live r w"
  "client_live (r\<lparr>db_index := n\<rparr>) w = client_live r w"
  "client_live (r\<lparr>db_index_select_failure := b\<rparr>) w = client_live r w"
  "client_live (r\<lparr>transaction_cmds := cs\<rparr>) w = client_live r w"
  "client_live (on_reset r) w = client_live r w"
  "client_live (Redis2_set_blocking_mode b r) w = client_live r w"
  by (simp_all add: client_live_def last_error_def on_reply_type_error_def proto_set_error_def
      on_reset_def Redis2_set_blocking_mode_def set_blocking_mode_def Let_def)

section \<open>Running commands\<close>

lemma command_with_out [simp]: "cmd_out (command_with cmd pushes) = new_output"
proof -
  have "cmd_out (foldl (\<lambda>c push. c\<lparr>cmd_in := push (cmd_in c)\<rparr>) c pushes) = cmd_out c" for c :: RedisCommand
    by (induction pushes arbitrary: c) auto
  then show ?thesis by (simp add: command_with_def new_command_def)
qed

text \<open>A command comes back with a well-formed output.\<close>

definition cmd_wf :: "RedisCommand ptr \<Rightarrow> bool" where
  "cmd_wf cp = (case cp of None \<Rightarrow> True | Some c \<Rightarrow> output_wf (cmd_out c))"

lemma write_command_wf:
  "write_command cp p w = (ok, cp', p', w') \<Longrightarrow> cmd_wf cp \<Longrightarrow> cmd_wf cp' \<and> (cp' = None \<longleftrightarrow> cp = None)"
  by (auto simp: write_command_def check_argc_def write_text_def cmd_wf_def Let_def setter_wf
      split: option.splits prod.splits if_splits)

lemma read_reply_wf:
  "read_reply cp p w = Some (ok, cp', p', w') \<Longrightarrow> cmd_wf cp \<Longrightarrow> cmd_wf cp' \<and> (cp' = None \<longleftrightarrow> cp = None)"
  using do_read_reply_wf [of _ "Suc (avail p w)" _ True True p w]
  by (fastforce simp: read_reply_def reads_wf_def whenever_iff cmd_wf_def bind_eq_Some_conv split: option.splits)

lemma exec_command_wf:
  "exec_command cp p w = Some (ok, cp', p', w') \<Longrightarrow> cmd_wf cp \<Longrightarrow> cmd_wf cp' \<and> (cp' = None \<longleftrightarrow> cp = None)"
  by (auto simp: exec_command_def split: prod.splits if_splits dest: write_command_wf read_reply_wf)

lemma exec_commandv_ptr: "exec_commandv cp vs p w = Some (ok, cp', p', w') \<Longrightarrow> cp' = None \<longleftrightarrow> cp = None"
  by (auto simp: exec_commandv_def write_commandv_def read_reply_def bind_eq_Some_conv Let_def
      split: if_splits option.splits prod.splits)

lemma run_command_returns:
  assumes "client_live r w"
  shows "returns (run_command c r w)
    (\<lambda>((ok, c'), r', w'). client_live r' w' \<and> (output_wf (cmd_out c) \<longrightarrow> output_wf (cmd_out c')))"
proof -
  from exec_command_goes [of "proto r" w "Some c"] assms obtain ok cp p' w' where
    e: "exec_command (Some c) (proto r) w = Some (ok, cp, p', w')" "proto_live p' w'"
    by (auto simp: goes_def returns_iff client_live_def)
  from exec_command_wf [OF e(1)] have "output_wf (cmd_out c) \<longrightarrow> cmd_wf cp \<and> cp \<noteq> None" by (simp add: cmd_wf_def)
  with e show ?thesis by (auto simp: run_command_def client_live_def cmd_wf_def)
qed

lemma run_command_completes [completes_rules]: "completes (run_command c)"
  by (rule completesI, rule returns_mono [OF run_command_returns]) auto

lemma blocking_run_returns:
  assumes "client_live r w"
  shows "returns (blocking_run c r w)
    (\<lambda>((ok, c'), r', w'). client_live r' w' \<and> (output_wf (cmd_out c) \<longrightarrow> output_wf (cmd_out c')))"
proof -
  from run_command_returns [of "Redis2_set_blocking_mode True r" w c] assms
  show ?thesis by (auto simp: blocking_run_def returns_iff)
qed

text \<open>What follows a command may rely on a well-formed output.\<close>

lemma bind_completes:
  assumes "\<And>r w. client_live r w \<Longrightarrow> returns (m r w) (\<lambda>((a, b), r', w'). client_live r' w' \<and> Q a b)"
    and k: "\<And>a b. Q a b \<Longrightarrow> completes (k a b)"
  shows "completes (\<lambda>r w. do { ((a, b), r, w) \<leftarrow> m r w; k a b r w })"
proof (rule completesI)
  fix r w assume "client_live r w"
  from assms(1) [OF this] obtain a b r' w' where "m r w = Some ((a, b), r', w')" "client_live r' w'" "Q a b"
    by (auto simp: returns_iff)
  with completesD [OF k] show "returns (do { ((a, b), r, w) \<leftarrow> m r w; k a b r w }) (\<lambda>(res, r', w'). client_live r' w')"
    by simp
qed

lemma run_then_completes [completes_rules]:
  assumes "output_wf (cmd_out cmd)" "\<And>ok c. output_wf (cmd_out c) \<Longrightarrow> completes (k ok c)"
  shows "completes (\<lambda>r w. do { ((ok, c), r, w) \<leftarrow> run_command cmd r w; k ok c r w })"
    "completes (\<lambda>r w. do { ((ok, c), r, w) \<leftarrow> blocking_run cmd r w; k ok c r w })"
  by (rule bind_completes [where Q = "\<lambda>ok c. output_wf (cmd_out c)"],
      rule returns_mono [OF run_command_returns], use assms in auto)
    (rule bind_completes [where Q = "\<lambda>ok c. output_wf (cmd_out c)"],
      rule returns_mono [OF blocking_run_returns], use assms in auto)

lemma run_any_completes:
  assumes "\<And>ok c. completes (k ok c)"
  shows "completes (\<lambda>r w. do { ((ok, c), r, w) \<leftarrow> run_command cmd r w; k ok c r w })"
  by (rule bind_completes [where Q = "\<lambda>ok c. True"], rule returns_mono [OF run_command_returns])
    (use assms in auto)

lemma completes_if [completes_rules]: "(b \<Longrightarrow> completes m) \<Longrightarrow> (\<not> b \<Longrightarrow> completes n) \<Longrightarrow> completes (\<lambda>r w. if b then m r w else n r w)"
  by (cases b) simp_all

lemma completes_Some [completes_rules]: "completes (\<lambda>r w. Some (res, r, w))"
  "completes (\<lambda>r w. Some (res, on_reply_type_error c r, w))"
  by (simp_all add: completes_def)

lemma assured_live:
  "proto_assure_connect st (proto r) w = (res, p', w') \<Longrightarrow> client_live r w \<Longrightarrow> client_live (r\<lparr>proto := p'\<rparr>) w'"
  by (simp add: client_live_def proto_assure_connect_live)

lemma select_completes [completes_rules]: "completes (Redis2_select n)"
proof (rule completesI)
  fix r w assume l: "client_live r w"
  obtain ok st p' w' where a: "proto_assure_connect None (proto r) w = ((ok, st), p', w')"
    by (cases "proto_assure_connect None (proto r) w") auto
  from run_command_returns [OF assured_live [OF a l], of "command_with SELECT [push_arg_int n]"] assured_live [OF a l]
  show "returns (Redis2_select n r w) (\<lambda>(res, r', w'). client_live r' w')"
    by (auto simp: Redis2_select_def a returns_iff Let_def)
qed

lemma assure_connect_completes [completes_rules]: "completes assure_connect"
proof (rule completesI)
  fix r w assume l: "client_live r w"
  obtain ok st p' w' where a: "proto_assure_connect (Some 0) (proto r) w = ((ok, st), p', w')"
    by (cases "proto_assure_connect (Some 0) (proto r) w") auto
  let ?r = "if st = Some 1 then on_reset (r\<lparr>proto := p'\<rparr>) else r\<lparr>proto := p'\<rparr>"
  have "client_live ?r w'" using assured_live [OF a l] by simp
  with completesD [OF select_completes this, of "db_index ?r"] assured_live [OF a l]
  show "returns (assure_connect r w) (\<lambda>(res, r', w'). client_live r' w')"
    by (auto simp: assure_connect_def a returns_iff Let_def)
qed

lemma assured_completes [completes_rules]:
  assumes "completes k"
  shows "completes (\<lambda>r w. do { (ok, r, w) \<leftarrow> assure_connect r w; if \<not> ok then Some (fail, r, w) else k r w })"
  using assure_connect_completes assms by (fastforce simp: completes_def returns_iff)

lemma checked_completes [completes_rules]:
  assumes "completes k"
  shows "completes (\<lambda>r w. let (ok, r, w) = Redis2_check_connect r w in if \<not> ok then Some (fail, r, w) else k r w)"
proof (rule completesI)
  fix r w assume l: "client_live r w"
  obtain ok p' w' where c: "check_connect (proto r) w = (ok, p', w')" by (cases "check_connect (proto r) w")
  with l have "client_live (r\<lparr>proto := p'\<rparr>) w'" by (simp add: client_live_def check_connect_live)
  with c completesD [OF assms this] show "returns (let (ok, r, w) = Redis2_check_connect r w
      in if \<not> ok then Some (fail, r, w) else k r w) (\<lambda>(res, r', w'). client_live r' w')"
    by (simp add: Redis2_check_connect_def)
qed

section \<open>The macros\<close>

lemma check_expr_completes [completes_rules]: "(b \<Longrightarrow> completes k) \<Longrightarrow> completes (CHECK_EXPR b fail k)"
  by (cases b) (auto simp: completes_def CHECK_EXPR_def)

lemma check_ptr_completes [completes_rules]: "(p \<noteq> None \<Longrightarrow> completes k) \<Longrightarrow> completes (CHECK_PTR_PARAM p fail k)"
  unfolding CHECK_PTR_PARAM_def by (rule check_expr_completes)

lemma connected_run_completes [completes_rules]:
  assumes "output_wf (cmd_out c)" "\<And>c'. output_wf (cmd_out c') \<Longrightarrow> completes (k c')"
  shows "completes (connected_run c fail k)"
  unfolding connected_run_def [abs_def] using assms
  by (intro completes_rules) (auto intro: completes_rules)

text \<open>The getters return on a well-formed output.\<close>

lemma getters_return:
  assumes "output_wf out"
  shows "\<exists>x. get_status sp out = Some x" "\<exists>x. get_i ip out = Some x" "\<exists>x. get_bulk sp out = Some x"
    "\<exists>x. get_mbulks mp out = Some x"
    "\<exists>ok sm out'. get_smbulks (Some smb) out = Some (ok, Some sm, out') \<and> (list_all output_wf smb \<longrightarrow> list_all output_wf sm)"
  using assms by (cases out; case_tac x2; auto simp: get_status_def get_i_def get_bulk_def get_mbulks_def get_smbulks_def
      is_status_def is_i_def is_bulk_def is_mbulks_def is_smbulks_def split: option.split)+

lemma status_macros_complete [completes_rules]: "completes (CHECK_STATUS_OK c)" "completes (CHECK_STATUS_PONG c)"
  by (simp_all add: completes_def CHECK_STATUS_OK_def CHECK_STATUS_PONG_def)

lemma reply_macros_complete [completes_rules]:
  assumes "output_wf (cmd_out c)"
  shows "completes (GET_INTEGER_REPLY ret c)" "is_nil \<noteq> None \<Longrightarrow> completes (GET_BULK_REPLY sret is_nil c)"
    "completes (GET_BULK_REPLY2 sret c)" "completes (GET_MBULKS_REPLY mret c)"
  using getters_return(2) [OF assms, of ret] getters_return(3) [OF assms, of sret] getters_return(4) [OF assms, of mret]
  by (auto simp: completes_def GET_INTEGER_REPLY_def GET_BULK_REPLY_def GET_BULK_REPLY2_def GET_MBULKS_REPLY_def Let_def)

lemma bodies_complete [completes_rules]:
  assumes "output_wf (cmd_out c)"
  shows "completes (integer_command ret c)" "completes (bulk_command sret nil c)" "completes (bulk_command2 sret c)"
    "completes (mbulks_command mret c)" "completes (status_command c)"
  unfolding integer_command_def bulk_command_def bulk_command2_def mbulks_command_def status_command_def
  by (intro completes_rules assms; assumption?)+

section \<open>Every method\<close>

lemma world_completes: "(\<And>w. completes (m w)) \<Longrightarrow> completes (\<lambda>r w. m w r w)"
  by (rule completesI) (auto dest: completesD)

lemma new_output_wf [simp]: "output_wf new_output"
  by (rule setters_wf(1))

lemma reply_bodies_complete [completes_rules]:
  "completes (Redis2_type key sret)" "completes (zxxxrank rv key member ret ne)" "completes Redis2_bgrewriteaof"
  "completes (Redis2_dump key sret (Some b))"
proof -
  have st: "completes (\<lambda>r w. do { (ok, ret) \<leftarrow> get_status sret (cmd_out c);
      if ok then Some ((True, ret), r, w) else Some ((False, ret), on_reply_type_error c r, w) })"
    if "output_wf (cmd_out c)" for c
    using getters_return(1) [OF that, of sret] by (auto simp: completes_def)
  have rk: "completes (\<lambda>r w. do { (ok, ret) \<leftarrow> get_i ret (cmd_out c);
      if ok then Some ((True, ret, Some False), r, w)
      else if is_nil_bulk (cmd_out c) then Some ((True, ret, Some True), r, w)
      else Some ((False, ret, ne), on_reply_type_error c r, w) })"
    if "output_wf (cmd_out c)" for c
    using getters_return(2) [OF that, of ret] by (auto simp: completes_def)
  show "completes (Redis2_type key sret)"
    unfolding Redis2_type_def by (intro check_ptr_completes connected_run_completes st) simp_all
  show "completes (zxxxrank rv key member ret ne)"
    unfolding zxxxrank_def Let_def by (intro check_ptr_completes connected_run_completes rk) simp_all
  show "completes Redis2_bgrewriteaof"
    unfolding Redis2_bgrewriteaof_def by (intro completes_rules) simp
  show "completes (Redis2_dump key sret (Some b))"
    unfolding Redis2_dump_def by (intro completes_rules) simp_all
qed

lemma bxpop_completes [completes_rules]: "completes (bxpop is_blpop keys timeout key member expired)"
proof -
  have k: "completes (\<lambda>r w. if \<not> ok then Some (fail, r, w) else do {
      (ok, mb, out) \<leftarrow> get_mbulks (Some []) (cmd_out c);
      let c = c\<lparr>cmd_out := out\<rparr>;
      (case (ok, mb) of
         (True, Some [Some k, Some m]) \<Rightarrow> Some ((True, Some k, Some m, Some False), r, w)
       | _ \<Rightarrow>
           if is_nil_mbulks (cmd_out c) then Some ((True, key, member, Some True), r, w)
           else Some (fail, on_reply_type_error c r, w)) })"
    if "output_wf (cmd_out c)" for ok c and fail :: "bool \<times> string ptr \<times> string ptr \<times> bool ptr"
    using getters_return(4) [OF that, of "Some []"]
    by (auto simp: completes_def Let_def split: bool.split option.split list.split)
  show ?thesis
    unfolding bxpop_def Let_def
    by (intro check_ptr_completes assured_completes run_then_completes) (simp, rule k [unfolded Let_def])
qed

lemma brpoplpush_completes [completes_rules]: "completes (Redis2_brpoplpush source destination timeout member expired)"
proof -
  have k: "completes (\<lambda>r w. if \<not> ok then Some (fail, r, w) else do {
      (ok, member, out) \<leftarrow> get_bulk member (cmd_out c);
      let c = c\<lparr>cmd_out := out\<rparr>;
      if ok then Some ((True, member, Some False), r, w)
      else if is_nil_smbulks (cmd_out c) then Some ((True, member, Some True), r, w)
      else Some ((False, member, expired), on_reply_type_error c r, w) })"
    if "output_wf (cmd_out c)" for ok c and fail :: "bool \<times> string ptr \<times> bool ptr"
    using getters_return(3) [OF that, of member] by (auto simp: completes_def Let_def)
  show ?thesis
    unfolding Redis2_brpoplpush_def Let_def
    by (intro check_ptr_completes assured_completes run_then_completes) (simp, rule k [unfolded Let_def])
qed

text \<open>Calls on the protocol object of the client.\<close>

lemma proto_call_completes:
  assumes "\<And>p w. proto_live p w \<Longrightarrow> goes (m p w)"
  shows "completes (\<lambda>r w. do { (ok, c, p, w) \<leftarrow> m (proto r) w; Some ((ok, c), r\<lparr>proto := p\<rparr>, w) })"
proof (rule completesI)
  fix r w assume "client_live r w"
  with assms [of "proto r" w] show "returns (do { (ok, c, p, w) \<leftarrow> m (proto r) w; Some ((ok, c), r\<lparr>proto := p\<rparr>, w) })
      (\<lambda>(res, r', w'). client_live r' w')"
    by (auto simp: goes_def returns_iff client_live_def)
qed

lemma exec_bodies_complete [completes_rules]:
  "completes (Redis2_exec_command cp)" "completes (Redis2_exec_pipeline cps)"
  "format_loop vs False 64 \<noteq> None \<Longrightarrow> completes (Redis2_exec_commandv cp vs)"
  unfolding Redis2_exec_command_def Redis2_exec_commandv_def Redis2_exec_pipeline_def
  by (intro check_ptr_completes assured_completes proto_call_completes exec_command_goes exec_pipeline_goes
      exec_commandv_goes; assumption)+

lemma printing_complete [completes_rules]:
  "completes (Redis2_zadd key score member ret)"
  "completes (Redis2_zadd_scores key scores members ret)"
  unfolding Redis2_zadd_def [abs_def] Redis2_zadd_scores_def [abs_def]
  by (rule world_completes, intro completes_rules, simp)+

lemma store_completes [completes_rules]: "completes (zxxxxxstore is_zinterstore destination keys weights agg ret)"
  unfolding zxxxxxstore_def [abs_def]
  by (rule completesI, rule completesD [OF bodies_complete(1)]) simp_all

text \<open>Transactions: the children of a reply that was read are well formed, so they can be delivered.\<close>

lemma smbulks_convert:
  "convertible_2_mbulks outs \<Longrightarrow> list_all output_wf outs \<Longrightarrow> \<exists>mb. smbulks_to_mbulks outs = Some mb"
proof (induction outs)
  case (Cons out outs)
  then show ?case by (cases out; cases "out_ptr out") (auto simp: convertible_2_mbulks_def)
qed simp

lemma deliver_returns: "output_wf out \<Longrightarrow> \<exists>c'. deliver out c = Some c'"
proof (cases out)
  case (RedisOutput t q)
  assume wf: "output_wf out"
  show ?thesis
  proof (cases q)
    case (SmbulksPtr smb)
    with wf smbulks_convert [of smb] RedisOutput show ?thesis
      by (auto simp: deliver_def convert_smbulks_def)
  qed (use RedisOutput in \<open>cases t; simp add: deliver_def\<close>)+
qed

lemma deliver_all_returns: "list_all output_wf outs \<Longrightarrow> \<exists>cs'. deliver_all outs cs = Some cs'"
proof (induction outs cs rule: deliver_all.induct)
  case (1 out outs c cs)
  with deliver_returns [of out c] show ?case by auto
qed simp_all

lemma transaction_end_completes [completes_rules]: "completes (Redis2_exec cs)" "completes Redis2_discard"
proof -
  have k: "completes (\<lambda>r w. if \<not> ok then Some ((False, cs), r, w) else do {
      (ok, smb, out) \<leftarrow> get_smbulks (Some []) (cmd_out c);
      let c = c\<lparr>cmd_out := out\<rparr>;
      smb \<leftarrow> smb;
      if ok \<and> length smb = length (transaction_cmds r)
      then do {
        cs \<leftarrow> deliver_all smb (transaction_cmds r);
        Some ((True, Some cs), r\<lparr>transaction_cmds := []\<rparr>, w)
      }
      else Some ((False, cs), on_reply_type_error c r, w) })" if "output_wf (cmd_out c)" for ok c
  proof (rule completesI)
    fix r w assume l: "client_live r w"
    from getters_return(5) [OF that, of "[]"] obtain okg sm out' where
      g: "get_smbulks (Some []) (cmd_out c) = Some (okg, Some sm, out')" "list_all output_wf sm" by auto
    from deliver_all_returns [OF g(2), of "transaction_cmds r"] g(1) l
    show "returns (if \<not> ok then Some ((False, cs), r, w) else do {
      (ok, smb, out) \<leftarrow> get_smbulks (Some []) (cmd_out c);
      let c = c\<lparr>cmd_out := out\<rparr>;
      smb \<leftarrow> smb;
      if ok \<and> length smb = length (transaction_cmds r)
      then do {
        cs \<leftarrow> deliver_all smb (transaction_cmds r);
        Some ((True, Some cs), r\<lparr>transaction_cmds := []\<rparr>, w)
      }
      else Some ((False, cs), on_reply_type_error c r, w) }) (\<lambda>(res, r', w'). client_live r' w')"
      by (auto simp: Let_def)
  qed
  show "completes (Redis2_exec cs)"
    unfolding Redis2_exec_def
    by (intro check_ptr_completes checked_completes run_then_completes) (simp, rule k)
  have d: "completes (\<lambda>r w. if \<not> ok then Some (False, r, w)
      else if is_status_ok (cmd_out c) then Some (True, r\<lparr>transaction_cmds := []\<rparr>, w)
      else Some (False, on_reply_type_error c r, w))" for ok c
    by (simp add: completes_def)
  show "completes Redis2_discard"
    unfolding Redis2_discard_def [abs_def]
    by (intro checked_completes run_any_completes) (rule d)
qed

lemma queue_completes [completes_rules]:
  "completes (add_command cp)" "format_loop vs False 64 \<noteq> None \<Longrightarrow> completes (add_commandv cp vs)"
proof -
  show "completes (add_command cp)"
    unfolding add_command_def
  proof (intro check_ptr_completes checked_completes)
    assume "cp \<noteq> None"
    then obtain c where c: "cp = Some c" by auto
    have "completes (\<lambda>r w. do {
        ((ok, inner), r, w) \<leftarrow> run_command inner r w;
        if \<not> ok then Some ((False, Some d), r, w)
        else Some ((False, Some d), r\<lparr>transaction_cmds := transaction_cmds r @ [inner]\<rparr>, w) })" for inner d
      by (rule run_any_completes) (simp add: completes_def)
    then show "completes (\<lambda>r w. do {
        c \<leftarrow> cp;
        let (inner, c) = swap_command (new_command NOOP) c;
        ((ok, inner), r, w) \<leftarrow> run_command inner r w;
        if \<not> ok then Some ((False, Some c), r, w)
        else Some ((False, Some c), r\<lparr>transaction_cmds := transaction_cmds r @ [inner]\<rparr>, w) })"
      by (simp add: c swap_command_def)
  qed
  assume vs: "format_loop vs False 64 \<noteq> None"
  show "completes (add_commandv cp vs)"
    unfolding add_commandv_def
  proof (intro check_ptr_completes checked_completes)
    assume "cp \<noteq> None"
    then obtain c where c: "cp = Some c" by auto
    have "completes (\<lambda>r w. do {
        (ok, ip, p, w) \<leftarrow> exec_commandv (Some inner) vs (proto r) w;
        let r = r\<lparr>proto := p\<rparr>;
        inner \<leftarrow> ip;
        if \<not> ok then Some ((False, Some d), r, w)
        else Some ((True, Some d), r\<lparr>transaction_cmds := transaction_cmds r @ [inner]\<rparr>, w) })" for inner d
    proof (rule completesI)
      fix r w assume "client_live r w"
      then obtain ok ip p' w' where e: "exec_commandv (Some inner) vs (proto r) w = Some (ok, ip, p', w')" "proto_live p' w'"
        using exec_commandv_goes [OF _ vs, of "proto r" w "Some inner"] by (auto simp: goes_def returns_iff client_live_def)
      with exec_commandv_ptr [OF e(1)] show "returns (do {
        (ok, ip, p, w) \<leftarrow> exec_commandv (Some inner) vs (proto r) w;
        let r = r\<lparr>proto := p\<rparr>;
        inner \<leftarrow> ip;
        if \<not> ok then Some ((False, Some d), r, w)
        else Some ((True, Some d), r\<lparr>transaction_cmds := transaction_cmds r @ [inner]\<rparr>, w) }) (\<lambda>(res, r', w'). client_live r' w')"
        by (auto simp: client_live_def Let_def)
    qed
    then show "completes (\<lambda>r w. do {
        c \<leftarrow> cp;
        let (inner, c) = swap_command (new_command NOOP) c;
        (ok, ip, p, w) \<leftarrow> exec_commandv (Some inner) vs (proto r) w;
        let r = r\<lparr>proto := p\<rparr>;
        inner \<leftarrow> ip;
        if \<not> ok then Some ((False, Some c), r, w)
        else Some ((True, Some c), r\<lparr>transaction_cmds := transaction_cmds r @ [inner]\<rparr>, w) })"
      by (simp add: c swap_command_def)
  qed
qed

text \<open>The methods that convert a bulk to a \<open>double\<close> return unless the server answers a bulk that
  \<open>boost::lexical_cast\<close> rejects with an exception.\<close>

definition throws_cast :: "RedisCommand \<Rightarrow> Redis2 \<Rightarrow> world \<Rightarrow> bool" where
  "throws_cast c r w \<longleftrightarrow>
     (\<exists>c' r' w' s. connected_run c None (\<lambda>c r w. Some (Some c, r, w)) r w = Some (Some c', r', w')
        \<and> cmd_out c' = RedisOutput kBulk (BulkPtr s) \<and> string_to_double w' s = None)"

lemma connected_run_split:
  "connected_run c fail k r w = do {
     (x, r, w) \<leftarrow> connected_run c None (\<lambda>c r w. Some (Some c, r, w)) r w;
     (case x of None \<Rightarrow> Some (fail, r, w) | Some c \<Rightarrow> k c r w) }"
  by (auto simp: connected_run_def split: option.split bind_split)

lemma bulk_getter:
  assumes "output_wf out" "get_bulk (Some []) out = Some (True, s, out')"
  shows "\<exists>b. out = RedisOutput kBulk (BulkPtr b) \<and> s = Some b"
proof (cases out)
  case (RedisOutput t q)
  with assms show ?thesis by (cases q) (auto simp: get_bulk_def is_bulk_def split: if_splits)
qed

lemma connected_run_reply:
  assumes "client_live r w" "output_wf (cmd_out c)"
  shows "returns (connected_run c None (\<lambda>c r w. Some (Some c, r, w)) r w)
    (\<lambda>(x, r', w'). client_live r' w' \<and> (\<forall>c'. x = Some c' \<longrightarrow> output_wf (cmd_out c')))"
proof -
  from completesD [OF assure_connect_completes assms(1)] obtain ok r1 w1 where
    1: "assure_connect r w = Some (ok, r1, w1)" "client_live r1 w1" by (auto simp: returns_iff)
  from run_command_returns [OF 1(2), of c] assms(2) obtain ok2 c' r2 w2 where
    "run_command c r1 w1 = Some ((ok2, c'), r2, w2)" "client_live r2 w2" "output_wf (cmd_out c')"
    by (auto simp: returns_iff)
  with 1 show ?thesis by (auto simp: connected_run_def)
qed

lemma run_unless_cast:
  assumes l: "client_live r w" and c: "output_wf (cmd_out c)" and n: "\<not> throws_cast c r w"
    and k: "\<And>c' r' w'. output_wf (cmd_out c') \<Longrightarrow> client_live r' w' \<Longrightarrow>
      (\<And>s. cmd_out c' = RedisOutput kBulk (BulkPtr s) \<Longrightarrow> string_to_double w' s \<noteq> None) \<Longrightarrow>
      returns (k c' r' w') (\<lambda>(res, r', w'). client_live r' w')"
  shows "returns (connected_run c fail k r w) (\<lambda>(res, r', w'). client_live r' w')"
proof -
  from connected_run_reply [OF l c] obtain x r' w' where
    e: "connected_run c None (\<lambda>c r w. Some (Some c, r, w)) r w = Some (x, r', w')" "client_live r' w'"
      "\<And>c'. x = Some c' \<Longrightarrow> output_wf (cmd_out c')" by (auto simp: returns_iff)
  have "returns (k c' r' w') (\<lambda>(res, r', w'). client_live r' w')" if x: "x = Some c'" for c'
    by (rule k [OF e(3) [OF x] e(2)]) (use n e(1) x in \<open>auto simp: throws_cast_def\<close>)
  with e show ?thesis by (simp add: connected_run_split [of c fail] split: option.split)
qed

lemma double_reply_returns:
  assumes "output_wf (cmd_out c)" "client_live r w"
    and "\<And>s. cmd_out c = RedisOutput kBulk (BulkPtr s) \<Longrightarrow> string_to_double w s \<noteq> None"
  shows "returns (GET_DOUBLE_REPLY ret c r w) (\<lambda>(res, r', w'). client_live r' w')"
proof -
  from getters_return(3) [OF assms(1), of "Some []"] obtain ok s out' where
    g: "get_bulk (Some []) (cmd_out c) = Some (ok, s, out')" by auto
  show ?thesis
  proof (cases ok)
    case True
    with bulk_getter [OF assms(1)] g obtain b where "cmd_out c = RedisOutput kBulk (BulkPtr b)" "s = Some b" by auto
    with assms(3) g True assms(2) show ?thesis by (auto simp: GET_DOUBLE_REPLY_def)
  qed (use g assms(2) in \<open>simp add: GET_DOUBLE_REPLY_def Let_def\<close>)
qed

lemma double_command_returns:
  assumes "client_live r w" "output_wf (cmd_out c)" "\<not> throws_cast c r w"
  shows "returns (double_command ret c r w) (\<lambda>(res, r', w'). client_live r' w')"
proof (cases ret)
  case (Some d)
  then have eq: "double_command ret c r w = connected_run c (False, ret) (GET_DOUBLE_REPLY ret) r w"
    by (simp add: double_command_def CHECK_PTR_PARAM_def CHECK_EXPR_def)
  show ?thesis
    unfolding eq using assms by (rule run_unless_cast) (rule double_reply_returns)
qed (use assms(1) in \<open>simp add: double_command_def CHECK_PTR_PARAM_def CHECK_EXPR_def\<close>)

lemma zscore_returns:
  assumes l: "client_live r w" and n: "\<not> throws_cast (command_with ZSCORE [push_arg key, push_arg member]) r w"
  shows "returns (Redis2_zscore key member ret nil r w) (\<lambda>(res, r', w'). client_live r' w')"
proof -
  let ?c = "command_with ZSCORE [push_arg key, push_arg member]" and ?fail = "(False, ret, nil)"
  define k :: "RedisCommand \<Rightarrow> (bool \<times> 64 word ptr \<times> bool ptr) client_call" where "k = (\<lambda>c r w. do {
             (ok, s, out) \<leftarrow> get_bulk (Some []) (cmd_out c);
             let c = c\<lparr>cmd_out := out\<rparr>;
             if ok
             then do { s \<leftarrow> s; d \<leftarrow> string_to_double w s; Some ((True, Some d, Some False), r, w) }
             else if is_nil_bulk (cmd_out c) then Some ((True, ret, Some True), r, w)
             else Some (?fail, on_reply_type_error c r, w) })"
  have "returns (k c r w) (\<lambda>(res, r', w'). client_live r' w')"
    if c: "output_wf (cmd_out c)" "client_live r w"
      "\<And>s. cmd_out c = RedisOutput kBulk (BulkPtr s) \<Longrightarrow> string_to_double w s \<noteq> None" for c r w
  proof -
    from getters_return(3) [OF c(1), of "Some []"] obtain ok s out' where
      g: "get_bulk (Some []) (cmd_out c) = Some (ok, s, out')" by auto
    show ?thesis
    proof (cases ok)
      case True
      with bulk_getter [OF c(1)] g obtain b where "cmd_out c = RedisOutput kBulk (BulkPtr b)" "s = Some b" by auto
      with c(3) g True c(2) show ?thesis by (auto simp: k_def)
    qed (use g c(2) in \<open>simp add: k_def Let_def\<close>)
  qed
  from run_unless_cast [OF l _ n, of k ?fail] this have "returns (connected_run ?c ?fail k r w) (\<lambda>(res, r', w'). client_live r' w')"
    by simp
  moreover have "Redis2_zscore key member ret nil =
      CHECK_PTR_PARAM ret ?fail (CHECK_PTR_PARAM nil ?fail (connected_run ?c ?fail k))"
    by (simp add: Redis2_zscore_def k_def Let_def)
  ultimately show ?thesis using l by (simp add: CHECK_PTR_PARAM_def CHECK_EXPR_def)
qed

definition completes_unless :: "(world \<Rightarrow> RedisCommand) \<Rightarrow> 'r client_call \<Rightarrow> bool" where
  "completes_unless c m \<longleftrightarrow> (\<forall>r w. client_live r w \<and> \<not> throws_cast (c w) r w \<longrightarrow>
     returns (m r w) (\<lambda>(res, r', w'). client_live r' w'))"

lemma double_methods_return:
  "completes_unless (\<lambda>w. command_with INCRBYFLOAT [push_arg key, push_arg_double (double_to_string w) d])
     (Redis2_incrbyfloat key d ret)"
  "completes_unless (\<lambda>w. command_with HINCRBYFLOAT [push_arg key, push_arg field, push_arg_double (double_to_string w) d])
     (Redis2_hincrbyfloat key field d ret)"
  "completes_unless (\<lambda>w. command_with ZINCRBY [push_arg key, push_arg_double (double_to_string w) d, push_arg member])
     (Redis2_zincrby key d member ret)"
  "completes_unless (\<lambda>w. command_with ZSCORE [push_arg key, push_arg member]) (Redis2_zscore key member ret nil)"
  by (simp_all add: completes_unless_def Redis2_incrbyfloat_def Redis2_hincrbyfloat_def Redis2_zincrby_def
      double_command_returns zscore_returns)

text \<open>A client that was just constructed is live in every world of modest bytes.\<close>

lemma new_client_live:
  assumes "modest (recv_text (recv_q w))" "length (recv_text (recv_q w)) < 2 ^ 61" "list_all recv_small (recv_q w)"
  shows "client_live (new_Redis2 host port index timeout) w"
  using assms by (simp add: client_live_def proto_live_def tcp_live_def tcp_text_def tcp_inv_def new_Redis2_def
      new_RedisProtocol_def new_TcpClient_def new_buffer_inv)

text \<open>C7: liveness of the client, as long as memory and stack suffice: started in a world whose bytes
  announce no size of \<open>2^60\<close> or more, every method of \<open>Redis2\<close> that sends a command returns, for all
  arguments but the ones below and whatever the system calls return (errors, time-outs, broken
  connections, replies of any type, nested or cut off anywhere), and leaves a client and a world from
  which the next call returns.  No loop runs forever, no \<open>assert\<close> fails, no getter meets a wrong union
  member.  Left out are: a bulk that \<open>boost::lexical_cast\<close> does not read as a \<open>double\<close> (it throws); a call
  of the overloads with a format whose text has 64 bytes or more, or cannot be formatted (the \<open>va_list\<close> is
  reused, which is undefined); and \<open>dump\<close> with a null pointer for \<open>is_nil\<close>, which it does not check.\<close>

theorem methods_return:
  "(\<forall>index. completes (Redis2_select index)) \<and>
   (\<forall>key ret. completes (Redis2_del key ret)) \<and>
   (\<forall>keys ret. completes (Redis2_del_keys keys ret)) \<and>
   (\<forall>key ret b. completes (Redis2_dump key ret (Some b))) \<and>
   (\<forall>key ret. completes (Redis2_exists key ret)) \<and>
   (\<forall>key seconds ret. completes (Redis2_expire key seconds ret)) \<and>
   (\<forall>key abs_seconds ret. completes (Redis2_expireat key abs_seconds ret)) \<and>
   (\<forall>pattern ret. completes (Redis2_keys pattern ret)) \<and>
   (\<forall>key db ret. completes (Redis2_move key db ret)) \<and>
   (\<forall>key ret. completes (Redis2_persist key ret)) \<and>
   (\<forall>key milliseconds ret. completes (Redis2_pexpire key milliseconds ret)) \<and>
   (\<forall>key abs_milliseconds ret. completes (Redis2_pexpireat key abs_milliseconds ret)) \<and>
   (\<forall>key ret. completes (Redis2_pttl key ret)) \<and>
   (\<forall>key ttl value. completes (Redis2_restore key ttl value)) \<and>
   (\<forall>ret is_nil. completes (Redis2_randomkey ret is_nil)) \<and>
   (\<forall>key phrases ret. completes (Redis2_sort key phrases ret)) \<and>
   (\<forall>key ret. completes (Redis2_ttl key ret)) \<and>
   (\<forall>key ret. completes (Redis2_type key ret)) \<and>
   (\<forall>key value ret. completes (Redis2_append key value ret)) \<and>
   (\<forall>key ret. completes (Redis2_decr key ret)) \<and>
   (\<forall>key dec ret. completes (Redis2_decrby key dec ret)) \<and>
   (\<forall>key ret is_nil. completes (Redis2_get key ret is_nil)) \<and>
   (\<forall>key offset ret. completes (Redis2_getbit key offset ret)) \<and>
   (\<forall>key start stop ret is_nil. completes (Redis2_getrange key start stop ret is_nil)) \<and>
   (\<forall>key value ret is_nil. completes (Redis2_getset key value ret is_nil)) \<and>
   (\<forall>key ret. completes (Redis2_incr key ret)) \<and>
   (\<forall>key inc ret. completes (Redis2_incrby key inc ret)) \<and>
   (\<forall>keys ret. completes (Redis2_mget keys ret)) \<and>
   (\<forall>keys values. completes (Redis2_mset keys values)) \<and>
   (\<forall>key milliseconds value. completes (Redis2_psetex key milliseconds value)) \<and>
   (\<forall>key value. completes (Redis2_set key value)) \<and>
   (\<forall>key offset bitval ret. completes (Redis2_setbit key offset bitval ret)) \<and>
   (\<forall>key seconds value. completes (Redis2_setex key seconds value)) \<and>
   (\<forall>key value ret. completes (Redis2_setnx key value ret)) \<and>
   (\<forall>key offset value ret. completes (Redis2_setrange key offset value ret)) \<and>
   (\<forall>key ret. completes (Redis2_strlen key ret)) \<and>
   (\<forall>key field ret. completes (Redis2_hdel key field ret)) \<and>
   (\<forall>key flds ret. completes (Redis2_hdel_fields key flds ret)) \<and>
   (\<forall>key field ret. completes (Redis2_hexists key field ret)) \<and>
   (\<forall>key field ret is_nil. completes (Redis2_hget key field ret is_nil)) \<and>
   (\<forall>key ret. completes (Redis2_hgetall key ret)) \<and>
   (\<forall>key field inc ret. completes (Redis2_hincrby key field inc ret)) \<and>
   (\<forall>key field ret. completes (Redis2_hincr key field ret)) \<and>
   (\<forall>key ret. completes (Redis2_hkeys key ret)) \<and>
   (\<forall>key ret. completes (Redis2_hlen key ret)) \<and>
   (\<forall>key flds ret. completes (Redis2_hmget key flds ret)) \<and>
   (\<forall>key flds values. completes (Redis2_hmset key flds values)) \<and>
   (\<forall>key field value ret. completes (Redis2_hset key field value ret)) \<and>
   (\<forall>key field value ret. completes (Redis2_hsetnx key field value ret)) \<and>
   (\<forall>key ret. completes (Redis2_hvals key ret)) \<and>
   (\<forall>is_blpop keys timeout key member expired. completes (bxpop is_blpop keys timeout key member expired)) \<and>
   (\<forall>key index ret is_nil. completes (Redis2_lindex key index ret is_nil)) \<and>
   (\<forall>key before pivot value ret. completes (Redis2_linsert key before pivot value ret)) \<and>
   (\<forall>key ret. completes (Redis2_llen key ret)) \<and>
   (\<forall>key ret is_nil. completes (Redis2_lpop key ret is_nil)) \<and>
   (\<forall>key value ret. completes (Redis2_lpush key value ret)) \<and>
   (\<forall>key values ret. completes (Redis2_lpush_values key values ret)) \<and>
   (\<forall>key value ret. completes (Redis2_lpushx key value ret)) \<and>
   (\<forall>key start stop ret. completes (Redis2_lrange key start stop ret)) \<and>
   (\<forall>key count value ret. completes (Redis2_lrem key count value ret)) \<and>
   (\<forall>key index value. completes (Redis2_lset key index value)) \<and>
   (\<forall>key start stop. completes (Redis2_ltrim key start stop)) \<and>
   (\<forall>key ret is_nil. completes (Redis2_rpop key ret is_nil)) \<and>
   (\<forall>key value ret. completes (Redis2_rpush key value ret)) \<and>
   (\<forall>key values ret. completes (Redis2_rpush_values key values ret)) \<and>
   (\<forall>key value ret. completes (Redis2_rpushx key value ret)) \<and>
   (\<forall>key member ret. completes (Redis2_sadd key member ret)) \<and>
   (\<forall>key members ret. completes (Redis2_sadd_members key members ret)) \<and>
   (\<forall>key ret. completes (Redis2_scard key ret)) \<and>
   (\<forall>key member ret. completes (Redis2_sismember key member ret)) \<and>
   (\<forall>key ret. completes (Redis2_smembers key ret)) \<and>
   (\<forall>key ret is_nil. completes (Redis2_spop key ret is_nil)) \<and>
   (\<forall>key ret is_nil. completes (Redis2_srandmember key ret is_nil)) \<and>
   (\<forall>key member ret. completes (Redis2_srem key member ret)) \<and>
   (\<forall>key members ret. completes (Redis2_srem_members key members ret)) \<and>
   (\<forall>key score member ret. completes (Redis2_zadd key score member ret)) \<and>
   (\<forall>key scores members ret. completes (Redis2_zadd_scores key scores members ret)) \<and>
   (\<forall>key ret. completes (Redis2_zcard key ret)) \<and>
   (\<forall>key mn mx ret. completes (Redis2_zcount key mn mx ret)) \<and>
   (\<forall>rv key start stop withscores ret. completes (zxxxrange rv key start stop withscores ret)) \<and>
   (\<forall>key start stop withscores ret. completes (Redis2_zrange key start stop withscores ret)) \<and>
   (\<forall>key start stop withscores ret. completes (Redis2_zrevrange key start stop withscores ret)) \<and>
   (\<forall>rv key mn mx withscores limit ret. completes (zxxxrangebyscore rv key mn mx withscores limit ret)) \<and>
   (\<forall>key mn mx withscores limit ret. completes (Redis2_zrangebyscore key mn mx withscores limit ret)) \<and>
   (\<forall>key mx mn withscores limit ret. completes (Redis2_zrevrangebyscore key mx mn withscores limit ret)) \<and>
   (\<forall>rv key member ret not_exists. completes (zxxxrank rv key member ret not_exists)) \<and>
   (\<forall>key member ret not_exists. completes (Redis2_zrank key member ret not_exists)) \<and>
   (\<forall>key member ret not_exists. completes (Redis2_zrevrank key member ret not_exists)) \<and>
   (\<forall>key member ret. completes (Redis2_zrem key member ret)) \<and>
   (\<forall>key members ret. completes (Redis2_zrem_members key members ret)) \<and>
   (\<forall>key start stop ret. completes (Redis2_zremrangebyrank key start stop ret)) \<and>
   (\<forall>key mn mx ret. completes (Redis2_zremrangebyscore key mn mx ret)) \<and>
   (completes Redis2_flushall) \<and>
   (completes Redis2_flushdb) \<and>
   (\<forall>key newkey. completes (Redis2_rename key newkey)) \<and>
   (\<forall>key newkey ret. completes (Redis2_renamenx key newkey ret)) \<and>
   (\<forall>keys timeout key member expired. completes (Redis2_blpop keys timeout key member expired)) \<and>
   (\<forall>keys timeout key member expired. completes (Redis2_brpop keys timeout key member expired)) \<and>
   (\<forall>source destination timeout member expired. completes (Redis2_brpoplpush source destination timeout member expired)) \<and>
   (\<forall>source destination ret is_nil. completes (Redis2_rpoplpush source destination ret is_nil)) \<and>
   (\<forall>keys ret. completes (Redis2_sdiff keys ret)) \<and>
   (\<forall>destination keys ret. completes (Redis2_sdiffstore destination keys ret)) \<and>
   (\<forall>keys ret. completes (Redis2_sinter keys ret)) \<and>
   (\<forall>destination keys ret. completes (Redis2_sinterstore destination keys ret)) \<and>
   (\<forall>source destination member ret. completes (Redis2_smove source destination member ret)) \<and>
   (\<forall>keys ret. completes (Redis2_sunion keys ret)) \<and>
   (\<forall>destination keys ret. completes (Redis2_sunionstore destination keys ret)) \<and>
   (\<forall>is_zinterstore destination keys weights agg ret. completes (zxxxxxstore is_zinterstore destination keys weights agg ret)) \<and>
   (\<forall>destination keys weights agg ret. completes (Redis2_zinterstore destination keys weights agg ret)) \<and>
   (\<forall>destination keys weights agg ret. completes (Redis2_zunionstore destination keys weights agg ret)) \<and>
   (\<forall>cmdp. completes (Redis2_exec_command cmdp)) \<and>
   (\<forall>commands. completes (Redis2_exec_pipeline commands)) \<and>
   (\<forall>channel message ret. completes (Redis2_publish channel message ret)) \<and>
   (completes Redis2_multi) \<and>
   (completes Redis2_unwatch) \<and>
   (\<forall>keys. completes (Redis2_watch keys)) \<and>
   (\<forall>cmdp. completes (add_command cmdp)) \<and>
   (\<forall>commands. completes (Redis2_exec commands)) \<and>
   (completes Redis2_discard) \<and>
   (completes Redis2_ping) \<and>
   (completes Redis2_bgrewriteaof) \<and>
   (completes Redis2_bgsave) \<and>
   (\<forall>ret. completes (Redis2_dbsize ret)) \<and>
   (\<forall>ret. completes (Redis2_info ret)) \<and>
   (\<forall>type ret. completes (Redis2_info_type type ret)) \<and>
   (\<forall>ret. completes (Redis2_lastsave ret)) \<and>
   (\<forall>host port. completes (Redis2_slaveof host port)) \<and>
   (\<forall>cmdp s. length s < 64 \<longrightarrow> completes (Redis2_exec_commandv cmdp (Some s))) \<and>
   (\<forall>cmdp s. length s < 64 \<longrightarrow> completes (add_commandv cmdp (Some s))) \<and>
   (\<forall>key d ret. completes_unless
      (\<lambda>w. command_with INCRBYFLOAT [push_arg key, push_arg_double (double_to_string w) d])
      (Redis2_incrbyfloat key d ret)) \<and>
   (\<forall>key field d ret. completes_unless
      (\<lambda>w. command_with HINCRBYFLOAT [push_arg key, push_arg field, push_arg_double (double_to_string w) d])
      (Redis2_hincrbyfloat key field d ret)) \<and>
   (\<forall>key d member ret. completes_unless
      (\<lambda>w. command_with ZINCRBY [push_arg key, push_arg_double (double_to_string w) d, push_arg member])
      (Redis2_zincrby key d member ret)) \<and>
   (\<forall>key member ret is_nil. completes_unless
      (\<lambda>w. command_with ZSCORE [push_arg key, push_arg member]) (Redis2_zscore key member ret is_nil))"
proof -
  have formatted: "completes (Redis2_exec_commandv cmdp (Some s))" "completes (add_commandv cmdp (Some s))"
    if "length s < 64" for cmdp s
    using that exec_bodies_complete(3) [of "Some s"] queue_completes(2) [of "Some s"] by (simp_all add: format_loop_first)
  show ?thesis
    unfolding method_defs by (intro conjI allI impI formatted double_methods_return completes_rules; simp)
qed

text \<open>A new client whose peer talks nonsense; the formatted command is short enough.\<close>

theorem methods_return_witness:
  "\<exists>res. Redis2_exec_commandv (Some (new_command NOOP)) (Some ''PING'') (new_Redis2 ''h'' ''1'' 0 50)
     (sample_world [''*9'' @ CRLF @ ''$12'', ''x'']) = Some res"
proof -
  let ?w = "sample_world [''*9'' @ CRLF @ ''$12'', ''x'']"
  have q: "recv_q ?w = [Recv (''*9'' @ CRLF @ ''$12''), Recv ''x'']" by (simp add: sample_world_def)
  have "client_live (new_Redis2 ''h'' ''1'' 0 50) ?w"
    by (rule new_client_live) (simp_all only: q, rule short_modest, simp_all)
  moreover have "length ''PING'' < 64" by simp
  then have "completes (Redis2_exec_commandv (Some (new_command NOOP)) (Some ''PING''))" using methods_return by blast
  ultimately show ?thesis using completesD unfolding returns_iff by blast
qed

end
