(* ===== verification/Redis2_Errors.thy ===== *)
theory Redis2_Errors
  imports Redis2_Liveness
begin

text \<open>
  The contract of \<open>last_error\<close> (\<open>src/src/redis_base.h\<close>: "all successful operations shall not clear
  previous error, but any failures will set error"), as one law: a call on a client whose error
  was replaced by \<open>e\<close> does the same as on the client itself, and then a success leaves \<open>e\<close> in
  place while a failure leaves an error that does not depend on \<open>e\<close>.  With \<open>e\<close> the client's own
  error the law says that a success keeps it.
\<close>

section \<open>The protocol layer\<close>

text \<open>Two runs of a call, the first on the object with the error \<open>e\<close>.\<close>

abbreviation with_error :: "string \<Rightarrow> RedisProtocol \<Rightarrow> RedisProtocol" where
  "with_error e p \<equiv> p\<lparr>p_error := e\<rparr>"

definition agree :: "string \<Rightarrow> (bool \<times> 'a \<times> RedisProtocol \<times> world) option
    \<Rightarrow> (bool \<times> 'a \<times> RedisProtocol \<times> world) option \<Rightarrow> bool" where
  "agree e m1 m2 \<longleftrightarrow> m1 = map_option (\<lambda>(ok, x, p, w). (ok, x, if ok then with_error e p else p, w)) m2"

lemma agree_ok [simp]: "agree e (Some (True, x, with_error e p, w)) (Some (True, x, p, w))"
  by (simp add: agree_def)

lemma agree_fail [simp]: "agree e (Some (False, x, s)) (Some (False, x, s))"
  by (cases s) (simp add: agree_def)

lemma agree_None [simp]: "agree e None None"
  by (simp add: agree_def)

lemma agree_if: "(b \<Longrightarrow> agree e m1 m2) \<Longrightarrow> (\<not> b \<Longrightarrow> agree e n1 n2) \<Longrightarrow> agree e (if b then m1 else n1) (if b then m2 else n2)"
  by simp

lemma agree_bind:
  assumes "agree e m1 m2" "\<And>x p w. agree e (f1 True x (with_error e p) w) (f2 True x p w)"
    "\<And>x p w. agree e (f1 False x p w) (f2 False x p w)"
  shows "agree e (do { (ok, x, p, w) \<leftarrow> m1; f1 ok x p w }) (do { (ok, x, p, w) \<leftarrow> m2; f2 ok x p w })"
proof (cases m2)
  case (Some a)
  obtain ok x p w where "a = (ok, x, p, w)" by (cases a)
  with Some assms show ?thesis by (cases ok) (simp_all add: agree_def)
qed (use assms(1) in \<open>simp add: agree_def\<close>)

lemma close_error_with_error [simp]: "close_error err (with_error e p) w = close_error err p w"
  by (simp add: close_error_def proto_close_def split: prod.splits)

lemma peer_with_error [simp]: "peer (with_error e p) = peer p" "read_failed t (with_error e p) = read_failed t p"
  "read_timeout (with_error e p) = read_timeout p" "expected_type c i (with_error e p) = expected_type c i p"
  "reply_failed t out (with_error e p) w = reply_failed t out p w" "avail (with_error e p) w = avail p w"
  by (simp_all add: peer_def read_failed_def read_timeout_def expected_type_def reply_failed_def avail_def)

lemma agree_check_line: "agree e (Some (check_line r (with_error e p) w)) (Some (check_line r p w))"
  by (auto simp: check_line_def agree_def split: prod.splits)

lemma agree_checked:
  "agree e (Some (check_line r ((with_error e p)\<lparr>tcp_client := tc\<rparr>) w)) (Some (check_line r (p\<lparr>tcp_client := tc\<rparr>) w))"
proof -
  have eq: "(with_error e p)\<lparr>tcp_client := tc\<rparr> = with_error e (p\<lparr>tcp_client := tc\<rparr>)" by simp
  show ?thesis unfolding eq by (rule agree_check_line)
qed

lemma agree_checked_bind:
  "agree e (do { (r, tc, w) \<leftarrow> m; Some (check_line r ((with_error e p)\<lparr>tcp_client := tc\<rparr>) w) })
     (do { (r, tc, w) \<leftarrow> m; Some (check_line r (p\<lparr>tcp_client := tc\<rparr>) w) })"
proof (cases m)
  case (Some a)
  obtain r tc w where "a = (r, tc, w)" by (cases a)
  with Some agree_checked show ?thesis by simp
qed simp

lemma read_line_agree: "agree e (proto_read_line (with_error e p) w) (proto_read_line p w)"
  unfolding proto_read_line_def using agree_checked_bind [where p = p] by simp

lemma read_agree: "agree e (proto_read n (with_error e p) w) (proto_read n p w)"
  unfolding proto_read_def using agree_checked_bind [where p = p] by simp

lemma agree_parse:
  assumes "\<And>ok i w. agree e (f1 ok i w) (f2 ok i w)"
  shows "agree e (do { (ok, i, w) \<leftarrow> parse_integer l w; f1 ok i w }) (do { (ok, i, w) \<leftarrow> parse_integer l w; f2 ok i w })"
  using assms by (cases "parse_integer l w") auto

lemma read_bulk_2_agree: "agree e (read_bulk_2 h (with_error e p) w) (read_bulk_2 h p w)"
  unfolding read_bulk_2_def by (intro agree_parse agree_if agree_bind read_agree) simp_all

lemma read_bulk_agree: "agree e (read_bulk (with_error e p) w) (read_bulk p w)"
  unfolding read_bulk_def by (intro agree_if agree_bind read_line_agree) (simp_all add: read_bulk_2_agree)

lemma read_bulks_agree: "agree e (read_bulks n mb (with_error e p) w) (read_bulks n mb p w)"
proof (induction n arbitrary: mb p w)
  case (Suc n)
  then show ?case unfolding read_bulks.simps by (intro agree_bind read_bulk_agree) simp_all
qed simp

lemma read_multi_bulk_2_agree: "agree e (read_multi_bulk_2 h (with_error e p) w) (read_multi_bulk_2 h p w)"
  unfolding read_multi_bulk_2_def by (intro agree_parse agree_if agree_bind read_bulks_agree) simp_all

lemma reply_smbulk_agree:
  assumes "\<And>k w. agree e (children k (with_error e p) w) (children k p w)"
  shows "agree e (reply_smbulk children cmd is_top buf out (with_error e p) w) (reply_smbulk children cmd is_top buf out p w)"
proof -
  have t: "agree e (Some (True, out, if transaction_mode (with_error e p) \<and> c then (with_error e p)\<lparr>transaction_mode := False\<rparr>
      else with_error e p, w)) (Some (True, out, if transaction_mode p \<and> c then p\<lparr>transaction_mode := False\<rparr> else p, w))"
    for c p w and out :: RedisOutput by (simp add: agree_def)
  show ?thesis
    unfolding reply_smbulk_def
    by (intro agree_parse agree_if agree_bind assms) (use t in \<open>simp_all add: reply_failed_def\<close>)
qed

lemma reply_switch_agree:
  assumes "\<And>k w. agree e (children k (with_error e p) w) (children k p w)"
  shows "agree e (reply_switch children cmd exp check is_top buf out (with_error e p) w)
    (reply_switch children cmd exp check is_top buf out p w)"
proof -
  have s: "agree e (Some (reply_status cmd buf out (with_error e p) w)) (Some (reply_status cmd buf out p w))"
    by (simp add: reply_status_def agree_def)
  have f: "agree e (Some (reply_failed t out p w)) (Some (reply_failed t out p w))" for t
    by (simp add: reply_failed_def)
  have i: "agree e (reply_integer buf out (with_error e p) w) (reply_integer buf out p w)"
    unfolding reply_integer_def by (intro agree_parse agree_if) (simp_all add: reply_failed_def)
  have b: "agree e (reply_bulk buf out (with_error e p) w) (reply_bulk buf out p w)"
    unfolding reply_bulk_def by (intro agree_bind read_bulk_2_agree) (auto split: option.split)
  have m: "agree e (reply_mbulk buf out (with_error e p) w) (reply_mbulk buf out p w)"
    unfolding reply_mbulk_def by (intro agree_bind read_multi_bulk_2_agree) (auto split: option.split)
  have sm: "agree e (reply_smbulk children cmd is_top buf out (with_error e p) w) (reply_smbulk children cmd is_top buf out p w)"
    using assms by (rule reply_smbulk_agree)
  show ?thesis
    unfolding reply_switch_def using s f i b m sm by (intro agree_if) simp_all
qed

lemma read_children_agree:
  assumes IH: "\<And>p w. agree e (do_read_reply n i False new_output False (with_error e p) w)
      (do_read_reply n i False new_output False p w)"
  shows "agree e (read_children n i sm k (with_error e p) w) (read_children n i sm k p w)"
proof (induction k arbitrary: sm p w)
  case (Suc k)
  then show ?case unfolding read_children.simps by (intro agree_bind IH) simp_all
qed (simp add: read_children.simps)

lemma do_read_reply_agree:
  "agree e (do_read_reply n i is_top out c (with_error e p) w) (do_read_reply n i is_top out c p w)"
proof (induction n arbitrary: i is_top out c p w)
  case (Suc n)
  have ch: "agree e (read_children n i [] k (with_error e p) w) (read_children n i [] k p w)" for k p w
    by (rule read_children_agree) (rule Suc.IH)
  show ?case
    unfolding do_read_reply.simps Let_def peer_with_error
    by (intro agree_bind read_line_agree) (auto intro!: reply_switch_agree ch)
qed (simp add: do_read_reply.simps)

lemma read_reply_agree: "agree e (read_reply cp (with_error e p) w) (read_reply cp p w)"
  unfolding read_reply_def peer_with_error
  by (cases cp) (auto intro!: agree_bind do_read_reply_agree)

section \<open>Connecting, writing, executing\<close>

lemma is_open_error:
  "proto_is_open p w = (b, p', w') \<Longrightarrow> proto_is_open (with_error e p) w = (b, with_error e p', w')"
  by (auto simp: proto_is_open_def split: prod.splits)

lemma connect_error:
  "proto_connect p w = (b, p', w') \<Longrightarrow> proto_connect (with_error e p) w = (b, if b then with_error e p' else p', w')"
proof -
  assume c: "proto_connect p w = (b, p', w')"
  obtain ec tc w1 where t: "TcpClient_connect (p_host p) (p_port p) (p_timeout p) (tcp_client p) w = (ec, tc, w1)"
    by (cases "TcpClient_connect (p_host p) (p_port p) (p_timeout p) (tcp_client p) w")
  have eq: "(with_error e p)\<lparr>tcp_client := tc\<rparr> = with_error e (p\<lparr>tcp_client := tc\<rparr>)" by simp
  from c show ?thesis
    unfolding proto_connect_def by (simp add: t eq Let_def split: prod.splits if_splits)
qed

lemma assure_connect_error:
  "proto_assure_connect st p w = ((b, st'), p', w') \<Longrightarrow>
   proto_assure_connect st (with_error e p) w = ((b, st'), if b then with_error e p' else p', w')"
proof -
  assume a: "proto_assure_connect st p w = ((b, st'), p', w')"
  obtain b1 p1 w1 where 1: "proto_is_open p w = (b1, p1, w1)" by (cases "proto_is_open p w")
  obtain b2 p2 w2 where 2: "proto_connect p1 w1 = (b2, p2, w2)" by (cases "proto_connect p1 w1")
  from a show ?thesis
    unfolding proto_assure_connect_def
    by (auto simp: 1 2 is_open_error [OF 1] connect_error [OF 2] split: if_splits)
qed

lemma check_connect_error:
  "check_connect p w = (b, p', w') \<Longrightarrow> check_connect (with_error e p) w = (b, if b then with_error e p' else p', w')"
proof -
  assume a: "check_connect p w = (b, p', w')"
  obtain b1 p1 w1 where 1: "proto_is_open p w = (b1, p1, w1)" by (cases "proto_is_open p w")
  from a show ?thesis
    unfolding check_connect_def by (auto simp: 1 is_open_error [OF 1] split: if_splits)
qed

lemma write_text_error:
  "write_text t c p w = (ok, c', p', w') \<Longrightarrow>
   write_text t c (with_error e p) w = (ok, c', if ok then with_error e p' else p', w')"
proof -
  assume a: "write_text t c p w = (ok, c', p', w')"
  obtain ec tc w1 where 1: "TcpClient_write t (p_timeout p) (tcp_client p) w = (ec, tc, w1)"
    by (cases "TcpClient_write t (p_timeout p) (tcp_client p) w")
  have eq: "(with_error e p)\<lparr>tcp_client := tc\<rparr> = with_error e (p\<lparr>tcp_client := tc\<rparr>)" by simp
  from a show ?thesis
    unfolding write_text_def by (auto simp: 1 eq Let_def split: prod.splits if_splits)
qed

lemma check_argc_error:
  "check_argc c n p = (ok, c', p') \<Longrightarrow> check_argc c n (with_error e p) = (ok, c', if ok then with_error e p' else p')"
  by (auto simp: check_argc_def Let_def split: if_splits)

lemma write_command_error:
  "write_command cp p w = (ok, cp', p', w') \<Longrightarrow>
   write_command cp (with_error e p) w = (ok, cp', if ok then with_error e p' else p', w')"
proof (cases cp)
  case (Some c)
  assume a: "write_command cp p w = (ok, cp', p', w')"
  obtain ok1 c1 p1 where 1: "check_argc c (int32 (int (length (args (cmd_in c))))) p = (ok1, c1, p1)"
    by (cases "check_argc c (int32 (int (length (args (cmd_in c))))) p")
  obtain ok2 c2 p2 w2 where 2: "write_text (request_text (cmd_in c1)) c1 p1 w = (ok2, c2, p2, w2)"
    by (cases "write_text (request_text (cmd_in c1)) c1 p1 w")
  from a show ?thesis
    unfolding write_command_def Some
    by (auto simp: 1 2 check_argc_error [OF 1] write_text_error [OF 2] Let_def split: if_splits)
qed (auto simp: write_command_def)

lemma exec_command_agree: "agree e (exec_command cp (with_error e p) w) (exec_command cp p w)"
proof (cases cp)
  case (Some c)
  obtain ok cp1 p1 w1 where 1: "write_command cp p w = (ok, cp1, p1, w1)" by (cases "write_command cp p w")
  show ?thesis
    unfolding exec_command_def 1 write_command_error [OF 1] using Some by (simp add: read_reply_agree)
qed (simp add: exec_command_def agree_def)

lemma write_commandv_agree: "agree e (write_commandv cp vs (with_error e p) w) (write_commandv cp vs p w)"
proof (cases cp)
  case (Some c)
  show ?thesis
  proof (cases "format_loop vs False 64")
    case (Some buf)
    let ?words = "filter (\<lambda>s. s \<noteq> []) (boost_split w (CHR '' '') (boost_trim w buf))"
    let ?c0 = "c\<lparr>cmd_in := (cmd_in c)\<lparr>args := ?words\<rparr>\<rparr>"
    let ?c = "?c0\<lparr>cmd_in := set_command_string (hd ?words) (cmd_in ?c0)\<rparr>"
    let ?n = "int32 (int32 (int (length ?words)) - 1)"
    obtain ok1 c1 p1 where 1: "check_argc ?c ?n p = (ok1, c1, p1)" by (cases "check_argc ?c ?n p")
    obtain ok2 c2 p2 w2 where 2: "write_text (request_textv (cmd_in c1)) c1 p1 w = (ok2, c2, p2, w2)"
      by (cases "write_text (request_textv (cmd_in c1)) c1 p1 w")
    show ?thesis
      unfolding write_commandv_def \<open>cp = Some c\<close>
      using 1 2 check_argc_error [OF 1, of e] write_text_error [OF 2, of e] Some
      by (simp add: Let_def agree_def)
  qed (simp add: write_commandv_def \<open>cp = Some c\<close>)
qed (simp add: write_commandv_def agree_def)

lemma exec_commandv_agree: "agree e (exec_commandv cp vs (with_error e p) w) (exec_commandv cp vs p w)"
  unfolding exec_commandv_def
  by (intro agree_if agree_bind write_commandv_agree) (simp_all add: read_reply_agree)

lemma pipeline_write_error:
  "pipeline_write cs p w = (ok, cs', p', w') \<Longrightarrow>
   pipeline_write cs (with_error e p) w = (ok, cs', if ok then with_error e p' else p', w')"
proof (induction cs arbitrary: p w ok cs' p' w')
  case (Cons c cs)
  obtain ok1 c1 p1 w1 where 1: "write_command c p w = (ok1, c1, p1, w1)" by (cases "write_command c p w")
  obtain b p2 w2 where 2: "proto_is_open p1 w1 = (b, p2, w2)" by (cases "proto_is_open p1 w1")
  obtain ok3 cs3 p3 w3 where 3: "pipeline_write cs p2 w2 = (ok3, cs3, p3, w3)" by (cases "pipeline_write cs p2 w2")
  from Cons.prems Cons.IH [OF 3] show ?case
    by (auto simp: 1 2 3 write_command_error [OF 1] is_open_error [OF 2] split: if_splits prod.splits)
qed auto

lemma pipeline_read_agree: "agree e (pipeline_read cs (with_error e p) w) (pipeline_read cs p w)"
proof (induction cs arbitrary: p w)
  case (Cons c cs)
  have k: "agree e (let (b, p, w) = proto_is_open (with_error e p) w
      in if \<not> b then Some (False, c # cs, close_error pipeline_broken p w)
         else do { (ok, cs, p, w) \<leftarrow> pipeline_read cs p w; Some (ok, c # cs, p, w) })
    (let (b, p, w) = proto_is_open p w
      in if \<not> b then Some (False, c # cs, close_error pipeline_broken p w)
         else do { (ok, cs, p, w) \<leftarrow> pipeline_read cs p w; Some (ok, c # cs, p, w) })" for c p w
  proof -
    obtain b p2 w2 where 2: "proto_is_open p w = (b, p2, w2)" by (cases "proto_is_open p w")
    have "agree e (do { (ok, cs, p, w) \<leftarrow> pipeline_read cs (with_error e p2) w2; Some (ok, c # cs, p, w) })
        (do { (ok, cs, p, w) \<leftarrow> pipeline_read cs p2 w2; Some (ok, c # cs, p, w) })"
      by (intro agree_bind Cons.IH) simp_all
    then show ?thesis by (simp add: 2 is_open_error [OF 2])
  qed
  show ?case
    unfolding pipeline_read.simps by (intro agree_bind read_reply_agree) (use k in simp_all)
qed simp

lemma exec_pipeline_agree: "agree e (exec_pipeline cps (with_error e p) w) (exec_pipeline cps p w)"
proof (cases cps)
  case (Some cs)
  obtain ok1 cs1 p1 w1 where 1: "pipeline_write cs p w = (ok1, cs1, p1, w1)" by (cases "pipeline_write cs p w")
  have "agree e (do { (ok, cs, p, w) \<leftarrow> pipeline_read cs1 (with_error e p1) w1; Some (ok, Some cs, p, w) })
      (do { (ok, cs, p, w) \<leftarrow> pipeline_read cs1 p1 w1; Some (ok, Some cs, p, w) })"
    by (intro agree_bind pipeline_read_agree) simp_all
  then show ?thesis
    unfolding exec_pipeline_def Some by (simp add: 1 pipeline_write_error [OF 1])
qed (simp add: exec_pipeline_def agree_def)

section \<open>The client\<close>

text \<open>\<open>ok\<close> tells success from the result.\<close>

definition error_law :: "('r \<Rightarrow> bool) \<Rightarrow> 'r client_call \<Rightarrow> bool" where
  "error_law ok m \<longleftrightarrow> (\<forall>e r w. m (last_error e r) w =
     map_option (\<lambda>(res, r', w'). (res, if ok res then last_error e r' else r', w')) (m r w))"

named_theorems law_rules

lemma error_lawD: "error_law ok m \<Longrightarrow> m (last_error e r) w =
     map_option (\<lambda>(res, r', w'). (res, if ok res then last_error e r' else r', w')) (m r w)"
  by (simp add: error_law_def)

lemma last_error_simps [simp]:
  "last_error e (last_error e' r) = last_error e r"
  "last_error e (on_reply_type_error c r) = last_error e r"
  "on_reply_type_error c (last_error e r) = on_reply_type_error c r"
  "proto (last_error e r) = with_error e (proto r)"
  "db_index (last_error e r) = db_index r" "db_index_select_failure (last_error e r) = db_index_select_failure r"
  "transaction_cmds (last_error e r) = transaction_cmds r"
  "on_reset (last_error e r) = last_error e (on_reset r)"
  "(last_error e r)\<lparr>db_index := n\<rparr> = last_error e (r\<lparr>db_index := n\<rparr>)"
  "(last_error e r)\<lparr>db_index_select_failure := b\<rparr> = last_error e (r\<lparr>db_index_select_failure := b\<rparr>)"
  "(last_error e r)\<lparr>transaction_cmds := cs\<rparr> = last_error e (r\<lparr>transaction_cmds := cs\<rparr>)"
  "Redis2_set_blocking_mode b (last_error e r) = last_error e (Redis2_set_blocking_mode b r)"
  "(last_error e r)\<lparr>proto := p\<rparr> = r\<lparr>proto := p\<rparr>"
  by (simp_all add: last_error_def proto_set_error_def on_reply_type_error_def on_reset_def Let_def
      Redis2_set_blocking_mode_def set_blocking_mode_def)

lemma with_error_proto: "r\<lparr>proto := with_error e p\<rparr> = last_error e (r\<lparr>proto := p\<rparr>)"
  by (simp add: last_error_def proto_set_error_def)

text \<open>The law gives both halves of the contract.\<close>

lemma law_success:
  assumes "error_law ok m" "m r w = Some (res, r', w')" "ok res"
  shows "p_error (proto r') = p_error (proto r)"
proof -
  have "last_error (p_error (proto r)) r = r" by (simp add: last_error_def proto_set_error_def)
  with error_lawD [OF assms(1), of "p_error (proto r)" r w] assms(2,3)
  have "r' = last_error (p_error (proto r)) r'" by simp
  from arg_cong [OF this, of "\<lambda>r. p_error (proto r)"] show ?thesis by simp
qed

lemma law_failure:
  assumes "error_law ok m" "m r w = Some (res, r', w')" "\<not> ok res"
  shows "m (last_error e r) w = Some (res, r', w')"
  using error_lawD [OF assms(1), of e r w] assms(2,3) by simp

text \<open>A call on the protocol object.\<close>

lemma proto_call_law:
  assumes "\<And>e p w. agree e (m (with_error e p) w) (m p w)"
  shows "error_law fst (\<lambda>r w. do { (ok, c, p, w) \<leftarrow> m (proto r) w; Some ((ok, f c), r\<lparr>proto := p\<rparr>, w) })"
  unfolding error_law_def
proof (intro allI)
  fix e and r :: Redis2 and w :: world
  show "(do { (ok, c, p, w) \<leftarrow> m (proto (last_error e r)) w; Some ((ok, f c), (last_error e r)\<lparr>proto := p\<rparr>, w) })
    = map_option (\<lambda>(res, r', w'). (res, if fst res then last_error e r' else r', w'))
        (do { (ok, c, p, w) \<leftarrow> m (proto r) w; Some ((ok, f c), r\<lparr>proto := p\<rparr>, w) })"
    using assms [of e "proto r" w] by (cases "m (proto r) w") (auto simp: agree_def with_error_proto)
qed

lemma run_command_law: "error_law fst (run_command c)"
  using proto_call_law [of "exec_command (Some c)" "\<lambda>cp. case cp of Some c \<Rightarrow> c | None \<Rightarrow> c"]
  by (simp add: exec_command_agree run_command_def [abs_def])

lemma blocking_run_law: "error_law fst (blocking_run c)"
  unfolding error_law_def blocking_run_def
proof (intro allI)
  fix e and r :: Redis2 and w :: world
  show "(let blocked = blocking_mode (proto (last_error e r)) in do {
       (res, r, w) \<leftarrow> run_command c (Redis2_set_blocking_mode True (last_error e r)) w;
       Some (res, Redis2_set_blocking_mode blocked r, w) })
    = map_option (\<lambda>(res, r', w'). (res, if fst res then last_error e r' else r', w'))
       (let blocked = blocking_mode (proto r) in do {
       (res, r, w) \<leftarrow> run_command c (Redis2_set_blocking_mode True r) w;
       Some (res, Redis2_set_blocking_mode blocked r, w) })"
    using error_lawD [OF run_command_law, of c e "Redis2_set_blocking_mode True r" w]
    by (cases "run_command c (Redis2_set_blocking_mode True r) w") (auto simp: Let_def)
qed

text \<open>Sequencing: a call whose failure ends the method.\<close>

lemma then_law:
  assumes m: "error_law fst m" and f: "\<not> ok fail" and k: "\<And>c. error_law ok (k c)"
  shows "error_law ok (\<lambda>r w. do { ((b, c), r, w) \<leftarrow> m r w; if \<not> b then Some (fail, r, w) else k c r w })"
  unfolding error_law_def
proof (intro allI)
  fix e and r :: Redis2 and w :: world
  show "(do { ((b, c), r, w) \<leftarrow> m (last_error e r) w; if \<not> b then Some (fail, r, w) else k c r w })
    = map_option (\<lambda>(res, r', w'). (res, if ok res then last_error e r' else r', w'))
       (do { ((b, c), r, w) \<leftarrow> m r w; if \<not> b then Some (fail, r, w) else k c r w })"
    using error_lawD [OF m, of e r w] f error_lawD [OF k] by (cases "m r w") auto
qed

lemma then_law1:
  assumes m: "error_law (\<lambda>b. b) m" and f: "\<not> ok fail" and k: "error_law ok k"
  shows "error_law ok (\<lambda>r w. do { (b, r, w) \<leftarrow> m r w; if \<not> b then Some (fail, r, w) else k r w })"
  unfolding error_law_def
proof (intro allI)
  fix e and r :: Redis2 and w :: world
  show "(do { (b, r, w) \<leftarrow> m (last_error e r) w; if \<not> b then Some (fail, r, w) else k r w })
    = map_option (\<lambda>(res, r', w'). (res, if ok res then last_error e r' else r', w'))
       (do { (b, r, w) \<leftarrow> m r w; if \<not> b then Some (fail, r, w) else k r w })"
    using error_lawD [OF m, of e r w] f error_lawD [OF k] by (cases "m r w") auto
qed

lemmas run_then_law = then_law [OF run_command_law]
lemmas blocking_then_law = then_law [OF blocking_run_law]

section \<open>The macros\<close>

lemma select_law [law_rules]: "error_law (\<lambda>b. b) (Redis2_select n)"
  unfolding error_law_def
proof (intro allI)
  fix e and r :: Redis2 and w :: world
  obtain b st p' w' where a: "proto_assure_connect None (proto r) w = ((b, st), p', w')"
    by (cases "proto_assure_connect None (proto r) w") auto
  let ?c = "command_with SELECT [push_arg_int n]"
  show "Redis2_select n (last_error e r) w
    = map_option (\<lambda>(res, r', w'). (res, if res then last_error e r' else r', w')) (Redis2_select n r w)"
    using error_lawD [OF run_command_law, of ?c e "r\<lparr>proto := p'\<rparr>" w']
    by (cases "run_command ?c (r\<lparr>proto := p'\<rparr>) w'")
      (auto simp: Redis2_select_def a assure_connect_error [OF a] with_error_proto Let_def)
qed

lemma assure_connect_law [law_rules]: "error_law (\<lambda>b. b) assure_connect"
  unfolding error_law_def
proof (intro allI)
  fix e and r :: Redis2 and w :: world
  obtain b st p' w' where a: "proto_assure_connect (Some 0) (proto r) w = ((b, st), p', w')"
    by (cases "proto_assure_connect (Some 0) (proto r) w") auto
  let ?r = "if st = Some 1 then on_reset (r\<lparr>proto := p'\<rparr>) else r\<lparr>proto := p'\<rparr>"
  show "assure_connect (last_error e r) w
    = map_option (\<lambda>(res, r', w'). (res, if res then last_error e r' else r', w')) (assure_connect r w)"
    using error_lawD [OF select_law, of "db_index ?r" e ?r w']
    by (cases "Redis2_select (db_index ?r) ?r w'")
      (auto simp: assure_connect_def a assure_connect_error [OF a] with_error_proto Let_def)
qed

lemma check_expr_law [law_rules]: "\<not> ok fail \<Longrightarrow> error_law ok k \<Longrightarrow> error_law ok (CHECK_EXPR b fail k)"
  by (auto simp: error_law_def CHECK_EXPR_def)

lemma check_ptr_law [law_rules]: "\<not> ok fail \<Longrightarrow> error_law ok k \<Longrightarrow> error_law ok (CHECK_PTR_PARAM p fail k)"
  unfolding CHECK_PTR_PARAM_def by (rule check_expr_law)

lemma assured_law:
  "\<not> ok fail \<Longrightarrow> error_law ok k \<Longrightarrow>
   error_law ok (\<lambda>r w. do { (b, r, w) \<leftarrow> assure_connect r w; if \<not> b then Some (fail, r, w) else k r w })"
  by (rule then_law1 [OF assure_connect_law])

lemma checked_law:
  assumes "\<not> ok fail" "error_law ok k"
  shows "error_law ok (\<lambda>r w. let (b, r, w) = Redis2_check_connect r w in if \<not> b then Some (fail, r, w) else k r w)"
  unfolding error_law_def
proof (intro allI)
  fix e and r :: Redis2 and w :: world
  obtain b p' w' where c: "check_connect (proto r) w = (b, p', w')" by (cases "check_connect (proto r) w")
  show "(let (b, r, w) = Redis2_check_connect (last_error e r) w in if \<not> b then Some (fail, r, w) else k r w)
    = map_option (\<lambda>(res, r', w'). (res, if ok res then last_error e r' else r', w'))
       (let (b, r, w) = Redis2_check_connect r w in if \<not> b then Some (fail, r, w) else k r w)"
    using assms(1) error_lawD [OF assms(2), of e "r\<lparr>proto := p'\<rparr>" w']
    by (simp add: Redis2_check_connect_def c check_connect_error [OF c] with_error_proto)
qed

lemma connected_run_law [law_rules]:
  "\<not> ok fail \<Longrightarrow> (\<And>c. error_law ok (k c)) \<Longrightarrow> error_law ok (connected_run c fail k)"
  unfolding connected_run_def [abs_def] by (intro assured_law run_then_law)

lemma reply_macros_law [law_rules]:
  "error_law (\<lambda>b. b) (CHECK_STATUS_OK c)" "error_law (\<lambda>b. b) (CHECK_STATUS_PONG c)"
  "error_law fst (GET_INTEGER_REPLY ret c)" "error_law fst (GET_BULK_REPLY sret nil c)"
  "error_law fst (GET_BULK_REPLY2 sret c)" "error_law fst (GET_MBULKS_REPLY mret c)"
  "error_law fst (GET_DOUBLE_REPLY dret c)"
  by (auto simp: error_law_def CHECK_STATUS_OK_def CHECK_STATUS_PONG_def GET_INTEGER_REPLY_def
      GET_BULK_REPLY_def GET_BULK_REPLY2_def GET_MBULKS_REPLY_def GET_DOUBLE_REPLY_def Let_def split: bind_splits)

lemma bodies_law [law_rules]:
  "error_law fst (integer_command ret c)" "error_law fst (bulk_command sret nil c)"
  "error_law fst (bulk_command2 sret c)" "error_law fst (mbulks_command mret c)"
  "error_law (\<lambda>b. b) (status_command c)" "error_law fst (double_command dret c)"
  unfolding integer_command_def bulk_command_def bulk_command2_def mbulks_command_def status_command_def
    double_command_def
  by (intro law_rules; simp)+

section \<open>Every method\<close>

text \<open>A method that reads the world to print a number.\<close>

lemma world_law: "(\<And>w. error_law ok (m w)) \<Longrightarrow> error_law ok (\<lambda>r w. m w r w)"
  by (simp add: error_law_def)

lemma reply_bodies_law [law_rules]:
  "error_law fst (Redis2_type key sret)" "error_law fst (zxxxrank rv key member ret ne)"
  "error_law fst (Redis2_zscore key member dret nil)" "error_law fst (Redis2_dump key sret nil)"
  unfolding Redis2_type_def zxxxrank_def Redis2_zscore_def Redis2_dump_def Let_def
  by (intro law_rules; simp?; auto simp: error_law_def split: bind_splits)+

lemma blocking_bodies_law [law_rules]:
  "error_law fst (bxpop is_blpop keys timeout key member expired)"
  "error_law fst (Redis2_brpoplpush source destination timeout member expired)"
  unfolding bxpop_def Redis2_brpoplpush_def Let_def
  by (intro check_ptr_law assured_law blocking_then_law; simp?;
      auto simp: error_law_def split: bind_splits bool.splits list.splits option.splits)+

lemma proto_bodies_law [law_rules]:
  "error_law fst (Redis2_exec_command cp)" "error_law fst (Redis2_exec_commandv cp vs)"
  "error_law fst (Redis2_exec_pipeline cps)"
  unfolding Redis2_exec_command_def Redis2_exec_commandv_def Redis2_exec_pipeline_def
  by (intro check_ptr_law assured_law proto_call_law [where f = "\<lambda>c. c"] exec_command_agree exec_commandv_agree
      exec_pipeline_agree; simp)+

lemma transaction_law [law_rules]: "error_law fst (Redis2_exec cs)" "error_law (\<lambda>b. b) Redis2_discard"
  unfolding Redis2_exec_def Redis2_discard_def [abs_def]
  by (intro check_ptr_law checked_law run_then_law; simp?; auto simp: error_law_def Let_def split: bind_splits)+

lemma printing_law [law_rules]:
  "error_law fst (Redis2_incrbyfloat key inc dret)" "error_law fst (Redis2_hincrbyfloat key field inc dret)"
  "error_law fst (Redis2_zadd key score member ret)" "error_law fst (Redis2_zadd_scores key scores members ret)"
  "error_law fst (Redis2_zincrby key increment member dret)"
  unfolding Redis2_incrbyfloat_def [abs_def] Redis2_hincrbyfloat_def [abs_def] Redis2_zadd_def [abs_def]
    Redis2_zadd_scores_def [abs_def] Redis2_zincrby_def [abs_def]
  by (rule world_law, intro law_rules; simp)+

lemma store_law [law_rules]: "error_law fst (zxxxxxstore is_zinterstore destination keys weights agg ret)"
  unfolding error_law_def zxxxxxstore_def by (intro allI error_lawD [OF bodies_law(1)])

lemma queue_law [law_rules]: "error_law fst (add_commandv cp vs)"
proof (cases cp)
  case (Some c)
  have m: "error_law fst (\<lambda>r w. do { (ok, ip, p, w) \<leftarrow> exec_commandv (Some inner) vs (proto r) w; Some ((ok, ip), r\<lparr>proto := p\<rparr>, w) })"
    for inner by (intro proto_call_law [where f = "\<lambda>c. c"] exec_commandv_agree)
  have "error_law fst (\<lambda>r w. do {
        (ok, ip, p, w) \<leftarrow> exec_commandv (Some inner) vs (proto r) w;
        let r = r\<lparr>proto := p\<rparr>;
        inner \<leftarrow> ip;
        if \<not> ok then Some ((False, Some d), r, w)
        else Some ((True, Some d), r\<lparr>transaction_cmds := transaction_cmds r @ [inner]\<rparr>, w) })" for inner d
    unfolding error_law_def
  proof (intro allI)
    fix e and r :: Redis2 and w :: world
    show "(do {
        (ok, ip, p, w) \<leftarrow> exec_commandv (Some inner) vs (proto (last_error e r)) w;
        let r = (last_error e r)\<lparr>proto := p\<rparr>;
        inner \<leftarrow> ip;
        if \<not> ok then Some ((False, Some d), r, w)
        else Some ((True, Some d), r\<lparr>transaction_cmds := transaction_cmds r @ [inner]\<rparr>, w) })
      = map_option (\<lambda>(res, r', w'). (res, if fst res then last_error e r' else r', w')) (do {
        (ok, ip, p, w) \<leftarrow> exec_commandv (Some inner) vs (proto r) w;
        let r = r\<lparr>proto := p\<rparr>;
        inner \<leftarrow> ip;
        if \<not> ok then Some ((False, Some d), r, w)
        else Some ((True, Some d), r\<lparr>transaction_cmds := transaction_cmds r @ [inner]\<rparr>, w) })"
      using exec_commandv_agree [of e "Some inner" vs "proto r" w]
      by (cases "exec_commandv (Some inner) vs (proto r) w")
        (auto simp: agree_def with_error_proto Let_def split: bind_splits)
  qed
  then show ?thesis
    unfolding add_commandv_def Some
    by (intro check_ptr_law checked_law) (simp_all add: swap_command_def)
qed (simp add: add_commandv_def CHECK_PTR_PARAM_def CHECK_EXPR_def error_law_def)

text \<open>\<open>bgrewriteaof\<close> returns whether the reply is a status; the protocol accepts no other.\<close>

lemma status_reply:
  assumes r: "run_command c r w = Some ((True, c'), r', w')"
    and c: "reply_type (command_info (cmd_in c)) = kStatus" "output_wf (cmd_out c)"
  shows "is_status (cmd_out c')"
proof -
  from r obtain cp p' where e: "exec_command (Some c) (proto r) w = Some (True, cp, p', w')"
    "c' = (case cp of Some c \<Rightarrow> c | None \<Rightarrow> c)" by (auto simp: run_command_def bind_eq_Some_conv)
  obtain ok1 cp1 p1 w1 where 1: "write_command (Some c) (proto r) w = (ok1, cp1, p1, w1)"
    by (cases "write_command (Some c) (proto r) w")
  with e(1) have ok: ok1 and rd: "read_reply cp1 p1 w1 = Some (True, cp, p', w')"
    by (auto simp: exec_command_def split: if_splits)
  from 1 ok obtain c1 where c1: "cp1 = Some c1" "cmd_in c1 = cmd_in c"
    by (auto simp: write_command_def check_argc_def write_text_def Let_def split: prod.splits if_splits)
  with write_command_wf [OF 1] c(2) have wf1: "cmd_wf cp1" by (simp add: cmd_wf_def)
  from rd c1 obtain out where out: "do_read_reply (Suc (avail p1 w1)) (cmd_in c1) True (cmd_out c1) True p1 w1
      = Some (True, out, p', w')" "cp = Some (c1\<lparr>cmd_out := out\<rparr>)" by (auto simp: read_reply_def bind_eq_Some_conv)
  have "out_type out = expected_type True (cmd_in c1) p1"
    using do_read_reply_type [of "cmd_in c1" p1 "Suc (avail p1 w1)" True "cmd_out c1" w1] c(1) c1(2) out(1)
    by (simp add: has_type_def)
  then have "out_type out = kStatus" using c(1) c1(2) by (simp add: expected_type_def)
  moreover have "output_wf out" using read_reply_wf [OF rd wf1] out(2) by (simp add: cmd_wf_def)
  ultimately have "is_status out" by (cases out; cases "out_ptr out") (auto simp: is_status_def)
  with e(2) out(2) show ?thesis by simp
qed

lemma bgrewriteaof_law [law_rules]: "error_law (\<lambda>b. b) Redis2_bgrewriteaof"
proof -
  let ?c = "command_with BGREWRITEAOF []"
  have row: "reply_type (command_info (cmd_in ?c)) = kStatus"
    by (simp add: command_with_def new_command_def new_input_def s_command_map_def)
  have run: "(do { ((ok, c), r, w) \<leftarrow> run_command ?c r w; if \<not> ok then Some (False, r, w) else Some (is_status (cmd_out c), r, w) })
    = (do { ((ok, c), r, w) \<leftarrow> run_command ?c r w; if \<not> ok then Some (False, r, w) else Some (True, r, w) })"
    for r :: Redis2 and w :: world
    using status_reply [OF _ row, of r w] by (cases "run_command ?c r w") auto
  have eq: "Redis2_bgrewriteaof = connected_run ?c False (\<lambda>c r w. Some (True, r, w))"
  proof (intro ext)
    fix r and w
    show "Redis2_bgrewriteaof r w = connected_run ?c False (\<lambda>c r w. Some (True, r, w)) r w"
    proof (cases "assure_connect r w")
      case (Some a)
      then show ?thesis
        by (cases a) (use run in \<open>auto simp: Redis2_bgrewriteaof_def connected_run_def\<close>)
    qed (simp add: Redis2_bgrewriteaof_def connected_run_def)
  qed
  show ?thesis unfolding eq by (intro law_rules) (simp_all add: error_law_def)
qed

text \<open>Connecting and checking the connection, with the state they return.\<close>

lemma connect_laws [law_rules]:
  "error_law (\<lambda>b. b) (\<lambda>r w. Some (Redis2_connect r w))"
  "error_law (\<lambda>b. b) (\<lambda>r w. Some (Redis2_check_connect r w))"
proof -
  show "error_law (\<lambda>b. b) (\<lambda>r w. Some (Redis2_connect r w))"
    unfolding error_law_def
  proof (intro allI)
    fix e and r :: Redis2 and w :: world
    obtain b p' w' where c: "proto_connect (proto r) w = (b, p', w')" by (cases "proto_connect (proto r) w")
    show "Some (Redis2_connect (last_error e r) w)
      = map_option (\<lambda>(res, r', w'). (res, if res then last_error e r' else r', w')) (Some (Redis2_connect r w))"
      by (simp add: Redis2_connect_def c connect_error [OF c] with_error_proto)
  qed
  show "error_law (\<lambda>b. b) (\<lambda>r w. Some (Redis2_check_connect r w))"
    unfolding error_law_def
  proof (intro allI)
    fix e and r :: Redis2 and w :: world
    obtain b p' w' where c: "check_connect (proto r) w = (b, p', w')" by (cases "check_connect (proto r) w")
    show "Some (Redis2_check_connect (last_error e r) w)
      = map_option (\<lambda>(res, r', w'). (res, if res then last_error e r' else r', w')) (Some (Redis2_check_connect r w))"
      by (simp add: Redis2_check_connect_def c check_connect_error [OF c] with_error_proto)
  qed
qed

text \<open>C9: the contract of \<open>last_error\<close> that \<open>redis_base.h\<close> states, for the methods that class \<open>Redis2\<close> itself
  implements and that report success or failure, \<open>connect\<close>, \<open>check_connect\<close> and \<open>assure_connect\<close> included:
  a successful call does not touch the error of an earlier failure, and a failing call replaces it by one
  of its own that does not depend on it; no method behaves differently because of an earlier error.  Left
  out are the overload of \<open>add_command\<close> without a format (it returns \<open>false\<close> also when it succeeded, and
  sets no error then) and the old-style methods inherited from \<open>RedisBase2\<close>, of which \<open>keys\<close> breaks the contract: it returns
  \<open>true\<close> after a failure that set the error.\<close>

theorem methods_error_law:
  "(error_law (\<lambda>b. b) (\<lambda>r w. Some (Redis2_connect r w))) \<and>
   (error_law (\<lambda>b. b) (\<lambda>r w. Some (Redis2_check_connect r w))) \<and>
   (error_law (\<lambda>b. b) assure_connect) \<and>
   (\<forall>index. error_law (\<lambda>b. b) (Redis2_select index)) \<and>
   (\<forall>key ret. error_law fst (Redis2_del key ret)) \<and>
   (\<forall>keys ret. error_law fst (Redis2_del_keys keys ret)) \<and>
   (\<forall>key ret is_nil. error_law fst (Redis2_dump key ret is_nil)) \<and>
   (\<forall>key ret. error_law fst (Redis2_exists key ret)) \<and>
   (\<forall>key seconds ret. error_law fst (Redis2_expire key seconds ret)) \<and>
   (\<forall>key abs_seconds ret. error_law fst (Redis2_expireat key abs_seconds ret)) \<and>
   (\<forall>pattern ret. error_law fst (Redis2_keys pattern ret)) \<and>
   (\<forall>key db ret. error_law fst (Redis2_move key db ret)) \<and>
   (\<forall>key ret. error_law fst (Redis2_persist key ret)) \<and>
   (\<forall>key milliseconds ret. error_law fst (Redis2_pexpire key milliseconds ret)) \<and>
   (\<forall>key abs_milliseconds ret. error_law fst (Redis2_pexpireat key abs_milliseconds ret)) \<and>
   (\<forall>key ret. error_law fst (Redis2_pttl key ret)) \<and>
   (\<forall>key ttl value. error_law (\<lambda>b. b) (Redis2_restore key ttl value)) \<and>
   (\<forall>ret is_nil. error_law fst (Redis2_randomkey ret is_nil)) \<and>
   (\<forall>key phrases ret. error_law fst (Redis2_sort key phrases ret)) \<and>
   (\<forall>key ret. error_law fst (Redis2_ttl key ret)) \<and>
   (\<forall>key ret. error_law fst (Redis2_type key ret)) \<and>
   (\<forall>key value ret. error_law fst (Redis2_append key value ret)) \<and>
   (\<forall>key ret. error_law fst (Redis2_decr key ret)) \<and>
   (\<forall>key dec ret. error_law fst (Redis2_decrby key dec ret)) \<and>
   (\<forall>key ret is_nil. error_law fst (Redis2_get key ret is_nil)) \<and>
   (\<forall>key offset ret. error_law fst (Redis2_getbit key offset ret)) \<and>
   (\<forall>key start stop ret is_nil. error_law fst (Redis2_getrange key start stop ret is_nil)) \<and>
   (\<forall>key value ret is_nil. error_law fst (Redis2_getset key value ret is_nil)) \<and>
   (\<forall>key ret. error_law fst (Redis2_incr key ret)) \<and>
   (\<forall>key inc ret. error_law fst (Redis2_incrby key inc ret)) \<and>
   (\<forall>key inc ret. error_law fst (Redis2_incrbyfloat key inc ret)) \<and>
   (\<forall>keys ret. error_law fst (Redis2_mget keys ret)) \<and>
   (\<forall>keys values. error_law (\<lambda>b. b) (Redis2_mset keys values)) \<and>
   (\<forall>key milliseconds value. error_law (\<lambda>b. b) (Redis2_psetex key milliseconds value)) \<and>
   (\<forall>key value. error_law (\<lambda>b. b) (Redis2_set key value)) \<and>
   (\<forall>key offset bitval ret. error_law fst (Redis2_setbit key offset bitval ret)) \<and>
   (\<forall>key seconds value. error_law (\<lambda>b. b) (Redis2_setex key seconds value)) \<and>
   (\<forall>key value ret. error_law fst (Redis2_setnx key value ret)) \<and>
   (\<forall>key offset value ret. error_law fst (Redis2_setrange key offset value ret)) \<and>
   (\<forall>key ret. error_law fst (Redis2_strlen key ret)) \<and>
   (\<forall>key field ret. error_law fst (Redis2_hdel key field ret)) \<and>
   (\<forall>key flds ret. error_law fst (Redis2_hdel_fields key flds ret)) \<and>
   (\<forall>key field ret. error_law fst (Redis2_hexists key field ret)) \<and>
   (\<forall>key field ret is_nil. error_law fst (Redis2_hget key field ret is_nil)) \<and>
   (\<forall>key ret. error_law fst (Redis2_hgetall key ret)) \<and>
   (\<forall>key field inc ret. error_law fst (Redis2_hincrby key field inc ret)) \<and>
   (\<forall>key field ret. error_law fst (Redis2_hincr key field ret)) \<and>
   (\<forall>key field inc ret. error_law fst (Redis2_hincrbyfloat key field inc ret)) \<and>
   (\<forall>key ret. error_law fst (Redis2_hkeys key ret)) \<and>
   (\<forall>key ret. error_law fst (Redis2_hlen key ret)) \<and>
   (\<forall>key flds ret. error_law fst (Redis2_hmget key flds ret)) \<and>
   (\<forall>key flds values. error_law (\<lambda>b. b) (Redis2_hmset key flds values)) \<and>
   (\<forall>key field value ret. error_law fst (Redis2_hset key field value ret)) \<and>
   (\<forall>key field value ret. error_law fst (Redis2_hsetnx key field value ret)) \<and>
   (\<forall>key ret. error_law fst (Redis2_hvals key ret)) \<and>
   (\<forall>is_blpop keys timeout key member expired. error_law fst (bxpop is_blpop keys timeout key member expired)) \<and>
   (\<forall>key index ret is_nil. error_law fst (Redis2_lindex key index ret is_nil)) \<and>
   (\<forall>key before pivot value ret. error_law fst (Redis2_linsert key before pivot value ret)) \<and>
   (\<forall>key ret. error_law fst (Redis2_llen key ret)) \<and>
   (\<forall>key ret is_nil. error_law fst (Redis2_lpop key ret is_nil)) \<and>
   (\<forall>key value ret. error_law fst (Redis2_lpush key value ret)) \<and>
   (\<forall>key values ret. error_law fst (Redis2_lpush_values key values ret)) \<and>
   (\<forall>key value ret. error_law fst (Redis2_lpushx key value ret)) \<and>
   (\<forall>key start stop ret. error_law fst (Redis2_lrange key start stop ret)) \<and>
   (\<forall>key count value ret. error_law fst (Redis2_lrem key count value ret)) \<and>
   (\<forall>key index value. error_law (\<lambda>b. b) (Redis2_lset key index value)) \<and>
   (\<forall>key start stop. error_law (\<lambda>b. b) (Redis2_ltrim key start stop)) \<and>
   (\<forall>key ret is_nil. error_law fst (Redis2_rpop key ret is_nil)) \<and>
   (\<forall>key value ret. error_law fst (Redis2_rpush key value ret)) \<and>
   (\<forall>key values ret. error_law fst (Redis2_rpush_values key values ret)) \<and>
   (\<forall>key value ret. error_law fst (Redis2_rpushx key value ret)) \<and>
   (\<forall>key member ret. error_law fst (Redis2_sadd key member ret)) \<and>
   (\<forall>key members ret. error_law fst (Redis2_sadd_members key members ret)) \<and>
   (\<forall>key ret. error_law fst (Redis2_scard key ret)) \<and>
   (\<forall>key member ret. error_law fst (Redis2_sismember key member ret)) \<and>
   (\<forall>key ret. error_law fst (Redis2_smembers key ret)) \<and>
   (\<forall>key ret is_nil. error_law fst (Redis2_spop key ret is_nil)) \<and>
   (\<forall>key ret is_nil. error_law fst (Redis2_srandmember key ret is_nil)) \<and>
   (\<forall>key member ret. error_law fst (Redis2_srem key member ret)) \<and>
   (\<forall>key members ret. error_law fst (Redis2_srem_members key members ret)) \<and>
   (\<forall>key score member ret. error_law fst (Redis2_zadd key score member ret)) \<and>
   (\<forall>key scores members ret. error_law fst (Redis2_zadd_scores key scores members ret)) \<and>
   (\<forall>key ret. error_law fst (Redis2_zcard key ret)) \<and>
   (\<forall>key mn mx ret. error_law fst (Redis2_zcount key mn mx ret)) \<and>
   (\<forall>key increment member ret. error_law fst (Redis2_zincrby key increment member ret)) \<and>
   (\<forall>rv key start stop withscores ret. error_law fst (zxxxrange rv key start stop withscores ret)) \<and>
   (\<forall>key start stop withscores ret. error_law fst (Redis2_zrange key start stop withscores ret)) \<and>
   (\<forall>key start stop withscores ret. error_law fst (Redis2_zrevrange key start stop withscores ret)) \<and>
   (\<forall>rv key mn mx withscores limit ret. error_law fst (zxxxrangebyscore rv key mn mx withscores limit ret)) \<and>
   (\<forall>key mn mx withscores limit ret. error_law fst (Redis2_zrangebyscore key mn mx withscores limit ret)) \<and>
   (\<forall>key mx mn withscores limit ret. error_law fst (Redis2_zrevrangebyscore key mx mn withscores limit ret)) \<and>
   (\<forall>rv key member ret not_exists. error_law fst (zxxxrank rv key member ret not_exists)) \<and>
   (\<forall>key member ret not_exists. error_law fst (Redis2_zrank key member ret not_exists)) \<and>
   (\<forall>key member ret not_exists. error_law fst (Redis2_zrevrank key member ret not_exists)) \<and>
   (\<forall>key member ret. error_law fst (Redis2_zrem key member ret)) \<and>
   (\<forall>key members ret. error_law fst (Redis2_zrem_members key members ret)) \<and>
   (\<forall>key start stop ret. error_law fst (Redis2_zremrangebyrank key start stop ret)) \<and>
   (\<forall>key mn mx ret. error_law fst (Redis2_zremrangebyscore key mn mx ret)) \<and>
   (\<forall>key member ret is_nil. error_law fst (Redis2_zscore key member ret is_nil)) \<and>
   (error_law (\<lambda>b. b) Redis2_flushall) \<and>
   (error_law (\<lambda>b. b) Redis2_flushdb) \<and>
   (\<forall>key newkey. error_law (\<lambda>b. b) (Redis2_rename key newkey)) \<and>
   (\<forall>key newkey ret. error_law fst (Redis2_renamenx key newkey ret)) \<and>
   (\<forall>keys timeout key member expired. error_law fst (Redis2_blpop keys timeout key member expired)) \<and>
   (\<forall>keys timeout key member expired. error_law fst (Redis2_brpop keys timeout key member expired)) \<and>
   (\<forall>source destination timeout member expired. error_law fst (Redis2_brpoplpush source destination timeout member expired)) \<and>
   (\<forall>source destination ret is_nil. error_law fst (Redis2_rpoplpush source destination ret is_nil)) \<and>
   (\<forall>keys ret. error_law fst (Redis2_sdiff keys ret)) \<and>
   (\<forall>destination keys ret. error_law fst (Redis2_sdiffstore destination keys ret)) \<and>
   (\<forall>keys ret. error_law fst (Redis2_sinter keys ret)) \<and>
   (\<forall>destination keys ret. error_law fst (Redis2_sinterstore destination keys ret)) \<and>
   (\<forall>source destination member ret. error_law fst (Redis2_smove source destination member ret)) \<and>
   (\<forall>keys ret. error_law fst (Redis2_sunion keys ret)) \<and>
   (\<forall>destination keys ret. error_law fst (Redis2_sunionstore destination keys ret)) \<and>
   (\<forall>is_zinterstore destination keys weights agg ret. error_law fst (zxxxxxstore is_zinterstore destination keys weights agg ret)) \<and>
   (\<forall>destination keys weights agg ret. error_law fst (Redis2_zinterstore destination keys weights agg ret)) \<and>
   (\<forall>destination keys weights agg ret. error_law fst (Redis2_zunionstore destination keys weights agg ret)) \<and>
   (\<forall>cmdp. error_law fst (Redis2_exec_command cmdp)) \<and>
   (\<forall>cmdp vs. error_law fst (Redis2_exec_commandv cmdp vs)) \<and>
   (\<forall>commands. error_law fst (Redis2_exec_pipeline commands)) \<and>
   (\<forall>channel message ret. error_law fst (Redis2_publish channel message ret)) \<and>
   (error_law (\<lambda>b. b) Redis2_multi) \<and>
   (error_law (\<lambda>b. b) Redis2_unwatch) \<and>
   (\<forall>keys. error_law (\<lambda>b. b) (Redis2_watch keys)) \<and>
   (\<forall>cmdp vs. error_law fst (add_commandv cmdp vs)) \<and>
   (\<forall>commands. error_law fst (Redis2_exec commands)) \<and>
   (error_law (\<lambda>b. b) Redis2_discard) \<and>
   (error_law (\<lambda>b. b) Redis2_ping) \<and>
   (error_law (\<lambda>b. b) Redis2_bgrewriteaof) \<and>
   (error_law (\<lambda>b. b) Redis2_bgsave) \<and>
   (\<forall>ret. error_law fst (Redis2_dbsize ret)) \<and>
   (\<forall>ret. error_law fst (Redis2_info ret)) \<and>
   (\<forall>type ret. error_law fst (Redis2_info_type type ret)) \<and>
   (\<forall>ret. error_law fst (Redis2_lastsave ret)) \<and>
   (\<forall>host port. error_law (\<lambda>b. b) (Redis2_slaveof host port))"
  unfolding method_defs by (intro conjI allI law_rules; simp)

end
