(* ===== verification/Tcp_Resolver.thy ===== *)
theory Tcp_Resolver
  imports Tcp_Client
begin

text \<open>
  The host cache shared by all threads: \<open>HostResolver\<close> of \<open>src/src/tcp_client.cpp\<close> (its comment
  says "multi thread safe").  \<open>resolve\<close> looks the name up under the shared lock, calls the
  resolver with no lock held, and stores the answer under the exclusive lock; \<open>clear_cache\<close>
  takes the exclusive lock.  Each locked section is one step, so is the call of the resolver;
  the steps of any number of threads interleave.  \<open>Tcp_Client.resolve\<close> is the run of one
  thread with nobody else in between.
\<close>

section \<open>The steps\<close>

text \<open>Where a thread is in \<open>resolve\<close>.\<close>

datatype rpc =
    Outside
  | Looking string string net_endpoint
  | Resolving string string net_endpoint
  | Updating string string net_endpoint int
  | Answered string string net_endpoint int

record resolver =
  shared :: world
  rpcs :: "nat \<Rightarrow> rpc"

definition set_rpc :: "nat \<Rightarrow> rpc \<Rightarrow> resolver \<Rightarrow> resolver" where
  "set_rpc t c \<rho> = \<rho>\<lparr>rpcs := (rpcs \<rho>)(t := c)\<rparr>"

inductive resolver_step :: "resolver \<Rightarrow> resolver \<Rightarrow> bool" where
  call: "rpcs \<rho> t = Outside \<or> rpcs \<rho> t = Answered h s e c \<Longrightarrow>
    resolver_step \<rho> (set_rpc t (Looking host service ep) \<rho>)"
| hit: "rpcs \<rho> t = Looking host service ep \<Longrightarrow> lookup_cache host service (shared \<rho>) = Some (ep', ec) \<Longrightarrow>
    resolver_step \<rho> (set_rpc t (Answered host service ep' ec) \<rho>)"
| miss: "rpcs \<rho> t = Looking host service ep \<Longrightarrow> lookup_cache host service (shared \<rho>) = None \<Longrightarrow>
    resolver_step \<rho> (set_rpc t (Resolving host service ep) \<rho>)"
| ask: "rpcs \<rho> t = Resolving host service ep \<Longrightarrow> do_resolve host service ep (shared \<rho>) = (ep', ec, w') \<Longrightarrow>
    resolver_step \<rho> (set_rpc t (Updating host service ep' ec) (\<rho>\<lparr>shared := w'\<rparr>))"
| update: "rpcs \<rho> t = Updating host service ep ec \<Longrightarrow>
    resolver_step \<rho> (set_rpc t (Answered host service ep ec)
      (\<rho>\<lparr>shared := update_cache host service ep ec (shared \<rho>)\<rparr>))"
| clear: "resolver_step \<rho> (\<rho>\<lparr>shared := clear_cache (shared \<rho>)\<rparr>)"

inductive_cases resolver_stepE [elim]: "resolver_step \<rho> \<rho>'"

definition resolver_steps :: "resolver \<Rightarrow> resolver \<Rightarrow> bool" where
  "resolver_steps = resolver_step\<^sup>*\<^sup>*"

definition resolver_start :: "world \<Rightarrow> resolver" where
  "resolver_start w = \<lparr>shared = w\<lparr>dns_cache := Map.empty\<rparr>, rpcs = (\<lambda>t. Outside)\<rparr>"

section \<open>What the name service answers\<close>

text \<open>What \<open>resolve_host\<close> and \<open>__resolve\<close> make of an answer of \<open>getaddrinfo\<close>: the endpoint and the error code.\<close>

fun resolution :: "gai_ret \<Rightarrow> net_endpoint \<Rightarrow> net_endpoint \<times> int" where
  "resolution (Resolved family addr) ep =
     (if family = AF_INET \<or> family = AF_INET6 then ep\<lparr>domain := family, address := addr\<rparr> else ep, 0)"
| "resolution (GaiFail code e) ep =
     (ep, if code = EAI_BADFLAGS then EINVAL else if code = EAI_FAMILY then EPROTONOSUPPORT
          else if code = EAI_SOCKTYPE then ESOCKTNOSUPPORT else if code \<noteq> EAI_SYSTEM then EHOSTUNREACH else e)"

text \<open>\<open>answered w name r\<close>: \<open>r\<close> is the resolution of an answer that the name service of \<open>w\<close> gives when it is
  asked for this very host and service (with the hints of some endpoint); once its answers are used up it
  knows no name.\<close>

definition answered :: "world \<Rightarrow> string \<times> string \<Rightarrow> net_endpoint \<times> int \<Rightarrow> bool" where
  "answered w name r \<longleftrightarrow> (\<exists>g ep. (g \<in> set (resolve_q w) \<or> g = (\<lambda>host service hints. GaiFail EAI_NONAME 0))
     \<and> r = resolution (g (c_str (fst name)) (c_str (snd name)) (ep\<lparr>address := []\<rparr>)) ep)"

lemma do_resolve_frame:
  "do_resolve host service ep w = (ep', ec, w') \<Longrightarrow> dns_cache w' = dns_cache w \<and> set (resolve_q w') \<subseteq> set (resolve_q w)"
  by (auto simp: do_resolve_def resolve_host_def sys_getaddrinfo_def Let_def
      split: list.splits gai_ret.splits if_splits)

lemma do_resolve_answered:
  assumes "do_resolve host service ep w = (ep', ec, w')"
  shows "answered w (host, service) (ep', ec)"
proof (cases "resolve_q w")
  case Nil
  with assms have "(ep', ec) = resolution (GaiFail EAI_NONAME 0) ep"
    by (auto simp: do_resolve_def resolve_host_def sys_getaddrinfo_def)
  then show ?thesis unfolding answered_def by (intro exI [of _ "\<lambda>host service hints. GaiFail EAI_NONAME 0"] exI [of _ ep]) simp
next
  case (Cons g q)
  with assms have "(ep', ec) = resolution (g (c_str host) (c_str service) (ep\<lparr>address := []\<rparr>)) ep"
    by (cases "g (c_str host) (c_str service) (ep\<lparr>address := []\<rparr>)")
      (auto simp: do_resolve_def resolve_host_def sys_getaddrinfo_def split: if_splits)
  with Cons show ?thesis unfolding answered_def by (intro exI [of _ g] exI [of _ ep]) simp
qed

lemma answered_mono: "answered w' name r \<Longrightarrow> set (resolve_q w') \<subseteq> set (resolve_q w) \<Longrightarrow> answered w name r"
  unfolding answered_def by blast

section \<open>The invariant\<close>

text \<open>What a thread holds, and what is cached, was answered for that name.\<close>

definition rpc_ok :: "world \<Rightarrow> rpc \<Rightarrow> bool" where
  "rpc_ok w c =
     (case c of
        Updating h s ep ec \<Rightarrow> answered w (h, s) (ep, ec)
      | Answered h s ep ec \<Rightarrow> answered w (h, s) (ep, ec)
      | _ \<Rightarrow> True)"

definition resolver_inv :: "world \<Rightarrow> resolver \<Rightarrow> bool" where
  "resolver_inv w \<rho> \<longleftrightarrow> set (resolve_q (shared \<rho>)) \<subseteq> set (resolve_q w)
     \<and> (\<forall>name e. dns_cache (shared \<rho>) name = Some e \<longrightarrow> answered w name e)
     \<and> (\<forall>t. rpc_ok w (rpcs \<rho> t))"

lemma resolver_step_inv:
  assumes "resolver_step \<rho> \<rho>'" "resolver_inv w \<rho>"
  shows "resolver_inv w \<rho>'"
  using assms
proof cases
  case (ask t host service ep ep' ec w')
  from answered_mono [OF do_resolve_answered [OF ask(3)]] assms(2) have "answered w (host, service) (ep', ec)"
    by (simp add: resolver_inv_def)
  with ask assms(2) do_resolve_frame [OF ask(3)] show ?thesis
    by (auto simp: resolver_inv_def set_rpc_def rpc_ok_def)
next
  case (update t host service ep ec)
  have "rpc_ok w (rpcs \<rho> t)" using assms(2) by (simp add: resolver_inv_def)
  then have "answered w (host, service) (ep, ec)" by (simp add: rpc_ok_def update)
  with update assms(2) show ?thesis
    by (auto simp: resolver_inv_def set_rpc_def update_cache_def rpc_ok_def)
qed (use assms(2) in \<open>auto simp: resolver_inv_def set_rpc_def rpc_ok_def lookup_cache_def clear_cache_def\<close>)

lemma resolver_start_inv: "resolver_inv w (resolver_start w)"
  by (simp add: resolver_inv_def resolver_start_def rpc_ok_def)

lemma resolver_steps_inv: "resolver_steps \<rho> \<rho>' \<Longrightarrow> resolver_inv w \<rho> \<Longrightarrow> resolver_inv w \<rho>'"
  unfolding resolver_steps_def by (induction rule: rtranclp_induct) (auto intro: resolver_step_inv)

section \<open>One call on its own\<close>

lemma resolver_steps_step: "resolver_step \<rho> \<rho>' \<Longrightarrow> resolver_steps \<rho>' \<rho>'' \<Longrightarrow> resolver_steps \<rho> \<rho>''"
  unfolding resolver_steps_def by (rule converse_rtranclp_into_rtranclp)

lemma resolver_steps_refl: "resolver_steps \<rho> \<rho>"
  by (simp add: resolver_steps_def)

lemma set_rpc_simps [simp]:
  "rpcs (set_rpc t c \<rho>) = (rpcs \<rho>)(t := c)" "shared (set_rpc t c \<rho>) = shared \<rho>"
  by (simp_all add: set_rpc_def)

text \<open>A thread that is not interrupted runs \<open>resolve\<close>, so no call is ever stuck.\<close>

lemma resolve_uninterrupted:
  assumes "rpcs \<rho> t = Looking host service ep" "resolve True host service ep (shared \<rho>) = (ep', ec, w')"
  shows "\<exists>\<rho>'. resolver_steps \<rho> \<rho>' \<and> rpcs \<rho>' = (rpcs \<rho>)(t := Answered host service ep' ec) \<and> shared \<rho>' = w'"
proof (cases "lookup_cache host service (shared \<rho>)")
  case (Some e)
  obtain ep1 ec1 where e: "e = (ep1, ec1)" by force
  with assms(2) Some have r: "ep' = ep1" "ec = ec1" "w' = shared \<rho>" by (simp_all add: resolve_def)
  have "resolver_step \<rho> (set_rpc t (Answered host service ep' ec) \<rho>)"
    using assms(1) Some unfolding e r by (rule resolver_step.hit)
  from resolver_steps_step [OF this resolver_steps_refl] show ?thesis
    by (rule_tac x = "set_rpc t (Answered host service ep' ec) \<rho>" in exI) (simp add: r)
next
  case None
  obtain ep1 ec1 w1 where d: "do_resolve host service ep (shared \<rho>) = (ep1, ec1, w1)"
    by (cases "do_resolve host service ep (shared \<rho>)")
  with assms(2) None have r: "ep' = ep1" "ec = ec1" "w' = update_cache host service ep1 ec1 w1"
    by (auto simp: resolve_def)
  let ?r1 = "set_rpc t (Resolving host service ep) \<rho>"
  let ?r2 = "set_rpc t (Updating host service ep1 ec1) (?r1\<lparr>shared := w1\<rparr>)"
  let ?r3 = "set_rpc t (Answered host service ep1 ec1) (?r2\<lparr>shared := update_cache host service ep1 ec1 (shared ?r2)\<rparr>)"
  have 1: "resolver_step \<rho> ?r1" using assms(1) None by (rule resolver_step.miss)
  have 2: "resolver_step ?r1 ?r2" by (rule resolver_step.ask) (use d in simp_all)
  have 3: "resolver_step ?r2 ?r3" by (rule resolver_step.update) simp
  have "resolver_steps \<rho> ?r3"
    using 1 2 3 by (meson resolver_steps_step resolver_steps_refl)
  moreover have "rpcs ?r3 = (rpcs \<rho>)(t := Answered host service ep' ec)" by (simp add: r)
  moreover have "shared ?r3 = w'" by (simp add: r)
  ultimately show ?thesis by blast
qed

text \<open>Only \<open>clear_cache\<close> removes a name.\<close>

lemma resolver_step_names:
  assumes "resolver_step \<rho> \<rho>'" "\<rho>' \<noteq> \<rho>\<lparr>shared := clear_cache (shared \<rho>)\<rparr>"
  shows "dom (dns_cache (shared \<rho>)) \<subseteq> dom (dns_cache (shared \<rho>'))"
  using assms by cases (auto simp: update_cache_def dest: do_resolve_frame)

end
