(* ===== verification/Liveness_Properties.thy ===== *)
theory Liveness_Properties
  imports Sample Redis2_Liveness Tcp_Resolver
begin

text \<open>
  That calls return, and that the one object all clients share is safe: the properties of the
  protocol layer in arbitrary worlds and of the host cache under concurrency, with concrete
  instances.
\<close>

section \<open>The protocol\<close>

text \<open>C30: in every world whose bytes announce no size of \<open>2^60\<close> or more, whatever else the peer
  sends and whichever system call fails, reading a reply, executing a command and executing a
  pipeline return, and so does the next call; the bytes read never exceed the bytes delivered.\<close>

theorem exec_returns:
  assumes "proto_live p w"
  shows "returns (read_reply cp p w) (\<lambda>(ok, cp', p', w'). proto_live p' w' \<and> avail p' w' \<le> avail p w)
    \<and> returns (exec_command cp p w) (\<lambda>(ok, cp', p', w'). proto_live p' w')
    \<and> returns (exec_pipeline cps p w) (\<lambda>(ok, cps', p', w'). proto_live p' w')"
proof -
  have "returns (read_reply cp p w) (\<lambda>(ok, cp', p', w'). proto_live p' w')"
    "returns (exec_command cp p w) (\<lambda>(ok, cp', p', w'). proto_live p' w')"
    "returns (exec_pipeline cps p w) (\<lambda>(ok, cps', p', w'). proto_live p' w')"
    using read_reply_goes [OF assms] exec_command_goes [OF assms] exec_pipeline_goes [OF assms]
    by (simp_all add: goes_def)
  moreover have "avail p' w' \<le> avail p w" if "read_reply cp p w = Some (ok, cp', p', w')" for ok cp' p' w'
  proof (cases cp)
    case (Some c)
    with that obtain out where "do_read_reply (Suc (avail p w)) (cmd_in c) True (cmd_out c) True p w = Some (ok, out, p', w')"
      by (auto simp: read_reply_def bind_eq_Some_conv)
    with do_read_reply_spent [OF proto_live_inv [OF assms], of "Suc (avail p w)" "cmd_in c" True "cmd_out c" True w]
    show ?thesis by (simp add: spent_def)
  qed (use that in \<open>auto simp: read_reply_def avail_def\<close>)
  ultimately show ?thesis by (auto simp: returns_iff)
qed

lemma sample_proto_live:
  assumes "modest (concat chunks)" "list_all (\<lambda>c. length c < 2 ^ 31) chunks" "length (concat chunks) < 2 ^ 61"
  shows "proto_live sample_proto (sample_world chunks)"
proof -
  have t: "recv_text (map Recv cs) = concat cs" for cs by (induction cs) auto
  have l: "list_all recv_small (map Recv cs) = list_all (\<lambda>c. length c < 2 ^ 31) cs" for cs by (induction cs) auto
  have q: "recv_q (sample_world chunks) = map Recv chunks" by (simp add: sample_world_def)
  have b: "get_read_buffer (tbuf sample_tcp) = []" "tcp_inv sample_tcp"
    by (simp_all add: sample_tcp_def new_TcpClient_def tcp_inv_def new_buffer_inv)
  show ?thesis
    unfolding proto_live_def tcp_live_def tcp_text_def sample_proto_tcp q t l b(1) append_Nil
    by (intro conjI b(2) assms)
qed

theorem exec_returns_witness:
  "\<exists>r. exec_command (Some (new_command EXEC)) sample_proto
     (sample_world [''*2'', CRLF @ ''*9'' @ CRLF @ ''$12'' @ CRLF, ''cut'']) = Some r"
proof -
  let ?cs = "[''*2'', CRLF @ ''*9'' @ CRLF @ ''$12'' @ CRLF, ''cut'']"
  have "modest (concat ?cs)" by (rule short_modest) simp
  then have "proto_live sample_proto (sample_world ?cs)" by (rule sample_proto_live) simp_all
  from exec_returns [OF this, of "Some (new_command EXEC)" None, THEN conjunct2, THEN conjunct1]
  show ?thesis unfolding returns_iff by blast
qed

section \<open>The host cache\<close>

text \<open>C33: for any number of threads that resolve names and clear the cache in any interleaving, from
  an empty cache: every cached entry, and every result that \<open>resolve\<close> gives a thread, is what the
  library makes of an answer that the name service gave when it was asked for exactly that host and
  service, up to their first null characters (never a mixture, never another name's); a step removes a
  name from the cache only if it is \<open>clear_cache\<close>; and no thread is ever stuck: from every reachable state a thread that is about to
  look a name up can finish on its own, and then does what \<open>resolve\<close> does.\<close>

theorem resolver_shared:
  assumes "resolver_steps (resolver_start w) \<rho>"
  shows "(\<forall>name e. dns_cache (shared \<rho>) name = Some e \<longrightarrow> answered w name e)
    \<and> (\<forall>t host service ep ec. rpcs \<rho> t = Answered host service ep ec \<longrightarrow> answered w (host, service) (ep, ec))
    \<and> (\<forall>\<rho>'. resolver_step \<rho> \<rho>' \<longrightarrow>
         dom (dns_cache (shared \<rho>)) \<subseteq> dom (dns_cache (shared \<rho>')) \<or> \<rho>' = \<rho>\<lparr>shared := clear_cache (shared \<rho>)\<rparr>)
    \<and> (\<forall>t host service ep. rpcs \<rho> t = Looking host service ep \<longrightarrow>
         (\<exists>\<rho>' ep' ec. resolver_steps \<rho> \<rho>' \<and> rpcs \<rho>' = (rpcs \<rho>)(t := Answered host service ep' ec)
            \<and> resolve True host service ep (shared \<rho>) = (ep', ec, shared \<rho>')))"
proof -
  have inv: "resolver_inv w \<rho>" using resolver_steps_inv [OF assms resolver_start_inv] .
  then have "\<forall>name e. dns_cache (shared \<rho>) name = Some e \<longrightarrow> answered w name e"
    by (simp add: resolver_inv_def)
  moreover have "answered w (host, service) (ep, ec)" if "rpcs \<rho> t = Answered host service ep ec"
    for t host service ep ec
  proof -
    have "rpc_ok w (rpcs \<rho> t)" using inv by (simp add: resolver_inv_def)
    then show ?thesis by (simp add: rpc_ok_def that)
  qed
  moreover have "\<exists>\<rho>' ep' ec. resolver_steps \<rho> \<rho>' \<and> rpcs \<rho>' = (rpcs \<rho>)(t := Answered host service ep' ec)
      \<and> resolve True host service ep (shared \<rho>) = (ep', ec, shared \<rho>')"
    if "rpcs \<rho> t = Looking host service ep" for t host service ep
  proof -
    obtain ep' ec w' where r: "resolve True host service ep (shared \<rho>) = (ep', ec, w')"
      by (cases "resolve True host service ep (shared \<rho>)")
    from resolve_uninterrupted [OF that r] r show ?thesis by metis
  qed
  ultimately show ?thesis using resolver_step_names by blast
qed

text \<open>Two threads that miss the same name both ask; each gets its own answer and the later update stays.
  The name service knows the host \<open>h\<close> only.\<close>

abbreviation sample_ep :: "string \<Rightarrow> net_endpoint" where
  "sample_ep a \<equiv> \<lparr>domain = AF_INET, ep_type = SOCK_STREAM, protocol = IPPROTO_TCP, address = a\<rparr>"

definition knows_h :: "string \<Rightarrow> string \<Rightarrow> string \<Rightarrow> net_endpoint \<Rightarrow> gai_ret" where
  "knows_h a host service hints = (if host = ''h'' then Resolved AF_INET a else GaiFail EAI_NONAME 0)"

theorem resolver_shared_witness:
  "\<exists>\<rho>. resolver_steps (resolver_start ((sample_world [])\<lparr>resolve_q := [knows_h ''A'', knows_h ''B'']\<rparr>)) \<rho>
     \<and> rpcs \<rho> 0 = Answered ''h'' ''1'' (sample_ep ''A'') 0 \<and> rpcs \<rho> 1 = Answered ''h'' ''1'' (sample_ep ''B'') 0
     \<and> dns_cache (shared \<rho>) (''h'', ''1'') = Some (sample_ep ''A'', 0)
     \<and> answered ((sample_world [])\<lparr>resolve_q := [knows_h ''A'', knows_h ''B'']\<rparr>) (''h'', ''1'') (sample_ep ''B'', 0)"
proof -
  let ?w = "(sample_world [])\<lparr>resolve_q := [knows_h ''A'', knows_h ''B'']\<rparr>" and ?e = "sample_ep []"
  define r0 where "r0 = resolver_start ?w"
  define r1 where "r1 = set_rpc 0 (Looking ''h'' ''1'' ?e) r0"
  define r2 where "r2 = set_rpc 1 (Looking ''h'' ''1'' ?e) r1"
  define r3 where "r3 = set_rpc 0 (Resolving ''h'' ''1'' ?e) r2"
  define r4 where "r4 = set_rpc 1 (Resolving ''h'' ''1'' ?e) r3"
  define wa where "wa = (shared r4)\<lparr>resolve_q := [knows_h ''B'']\<rparr>"
  define r5 where "r5 = set_rpc 0 (Updating ''h'' ''1'' (sample_ep ''A'') 0) (r4\<lparr>shared := wa\<rparr>)"
  define wb where "wb = wa\<lparr>resolve_q := []\<rparr>"
  define r6 where "r6 = set_rpc 1 (Updating ''h'' ''1'' (sample_ep ''B'') 0) (r5\<lparr>shared := wb\<rparr>)"
  define r7 where "r7 = set_rpc 1 (Answered ''h'' ''1'' (sample_ep ''B'') 0)
    (r6\<lparr>shared := update_cache ''h'' ''1'' (sample_ep ''B'') 0 (shared r6)\<rparr>)"
  define r8 where "r8 = set_rpc 0 (Answered ''h'' ''1'' (sample_ep ''A'') 0)
    (r7\<lparr>shared := update_cache ''h'' ''1'' (sample_ep ''A'') 0 (shared r7)\<rparr>)"
  have w: "shared r0 = ?w\<lparr>dns_cache := Map.empty\<rparr>" "shared r4 = shared r0" "lookup_cache ''h'' ''1'' (shared r1) = None"
    "lookup_cache ''h'' ''1'' (shared r2) = None" "lookup_cache ''h'' ''1'' (shared r3) = None"
    by (simp_all add: r0_def r1_def r2_def r3_def r4_def resolver_start_def lookup_cache_def)
  have d: "do_resolve ''h'' ''1'' ?e (shared r4) = (sample_ep ''A'', 0, wa)"
    "do_resolve ''h'' ''1'' ?e (shared r5) = (sample_ep ''B'', 0, wb)"
    by (simp_all add: knows_h_def c_str_def do_resolve_def resolve_host_def sys_getaddrinfo_def w wa_def wb_def r5_def Let_def)
  have p: "rpcs r0 t = Outside" "rpcs r2 0 = Looking ''h'' ''1'' ?e" "rpcs r3 1 = Looking ''h'' ''1'' ?e"
    "rpcs r4 0 = Resolving ''h'' ''1'' ?e" "rpcs r5 1 = Resolving ''h'' ''1'' ?e"
    "rpcs r6 1 = Updating ''h'' ''1'' (sample_ep ''B'') 0" "rpcs r7 0 = Updating ''h'' ''1'' (sample_ep ''A'') 0" for t
    by (simp_all add: r0_def r1_def r2_def r3_def r4_def r5_def r6_def r7_def resolver_start_def)
  have "resolver_step r0 r1" unfolding r1_def by (rule resolver_step.call) (simp add: p)
  moreover have "resolver_step r1 r2" unfolding r2_def by (rule resolver_step.call) (simp add: r1_def p)
  moreover have "resolver_step r2 r3" unfolding r3_def by (rule resolver_step.miss) (rule p, rule w)
  moreover have "resolver_step r3 r4" unfolding r4_def by (rule resolver_step.miss) (rule p, rule w)
  moreover have "resolver_step r4 r5" unfolding r5_def by (rule resolver_step.ask) (rule p, rule d)
  moreover have "resolver_step r5 r6" unfolding r6_def by (rule resolver_step.ask) (rule p, rule d)
  moreover have "resolver_step r6 r7" unfolding r7_def by (rule resolver_step.update) (rule p)
  moreover have "resolver_step r7 r8" unfolding r8_def by (rule resolver_step.update) (rule p)
  ultimately have s: "resolver_steps (resolver_start ?w) r8"
    unfolding r0_def [symmetric] by (meson resolver_steps_step resolver_steps_refl)
  have a: "rpcs r8 0 = Answered ''h'' ''1'' (sample_ep ''A'') 0" "rpcs r8 1 = Answered ''h'' ''1'' (sample_ep ''B'') 0"
    "dns_cache (shared r8) (''h'', ''1'') = Some (sample_ep ''A'', 0)"
    by (simp_all add: r8_def r7_def update_cache_def)
  from resolver_shared [OF s] a(2) have "answered ?w (''h'', ''1'') (sample_ep ''B'', 0)" by blast
  with s a show ?thesis by blast
qed

end
