(* ===== verification/Session.thy ===== *)
theory Session
  imports Redis2_Methods
begin

text \<open>
  A session of a client with a server that keeps a map from keys to values.  The server is a
  parameter: a step function on states of any type, of which only the documented answers to six
  commands on string values are assumed (\<open>conforms\<close>).  The session refines the map: the results the
  methods of \<open>Redis2\<close> return are those of the operations on the map, in order.

  Values are not empty: the client refuses an empty bulk.
\<close>

section \<open>Operations, their requests and the map\<close>

datatype kv_op =
    Set string string
  | Get string
  | Getset string string
  | Del string
  | Exists string
  | Setnx string string

datatype kv_result = Stored | Value "string option" | Count int | Failed

text \<open>The calls of the client, their results in one type.\<close>

fun status_value :: "bool \<Rightarrow> kv_result" where
  "status_value ok = (if ok then Stored else Failed)"

fun int_value :: "bool \<times> int ptr \<Rightarrow> kv_result" where
  "int_value (True, Some i) = Count i"
| "int_value _ = Failed"

fun bulk_value :: "bool \<times> string ptr \<times> bool ptr \<Rightarrow> kv_result" where
  "bulk_value (ok, v, is_nil) = (if ok then Value (if is_nil = Some True then None else v) else Failed)"

definition with_result :: "('a \<Rightarrow> 'b) \<Rightarrow> 'a client_call \<Rightarrow> 'b client_call" where
  "with_result f m r w = do { (x, r, w) \<leftarrow> m r w; Some (f x, r, w) }"

fun kv_call :: "kv_op \<Rightarrow> kv_result client_call" where
  "kv_call (Set k v) = with_result status_value (Redis2_set k v)"
| "kv_call (Get k) = with_result bulk_value (Redis2_get k (Some []) (Some False))"
| "kv_call (Getset k v) = with_result bulk_value (Redis2_getset k v (Some []) (Some False))"
| "kv_call (Del k) = with_result int_value (Redis2_del k (Some 0))"
| "kv_call (Exists k) = with_result int_value (Redis2_exists k (Some 0))"
| "kv_call (Setnx k v) = with_result int_value (Redis2_setnx k v (Some 0))"

fun session :: "kv_op list \<Rightarrow> kv_result list client_call" where
  "session [] r w = Some ([], r, w)"
| "session (op # ops) r w = do {
     (x, r, w) \<leftarrow> kv_call op r w;
     (xs, r, w) \<leftarrow> session ops r w;
     Some (x # xs, r, w)
   }"

text \<open>The specification.\<close>

fun kv_step :: "kv_op \<Rightarrow> (string \<rightharpoonup> string) \<Rightarrow> kv_result \<times> (string \<rightharpoonup> string)" where
  "kv_step (Set k v) m = (Stored, m(k \<mapsto> v))"
| "kv_step (Get k) m = (Value (m k), m)"
| "kv_step (Getset k v) m = (Value (m k), m(k \<mapsto> v))"
| "kv_step (Del k) m = (Count (if m k = None then 0 else 1), m(k := None))"
| "kv_step (Exists k) m = (Count (if m k = None then 0 else 1), m)"
| "kv_step (Setnx k v) m = (if m k = None then (Count 1, m(k \<mapsto> v)) else (Count 0, m))"

fun kv_steps :: "kv_op list \<Rightarrow> (string \<rightharpoonup> string) \<Rightarrow> kv_result list \<times> (string \<rightharpoonup> string)" where
  "kv_steps [] m = ([], m)"
| "kv_steps (op # ops) m =
     (let (x, m) = kv_step op m; (xs, m) = kv_steps ops m in (x # xs, m))"

section \<open>The server\<close>

fun kv_name :: "kv_op \<Rightarrow> string" where
  "kv_name (Set k v) = ''SET''"
| "kv_name (Get k) = ''GET''"
| "kv_name (Getset k v) = ''GETSET''"
| "kv_name (Del k) = ''DEL''"
| "kv_name (Exists k) = ''EXISTS''"
| "kv_name (Setnx k v) = ''SETNX''"

fun kv_args :: "kv_op \<Rightarrow> string list" where
  "kv_args (Set k v) = [k, v]"
| "kv_args (Get k) = [k]"
| "kv_args (Getset k v) = [k, v]"
| "kv_args (Del k) = [k]"
| "kv_args (Exists k) = [k]"
| "kv_args (Setnx k v) = [k, v]"

fun kv_reply :: "kv_result \<Rightarrow> reply" where
  "kv_reply Stored = RStatus ''OK''"
| "kv_reply (Value v) = RBulk v"
| "kv_reply (Count i) = RInteger i"
| "kv_reply Failed = RError ''ERR''"

text \<open>\<open>srv\<close> takes a request, as the words that were sent, to the next state and the reply; \<open>view\<close> is the
  map in its state.\<close>

definition conforms :: "('s \<Rightarrow> string list \<Rightarrow> 's \<times> reply) \<Rightarrow> ('s \<Rightarrow> (string \<rightharpoonup> string)) \<Rightarrow> bool" where
  "conforms srv view \<longleftrightarrow>
     (\<forall>s op. snd (srv s (kv_name op # kv_args op)) = kv_reply (fst (kv_step op (view s)))
       \<and> view (fst (srv s (kv_name op # kv_args op))) = snd (kv_step op (view s)))"

fun serve :: "('s \<Rightarrow> string list \<Rightarrow> 's \<times> reply) \<Rightarrow> kv_op list \<Rightarrow> 's \<Rightarrow> reply list \<times> 's" where
  "serve srv [] s = ([], s)"
| "serve srv (op # ops) s =
     (let (s, rp) = srv s (kv_name op # kv_args op); (rps, s) = serve srv ops s in (rp # rps, s))"

section \<open>One call\<close>

lemma served_with: "served m name as rp res \<Longrightarrow> served (with_result f m) name as rp (f res)"
  unfolding served_def with_result_def by fastforce

lemma served_results:
  "served m name as rp True \<Longrightarrow> served (with_result status_value m) name as rp Stored"
  "served mi name as rp (True, Some i) \<Longrightarrow> served (with_result int_value mi) name as rp (Count i)"
  "served mb name as rp (True, Some s, Some False) \<Longrightarrow> served (with_result bulk_value mb) name as rp (Value (Some s))"
  "served mb name as rp (True, v, Some True) \<Longrightarrow> served (with_result bulk_value mb) name as rp (Value None)"
  using served_with [of m name as rp True status_value] served_with [of mi name as rp "(True, Some i)" int_value]
    served_with [of mb name as rp "(True, Some s, Some False)" bulk_value]
    served_with [of mb name as rp "(True, v, Some True)" bulk_value]
  by simp_all

text \<open>The map holds no empty values, and none is stored.\<close>

definition kv_ok :: "kv_op \<Rightarrow> bool" where
  "kv_ok op \<longleftrightarrow> small (kv_name op # kv_args op)
     \<and> (case op of Set k v \<Rightarrow> v \<noteq> [] | Getset k v \<Rightarrow> v \<noteq> [] | Setnx k v \<Rightarrow> v \<noteq> [] | _ \<Rightarrow> True)"

lemma kv_step_values: "kv_ok op \<Longrightarrow> [] \<notin> ran m \<Longrightarrow> [] \<notin> ran (snd (kv_step op m))"
  by (cases op) (auto simp: kv_ok_def ran_def split: if_splits)

lemma kv_call_served:
  assumes "[] \<notin> ran m"
  shows "served (kv_call op) (kv_name op) (kv_args op) (kv_reply (fst (kv_step op m))) (fst (kv_step op m))"
proof -
  have b: "LONG_MIN \<le> 0" "LONG_MIN \<le> 1" "0 \<le> LONG_MAX" "1 \<le> LONG_MAX" by (simp_all add: LONG_MIN_def LONG_MAX_def)
  have ne: "m k = Some s \<Longrightarrow> s \<noteq> []" for k s using assms by (auto simp: ran_def)
  show ?thesis
  proof (cases op)
    case (Set k v)
    have "served (Redis2_set k v) ''SET'' [k, v] (RStatus ''OK'') True"
      unfolding Redis2_set_def by (rule served_status) (simp add: method_simps)
    with Set show ?thesis by (simp add: served_results)
  next
    case (Get k)
    have "served (with_result bulk_value (Redis2_get k (Some []) (Some False))) ''GET'' [k] (RBulk (m k)) (Value (m k))"
      unfolding Redis2_get_def using ne [of k]
      by (cases "m k") (auto intro!: served_results served_bulk served_nil simp: method_simps)
    with Get show ?thesis by simp
  next
    case (Getset k v)
    have "served (with_result bulk_value (Redis2_getset k v (Some []) (Some False))) ''GETSET'' [k, v] (RBulk (m k)) (Value (m k))"
      unfolding Redis2_getset_def using ne [of k]
      by (cases "m k") (auto intro!: served_results served_bulk served_nil simp: method_simps)
    with Getset show ?thesis by simp
  next
    case (Del k)
    then show ?thesis
      using b by (auto simp: Redis2_del_def method_simps intro!: served_results served_integer)
  next
    case (Exists k)
    then show ?thesis
      using b by (auto simp: Redis2_exists_def method_simps intro!: served_results served_integer)
  next
    case (Setnx k v)
    then show ?thesis
      using b by (auto simp: Redis2_setnx_def method_simps intro!: served_results served_integer)
  qed
qed

section \<open>The session\<close>

lemma kv_names: "kv_name op \<noteq> ''MULTI''"
  by (cases op) auto

lemma session_served:
  assumes "conforms srv view" "list_all kv_ok ops" "[] \<notin> ran (view s)"
    and "client_ready r w" "\<not> transaction_mode (proto r)"
    and "proto_stream (proto r) w = concat (map encode (fst (serve srv ops s))) @ rest"
  shows "\<exists>p' w'. session ops r w = Some (fst (kv_steps ops (view s)), r\<lparr>proto := p'\<rparr>, w')
     \<and> client_ready (r\<lparr>proto := p'\<rparr>) w' \<and> \<not> transaction_mode p' \<and> proto_stream p' w' = rest
     \<and> sent w' = sent w @ concat (map (\<lambda>op. wire (kv_name op # kv_args op)) ops)
     \<and> view (snd (serve srv ops s)) = snd (kv_steps ops (view s))"
  using assms
proof (induction ops arbitrary: s r w)
  case (Cons op ops)
  let ?m = "view s" and ?ws = "kv_name op # kv_args op"
  obtain s1 rp where srv: "srv s ?ws = (s1, rp)" by fastforce
  have rp: "rp = kv_reply (fst (kv_step op ?m))" and v1: "view s1 = snd (kv_step op ?m)"
    using Cons.prems(1) [unfolded conforms_def, rule_format, of s op] srv by simp_all
  have st: "proto_stream (proto r) w = encode rp @ concat (map encode (fst (serve srv ops s1))) @ rest"
    using Cons.prems(6) srv by (simp add: case_prod_beta)
  have ok: "kv_ok op" "small ?ws" using Cons.prems(2) by (simp_all add: kv_ok_def)
  from kv_call_served [OF Cons.prems(3), of op] Cons.prems(4,5) ok(2) st kv_names [of op]
  obtain p1 w1 where 1: "kv_call op r w = Some (fst (kv_step op ?m), r\<lparr>proto := p1\<rparr>, w1)"
    "client_ready (r\<lparr>proto := p1\<rparr>) w1" "sent w1 = sent w @ wire ?ws" "\<not> transaction_mode p1"
    "proto_stream p1 w1 = concat (map encode (fst (serve srv ops s1))) @ rest"
    unfolding served_def rp by blast
  have "list_all kv_ok ops" "[] \<notin> ran (view s1)" "\<not> transaction_mode (proto (r\<lparr>proto := p1\<rparr>))"
    "proto_stream (proto (r\<lparr>proto := p1\<rparr>)) w1 = concat (map encode (fst (serve srv ops s1))) @ rest"
    using Cons.prems(2,3) kv_step_values [OF ok(1), of ?m] 1(4,5) v1 by simp_all
  from Cons.IH [OF Cons.prems(1) this(1,2) 1(2) this(3,4)] obtain p2 w2 where
    2: "session ops (r\<lparr>proto := p1\<rparr>) w1 = Some (fst (kv_steps ops (view s1)), r\<lparr>proto := p2\<rparr>, w2)"
      "client_ready (r\<lparr>proto := p2\<rparr>) w2" "\<not> transaction_mode p2" "proto_stream p2 w2 = rest"
      "sent w2 = sent w1 @ concat (map (\<lambda>op. wire (kv_name op # kv_args op)) ops)"
      "view (snd (serve srv ops s1)) = snd (kv_steps ops (view s1))" by auto
  then show ?case using 1(1,3) srv v1 by (auto simp: case_prod_beta)
next
  case (Nil s r w)
  then show ?case by (intro exI [of _ "proto r"] exI [of _ w]) simp
qed

text \<open>C4: a session refines a map.  Let a server answer as documented, \<open>SET\<close>, \<open>GET\<close>, \<open>GETSET\<close>, \<open>DEL\<close>,
  \<open>EXISTS\<close> and \<open>SETNX\<close> of a map in its state, all of whose values are not empty; let the values the calls
  store be not empty and their requests below \<open>2^31\<close> bytes (\<open>kv_ok\<close>).  Let the stream of a ready client
  that is in no transaction carry the server's answers to the requests of a sequence of calls.  Then every
  call returns what the operation on the map returns, the client has sent exactly these requests
  in order and consumed exactly the answers, and the server ends with the map after the operations.
  (With an empty value in the map \<open>GET\<close> fails and closes the connection.)\<close>

theorem session_is_map:
  assumes "conforms srv view" "list_all kv_ok ops" "[] \<notin> ran (view s)"
    and "client_ready r w" "\<not> transaction_mode (proto r)"
    and "proto_stream (proto r) w = concat (map encode (fst (serve srv ops s))) @ rest"
  shows "\<exists>p' w'. session ops r w = Some (fst (kv_steps ops (view s)), r\<lparr>proto := p'\<rparr>, w')
     \<and> client_ready (r\<lparr>proto := p'\<rparr>) w' \<and> proto_stream p' w' = rest
     \<and> sent w' = sent w @ concat (map (\<lambda>op. wire (kv_name op # kv_args op)) ops)
     \<and> view (snd (serve srv ops s)) = snd (kv_steps ops (view s))"
  using session_served [OF assms] by blast

text \<open>A server that is the map.\<close>

fun map_server :: "(string \<rightharpoonup> string) \<Rightarrow> string list \<Rightarrow> (string \<rightharpoonup> string) \<times> reply" where
  "map_server m [name, k] =
     (if name = ''GET'' then (m, RBulk (m k))
      else if name = ''DEL'' then (m(k := None), RInteger (if m k = None then 0 else 1))
      else if name = ''EXISTS'' then (m, RInteger (if m k = None then 0 else 1))
      else (m, RError ''ERR''))"
| "map_server m [name, k, v] =
     (if name = ''SET'' then (m(k \<mapsto> v), RStatus ''OK'')
      else if name = ''GETSET'' then (m(k \<mapsto> v), RBulk (m k))
      else if name = ''SETNX'' then (if m k = None then (m(k \<mapsto> v), RInteger 1) else (m, RInteger 0))
      else (m, RError ''ERR''))"
| "map_server m _ = (m, RError ''ERR'')"

lemma map_server_conforms: "conforms map_server (\<lambda>m. m)"
  unfolding conforms_def
proof (intro allI)
  fix m op
  show "snd (map_server m (kv_name op # kv_args op)) = kv_reply (fst (kv_step op m))
      \<and> fst (map_server m (kv_name op # kv_args op)) = snd (kv_step op m)"
    by (cases op) simp_all
qed

theorem session_is_map_witness:
  "\<exists>r' w'. session [Set ''k'' ''v'', Get ''k'', Del ''k'', Get ''k''] sample_client
       (sample_world [''+OK'' @ CRLF @ ''$1'', CRLF @ ''v'' @ CRLF, '':1'' @ CRLF @ ''$-1'' @ CRLF])
     = Some ([Stored, Value (Some ''v''), Count 1, Value None], r', w') \<and> proto_stream (proto r') w' = []"
proof -
  let ?ops = "[Set ''k'' ''v'', Get ''k'', Del ''k'', Get ''k'']"
  let ?chunks = "[''+OK'' @ CRLF @ ''$1'', CRLF @ ''v'' @ CRLF, '':1'' @ CRLF @ ''$-1'' @ CRLF]"
  have ok: "list_all kv_ok ?ops" by (simp add: kv_ok_def small_simps)
  have ne: "[] \<notin> ran (Map.empty :: string \<rightharpoonup> string)" by simp
  have r: "client_ready sample_client (sample_world ?chunks)" "\<not> transaction_mode (proto sample_client)"
    by (simp_all add: sample_client_ready)
  have e: "encode (RStatus ''OK'') @ encode (RBulk (Some ''v'')) @ encode (RInteger 1) @ encode (RBulk None)
      = concat ?chunks" by code_simp
  have st: "proto_stream (proto sample_client) (sample_world ?chunks)
      = concat (map encode (fst (serve map_server ?ops Map.empty))) @ []"
    using sample_stream [of ?chunks] e by simp
  from session_is_map [OF map_server_conforms ok ne r st] show ?thesis by auto
qed

end
