(* ===== verification/Client_Properties.thy ===== *)
theory Client_Properties
  imports Sample Redis2_Inv
begin

text \<open>
  The properties of the client for one server that go beyond a single exchange: the database is
  selected again after a reconnection, whole transactions, blocking commands, and the checks of
  the output parameters.
\<close>

section \<open>The database\<close>

text \<open>C11: after a reconnection the client is on its database again before any other command: if the
  connection has to be made anew and the client uses a database other than 0, \<open>assure_connect\<close>
  sends \<open>SELECT\<close> as the first request on the new connection, and forgets the commands queued in a
  transaction on the old one.\<close>

theorem reconnect_selects_database:
  assumes "proto_is_open (proto r) w = (False, p1, w1)" "proto_connect p1 w1 = (True, p2, w2)"
    and "db_index r \<noteq> 0" "line_ready p2 w2" "\<not> transaction_mode p2"
    and "proto_stream p2 w2 = encode (RStatus ''OK'') @ rest" "small [''SELECT'', show_int (db_index r)]"
  shows "\<exists>p' w'. assure_connect r w
      = Some (True, r\<lparr>proto := p', db_index_select_failure := False, transaction_cmds := []\<rparr>, w')
    \<and> sent w' = sent w2 @ wire [''SELECT'', show_int (db_index r)]
    \<and> proto_stream p' w' = rest \<and> line_ready p' w'"
  using assms by (rule assure_connect_reselects)

text \<open>A world in which the next connection succeeds, and what connecting gives there.\<close>

definition connectable :: "world \<Rightarrow> world" where
  "connectable w = w\<lparr>resolve_q := [\<lambda>host service hints. Resolved 2 ''addr''], socket_q := [Ret 3], connect_q := [Ret 0], clock := 990\<rparr>"

lemma connectable_connect:
  assumes "dns_cache w = Map.empty" "time_q w = []" "fcntl_q w = []" "polls_ready w" "sends_ready w" "errno_clean w"
    "length (recv_stream (recv_q w)) < 2 ^ 31"
  shows "\<exists>w'. proto_connect (new_RedisProtocol h q t) (connectable w) = (True, (new_RedisProtocol h q t)
      \<lparr>tcp_client := \<lparr>fd = 3, tbuf = clear_buffer new_buffer, last_check_open_time = 990\<rparr>\<rparr>, w')
    \<and> sent w' = sent w \<and> recv_q w' = recv_q w \<and> line_ready ((new_RedisProtocol h q t)
      \<lparr>tcp_client := \<lparr>fd = 3, tbuf = clear_buffer new_buffer, last_check_open_time = 990\<rparr>\<rparr>) w'"
  using assms
  by (simp add: proto_connect_def TcpClient_connect_def new_RedisProtocol_def new_TcpClient_def TcpClient_close_def
      connectable_def resolve_def lookup_cache_def do_resolve_def resolve_host_def sys_getaddrinfo_def
      update_cache_def sys_socket_def timed_connect_def set_nonblock_def sys_fcntl_def retry_connect.simps
      sys_connect_def sys_time_def Let_def line_ready_def proto_ready_def tcp_ready_def tcp_inv_def
      clear_buffer_inv polls_ready_def sends_ready_def errno_clean_def conn_fresh_def tcp_stream_def)

theorem reconnect_selects_database_witness:
  "\<exists>r' w'. assure_connect (new_Redis2 ''localhost'' ''6379'' 2 50) (connectable (sample_world [''+OK'', CRLF]))
     = Some (True, r', w') \<and> sent w' = wire [''SELECT'', ''2''] \<and> \<not> db_index_select_failure r'"
proof -
  let ?r = "new_Redis2 ''localhost'' ''6379'' 2 50" and ?w = "sample_world [''+OK'', CRLF]"
  let ?p = "new_RedisProtocol ''localhost'' ''6379'' 50"
  let ?p2 = "?p\<lparr>tcp_client := \<lparr>fd = 3, tbuf = clear_buffer new_buffer, last_check_open_time = 990\<rparr>\<rparr>"
  have "polls_ready ?w" "sends_ready ?w" "errno_clean ?w" "length (recv_stream (recv_q ?w)) < 2 ^ 31"
    "dns_cache ?w = Map.empty" "time_q ?w = []" "fcntl_q ?w = []"
    by (simp_all add: sample_world_def polls_ready_def sends_ready_def send_ok_def errno_clean_def)
  from connectable_connect [OF this(5-7,1-4), of "''localhost''" "''6379''" 50] obtain w2 where
    2: "proto_connect ?p (connectable ?w) = (True, ?p2, w2)" "sent w2 = sent ?w" "recv_q w2 = recv_q ?w"
      "line_ready ?p2 w2" by blast
  have o: "proto_is_open (proto ?r) (connectable ?w) = (False, ?p, connectable ?w)"
    by (simp add: new_Redis2_def new_RedisProtocol_def new_TcpClient_def proto_is_open_def TcpClient_is_open_def is_open_fast_def)
  have d: "db_index ?r = 2" "\<not> transaction_mode ?p2" by (simp_all add: new_Redis2_def new_RedisProtocol_def)
  have sh: "show_int 2 = ''2''" by code_simp
  have sm: "small [''SELECT'', show_int 2]"
    unfolding sh by (simp add: small_def wire_def bulk_text_def s_redis_line_end_def show_nat.simps)
  have st: "proto_stream ?p2 w2 = encode (RStatus ''OK'') @ []"
    using 2(3) by (simp add: tcp_stream_def sample_world_def)
  from reconnect_selects_database [OF o 2(1) _ 2(4) d(2) st] sm 2(2) show ?thesis
    by (auto simp: d sh sample_world_def)
qed

text \<open>A command is sent only on the client's database: when \<open>assure_connect\<close> succeeds, the
  client uses database 0 or the selection of its database has been confirmed; and a successful
  \<open>select\<close> makes the index the client's database.\<close>

lemma database_selected:
  "whenever (assure_connect r w) (\<lambda>(ok, r', w'). ok \<longrightarrow> db_index r' = 0 \<or> \<not> db_index_select_failure r')
   \<and> whenever (Redis2_select n r w) (\<lambda>(ok, r', w'). ok \<longrightarrow> db_index r' = n \<and> \<not> db_index_select_failure r')"
  using assure_connect_selected select_db by blast

section \<open>Transactions\<close>

text \<open>The calls of \<open>add_command\<close> between \<open>multi\<close> and \<open>exec\<close>; the results of the calls are ignored.\<close>

fun add_all :: "RedisCommand list \<Rightarrow> Redis2 \<Rightarrow> world \<Rightarrow> (Redis2 \<times> world) option" where
  "add_all [] r w = Some (r, w)"
| "add_all (c # cs) r w = do { (_, r, w) \<leftarrow> add_command (Some c) r w; add_all cs r w }"

definition queueable :: "RedisCommand \<Rightarrow> bool" where
  "queueable c \<longleftrightarrow> sendable c \<and> in_command (cmd_in c) \<notin> {MULTI, DISCARD, EXEC}"

lemma swap_fresh: "swap_command (new_command cmd) c = (c, new_command cmd)"
  by (cases c) (simp add: swap_command_def new_command_def)

lemma add_command_queued:
  assumes l: "line_ready (proto r) w" "transaction_mode (proto r)" and q: "queueable c"
    and st: "proto_stream (proto r) w = encode (RStatus ''QUEUED'') @ rest"
  shows "\<exists>p' w'. add_command (Some c) r w = Some ((False, Some (new_command NOOP)),
      r\<lparr>proto := p', transaction_cmds := transaction_cmds r @ [c\<lparr>cmd_out := RedisOutput kStatus (StatusPtr ''QUEUED'')\<rparr>]\<rparr>, w')
    \<and> line_ready p' w' \<and> transaction_mode p' \<and> proto_stream p' w' = rest \<and> sent w' = sent w @ request_text (cmd_in c)"
proof -
  have f: "fits c (proto r) (RStatus ''QUEUED'')" "answer_mode c (proto r) (RStatus ''QUEUED'')"
    using q l(2) by (auto simp: queueable_def expects_code expected_type_def mode_after_status_def)
  from q have "sendable c" by (simp add: queueable_def)
  from run_command_answer [OF l(1) this st f(1)] f(2) obtain p' w' where
    1: "run_command c r w = Some ((True, c\<lparr>cmd_out := RedisOutput kStatus (StatusPtr ''QUEUED'')\<rparr>), r\<lparr>proto := p'\<rparr>, w')"
      "line_ready p' w'" "proto_stream p' w' = rest" "sent w' = sent w @ request_text (cmd_in c)" "transaction_mode p'"
    by auto
  have "Redis2_check_connect r w = (True, r, w)"
    using proto_is_open_ready [OF l(1)] by (simp add: Redis2_check_connect_def check_connect_def)
  with 1 show ?thesis by (auto simp: add_command_def swap_fresh)
qed

lemma add_all_queued:
  assumes "line_ready (proto r) w" "transaction_mode (proto r)" "list_all queueable cs"
    and "proto_stream (proto r) w = concat (map (\<lambda>_. encode (RStatus ''QUEUED'')) cs) @ rest"
  shows "\<exists>p' w'. add_all cs r w = Some (r\<lparr>proto := p', transaction_cmds := transaction_cmds r
        @ map (\<lambda>c. c\<lparr>cmd_out := RedisOutput kStatus (StatusPtr ''QUEUED'')\<rparr>) cs\<rparr>, w')
    \<and> line_ready p' w' \<and> proto_stream p' w' = rest
    \<and> sent w' = sent w @ concat (map (\<lambda>c. request_text (cmd_in c)) cs)"
  using assms
proof (induction cs arbitrary: r w)
  case Nil
  then show ?case by (intro exI [of _ "proto r"] exI [of _ w]) simp
next
  case (Cons c cs)
  then have "queueable c" "proto_stream (proto r) w
      = encode (RStatus ''QUEUED'') @ concat (map (\<lambda>_. encode (RStatus ''QUEUED'')) cs) @ rest" by simp_all
  from add_command_queued [OF Cons.prems(1,2) this] obtain p1 w1 where
    1: "add_command (Some c) r w = Some ((False, Some (new_command NOOP)),
      r\<lparr>proto := p1, transaction_cmds := transaction_cmds r @ [c\<lparr>cmd_out := RedisOutput kStatus (StatusPtr ''QUEUED'')\<rparr>]\<rparr>, w1)"
      "line_ready p1 w1" "transaction_mode p1" "proto_stream p1 w1 = concat (map (\<lambda>_. encode (RStatus ''QUEUED'')) cs) @ rest"
      "sent w1 = sent w @ request_text (cmd_in c)" by blast
  let ?r1 = "r\<lparr>proto := p1, transaction_cmds := transaction_cmds r @ [c\<lparr>cmd_out := RedisOutput kStatus (StatusPtr ''QUEUED'')\<rparr>]\<rparr>"
  from Cons.IH [of ?r1 w1] 1 Cons.prems(3) show ?case by auto
qed

text \<open>C8: a whole transaction in which every queued command succeeds.  \<open>multi\<close>, any number of
  \<open>add_command\<close> and \<open>exec\<close> on a ready client whose queue is empty, where the server answers \<open>+OK\<close>, \<open>+QUEUED\<close> to
  every command, and a multi-bulk of as many results as commands, none of which is or contains an
  error or an empty bulk (\<open>reply_ok\<close>), send \<open>MULTI\<close>, the queued requests and \<open>EXEC\<close> in this order; \<open>exec\<close>
  returns the queued commands in their order, each holding the server's result for it (a multi-bulk of
  plain bulks as a multi-bulk), the queue is empty again and the transaction mode is off.  The
  commands are \<open>queueable\<close> (sendable, not themselves \<open>MULTI\<close>, \<open>DISCARD\<close> or \<open>EXEC\<close>).  An error
  among the results is not covered: the code then stops in the middle of the reply.\<close>

theorem transaction_runs:
  assumes "client_ready r w" "\<not> transaction_mode (proto r)" "transaction_cmds r = []" "list_all queueable cs"
    and "proto_stream (proto r) w = encode (RStatus ''OK'') @ concat (map (\<lambda>_. encode (RStatus ''QUEUED'')) cs)
      @ encode (RMulti (Some rs)) @ rest"
    and "list_all reply_ok rs" "length rs = length cs"
  shows "\<exists>p' w'. do { (_, r, w) \<leftarrow> Redis2_multi r w; (r, w) \<leftarrow> add_all cs r w; Redis2_exec (Some []) r w }
      = Some ((True, Some (map2 (\<lambda>o1 c. c\<lparr>cmd_out := delivered o1\<rparr>) rs cs)), r\<lparr>proto := p'\<rparr>, w')
    \<and> sent w' = sent w @ wire [''MULTI''] @ concat (map (\<lambda>c. request_text (cmd_in c)) cs) @ wire [''EXEC'']
    \<and> \<not> transaction_mode p' \<and> line_ready p' w' \<and> proto_stream p' w' = rest"
proof -
  let ?c = "command_with MULTI []"
  have row: "s_command_map ! cmd_ord MULTI = info MULTI ''MULTI'' 0 kStatus" by (simp add: s_command_map_def)
  have b: "builds ?c ''MULTI'' [] kStatus" using row by (simp add: builds_def command_with_in push_simps argc_fits_def)
  have sm: "small [''MULTI'']" by (simp add: small_def wire_def bulk_text_def s_redis_line_end_def show_nat.simps)
  have f: "fits ?c (proto r) (RStatus ''OK'')" "answer_mode ?c (proto r) (RStatus ''OK'')"
    using b assms(2) by (auto simp: builds_def expects_code expected_type_def mode_after_status_def command_with_in push_simps)
  note sd = builds_sendable [OF b sm]
  from connected_run_answer [OF assms(1) sd(1) assms(5) f(1), of False CHECK_STATUS_OK] obtain p1 w1 where
    c: "connected_run ?c False CHECK_STATUS_OK r w
        = CHECK_STATUS_OK (?c\<lparr>cmd_out := answer ?c (proto r) (RStatus ''OK'')\<rparr>) (r\<lparr>proto := p1\<rparr>) w1"
      "client_ready (r\<lparr>proto := p1\<rparr>) w1"
      "proto_stream p1 w1 = concat (map (\<lambda>_. encode (RStatus ''QUEUED'')) cs) @ encode (RMulti (Some rs)) @ rest"
      "sent w1 = sent w @ request_text (cmd_in ?c)" "transaction_mode p1 = answer_mode ?c (proto r) (RStatus ''OK'')" .
  have 1: "Redis2_multi r w = Some (True, r\<lparr>proto := p1\<rparr>, w1)" "line_ready p1 w1" "transaction_mode p1"
    "sent w1 = sent w @ wire [''MULTI'']"
    using c(1,2,4,5) f(2) by (auto simp: Redis2_multi_def status_command_def CHECK_STATUS_OK_def is_status_ok_def
        sd(2) client_ready_def)
  let ?q = "map (\<lambda>c. c\<lparr>cmd_out := RedisOutput kStatus (StatusPtr ''QUEUED'')\<rparr>) cs"
  from add_all_queued [of "r\<lparr>proto := p1\<rparr>" w1 cs "encode (RMulti (Some rs)) @ rest"] 1 c(3) assms(3,4) obtain p2 w2 where
    2: "add_all cs (r\<lparr>proto := p1\<rparr>) w1 = Some (r\<lparr>proto := p2, transaction_cmds := ?q\<rparr>, w2)" "line_ready p2 w2"
      "proto_stream p2 w2 = encode (RMulti (Some rs)) @ rest" "sent w2 = sent w1 @ concat (map (\<lambda>c. request_text (cmd_in c)) cs)"
    by auto
  from exec_delivers [of "r\<lparr>proto := p2, transaction_cmds := ?q\<rparr>" w2 rs rest "[]"] 2 assms(6,7) obtain p3 w3 where
    3: "Redis2_exec (Some []) (r\<lparr>proto := p2, transaction_cmds := ?q\<rparr>) w2
        = Some ((True, Some (map2 (\<lambda>o1 c. c\<lparr>cmd_out := delivered o1\<rparr>) rs ?q)), r\<lparr>proto := p3, transaction_cmds := []\<rparr>, w3)"
      "sent w3 = sent w2 @ wire [''EXEC'']" "\<not> transaction_mode p3" "proto_stream p3 w3 = rest" "line_ready p3 w3" by auto
  have "map2 (\<lambda>o1 c. c\<lparr>cmd_out := delivered o1\<rparr>) rs ?q = map2 (\<lambda>o1 c. c\<lparr>cmd_out := delivered o1\<rparr>) rs cs"
    by (simp add: zip_map2 split_def)
  moreover have "r\<lparr>proto := p3, transaction_cmds := []\<rparr> = r\<lparr>proto := p3\<rparr>" using assms(3) by (cases r) simp
  ultimately show ?thesis using 1 2 3 by auto
qed

theorem transaction_runs_witness:
  "\<exists>p' w'. do { (_, r, w) \<leftarrow> Redis2_multi sample_client
        (sample_world [''+OK'' @ CRLF @ ''+QUEUED'' @ CRLF, ''*1'' @ CRLF @ '':3'' @ CRLF]);
      (r, w) \<leftarrow> add_all [new_command DBSIZE] r w; Redis2_exec (Some []) r w }
      = Some ((True, Some [(new_command DBSIZE)\<lparr>cmd_out := RedisOutput kInteger (IntPtr 3)\<rparr>]), sample_client\<lparr>proto := p'\<rparr>, w')"
proof -
  let ?ch = "[''+OK'' @ CRLF @ ''+QUEUED'' @ CRLF, ''*1'' @ CRLF @ '':3'' @ CRLF]"
  let ?cs = "[new_command DBSIZE]" and ?rs = "[RInteger 3]"
  have row: "s_command_map ! cmd_ord DBSIZE = info DBSIZE ''DBSIZE'' 0 kInteger" by (simp add: s_command_map_def)
  have r: "client_ready sample_client (sample_world ?ch)" by (rule sample_client_ready) simp_all
  have q: "list_all queueable ?cs"
    using row by (simp add: queueable_def sendable_def new_command_def new_input_def argc_fits_def
        request_text_def bulk_text_def s_redis_line_end_def int32_def show_int_def show_nat.simps)
  have "concat ?ch = encode (RStatus ''OK'') @ concat (map (\<lambda>_. encode (RStatus ''QUEUED'')) ?cs)
      @ encode (RMulti (Some ?rs)) @ []" by code_simp
  then have st: "proto_stream (proto sample_client) (sample_world ?ch) = encode (RStatus ''OK'')
      @ concat (map (\<lambda>_. encode (RStatus ''QUEUED'')) ?cs) @ encode (RMulti (Some ?rs)) @ []"
    by (simp only: sample_client_proto sample_proto_tcp, subst sample_stream) simp_all
  have m: "\<not> transaction_mode (proto sample_client)" "transaction_cmds sample_client = []"
    "list_all reply_ok ?rs" "length ?rs = length ?cs" by (simp_all add: LONG_MIN_def LONG_MAX_def)
  from transaction_runs [OF r m(1,2) q st m(3,4)] show ?thesis by auto
qed

text \<open>\<open>add_command\<close> never returns \<open>true\<close>.  On a working connection in a transaction the command is
  sent, the server's \<open>QUEUED\<close> is read and the command is moved into the queue, and the call returns
  \<open>false\<close> all the same; its variadic overload returns \<open>true\<close> then.\<close>

lemma add_command_returns_false:
  assumes "line_ready (proto r) w" "transaction_mode (proto r)" "queueable c"
    and "proto_stream (proto r) w = encode (RStatus ''QUEUED'') @ rest"
  shows "\<exists>r' w' c'. add_command (Some c) r w = Some ((False, c'), r', w')
    \<and> length (transaction_cmds r') = Suc (length (transaction_cmds r)) \<and> proto_stream (proto r') w' = rest"
  using add_command_queued [OF assms] by auto

lemma add_command_returns_false_witness:
  "\<exists>r' w' c'. add_command (Some (new_command DBSIZE)) (sample_client\<lparr>proto := sample_proto\<lparr>transaction_mode := True\<rparr>\<rparr>)
       (sample_world [''+QUEUED'' @ CRLF]) = Some ((False, c'), r', w') \<and> length (transaction_cmds r') = 1"
proof -
  let ?r = "sample_client\<lparr>proto := sample_proto\<lparr>transaction_mode := True\<rparr>\<rparr>" and ?w = "sample_world [''+QUEUED'' @ CRLF]"
  have row: "s_command_map ! cmd_ord DBSIZE = info DBSIZE ''DBSIZE'' 0 kInteger" by (simp add: s_command_map_def)
  have "line_ready sample_proto ?w" by (rule sample_line_ready) simp_all
  then have l: "line_ready (proto ?r) ?w" by (simp add: line_ready_def proto_ready_def conn_fresh_def)
  have q: "queueable (new_command DBSIZE)"
    using row by (simp add: queueable_def sendable_def new_command_def new_input_def argc_fits_def
        request_text_def bulk_text_def s_redis_line_end_def int32_def show_int_def show_nat.simps)
  have "tcp_stream sample_tcp ?w = concat [''+QUEUED'' @ CRLF]" by (rule sample_stream) simp
  then have st: "proto_stream (proto ?r) ?w = encode (RStatus ''QUEUED'') @ []" by simp
  from add_command_returns_false [OF l _ q st] show ?thesis by auto
qed

section \<open>Blocking commands and output parameters\<close>

text \<open>A blocking command switches the read timeout off only for itself: whatever the exchange does,
  success, error reply or broken connection, the blocking mode is afterwards what it was before.\<close>

lemma blocking_mode_restored:
  "whenever (blocking_run c r w) (\<lambda>(res, r', w'). blocking_mode (proto r') = blocking_mode (proto r))"
  by (rule blocking_run_restores)

text \<open>A null output parameter is refused before anything else happens: the call returns \<open>false\<close> with
  the error \<open>EINVAL\<close>, and neither the connection nor the world is touched.\<close>

lemma null_output_refused:
  "integer_command None c r w = Some ((False, None), last_error ''EINVAL'' r, w)
   \<and> bulk_command None nil c r w = Some ((False, None, nil), last_error ''EINVAL'' r, w)
   \<and> bulk_command (Some s) None c r w = Some ((False, Some s, None), last_error ''EINVAL'' r, w)
   \<and> bulk_command2 None c r w = Some ((False, None), last_error ''EINVAL'' r, w)
   \<and> mbulks_command None c r w = Some ((False, None), last_error ''EINVAL'' r, w)
   \<and> double_command None c r w = Some ((False, None), last_error ''EINVAL'' r, w)
   \<and> Redis2_exec None r w = Some ((False, None), last_error ''EINVAL'' r, w)"
  by (simp add: integer_command_def bulk_command_def bulk_command2_def mbulks_command_def double_command_def
      Redis2_exec_def CHECK_PTR_PARAM_def CHECK_EXPR_def)

end
