(* ===== verification/Redis_Base.thy ===== *)
theory Redis_Base
  imports Redis2 "HOL-Library.Char_ord" "HOL-Library.List_Lexorder"
begin

text \<open>
  \<open>src/src/redis_base.cpp\<close>: the old-style methods of \<open>RedisBase2\<close>, written over the virtual
  methods, and the host lists of \<open>RedisBase2Multi\<close>.  A virtual method is a parameter of the
  definition that calls it; it is instantiated with the methods of either client.  A variable
  that the source leaves uninitialised starts with an arbitrary content here (an extra
  parameter of the definition).

  A \<open>std::map\<close> is its list of pairs in ascending order of the keys.
\<close>

section \<open>Old-style methods\<close>

type_synonym ('s, 'r) base_call = "'s \<Rightarrow> world \<Rightarrow> ('r \<times> 's \<times> world) option"

definition Base_get ::
  "(string \<Rightarrow> string ptr \<Rightarrow> bool ptr \<Rightarrow> ('s, bool \<times> string ptr \<times> bool ptr) base_call)
   \<Rightarrow> bool \<Rightarrow> string \<Rightarrow> string ptr \<Rightarrow> ('s, int \<times> string ptr) base_call" where
  "Base_get get junk key val s w = do {
     ((ok, val, is_nil), s, w) \<leftarrow> get key val (Some junk) s w;
     Some ((if ok then (if is_nil = Some True then 0 else 1) else - 1, val), s, w)
   }"

definition Base_expire ::
  "(string \<Rightarrow> int \<Rightarrow> int ptr \<Rightarrow> ('s, bool \<times> int ptr) base_call)
   \<Rightarrow> int \<Rightarrow> string \<Rightarrow> int \<Rightarrow> ('s, int) base_call" where
  "Base_expire expire junk key seconds s w = do {
     ((ok, ret), s, w) \<leftarrow> expire key seconds (Some junk) s w;
     ret \<leftarrow> ret;
     Some (if ok then int32 ret else - 1, s, w)
   }"

text \<open>\<open>expireat\<close> has the same body over the virtual \<open>expireat\<close>.\<close>

definition Base_expireat ::
  "(string \<Rightarrow> int \<Rightarrow> int ptr \<Rightarrow> ('s, bool \<times> int ptr) base_call)
   \<Rightarrow> int \<Rightarrow> string \<Rightarrow> int \<Rightarrow> ('s, int) base_call" where
  "Base_expireat expireat junk key abs_seconds s w = do {
     ((ok, ret), s, w) \<leftarrow> expireat key abs_seconds (Some junk) s w;
     ret \<leftarrow> ret;
     Some (if ok then int32 ret else - 1, s, w)
   }"

text \<open>\<open>keys\<close> returns \<open>true\<close> whether or not the virtual method succeeded.\<close>

definition Base_keys ::
  "(string \<Rightarrow> 's \<Rightarrow> 's) \<Rightarrow> (string \<Rightarrow> mbulk ptr \<Rightarrow> ('s, bool \<times> mbulk ptr) base_call)
   \<Rightarrow> string \<Rightarrow> string list ptr \<Rightarrow> ('s, bool \<times> string list ptr) base_call" where
  "Base_keys lasterr keys pattern out s w =
     (if out = None then Some ((False, None), lasterr ''EINVAL'' s, w)
      else do {
        ((ok, ret), s, w) \<leftarrow> keys pattern (Some []) s w;
        Some ((True, if ok then snd (convert_mbulks ret out) else out), s, w)
      })"

definition Base_hget ::
  "(string \<Rightarrow> string \<Rightarrow> string ptr \<Rightarrow> bool ptr \<Rightarrow> ('s, bool \<times> string ptr \<times> bool ptr) base_call)
   \<Rightarrow> bool \<Rightarrow> string \<Rightarrow> string \<Rightarrow> string ptr \<Rightarrow> ('s, int \<times> string ptr) base_call" where
  "Base_hget hget junk key field val s w = do {
     ((ok, val, is_nil), s, w) \<leftarrow> hget key field val (Some junk) s w;
     Some ((if ok then (if is_nil = Some True then 0 else 1) else - 1, val), s, w)
   }"

definition Base_hset ::
  "(string \<Rightarrow> string \<Rightarrow> string \<Rightarrow> int ptr \<Rightarrow> ('s, bool \<times> int ptr) base_call)
   \<Rightarrow> int \<Rightarrow> string \<Rightarrow> string \<Rightarrow> string \<Rightarrow> ('s, bool) base_call" where
  "Base_hset hset junk key field val s w = do {
     ((ok, ret), s, w) \<leftarrow> hset key field val (Some junk) s w;
     Some (ok, s, w)
   }"

definition Base_hdel ::
  "(string \<Rightarrow> string \<Rightarrow> int ptr \<Rightarrow> ('s, bool \<times> int ptr) base_call)
   \<Rightarrow> int \<Rightarrow> string \<Rightarrow> string \<Rightarrow> ('s, int) base_call" where
  "Base_hdel hdel junk key field s w = do {
     ((ok, ret), s, w) \<leftarrow> hdel key field (Some junk) s w;
     ret \<leftarrow> ret;
     Some (if ok then int32 ret else - 1, s, w)
   }"

text \<open>The loop of \<open>hgetall\<close>: pairs of elements, both asserted not to be nil; an odd last element
  is dropped.\<close>

fun mbulk_pairs :: "mbulk \<Rightarrow> (string \<times> string) list option" where
  "mbulk_pairs (f # v # rest) = do {
     f \<leftarrow> f; v \<leftarrow> v; ps \<leftarrow> mbulk_pairs rest; Some ((f, v) # ps)
   }"
| "mbulk_pairs _ = Some []"

definition Base_hgetall_pairs ::
  "(string \<Rightarrow> 's \<Rightarrow> 's) \<Rightarrow> (string \<Rightarrow> mbulk ptr \<Rightarrow> ('s, bool \<times> mbulk ptr) base_call)
   \<Rightarrow> string \<Rightarrow> (string \<times> string) list ptr \<Rightarrow> ('s, bool \<times> (string \<times> string) list ptr) base_call" where
  "Base_hgetall_pairs lasterr hgetall key out s w =
     (case out of None \<Rightarrow> Some ((False, None), lasterr ''EINVAL'' s, w)
      | Some fvs \<Rightarrow> do {
          ((ok, ret), s, w) \<leftarrow> hgetall key (Some []) s w;
          if ok then do {
            ret \<leftarrow> ret; ps \<leftarrow> mbulk_pairs ret;
            Some ((True, Some (fvs @ ps)), s, w)
          }
          else Some ((False, Some fvs), s, w)
        })"

text \<open>\<open>std::map::insert\<close>: an existing key keeps its value.\<close>

fun map_insert :: "string \<Rightarrow> string \<Rightarrow> (string \<times> string) list \<Rightarrow> (string \<times> string) list" where
  "map_insert k v [] = [(k, v)]"
| "map_insert k v ((k', v') # m) =
     (if k = k' then (k', v') # m
      else if k < k' then (k, v) # (k', v') # m
      else (k', v') # map_insert k v m)"

definition Base_hgetall_map ::
  "(string \<Rightarrow> 's \<Rightarrow> 's) \<Rightarrow> (string \<Rightarrow> mbulk ptr \<Rightarrow> ('s, bool \<times> mbulk ptr) base_call)
   \<Rightarrow> string \<Rightarrow> (string \<times> string) list ptr \<Rightarrow> ('s, bool \<times> (string \<times> string) list ptr) base_call" where
  "Base_hgetall_map lasterr hgetall key out s w =
     (case out of None \<Rightarrow> Some ((False, None), lasterr ''EINVAL'' s, w)
      | Some m \<Rightarrow> do {
          ((ok, ret), s, w) \<leftarrow> hgetall key (Some []) s w;
          if ok then do {
            ret \<leftarrow> ret; ps \<leftarrow> mbulk_pairs ret;
            Some ((True, Some (foldl (\<lambda>m (k, v). map_insert k v m) m ps)), s, w)
          }
          else Some ((False, Some m), s, w)
        })"

text \<open>\<open>hmset\<close> from a vector of pairs and from a map (in the order of its keys).\<close>

definition Base_hmset_pairs ::
  "(string \<Rightarrow> string list \<Rightarrow> string list \<Rightarrow> ('s, bool) base_call)
   \<Rightarrow> string \<Rightarrow> (string \<times> string) list \<Rightarrow> ('s, bool) base_call" where
  "Base_hmset_pairs hmset key fvs = hmset key (map fst fvs) (map snd fvs)"

definition Base_hmset_map ::
  "(string \<Rightarrow> string list \<Rightarrow> string list \<Rightarrow> ('s, bool) base_call)
   \<Rightarrow> string \<Rightarrow> (string \<times> string) list \<Rightarrow> ('s, bool) base_call" where
  "Base_hmset_map hmset key m = hmset key (map fst m) (map snd m)"

section \<open>The host lists of RedisBase2Multi\<close>

text \<open>\<open>__inner_init\<close>: the hosts and ports, or the text of the exception.  \<open>split\<close> is \<open>boost::split\<close> on one
  character.\<close>

definition multi_init :: "(char \<Rightarrow> string \<Rightarrow> string list) \<Rightarrow> string \<Rightarrow> string \<Rightarrow> string + string list \<times> string list" where
  "multi_init split host_list port_list =
     (let hosts = split (CHR '','') host_list;
          ports = split (CHR '','') port_list
      in if length hosts \<noteq> length ports \<and> length ports \<noteq> 1
         then Inl (''the number of hosts and ports do not match: '' @ show_nat (length hosts)
                   @ '' vs '' @ show_nat (length ports))
         else if length ports = 1 \<and> length hosts \<noteq> 1
         then Inr (hosts, ports @ replicate (length hosts - 1) (ports ! 0))
         else Inr (hosts, ports))"

section \<open>Facts\<close>

text \<open>\<open>boost::split\<close> gives at least one part, also of an empty text.  Then the \<open>assert\<close> at the end of
  \<open>__inner_init\<close> holds.\<close>

definition split_laws :: "(char \<Rightarrow> string \<Rightarrow> string list) \<Rightarrow> bool" where
  "split_laws split \<longleftrightarrow> (\<forall>d s. split d s \<noteq> [])"

definition sorted_map :: "(string \<times> string) list \<Rightarrow> bool" where
  "sorted_map m = sorted_wrt (<) (map fst m)"

lemma map_insert_keys: "set (map fst (map_insert k v m)) = insert k (set (map fst m))"
  by (induction k v m rule: map_insert.induct) auto

lemma map_insert_sorted: "sorted_map m \<Longrightarrow> sorted_map (map_insert k v m)"
proof (induction k v m rule: map_insert.induct)
  case (2 k v k' v' m)
  then have IH: "\<not> k \<le> k' \<Longrightarrow> sorted_map (map_insert k v m)" by (auto simp: sorted_map_def)
  have keys: "\<forall>x \<in> set (map fst m). k' < x" using 2 by (auto simp: sorted_map_def)
  consider "k = k'" | "k < k'" | "k' < k" by fastforce
  then show ?case
  proof cases
    case 3
    with IH keys map_insert_keys [of k v m] show ?thesis by (auto simp: sorted_map_def)
  next
    case 2
    with keys \<open>sorted_map ((k', v') # m)\<close> show ?thesis by (fastforce simp: sorted_map_def)
  qed (use 2 in auto)
qed (simp add: sorted_map_def)

lemma map_insert_lookup:
  "sorted_map m \<Longrightarrow> map_of (map_insert k v m) =
     (if k \<in> dom (map_of m) then map_of m else (map_of m)(k \<mapsto> v))"
proof (induction k v m rule: map_insert.induct)
  case (2 k v k' v' m)
  have keys: "k'' \<in> dom (map_of m) \<Longrightarrow> k' < k''" for k''
    using "2.prems" by (auto simp: sorted_map_def dom_map_of_conv_image_fst)
  consider "k = k'" | "k < k'" | "k' < k" by fastforce
  then show ?case
  proof cases
    case 3
    with 2 have "map_of (map_insert k v m) = (if k \<in> dom (map_of m) then map_of m else (map_of m)(k \<mapsto> v))"
      by (auto simp: sorted_map_def)
    with 3 show ?thesis by (auto simp: fun_eq_iff)
  next
    case 2
    then have "k \<notin> dom (map_of m)" using keys by fastforce
    with 2 show ?thesis by (auto simp: fun_eq_iff)
  qed auto
qed simp

end
