(* ===== verification/Hash.thy ===== *)
theory Hash
  imports Prelude
begin

text \<open>
  \<open>time33_hash_32\<close> of \<open>src/src/redis_cmd.cpp\<close>, the default hash of the partition client: 32-bit
  arithmetic, bytes read as signed characters, the loop unrolled by eight with a \<open>switch\<close> that
  falls through for the rest.  It equals the plain loop over the bytes.
\<close>

section \<open>The code\<close>

text \<open>\<open>*str\<close> as an \<open>uint32_t\<close>: the \<open>char\<close> is signed and is extended.\<close>

definition signed_char :: "char \<Rightarrow> 32 word" where
  "signed_char c = (let n = of_char c :: int in word_of_int (if n \<ge> 128 then n - 256 else n))"

text \<open>One statement \<open>hash = ((hash << 5) + hash) + *str++\<close>.\<close>

definition time33_step :: "32 word \<Rightarrow> char \<Rightarrow> 32 word" where
  "time33_step hash c = (push_bit 5 hash + hash) + signed_char c"

text \<open>The \<open>switch\<close>, entered at the label of the remaining length.\<close>

fun time33_switch :: "32 word \<Rightarrow> string \<Rightarrow> 32 word" where
  "time33_switch hash [a, b, c, d, e, f, g] = time33_switch (time33_step hash a) [b, c, d, e, f, g]"
| "time33_switch hash [b, c, d, e, f, g] = time33_switch (time33_step hash b) [c, d, e, f, g]"
| "time33_switch hash [c, d, e, f, g] = time33_switch (time33_step hash c) [d, e, f, g]"
| "time33_switch hash [d, e, f, g] = time33_switch (time33_step hash d) [e, f, g]"
| "time33_switch hash [e, f, g] = time33_switch (time33_step hash e) [f, g]"
| "time33_switch hash [f, g] = time33_switch (time33_step hash f) [g]"
| "time33_switch hash [g] = time33_step hash g"
| "time33_switch hash _ = hash"

fun time33_loop :: "32 word \<Rightarrow> string \<Rightarrow> 32 word" where
  "time33_loop hash (a # b # c # d # e # f # g # h # str) =
     time33_loop
       (time33_step (time33_step (time33_step (time33_step (time33_step (time33_step
         (time33_step (time33_step hash a) b) c) d) e) f) g) h) str"
| "time33_loop hash str = time33_switch hash str"

text \<open>\<open>None\<close> is a null \<open>key\<close>.\<close>

definition time33_hash_32 :: "string ptr \<Rightarrow> 32 word" where
  "time33_hash_32 key =
     (case key of None \<Rightarrow> 0 | Some s \<Rightarrow> if length s = 0 then 0 else time33_loop 5381 s)"

definition time33_hash_32_string :: "string \<Rightarrow> 32 word" where
  "time33_hash_32_string key = time33_hash_32 (Some key)"

section \<open>The unrolled loop is the plain loop\<close>

lemma time33_switch_fold: "length str < 8 \<Longrightarrow> time33_switch hash str = foldl time33_step hash str"
  by (induction hash str rule: time33_switch.induct) simp_all

lemma time33_loop_fold: "time33_loop hash str = foldl time33_step hash str"
  by (induction hash str rule: time33_loop.induct) (simp_all add: time33_switch_fold)

lemma time33_step_33: "time33_step hash c = 33 * hash + signed_char c"
  by (simp add: time33_step_def push_bit_eq_mult algebra_simps)

end
