(* ===== verification/Redis_Partition.thy ===== *)
theory Redis_Partition
  imports Redis_Base Hash
begin

text \<open>
  The partition client, \<open>src/src/redis_partition.cpp\<close>.  The hosts form \<open>groups\<close> copies of one
  sequence of hosts; the hash of a key selects the position in the sequence.  A write goes to
  that position in every group, a read to one group after the other until one answers.  The
  macros of the file are the combinators \<open>FOR_EACH_GROUP_WRITE\<close> and \<open>FOR_EACH_GROUP_READ\<close>;
  their function argument takes the contents of the output cells and returns the new ones.

  The hash function is a parameter of the constructor (\<open>key_hasher\<close>), a field here.
\<close>

section \<open>State\<close>

record Redis2P =
  hosts :: "string list"
  ports :: "string list"
  pt_error :: string
  partitions :: nat
  hash_fn :: "string \<Rightarrow> 32 word"
  groups :: nat
  redis2_sp_vector :: "Redis2 list"

type_synonym 'r part_call = "Redis2P \<Rightarrow> world \<Rightarrow> ('r \<times> Redis2P \<times> world) option"

definition P_last_error :: "string \<Rightarrow> Redis2P \<Rightarrow> Redis2P" where
  "P_last_error err p = p\<lparr>pt_error := err\<rparr>"

definition get_seed :: "world \<Rightarrow> nat" where
  "get_seed w = size_of_int (get_thread_id w)"

text \<open>\<open>inner_init\<close>, on the object whose hosts and ports are set.\<close>

definition inner_init :: "int \<Rightarrow> int \<Rightarrow> Redis2P \<Rightarrow> bool \<times> Redis2P" where
  "inner_init index timeout_ms p =
     (if partitions p = 0 then (False, p\<lparr>pt_error := ''the number of partition must be not zero''\<rparr>)
      else let p = p\<lparr>groups := length (hosts p) div partitions p\<rparr>
      in if groups p = 0 then (False, p\<lparr>pt_error := ''the number of group must be not zero''\<rparr>)
         else if length (hosts p) mod groups p \<noteq> 0
         then (False, p\<lparr>pt_error := ''invalid group number, hosts: '' @ show_nat (length (hosts p))
                 @ '', groups: '' @ show_nat (groups p) @ '', partitions: '' @ show_nat (partitions p)\<rparr>)
         else (True, p\<lparr>redis2_sp_vector := redis2_sp_vector p
                 @ map (\<lambda>(h, q). new_Redis2 h q index timeout_ms) (zip (hosts p) (ports p))\<rparr>))"

text \<open>The constructor; \<open>Inl\<close> is the text of the exception it throws.\<close>

definition new_Redis2P ::
  "(char \<Rightarrow> string \<Rightarrow> string list) \<Rightarrow> string \<Rightarrow> string \<Rightarrow> int \<Rightarrow> int \<Rightarrow> int \<Rightarrow> (string \<Rightarrow> 32 word)
   \<Rightarrow> string + Redis2P" where
  "new_Redis2P split host_list port_list index timeout_ms parts fn =
     (case multi_init split host_list port_list of
        Inl e \<Rightarrow> Inl e
      | Inr (hs, ps) \<Rightarrow>
          let (ok, p) = inner_init index timeout_ms
                \<lparr>hosts = hs, ports = ps, pt_error = [], partitions = size_of_int parts, hash_fn = fn,
                 groups = 0, redis2_sp_vector = []\<rparr>
          in if \<not> ok then Inl (pt_error p) else Inr p)"

section \<open>Choosing hosts\<close>

text \<open>A division by zero is undefined: the functions below assert their divisors.\<close>

definition get_key_host_index :: "string \<Rightarrow> Redis2P \<Rightarrow> nat option" where
  "get_key_host_index key p = do {
     assertion (groups p \<noteq> 0);
     let host_num = length (redis2_sp_vector p) div groups p;
     assertion (host_num \<noteq> 0);
     Some (unat (hash_fn p key) mod host_num)
   }"

definition no_server :: string where
  "no_server = ''no available redis server''"

definition get_key_client :: "string \<Rightarrow> bool \<Rightarrow> Redis2P \<Rightarrow> world \<Rightarrow> ((bool \<times> nat list) \<times> Redis2P) option" where
  "get_key_client key wr p w = do {
     host_index \<leftarrow> get_key_host_index key p;
     let host_num = length (redis2_sp_vector p) div groups p;
     let seed = get_seed w;
     let index_v = (if \<not> wr then [host_index + host_num * (seed mod groups p)]
       else map (\<lambda>i. host_index + host_num * (size_add seed i mod groups p)) [0..<groups p]);
     if index_v = [] then Some ((False, index_v), p\<lparr>pt_error := no_server\<rparr>)
     else Some ((True, index_v), p)
   }"

text \<open>\<open>__get_keys_client\<close>; without \<open>write\<close> it indexes a vector that was only reserved.\<close>

definition get_keys_client ::
  "string list \<Rightarrow> bool \<Rightarrow> Redis2P \<Rightarrow> ((bool \<times> nat list list) \<times> Redis2P) option" where
  "get_keys_client keys wr p = do {
     assertion (groups p \<noteq> 0);
     let host_num = length (redis2_sp_vector p) div groups p;
     assertion (wr \<or> keys = []);
     index_v \<leftarrow> (if \<not> wr then Some []
       else those (map (\<lambda>key. map_option
              (\<lambda>host_index. map (\<lambda>j. host_index + host_num * j) [0..<groups p])
              (get_key_host_index key p)) keys));
     if index_v = [] then Some ((False, index_v), p\<lparr>pt_error := no_server\<rparr>)
     else Some ((True, index_v), p)
   }"

definition get_group_client :: "Redis2P \<Rightarrow> world \<Rightarrow> ((bool \<times> nat list) \<times> Redis2P) option" where
  "get_group_client p w = do {
     assertion (groups p \<noteq> 0);
     let host_num = length (redis2_sp_vector p) div groups p;
     let host_index = (if groups p > 1 then (get_seed w mod groups p) * host_num else 0);
     let index_v = map (\<lambda>i. host_index + i) [0..<host_num];
     if index_v = [] then Some ((False, index_v), p\<lparr>pt_error := no_server\<rparr>)
     else Some ((True, index_v), p)
   }"

text \<open>\<open>[host:port] error\<close>\<close>

definition host_error :: "string \<Rightarrow> string \<Rightarrow> Redis2 \<Rightarrow> string" where
  "host_error h q r = ''['' @ h @ '':'' @ q @ ''] '' @ p_error (proto r)"

definition set_index_error :: "nat \<Rightarrow> Redis2P \<Rightarrow> Redis2P option" where
  "set_index_error i p = do {
     assertion (i < length (redis2_sp_vector p));
     Some (p\<lparr>pt_error := host_error (hosts p ! i) (ports p ! i) (redis2_sp_vector p ! i)\<rparr>)
   }"

definition set_host_error :: "Redis2 \<Rightarrow> Redis2P \<Rightarrow> Redis2P" where
  "set_host_error r p = p\<lparr>pt_error := host_error (p_host (proto r)) (p_port (proto r)) r\<rparr>"

text \<open>The clients handed out are references into the vector: their positions.\<close>

definition get_index_client :: "nat \<Rightarrow> nat list ptr \<Rightarrow> Redis2P \<Rightarrow> ((bool \<times> nat list ptr) \<times> Redis2P) option" where
  "get_index_client host_index out p =
     (if out = None then Some ((False, None), P_last_error ''EINVAL'' p)
      else do {
        assertion (groups p \<noteq> 0);
        let host_num = length (redis2_sp_vector p) div groups p;
        let v = map (\<lambda>i. host_index + host_num * i) [0..<groups p];
        assertion (list_all (\<lambda>i. i < length (redis2_sp_vector p)) v);
        if v = [] then Some ((False, Some v), p\<lparr>pt_error := no_server\<rparr>)
        else Some ((True, Some v), p)
      })"

definition P_get_key_client :: "string \<Rightarrow> nat list ptr \<Rightarrow> Redis2P \<Rightarrow> ((bool \<times> nat list ptr) \<times> Redis2P) option" where
  "P_get_key_client key out p =
     (if out = None then Some ((False, None), P_last_error ''EINVAL'' p)
      else do { i \<leftarrow> get_key_host_index key p; get_index_client i out p })"

definition get_all_client :: "nat list ptr \<Rightarrow> Redis2P \<Rightarrow> (bool \<times> nat list ptr) \<times> Redis2P" where
  "get_all_client out p =
     (if out = None then ((False, None), P_last_error ''EINVAL'' p)
      else ((True, Some [0..<length (redis2_sp_vector p)]), p))"

section \<open>The macros\<close>

text \<open>\<open>redis2_sp_vector_[i]->func(...)\<close>\<close>

definition call_host :: "nat \<Rightarrow> 'r client_call \<Rightarrow> 'r part_call" where
  "call_host i f p w = do {
     assertion (i < length (redis2_sp_vector p));
     (res, r, w) \<leftarrow> f (redis2_sp_vector p ! i) w;
     Some (res, p\<lparr>redis2_sp_vector := (redis2_sp_vector p)[i := r]\<rparr>, w)
   }"

fun for_each_write :: "('o \<Rightarrow> (bool \<times> 'o) client_call) \<Rightarrow> nat list \<Rightarrow> 'o \<Rightarrow> (bool \<times> 'o) part_call" where
  "for_each_write f [] cells p w = Some ((True, cells), p, w)"
| "for_each_write f (i # is) cells p w = do {
     ((ret, cells), p, w) \<leftarrow> call_host i (f cells) p w;
     if \<not> ret then do { p \<leftarrow> set_index_error i p; Some ((False, cells), p, w) }
     else for_each_write f is cells p w
   }"

fun for_each_read :: "('o \<Rightarrow> (bool \<times> 'o) client_call) \<Rightarrow> nat list \<Rightarrow> 'o \<Rightarrow> (bool \<times> 'o) part_call" where
  "for_each_read f [] cells p w = Some ((False, cells), p, w)"
| "for_each_read f (i # is) cells p w = do {
     ((ret, cells), p, w) \<leftarrow> call_host i (f cells) p w;
     if \<not> ret then do { p \<leftarrow> set_index_error i p; for_each_read f is cells p w }
     else Some ((True, cells), p, w)
   }"

definition FOR_EACH_GROUP_WRITE ::
  "('o \<Rightarrow> (bool \<times> 'o) client_call) \<Rightarrow> string \<Rightarrow> 'o \<Rightarrow> (bool \<times> 'o) part_call" where
  "FOR_EACH_GROUP_WRITE f key cells p w = do {
     ((ok, index_v), p) \<leftarrow> get_key_client key True p w;
     if \<not> ok then Some ((False, cells), p, w) else for_each_write f index_v cells p w
   }"

definition FOR_EACH_GROUP_READ ::
  "('o \<Rightarrow> (bool \<times> 'o) client_call) \<Rightarrow> string \<Rightarrow> 'o \<Rightarrow> (bool \<times> 'o) part_call" where
  "FOR_EACH_GROUP_READ f key cells p w = do {
     ((ok, index_v), p) \<leftarrow> get_key_client key True p w;
     if \<not> ok then Some ((False, cells), p, w) else for_each_read f index_v cells p w
   }"

definition P_CHECK_EXPR :: "bool \<Rightarrow> 'r \<Rightarrow> 'r part_call \<Rightarrow> 'r part_call" where
  "P_CHECK_EXPR b fail k p w = (if \<not> b then Some (fail, P_last_error ''EINVAL'' p, w) else k p w)"

definition P_CHECK_PTR_PARAM :: "'a ptr \<Rightarrow> 'r \<Rightarrow> 'r part_call \<Rightarrow> 'r part_call" where
  "P_CHECK_PTR_PARAM q = P_CHECK_EXPR (q \<noteq> None)"

text \<open>A method with no output cells.\<close>

definition no_cells :: "bool client_call \<Rightarrow> unit \<Rightarrow> (bool \<times> unit) client_call" where
  "no_cells m u r w = do { (ok, r, w) \<leftarrow> m r w; Some ((ok, u), r, w) }"

definition drop_cells :: "(bool \<times> unit) part_call \<Rightarrow> bool part_call" where
  "drop_cells m p w = do { ((ok, u), p, w) \<leftarrow> m p w; Some (ok, p, w) }"

text \<open>The two shapes of a method with one checked output cell, and those with two.\<close>

definition write1 :: "('a ptr \<Rightarrow> (bool \<times> 'a ptr) client_call) \<Rightarrow> string \<Rightarrow> 'a ptr \<Rightarrow> (bool \<times> 'a ptr) part_call" where
  "write1 f key ret = P_CHECK_PTR_PARAM ret (False, ret) (FOR_EACH_GROUP_WRITE f key ret)"

definition read1 :: "('a ptr \<Rightarrow> (bool \<times> 'a ptr) client_call) \<Rightarrow> string \<Rightarrow> 'a ptr \<Rightarrow> (bool \<times> 'a ptr) part_call" where
  "read1 f key ret = P_CHECK_PTR_PARAM ret (False, ret) (FOR_EACH_GROUP_READ f key ret)"

definition write2 :: "('a ptr \<Rightarrow> 'b ptr \<Rightarrow> (bool \<times> 'a ptr \<times> 'b ptr) client_call) \<Rightarrow> string
    \<Rightarrow> 'a ptr \<Rightarrow> 'b ptr \<Rightarrow> (bool \<times> 'a ptr \<times> 'b ptr) part_call" where
  "write2 f key ret is_nil =
     P_CHECK_PTR_PARAM ret (False, ret, is_nil) (P_CHECK_PTR_PARAM is_nil (False, ret, is_nil)
       (FOR_EACH_GROUP_WRITE (\<lambda>(a, b). f a b) key (ret, is_nil)))"

definition read2 :: "('a ptr \<Rightarrow> 'b ptr \<Rightarrow> (bool \<times> 'a ptr \<times> 'b ptr) client_call) \<Rightarrow> string
    \<Rightarrow> 'a ptr \<Rightarrow> 'b ptr \<Rightarrow> (bool \<times> 'a ptr \<times> 'b ptr) part_call" where
  "read2 f key ret is_nil =
     P_CHECK_PTR_PARAM ret (False, ret, is_nil) (P_CHECK_PTR_PARAM is_nil (False, ret, is_nil)
       (FOR_EACH_GROUP_READ (\<lambda>(a, b). f a b) key (ret, is_nil)))"

definition write0 :: "bool client_call \<Rightarrow> string \<Rightarrow> bool part_call" where
  "write0 f key = drop_cells (FOR_EACH_GROUP_WRITE (no_cells f) key ())"

section \<open>Keys\<close>

definition Redis2P_del :: "string \<Rightarrow> int ptr \<Rightarrow> (bool \<times> int ptr) part_call" where
  "Redis2P_del key ret =
     write1 (Redis2_del key) key ret"

text \<open>\<open>del\<close> of several keys: the loops over the groups of a key and over the keys.  \<open>deleted\<close> holds
  the last group's answer.\<close>

fun del_groups :: "string \<Rightarrow> nat list \<Rightarrow> int \<Rightarrow> (bool \<times> int) part_call" where
  "del_groups key [] deleted p w = Some ((True, deleted), p, w)"
| "del_groups key (i # is) deleted p w = do {
     ((ret, cell), p, w) \<leftarrow> call_host i (Redis2_del key (Some deleted)) p w;
     deleted \<leftarrow> cell;
     if \<not> ret then do { p \<leftarrow> set_index_error i p; Some ((False, deleted), p, w) }
     else del_groups key is deleted p w
   }"

definition int64 :: "int \<Rightarrow> int" where
  "int64 i = (i + 2 ^ 63) mod 2 ^ 64 - 2 ^ 63"

fun del_loop :: "(string \<times> nat list) list \<Rightarrow> int \<Rightarrow> int \<Rightarrow> (bool \<times> int) part_call" where
  "del_loop [] deleted total_deleted p w = Some ((True, total_deleted), p, w)"
| "del_loop ((key, is) # rest) deleted total_deleted p w = do {
     ((ret, deleted), p, w) \<leftarrow> del_groups key is deleted p w;
     if \<not> ret then Some ((False, total_deleted), p, w)
     else del_loop rest deleted (int64 (total_deleted + deleted)) p w
   }"

definition Redis2P_del_keys :: "string list \<Rightarrow> int ptr \<Rightarrow> (bool \<times> int ptr) part_call" where
  "Redis2P_del_keys keys ret =
     P_CHECK_PTR_PARAM ret (False, ret)
       (\<lambda>p w. do {
          ((ok, index_vv), p) \<leftarrow> get_keys_client keys True p;
          if \<not> ok then Some ((False, ret), p, w)
          else do {
            ((ok, total_deleted), p, w) \<leftarrow> del_loop (zip keys index_vv) 0 0 p w;
            Some ((ok, if ok then Some total_deleted else ret), p, w)
          }
        })"

definition Redis2P_dump :: "string \<Rightarrow> string ptr \<Rightarrow> bool ptr \<Rightarrow> (bool \<times> string ptr \<times> bool ptr) part_call" where
  "Redis2P_dump key ret is_nil =
     read2 (Redis2_dump key) key ret is_nil"

definition Redis2P_exists :: "string \<Rightarrow> int ptr \<Rightarrow> (bool \<times> int ptr) part_call" where
  "Redis2P_exists key ret =
     read1 (Redis2_exists key) key ret"

definition Redis2P_expire :: "string \<Rightarrow> int \<Rightarrow> int ptr \<Rightarrow> (bool \<times> int ptr) part_call" where
  "Redis2P_expire key seconds ret =
     write1 (Redis2_expire key seconds) key ret"

definition Redis2P_expireat :: "string \<Rightarrow> int \<Rightarrow> int ptr \<Rightarrow> (bool \<times> int ptr) part_call" where
  "Redis2P_expireat key abs_seconds ret =
     write1 (Redis2_expireat key abs_seconds) key ret"

text \<open>\<open>keys\<close> asks every host of one group.\<close>

fun keys_loop :: "string \<Rightarrow> nat list \<Rightarrow> mbulk \<Rightarrow> (bool \<times> mbulk) part_call" where
  "keys_loop pattern [] ret p w = Some ((True, ret), p, w)"
| "keys_loop pattern (i # is) ret p w = do {
     ((ok, mb), p, w) \<leftarrow> call_host i (Redis2_keys pattern (Some [])) p w;
     if \<not> ok then do { p \<leftarrow> set_index_error i p; Some ((False, []), p, w) }
     else do {
       ret \<leftarrow> fst (append_mbulks (Some ret) mb);
       keys_loop pattern is ret p w
     }
   }"

definition Redis2P_keys :: "string \<Rightarrow> mbulk ptr \<Rightarrow> (bool \<times> mbulk ptr) part_call" where
  "Redis2P_keys pattern ret =
     P_CHECK_PTR_PARAM ret (False, ret)
       (\<lambda>p w. do {
          ((ok, index_v), p) \<leftarrow> get_group_client p w;
          if \<not> ok then Some ((False, Some []), p, w)
          else do {
            ((ok, mb), p, w) \<leftarrow> keys_loop pattern index_v [] p w;
            Some ((ok, Some mb), p, w)
          }
        })"

definition Redis2P_move :: "string \<Rightarrow> int \<Rightarrow> int ptr \<Rightarrow> (bool \<times> int ptr) part_call" where
  "Redis2P_move key db ret =
     write1 (Redis2_move key db) key ret"

definition Redis2P_persist :: "string \<Rightarrow> int ptr \<Rightarrow> (bool \<times> int ptr) part_call" where
  "Redis2P_persist key ret =
     write1 (Redis2_persist key) key ret"

definition Redis2P_pexpire :: "string \<Rightarrow> int \<Rightarrow> int ptr \<Rightarrow> (bool \<times> int ptr) part_call" where
  "Redis2P_pexpire key milliseconds ret =
     write1 (Redis2_pexpire key milliseconds) key ret"

definition Redis2P_pexpireat :: "string \<Rightarrow> int \<Rightarrow> int ptr \<Rightarrow> (bool \<times> int ptr) part_call" where
  "Redis2P_pexpireat key abs_milliseconds ret =
     write1 (Redis2_pexpireat key abs_milliseconds) key ret"

definition Redis2P_pttl :: "string \<Rightarrow> int ptr \<Rightarrow> (bool \<times> int ptr) part_call" where
  "Redis2P_pttl key ret =
     read1 (Redis2_pttl key) key ret"

definition Redis2P_restore :: "string \<Rightarrow> int \<Rightarrow> string \<Rightarrow> bool part_call" where
  "Redis2P_restore key ttl value =
     write0 (Redis2_restore key ttl value) key"

definition Redis2P_randomkey :: "string ptr \<Rightarrow> bool ptr \<Rightarrow> (bool \<times> string ptr \<times> bool ptr) part_call" where
  "Redis2P_randomkey ret is_nil =
     P_CHECK_PTR_PARAM ret (False, ret, is_nil) (P_CHECK_PTR_PARAM is_nil (False, ret, is_nil)
       (\<lambda>p w. do {
          ((ok, index_v), p) \<leftarrow> get_group_client p w;
          if \<not> ok then Some ((False, ret, is_nil), p, w)
          else for_each_read (\<lambda>(a, b). Redis2_randomkey a b) index_v (ret, is_nil) p w
        }))"

definition Redis2P_sort :: "string \<Rightarrow> string list ptr \<Rightarrow> mbulk ptr \<Rightarrow> (bool \<times> mbulk ptr) part_call" where
  "Redis2P_sort key phrases ret =
     read1 (Redis2_sort key phrases) key ret"

definition Redis2P_ttl :: "string \<Rightarrow> int ptr \<Rightarrow> (bool \<times> int ptr) part_call" where
  "Redis2P_ttl key ret =
     read1 (Redis2_ttl key) key ret"

definition Redis2P_type :: "string \<Rightarrow> string ptr \<Rightarrow> (bool \<times> string ptr) part_call" where
  "Redis2P_type key ret =
     read1 (Redis2_type key) key ret"

section \<open>Strings\<close>

definition Redis2P_append :: "string \<Rightarrow> string \<Rightarrow> int ptr \<Rightarrow> (bool \<times> int ptr) part_call" where
  "Redis2P_append key value ret =
     write1 (Redis2_append key value) key ret"

definition Redis2P_decr :: "string \<Rightarrow> int ptr \<Rightarrow> (bool \<times> int ptr) part_call" where
  "Redis2P_decr key ret =
     write1 (Redis2_decr key) key ret"

definition Redis2P_decrby :: "string \<Rightarrow> int \<Rightarrow> int ptr \<Rightarrow> (bool \<times> int ptr) part_call" where
  "Redis2P_decrby key dec ret =
     write1 (Redis2_decrby key dec) key ret"

definition Redis2P_get :: "string \<Rightarrow> string ptr \<Rightarrow> bool ptr \<Rightarrow> (bool \<times> string ptr \<times> bool ptr) part_call" where
  "Redis2P_get key ret is_nil =
     read2 (Redis2_get key) key ret is_nil"

definition Redis2P_getbit :: "string \<Rightarrow> int \<Rightarrow> int ptr \<Rightarrow> (bool \<times> int ptr) part_call" where
  "Redis2P_getbit key offset ret =
     read1 (Redis2_getbit key offset) key ret"

definition Redis2P_getrange :: "string \<Rightarrow> int \<Rightarrow> int \<Rightarrow> string ptr \<Rightarrow> bool ptr \<Rightarrow> (bool \<times> string ptr \<times> bool ptr) part_call" where
  "Redis2P_getrange key start stop ret is_nil =
     read2 (Redis2_getrange key start stop) key ret is_nil"

definition Redis2P_getset :: "string \<Rightarrow> string \<Rightarrow> string ptr \<Rightarrow> bool ptr \<Rightarrow> (bool \<times> string ptr \<times> bool ptr) part_call" where
  "Redis2P_getset key value ret is_nil =
     write2 (Redis2_getset key value) key ret is_nil"

text \<open>\<open>incr\<close> does not check \<open>_return\<close>; the inner method does.\<close>

definition Redis2P_incr :: "string \<Rightarrow> int ptr \<Rightarrow> (bool \<times> int ptr) part_call" where
  "Redis2P_incr key ret = FOR_EACH_GROUP_WRITE (Redis2_incr key) key ret"

definition Redis2P_incrby :: "string \<Rightarrow> int \<Rightarrow> int ptr \<Rightarrow> (bool \<times> int ptr) part_call" where
  "Redis2P_incrby key inc ret =
     write1 (Redis2_incrby key inc) key ret"

definition Redis2P_incrbyfloat :: "string \<Rightarrow> 64 word \<Rightarrow> 64 word ptr \<Rightarrow> (bool \<times> 64 word ptr) part_call" where
  "Redis2P_incrbyfloat key inc ret =
     write1 (Redis2_incrbyfloat key inc) key ret"

text \<open>\<open>mget\<close> is a \<open>get\<close> for each key; \<open>value\<close> keeps its content between the rounds.\<close>

fun mget_loop :: "string list \<Rightarrow> string \<Rightarrow> bool \<Rightarrow> mbulk \<Rightarrow> (bool \<times> mbulk) part_call" where
  "mget_loop [] value is_nil ret p w = Some ((True, ret), p, w)"
| "mget_loop (key # keys) value is_nil ret p w = do {
     ((ok, v, nil), p, w) \<leftarrow> Redis2P_get key (Some value) (Some is_nil) p w;
     if \<not> ok then Some ((False, []), p, w)
     else do {
       value \<leftarrow> v; is_nil \<leftarrow> nil;
       if is_nil then mget_loop keys value is_nil (ret @ [None]) p w
       else mget_loop keys [] is_nil (ret @ [Some value]) p w
     }
   }"

definition Redis2P_mget :: "string list \<Rightarrow> mbulk ptr \<Rightarrow> (bool \<times> mbulk ptr) part_call" where
  "Redis2P_mget keys ret =
     P_CHECK_PTR_PARAM ret (False, ret)
       (\<lambda>p w. do {
          ((ok, mb), p, w) \<leftarrow> mget_loop keys [] False [] p w;
          assertion (ok \<longrightarrow> length keys = length mb);
          Some ((ok, Some mb), p, w)
        })"

definition Redis2P_psetex :: "string \<Rightarrow> int \<Rightarrow> string \<Rightarrow> bool part_call" where
  "Redis2P_psetex key milliseconds value =
     write0 (Redis2_psetex key milliseconds value) key"

definition Redis2P_set :: "string \<Rightarrow> string \<Rightarrow> bool part_call" where
  "Redis2P_set key value =
     write0 (Redis2_set key value) key"

fun mset_loop :: "(string \<times> string) list \<Rightarrow> bool part_call" where
  "mset_loop [] p w = Some (True, p, w)"
| "mset_loop ((k, v) # kvs) p w = do {
     (ok, p, w) \<leftarrow> Redis2P_set k v p w;
     if \<not> ok then Some (False, p, w) else mset_loop kvs p w
   }"

definition Redis2P_mset :: "string list \<Rightarrow> string list \<Rightarrow> bool part_call" where
  "Redis2P_mset keys values =
     P_CHECK_EXPR (length keys = length values) False (mset_loop (zip keys values))"

definition Redis2P_setbit :: "string \<Rightarrow> int \<Rightarrow> int \<Rightarrow> int ptr \<Rightarrow> (bool \<times> int ptr) part_call" where
  "Redis2P_setbit key offset bitval ret =
     write1 (Redis2_setbit key offset bitval) key ret"

definition Redis2P_setex :: "string \<Rightarrow> int \<Rightarrow> string \<Rightarrow> bool part_call" where
  "Redis2P_setex key seconds value =
     write0 (Redis2_setex key seconds value) key"

definition Redis2P_setnx :: "string \<Rightarrow> string \<Rightarrow> int ptr \<Rightarrow> (bool \<times> int ptr) part_call" where
  "Redis2P_setnx key value ret =
     write1 (Redis2_setnx key value) key ret"

definition Redis2P_setrange :: "string \<Rightarrow> int \<Rightarrow> string \<Rightarrow> int ptr \<Rightarrow> (bool \<times> int ptr) part_call" where
  "Redis2P_setrange key offset value ret =
     write1 (Redis2_setrange key offset value) key ret"

definition Redis2P_strlen :: "string \<Rightarrow> int ptr \<Rightarrow> (bool \<times> int ptr) part_call" where
  "Redis2P_strlen key ret =
     read1 (Redis2_strlen key) key ret"

section \<open>Hashes\<close>

definition Redis2P_hdel :: "string \<Rightarrow> string \<Rightarrow> int ptr \<Rightarrow> (bool \<times> int ptr) part_call" where
  "Redis2P_hdel key field ret =
     write1 (Redis2_hdel key field) key ret"

definition Redis2P_hdel_fields :: "string \<Rightarrow> string list \<Rightarrow> int ptr \<Rightarrow> (bool \<times> int ptr) part_call" where
  "Redis2P_hdel_fields key flds ret =
     write1 (Redis2_hdel_fields key flds) key ret"

definition Redis2P_hexists :: "string \<Rightarrow> string \<Rightarrow> int ptr \<Rightarrow> (bool \<times> int ptr) part_call" where
  "Redis2P_hexists key field ret =
     read1 (Redis2_hexists key field) key ret"

definition Redis2P_hget :: "string \<Rightarrow> string \<Rightarrow> string ptr \<Rightarrow> bool ptr \<Rightarrow> (bool \<times> string ptr \<times> bool ptr) part_call" where
  "Redis2P_hget key field ret is_nil =
     read2 (Redis2_hget key field) key ret is_nil"

definition Redis2P_hgetall :: "string \<Rightarrow> mbulk ptr \<Rightarrow> (bool \<times> mbulk ptr) part_call" where
  "Redis2P_hgetall key ret =
     read1 (Redis2_hgetall key) key ret"

text \<open>\<open>hincr\<close> does not check \<open>_return\<close>; the inner method does.\<close>

definition Redis2P_hincr :: "string \<Rightarrow> string \<Rightarrow> int ptr \<Rightarrow> (bool \<times> int ptr) part_call" where
  "Redis2P_hincr key field ret = FOR_EACH_GROUP_WRITE (Redis2_hincr key field) key ret"

definition Redis2P_hincrby :: "string \<Rightarrow> string \<Rightarrow> int \<Rightarrow> int ptr \<Rightarrow> (bool \<times> int ptr) part_call" where
  "Redis2P_hincrby key field inc ret =
     write1 (Redis2_hincrby key field inc) key ret"

definition Redis2P_hincrbyfloat :: "string \<Rightarrow> string \<Rightarrow> 64 word \<Rightarrow> 64 word ptr \<Rightarrow> (bool \<times> 64 word ptr) part_call" where
  "Redis2P_hincrbyfloat key field inc ret =
     write1 (Redis2_hincrbyfloat key field inc) key ret"

definition Redis2P_hkeys :: "string \<Rightarrow> mbulk ptr \<Rightarrow> (bool \<times> mbulk ptr) part_call" where
  "Redis2P_hkeys key ret =
     read1 (Redis2_hkeys key) key ret"

definition Redis2P_hlen :: "string \<Rightarrow> int ptr \<Rightarrow> (bool \<times> int ptr) part_call" where
  "Redis2P_hlen key ret =
     read1 (Redis2_hlen key) key ret"

definition Redis2P_hmget :: "string \<Rightarrow> string list \<Rightarrow> mbulk ptr \<Rightarrow> (bool \<times> mbulk ptr) part_call" where
  "Redis2P_hmget key flds ret =
     read1 (Redis2_hmget key flds) key ret"

definition Redis2P_hmset :: "string \<Rightarrow> string list \<Rightarrow> string list \<Rightarrow> bool part_call" where
  "Redis2P_hmset key flds values =
     P_CHECK_EXPR (length flds = length values) False (write0 (Redis2_hmset key flds values) key)"

definition Redis2P_hset :: "string \<Rightarrow> string \<Rightarrow> string \<Rightarrow> int ptr \<Rightarrow> (bool \<times> int ptr) part_call" where
  "Redis2P_hset key field value ret =
     write1 (Redis2_hset key field value) key ret"

text \<open>\<open>hsetnx\<close> calls \<open>hset\<close> of the hosts.\<close>

definition Redis2P_hsetnx :: "string \<Rightarrow> string \<Rightarrow> string \<Rightarrow> int ptr \<Rightarrow> (bool \<times> int ptr) part_call" where
  "Redis2P_hsetnx key field value ret =
     write1 (Redis2_hset key field value) key ret"

definition Redis2P_hvals :: "string \<Rightarrow> mbulk ptr \<Rightarrow> (bool \<times> mbulk ptr) part_call" where
  "Redis2P_hvals key ret =
     read1 (Redis2_hvals key) key ret"

section \<open>Lists\<close>

definition Redis2P_lindex :: "string \<Rightarrow> int \<Rightarrow> string ptr \<Rightarrow> bool ptr \<Rightarrow> (bool \<times> string ptr \<times> bool ptr) part_call" where
  "Redis2P_lindex key index ret is_nil =
     read2 (Redis2_lindex key index) key ret is_nil"

definition Redis2P_linsert :: "string \<Rightarrow> bool \<Rightarrow> string \<Rightarrow> string \<Rightarrow> int ptr \<Rightarrow> (bool \<times> int ptr) part_call" where
  "Redis2P_linsert key before pivot value ret =
     write1 (Redis2_linsert key before pivot value) key ret"

definition Redis2P_llen :: "string \<Rightarrow> int ptr \<Rightarrow> (bool \<times> int ptr) part_call" where
  "Redis2P_llen key ret =
     read1 (Redis2_llen key) key ret"

definition Redis2P_lpop :: "string \<Rightarrow> string ptr \<Rightarrow> bool ptr \<Rightarrow> (bool \<times> string ptr \<times> bool ptr) part_call" where
  "Redis2P_lpop key ret is_nil =
     write2 (Redis2_lpop key) key ret is_nil"

definition Redis2P_lpush :: "string \<Rightarrow> string \<Rightarrow> int ptr \<Rightarrow> (bool \<times> int ptr) part_call" where
  "Redis2P_lpush key value ret =
     write1 (Redis2_lpush key value) key ret"

definition Redis2P_lpush_values :: "string \<Rightarrow> string list \<Rightarrow> int ptr \<Rightarrow> (bool \<times> int ptr) part_call" where
  "Redis2P_lpush_values key values ret =
     write1 (Redis2_lpush_values key values) key ret"

definition Redis2P_lpushx :: "string \<Rightarrow> string \<Rightarrow> int ptr \<Rightarrow> (bool \<times> int ptr) part_call" where
  "Redis2P_lpushx key value ret =
     write1 (Redis2_lpushx key value) key ret"

definition Redis2P_lrange :: "string \<Rightarrow> int \<Rightarrow> int \<Rightarrow> mbulk ptr \<Rightarrow> (bool \<times> mbulk ptr) part_call" where
  "Redis2P_lrange key start stop ret =
     read1 (Redis2_lrange key start stop) key ret"

definition Redis2P_lrem :: "string \<Rightarrow> int \<Rightarrow> string \<Rightarrow> int ptr \<Rightarrow> (bool \<times> int ptr) part_call" where
  "Redis2P_lrem key count value ret =
     write1 (Redis2_lrem key count value) key ret"

definition Redis2P_lset :: "string \<Rightarrow> int \<Rightarrow> string \<Rightarrow> bool part_call" where
  "Redis2P_lset key index value =
     write0 (Redis2_lset key index value) key"

definition Redis2P_ltrim :: "string \<Rightarrow> int \<Rightarrow> int \<Rightarrow> bool part_call" where
  "Redis2P_ltrim key start stop =
     write0 (Redis2_ltrim key start stop) key"

definition Redis2P_rpop :: "string \<Rightarrow> string ptr \<Rightarrow> bool ptr \<Rightarrow> (bool \<times> string ptr \<times> bool ptr) part_call" where
  "Redis2P_rpop key ret is_nil =
     write2 (Redis2_rpop key) key ret is_nil"

definition Redis2P_rpush :: "string \<Rightarrow> string \<Rightarrow> int ptr \<Rightarrow> (bool \<times> int ptr) part_call" where
  "Redis2P_rpush key value ret =
     write1 (Redis2_rpush key value) key ret"

definition Redis2P_rpush_values :: "string \<Rightarrow> string list \<Rightarrow> int ptr \<Rightarrow> (bool \<times> int ptr) part_call" where
  "Redis2P_rpush_values key values ret =
     write1 (Redis2_rpush_values key values) key ret"

definition Redis2P_rpushx :: "string \<Rightarrow> string \<Rightarrow> int ptr \<Rightarrow> (bool \<times> int ptr) part_call" where
  "Redis2P_rpushx key value ret =
     write1 (Redis2_rpushx key value) key ret"

section \<open>Sets\<close>

definition Redis2P_sadd :: "string \<Rightarrow> string \<Rightarrow> int ptr \<Rightarrow> (bool \<times> int ptr) part_call" where
  "Redis2P_sadd key member ret =
     write1 (Redis2_sadd key member) key ret"

definition Redis2P_sadd_members :: "string \<Rightarrow> string list \<Rightarrow> int ptr \<Rightarrow> (bool \<times> int ptr) part_call" where
  "Redis2P_sadd_members key members ret =
     write1 (Redis2_sadd_members key members) key ret"

definition Redis2P_scard :: "string \<Rightarrow> int ptr \<Rightarrow> (bool \<times> int ptr) part_call" where
  "Redis2P_scard key ret =
     read1 (Redis2_scard key) key ret"

definition Redis2P_sismember :: "string \<Rightarrow> string \<Rightarrow> int ptr \<Rightarrow> (bool \<times> int ptr) part_call" where
  "Redis2P_sismember key member ret =
     read1 (Redis2_sismember key member) key ret"

definition Redis2P_smembers :: "string \<Rightarrow> mbulk ptr \<Rightarrow> (bool \<times> mbulk ptr) part_call" where
  "Redis2P_smembers key ret =
     read1 (Redis2_smembers key) key ret"

definition Redis2P_spop :: "string \<Rightarrow> string ptr \<Rightarrow> bool ptr \<Rightarrow> (bool \<times> string ptr \<times> bool ptr) part_call" where
  "Redis2P_spop key ret is_nil =
     write2 (Redis2_spop key) key ret is_nil"

definition Redis2P_srandmember :: "string \<Rightarrow> string ptr \<Rightarrow> bool ptr \<Rightarrow> (bool \<times> string ptr \<times> bool ptr) part_call" where
  "Redis2P_srandmember key ret is_nil =
     read2 (Redis2_srandmember key) key ret is_nil"

definition Redis2P_srem :: "string \<Rightarrow> string \<Rightarrow> int ptr \<Rightarrow> (bool \<times> int ptr) part_call" where
  "Redis2P_srem key member ret =
     write1 (Redis2_srem key member) key ret"

definition Redis2P_srem_members :: "string \<Rightarrow> string list \<Rightarrow> int ptr \<Rightarrow> (bool \<times> int ptr) part_call" where
  "Redis2P_srem_members key members ret =
     write1 (Redis2_srem_members key members) key ret"

section \<open>Sorted sets\<close>

definition Redis2P_zadd :: "string \<Rightarrow> 64 word \<Rightarrow> string \<Rightarrow> int ptr \<Rightarrow> (bool \<times> int ptr) part_call" where
  "Redis2P_zadd key score member ret =
     write1 (Redis2_zadd key score member) key ret"

definition Redis2P_zadd_scores ::
  "string \<Rightarrow> 64 word list \<Rightarrow> string list \<Rightarrow> int ptr \<Rightarrow> (bool \<times> int ptr) part_call" where
  "Redis2P_zadd_scores key scores members ret =
     P_CHECK_PTR_PARAM ret (False, ret) (P_CHECK_EXPR (length scores = length members) (False, ret)
       (FOR_EACH_GROUP_WRITE (Redis2_zadd_scores key scores members) key ret))"

definition Redis2P_zcard :: "string \<Rightarrow> int ptr \<Rightarrow> (bool \<times> int ptr) part_call" where
  "Redis2P_zcard key ret =
     read1 (Redis2_zcard key) key ret"

definition Redis2P_zcount :: "string \<Rightarrow> string \<Rightarrow> string \<Rightarrow> int ptr \<Rightarrow> (bool \<times> int ptr) part_call" where
  "Redis2P_zcount key mn mx ret =
     read1 (Redis2_zcount key mn mx) key ret"

definition Redis2P_zincrby :: "string \<Rightarrow> 64 word \<Rightarrow> string \<Rightarrow> 64 word ptr \<Rightarrow> (bool \<times> 64 word ptr) part_call" where
  "Redis2P_zincrby key increment member ret =
     write1 (Redis2_zincrby key increment member) key ret"

definition Redis2P_zrange :: "string \<Rightarrow> int \<Rightarrow> int \<Rightarrow> bool \<Rightarrow> mbulk ptr \<Rightarrow> (bool \<times> mbulk ptr) part_call" where
  "Redis2P_zrange key start stop withscores ret =
     read1 (Redis2_zrange key start stop withscores) key ret"

definition Redis2P_zrevrange :: "string \<Rightarrow> int \<Rightarrow> int \<Rightarrow> bool \<Rightarrow> mbulk ptr \<Rightarrow> (bool \<times> mbulk ptr) part_call" where
  "Redis2P_zrevrange key start stop withscores ret =
     read1 (Redis2_zrevrange key start stop withscores) key ret"

definition Redis2P_zrangebyscore :: "string \<Rightarrow> string \<Rightarrow> string \<Rightarrow> bool \<Rightarrow> ZRangebyscoreLimit ptr \<Rightarrow> mbulk ptr \<Rightarrow> (bool \<times> mbulk ptr) part_call" where
  "Redis2P_zrangebyscore key mn mx withscores limit ret =
     read1 (Redis2_zrangebyscore key mn mx withscores limit) key ret"

definition Redis2P_zrevrangebyscore :: "string \<Rightarrow> string \<Rightarrow> string \<Rightarrow> bool \<Rightarrow> ZRangebyscoreLimit ptr \<Rightarrow> mbulk ptr \<Rightarrow> (bool \<times> mbulk ptr) part_call" where
  "Redis2P_zrevrangebyscore key mx mn withscores limit ret =
     read1 (Redis2_zrevrangebyscore key mx mn withscores limit) key ret"

definition Redis2P_zrank :: "string \<Rightarrow> string \<Rightarrow> int ptr \<Rightarrow> bool ptr \<Rightarrow> (bool \<times> int ptr \<times> bool ptr) part_call" where
  "Redis2P_zrank key member ret not_exists =
     read2 (Redis2_zrank key member) key ret not_exists"

definition Redis2P_zrevrank :: "string \<Rightarrow> string \<Rightarrow> int ptr \<Rightarrow> bool ptr \<Rightarrow> (bool \<times> int ptr \<times> bool ptr) part_call" where
  "Redis2P_zrevrank key member ret not_exists =
     read2 (Redis2_zrevrank key member) key ret not_exists"

definition Redis2P_zrem :: "string \<Rightarrow> string \<Rightarrow> int ptr \<Rightarrow> (bool \<times> int ptr) part_call" where
  "Redis2P_zrem key member ret =
     write1 (Redis2_zrem key member) key ret"

definition Redis2P_zrem_members :: "string \<Rightarrow> string list \<Rightarrow> int ptr \<Rightarrow> (bool \<times> int ptr) part_call" where
  "Redis2P_zrem_members key members ret =
     write1 (Redis2_zrem_members key members) key ret"

definition Redis2P_zremrangebyrank :: "string \<Rightarrow> int \<Rightarrow> int \<Rightarrow> int ptr \<Rightarrow> (bool \<times> int ptr) part_call" where
  "Redis2P_zremrangebyrank key start stop ret =
     write1 (Redis2_zremrangebyrank key start stop) key ret"

definition Redis2P_zremrangebyscore :: "string \<Rightarrow> string \<Rightarrow> string \<Rightarrow> int ptr \<Rightarrow> (bool \<times> int ptr) part_call" where
  "Redis2P_zremrangebyscore key mn mx ret =
     write1 (Redis2_zremrangebyscore key mn mx) key ret"

text \<open>\<open>zscore\<close> checks \<open>_return\<close> only.\<close>

definition Redis2P_zscore :: "string \<Rightarrow> string \<Rightarrow> 64 word ptr \<Rightarrow> bool ptr
    \<Rightarrow> (bool \<times> 64 word ptr \<times> bool ptr) part_call" where
  "Redis2P_zscore key member ret is_nil =
     P_CHECK_PTR_PARAM ret (False, ret, is_nil)
       (FOR_EACH_GROUP_READ (\<lambda>(a, b). Redis2_zscore key member a b) key (ret, is_nil))"

section \<open>All hosts\<close>

text \<open>The loops over every host: failures are noted and the loop goes on.\<close>

fun all_hosts :: "bool client_call \<Rightarrow> nat list \<Rightarrow> bool \<Rightarrow> bool part_call" where
  "all_hosts f [] ret p w = Some (ret, p, w)"
| "all_hosts f (i # is) ret p w = do {
     (ok, p, w) \<leftarrow> call_host i f p w;
     if \<not> ok then all_hosts f is False (set_host_error (redis2_sp_vector p ! i) p) w
     else all_hosts f is ret p w
   }"

definition Redis2P_select :: "int \<Rightarrow> bool part_call" where
  "Redis2P_select index p w = all_hosts (Redis2_select index) [0..<length (redis2_sp_vector p)] True p w"

definition Redis2P_flushall :: "bool part_call" where
  "Redis2P_flushall p w = all_hosts Redis2_flushall [0..<length (redis2_sp_vector p)] True p w"

definition Redis2P_flushdb :: "bool part_call" where
  "Redis2P_flushdb p w = all_hosts Redis2_flushdb [0..<length (redis2_sp_vector p)] True p w"

end
