(* ===== verification/Partition_Spec.thy ===== *)
theory Partition_Spec
  imports Redis_Partition
begin

text \<open>
  What the partition client promises: the constructor accepts only layouts in which every key
  has a host in every group; a key is always served by the same position of each group; a write
  reaches every group once; hosts of other positions are never touched; a read returns the
  answer of the first group that gives one.
\<close>

section \<open>Layout\<close>

definition host_num :: "Redis2P \<Rightarrow> nat" where
  "host_num p = length (redis2_sp_vector p) div groups p"

definition part_inv :: "Redis2P \<Rightarrow> bool" where
  "part_inv p \<longleftrightarrow> groups p \<noteq> 0 \<and> redis2_sp_vector p \<noteq> [] \<and> length (redis2_sp_vector p) mod groups p = 0
     \<and> length (hosts p) = length (redis2_sp_vector p) \<and> length (ports p) = length (redis2_sp_vector p)"

lemma part_inv_size:
  assumes "part_inv p"
  shows "length (redis2_sp_vector p) = host_num p * groups p" "0 < host_num p" "0 < groups p"
proof -
  show len: "length (redis2_sp_vector p) = host_num p * groups p"
    using assms by (metis host_num_def part_inv_def mod_div_mult_eq add_0)
  show "0 < groups p" using assms by (simp add: part_inv_def)
  show "0 < host_num p" using assms len by (cases "host_num p") (auto simp: part_inv_def)
qed

text \<open>The positions of a key: the same place in every group.\<close>

definition key_hosts :: "string \<Rightarrow> Redis2P \<Rightarrow> nat set" where
  "key_hosts key p = (\<lambda>g. unat (hash_fn p key) mod host_num p + host_num p * g) ` {..<groups p}"

lemma key_host_index:
  "part_inv p \<Longrightarrow> get_key_host_index key p = Some (unat (hash_fn p key) mod host_num p)"
  using part_inv_size [of p] by (simp add: get_key_host_index_def host_num_def)

lemma position_bound:
  assumes "part_inv p" "h < host_num p" "g < groups p"
  shows "h + host_num p * g < length (redis2_sp_vector p)"
proof -
  have "h + host_num p * g < host_num p * Suc g" using assms(2) by simp
  also have "\<dots> \<le> host_num p * groups p" using assms(3) by (intro mult_le_mono2) simp
  finally show ?thesis using part_inv_size(1) [OF assms(1)] by simp
qed

lemma key_hosts_bound: "part_inv p \<Longrightarrow> i \<in> key_hosts key p \<Longrightarrow> i < length (redis2_sp_vector p)"
  using part_inv_size(2) [of p] by (auto simp: key_hosts_def intro!: position_bound)

lemma position_mod: "h < n \<Longrightarrow> (h + n * g) mod n = (h::nat)" "h < n \<Longrightarrow> (h + n * g) div n = g"
  by simp_all

text \<open>Rotating the groups visits each of them once.\<close>

lemma rotation_inj:
  fixes s n :: nat
  assumes "i < n" "j < n" "(s + i) mod n = (s + j) mod n"
  shows "i = j"
proof -
  have *: "i = j" if "i \<le> j" "i < n" "j < n" "(s + j) mod n = (s + i) mod n" for i j
  proof -
    have "n dvd (s + j) - (s + i)" using that by (subst mod_eq_dvd_iff_nat [symmetric]) auto
    then have "n dvd j - i" by simp
    with that show ?thesis by (auto dest: dvd_imp_le)
  qed
  show ?thesis using assms * [of i j] * [of j i] by (cases "i \<le> j") auto
qed

lemma rotation:
  fixes s n :: nat
  assumes "0 < n"
  shows "distinct (map (\<lambda>i. (s + i) mod n) [0..<n])" "set (map (\<lambda>i. (s + i) mod n) [0..<n]) = {..<n}"
proof -
  have inj: "inj_on (\<lambda>i. (s + i) mod n) {0..<n}" by (rule inj_onI) (auto intro: rotation_inj)
  then show "distinct (map (\<lambda>i. (s + i) mod n) [0..<n])" by (simp add: distinct_map)
  have "(\<lambda>i. (s + i) mod n) ` {0..<n} \<subseteq> {..<n}" using assms by auto
  moreover have "card ((\<lambda>i. (s + i) mod n) ` {0..<n}) = card {..<n}" using card_image [OF inj] by simp
  ultimately show "set (map (\<lambda>i. (s + i) mod n) [0..<n]) = {..<n}" by (simp add: card_subset_eq)
qed

text \<open>The sum of the seed and a group number does not wrap.\<close>

definition seed_ok :: "Redis2P \<Rightarrow> world \<Rightarrow> bool" where
  "seed_ok p w \<longleftrightarrow> get_seed w + groups p \<le> 2 ^ 64"

lemma get_key_client_covers:
  assumes "part_inv p" "seed_ok p w"
  obtains hs where "get_key_client key True p w = Some ((True, hs), p)" "distinct hs"
    "set hs = key_hosts key p" "length hs = groups p"
proof -
  let ?h = "unat (hash_fn p key) mod host_num p" and ?s = "get_seed w" and ?n = "groups p"
  define gs where "gs = map (\<lambda>i. (?s + i) mod ?n) [0..<?n]"
  define hs where "hs = map (\<lambda>g. ?h + host_num p * g) gs"
  have n: "0 < ?n" "0 < host_num p" using part_inv_size [OF assms(1)] by auto
  have add: "size_add ?s i = ?s + i" if "i < ?n" for i
    using that assms(2) by (intro size_add_id) (simp add: seed_ok_def)
  have eq: "map (\<lambda>i. ?h + host_num p * (size_add ?s i mod ?n)) [0..<?n] = hs"
    unfolding hs_def gs_def by (simp add: add)
  have ne: "hs \<noteq> []" using n by (simp add: hs_def gs_def)
  have "get_key_client key True p w = Some ((True, hs), p)"
    using key_host_index [OF assms(1)] eq ne n(1) by (simp add: get_key_client_def host_num_def Let_def)
  moreover have "inj_on (\<lambda>g. ?h + host_num p * g) (set gs)" using n(2) by (auto simp: inj_on_def)
  then have "distinct hs"
    using rotation(1) [OF n(1), of ?s] unfolding hs_def distinct_map gs_def [symmetric] by simp
  moreover have "set hs = key_hosts key p"
    unfolding hs_def set_map key_hosts_def gs_def rotation(2) [OF n(1), unfolded set_map] by (rule refl)
  moreover have "length hs = ?n" by (simp add: hs_def gs_def)
  ultimately show ?thesis by (rule that)
qed

section \<open>The contract of a host method\<close>

text \<open>
  What the loops over hosts need of the method they call: it keeps an invariant of the single
  client.  The loops then keep it for every host, and touch only the hosts they are given.
\<close>

locale host_method =
  fixes inv :: "Redis2 \<Rightarrow> bool"
    and f :: "'o \<Rightarrow> (bool \<times> 'o) client_call"
  assumes keeps: "inv r \<Longrightarrow> whenever (f cells r w) (\<lambda>(res, r', w'). inv r')"
begin

lemma call_host_keeps:
  assumes "list_all inv (redis2_sp_vector p)"
  shows "whenever (call_host i (f cells) p w) (\<lambda>(res, p', w'). list_all inv (redis2_sp_vector p'))"
proof (cases "i < length (redis2_sp_vector p)")
  case True
  then have "inv (redis2_sp_vector p ! i)" using assms by (simp add: list_all_length)
  from keeps [OF this, of cells w] True assms show ?thesis
    by (cases "f cells (redis2_sp_vector p ! i) w")
      (auto simp: call_host_def list_all_length nth_list_update)
qed (simp add: call_host_def)

lemma for_each_write_keeps:
  "list_all inv (redis2_sp_vector p) \<Longrightarrow> whenever (for_each_write f hs cells p w) (\<lambda>(res, p', w'). list_all inv (redis2_sp_vector p'))"
proof (induction hs arbitrary: cells p w)
  case (Cons i hs)
  show ?case
  proof (cases "call_host i (f cells) p w")
    case (Some x)
    obtain ret cells' p' w' where x: "x = ((ret, cells'), p', w')" by (cases x) auto
    have "list_all inv (redis2_sp_vector p')" using call_host_keeps [OF Cons.prems, of i cells w] Some x by simp
    with Cons.IH Some x show ?thesis
      by (auto simp: set_index_error_def whenever_if)
  qed simp
qed simp

lemma for_each_read_keeps:
  "list_all inv (redis2_sp_vector p) \<Longrightarrow> whenever (for_each_read f hs cells p w) (\<lambda>(res, p', w'). list_all inv (redis2_sp_vector p'))"
proof (induction hs arbitrary: cells p w)
  case (Cons i hs)
  show ?case
  proof (cases "call_host i (f cells) p w")
    case (Some x)
    obtain ret cells' p' w' where x: "x = ((ret, cells'), p', w')" by (cases x) auto
    have "list_all inv (redis2_sp_vector p')" using call_host_keeps [OF Cons.prems, of i cells w] Some x by simp
    with Cons.IH [of "p'\<lparr>pt_error := e\<rparr>" for e] Some x show ?thesis
      by (auto simp: set_index_error_def)
  qed simp
qed simp

end


section \<open>Isolation of the partitions\<close>

text \<open>Only the hosts of \<open>H\<close> may differ between the two states.\<close>

definition only_hosts :: "nat set \<Rightarrow> Redis2P \<Rightarrow> Redis2P \<Rightarrow> bool" where
  "only_hosts H p p' \<longleftrightarrow> length (redis2_sp_vector p') = length (redis2_sp_vector p)
     \<and> groups p' = groups p \<and> hash_fn p' = hash_fn p \<and> hosts p' = hosts p \<and> ports p' = ports p
     \<and> (\<forall>j. j \<notin> H \<longrightarrow> redis2_sp_vector p' ! j = redis2_sp_vector p ! j)"

lemma only_hosts_refl [simp]: "only_hosts H p p"
  by (simp add: only_hosts_def)

lemma only_hosts_trans: "only_hosts H p q \<Longrightarrow> only_hosts H q r \<Longrightarrow> only_hosts H p r"
  by (simp add: only_hosts_def)

lemma only_hosts_error [simp]:
  "only_hosts H p (q\<lparr>pt_error := e\<rparr>) = only_hosts H p q"
  "only_hosts H (p\<lparr>pt_error := e\<rparr>) q = only_hosts H p q"
  by (simp_all add: only_hosts_def)

lemma call_host_only:
  "call_host i f p w = Some (res, p', w') \<Longrightarrow> i \<in> H \<Longrightarrow> only_hosts H p p'"
  by (auto simp: call_host_def only_hosts_def bind_eq_Some_conv nth_list_update split: if_splits)

lemma for_each_write_only:
  "set hs \<subseteq> H \<Longrightarrow> whenever (for_each_write f hs cells p w) (\<lambda>(res, p', w'). only_hosts H p p')"
proof (induction hs arbitrary: cells p w)
  case (Cons i hs)
  show ?case
  proof (cases "call_host i (f cells) p w")
    case (Some x)
    obtain ret cells' p' w' where x: "x = ((ret, cells'), p', w')" by (cases x) auto
    have o: "only_hosts H p p'" using call_host_only Some x Cons.prems by fastforce
    have "whenever (for_each_write f hs cells' p' w') (\<lambda>(res, p'', w''). only_hosts H p p'')"
      using Cons.IH [of cells' p' w'] Cons.prems o by (auto elim!: whenever_mono intro: only_hosts_trans)
    with Some x o show ?thesis by (auto simp: set_index_error_def)
  qed simp
qed simp

lemma for_each_read_only:
  "set hs \<subseteq> H \<Longrightarrow> whenever (for_each_read f hs cells p w) (\<lambda>(res, p', w'). only_hosts H p p')"
proof (induction hs arbitrary: cells p w)
  case (Cons i hs)
  show ?case
  proof (cases "call_host i (f cells) p w")
    case (Some x)
    obtain ret cells' p' w' where x: "x = ((ret, cells'), p', w')" by (cases x) auto
    have o: "only_hosts H p p'" using call_host_only Some x Cons.prems by fastforce
    have "whenever (for_each_read f hs cells' (p'\<lparr>pt_error := e\<rparr>) w') (\<lambda>(res, p'', w''). only_hosts H p p'')" for e
      using Cons.IH [of cells' "p'\<lparr>pt_error := e\<rparr>" w'] Cons.prems o
      by (auto elim!: whenever_mono intro: only_hosts_trans)
    with Some x o show ?thesis by (auto simp: set_index_error_def)
  qed simp
qed simp

section \<open>Reads fail over\<close>

text \<open>The calls of a read that fail: every host of the list in turn is asked, in the state the call
  before left, answers \<open>false\<close>, and its error becomes the error of the partition client.\<close>

fun failed_steps :: "('o \<Rightarrow> (bool \<times> 'o) client_call) \<Rightarrow> nat list \<Rightarrow> 'o \<Rightarrow> Redis2P \<Rightarrow> world
    \<Rightarrow> 'o \<Rightarrow> Redis2P \<Rightarrow> world \<Rightarrow> bool" where
  "failed_steps f [] c p w c' p' w' = (c' = c \<and> p' = p \<and> w' = w)"
| "failed_steps f (i # hs) c p w c' p' w' =
     (\<exists>c1 p1 w1 p2. call_host i (f c) p w = Some ((False, c1), p1, w1) \<and> set_index_error i p1 = Some p2
       \<and> failed_steps f hs c1 p2 w1 c' p' w')"

lemma for_each_read_fails:
  "for_each_read f hs c p w = Some ((False, c'), p', w') \<longleftrightarrow> failed_steps f hs c p w c' p' w'"
  by (induction hs arbitrary: c p w) (auto simp: bind_eq_Some_conv split: if_splits)

lemma for_each_read_returns:
  "for_each_read f hs c p w = Some ((True, c'), p', w') \<longleftrightarrow>
     (\<exists>before i after c1 p1 w1. hs = before @ i # after \<and> failed_steps f before c p w c1 p1 w1
        \<and> call_host i (f c1) p1 w1 = Some ((True, c'), p', w'))" (is "_ \<longleftrightarrow> ?R hs c p w")
proof (induction hs arbitrary: c p w)
  case (Cons i hs)
  have "?R (i # hs) c p w \<longleftrightarrow> call_host i (f c) p w = Some ((True, c'), p', w')
      \<or> (\<exists>c1 p1 w1 p2. call_host i (f c) p w = Some ((False, c1), p1, w1) \<and> set_index_error i p1 = Some p2
           \<and> ?R hs c1 p2 w1)"
  proof
    assume "?R (i # hs) c p w"
    then obtain before j after c1 p1 w1 where r: "i # hs = before @ j # after"
      "failed_steps f before c p w c1 p1 w1" "call_host j (f c1) p1 w1 = Some ((True, c'), p', w')" by blast
    then show "call_host i (f c) p w = Some ((True, c'), p', w')
      \<or> (\<exists>c1 p1 w1 p2. call_host i (f c) p w = Some ((False, c1), p1, w1) \<and> set_index_error i p1 = Some p2
           \<and> ?R hs c1 p2 w1)"
      by (cases before) (simp, fastforce)
  next
    assume "call_host i (f c) p w = Some ((True, c'), p', w')
      \<or> (\<exists>c1 p1 w1 p2. call_host i (f c) p w = Some ((False, c1), p1, w1) \<and> set_index_error i p1 = Some p2
           \<and> ?R hs c1 p2 w1)"
    then show "?R (i # hs) c p w"
    proof
      assume "call_host i (f c) p w = Some ((True, c'), p', w')"
      then show ?thesis by (intro exI [of _ "[]"] exI [of _ i] exI [of _ hs]) auto
    next
      assume "\<exists>c1 p1 w1 p2. call_host i (f c) p w = Some ((False, c1), p1, w1) \<and> set_index_error i p1 = Some p2
           \<and> ?R hs c1 p2 w1"
      then obtain c1 p1 w1 p2 before j after c3 p3 w3 where
        s: "call_host i (f c) p w = Some ((False, c1), p1, w1)" "set_index_error i p1 = Some p2"
          "hs = before @ j # after" "failed_steps f before c1 p2 w1 c3 p3 w3"
          "call_host j (f c3) p3 w3 = Some ((True, c'), p', w')" by blast
      then have "failed_steps f (i # before) c p w c3 p3 w3" by auto
      with s show ?thesis by (intro exI [of _ "i # before"]) auto
    qed
  qed
  moreover have "for_each_read f (i # hs) c p w = Some ((True, c'), p', w') \<longleftrightarrow>
      call_host i (f c) p w = Some ((True, c'), p', w')
      \<or> (\<exists>c1 p1 w1 p2. call_host i (f c) p w = Some ((False, c1), p1, w1) \<and> set_index_error i p1 = Some p2
           \<and> for_each_read f hs c1 p2 w1 = Some ((True, c'), p', w'))"
    by (cases "call_host i (f c) p w") (auto simp: bind_eq_Some_conv split: if_splits)
  ultimately show ?case by (simp only: Cons.IH)
qed simp

text \<open>A write that succeeds has succeeded on every host of the list.\<close>

fun write_steps :: "('o \<Rightarrow> (bool \<times> 'o) client_call) \<Rightarrow> nat list \<Rightarrow> 'o \<Rightarrow> Redis2P \<Rightarrow> world
    \<Rightarrow> 'o \<Rightarrow> Redis2P \<Rightarrow> world \<Rightarrow> bool" where
  "write_steps f [] c p w c' p' w' = (c' = c \<and> p' = p \<and> w' = w)"
| "write_steps f (i # hs) c p w c' p' w' =
     (\<exists>c1 p1 w1. call_host i (f c) p w = Some ((True, c1), p1, w1) \<and> write_steps f hs c1 p1 w1 c' p' w')"

lemma for_each_write_all:
  "for_each_write f hs c p w = Some ((True, c'), p', w') \<longleftrightarrow> write_steps f hs c p w c' p' w'"
  by (induction hs arbitrary: c p w) (auto simp: bind_eq_Some_conv split: if_splits)

section \<open>The constructor\<close>

text \<open>The lists of hosts and ports that \<open>multi_init\<close> accepts: one port for each host, or one port for
  all hosts.\<close>

definition lists_match :: "string list \<Rightarrow> string list \<Rightarrow> bool" where
  "lists_match hs ps \<longleftrightarrow> length ps = length hs \<or> length ps = 1"

definition spread_ports :: "string list \<Rightarrow> string list \<Rightarrow> string list" where
  "spread_ports hs ps = (if length ps = 1 then replicate (length hs) (ps ! 0) else ps)"

lemma multi_init_matches:
  assumes "split (CHR '','') hl \<noteq> []" "lists_match (split (CHR '','') hl) (split (CHR '','') pl)"
  shows "multi_init split hl pl
    = Inr (split (CHR '','') hl, spread_ports (split (CHR '','') hl) (split (CHR '','') pl))"
proof -
  obtain h hs where hs: "split (CHR '','') hl = h # hs" using assms(1) by (cases "split (CHR '','') hl") auto
  show ?thesis
  proof (cases "length (split (CHR '','') pl) = 1")
    case True
    then obtain q where "split (CHR '','') pl = [q]" by (cases "split (CHR '','') pl") auto
    with hs show ?thesis by (auto simp: multi_init_def Let_def spread_ports_def)
  next
    case False
    with assms(2) show ?thesis by (simp add: multi_init_def Let_def spread_ports_def lists_match_def)
  qed
qed

lemma multi_init_throws:
  assumes "\<not> lists_match (split (CHR '','') hl) (split (CHR '','') pl)"
  shows "\<exists>e. multi_init split hl pl = Inl e"
  using assms by (auto simp: multi_init_def Let_def lists_match_def)

lemma spread_ports_length: "lists_match hs ps \<Longrightarrow> length (spread_ports hs ps) = length hs"
  by (auto simp: lists_match_def spread_ports_def)

text \<open>When the constructor accepts its parameters, and the object it returns then.\<close>

definition layout_ok :: "string list \<Rightarrow> string list \<Rightarrow> nat \<Rightarrow> bool" where
  "layout_ok hs ps d \<longleftrightarrow> lists_match hs ps \<and> d \<noteq> 0 \<and> d \<le> length hs \<and> length hs mod (length hs div d) = 0"

lemma new_Redis2P_accepts:
  assumes "split (CHR '','') hl = hs" "split (CHR '','') pl = ps" "hs \<noteq> []" "layout_ok hs ps (size_of_int n)"
  shows "new_Redis2P split hl pl index t n fn = Inr
      \<lparr>hosts = hs, ports = spread_ports hs ps, pt_error = [], partitions = size_of_int n, hash_fn = fn,
       groups = length hs div size_of_int n,
       redis2_sp_vector = map2 (\<lambda>h q. new_Redis2 h q index t) hs (spread_ports hs ps)\<rparr>"
proof -
  have "length hs div size_of_int n \<noteq> 0" using assms(4) by (auto simp: layout_ok_def div_eq_0_iff)
  then show ?thesis using assms multi_init_matches [of split hl pl]
    by (simp add: new_Redis2P_def inner_init_def Let_def layout_ok_def split_def del: split_conv)
qed

lemma new_Redis2P_throws:
  assumes "split (CHR '','') hl = hs" "split (CHR '','') pl = ps" "hs \<noteq> []" "\<not> layout_ok hs ps (size_of_int n)"
  shows "\<exists>e. new_Redis2P split hl pl index t n fn = Inl e"
proof (cases "lists_match hs ps")
  case True
  with assms(4) have "size_of_int n = 0 \<or> length hs div size_of_int n = 0
      \<or> length hs mod (length hs div size_of_int n) \<noteq> 0"
    by (auto simp: layout_ok_def div_eq_0_iff)
  with True assms(1-3) multi_init_matches [of split hl pl] show ?thesis
    by (auto simp: new_Redis2P_def inner_init_def Let_def)
next
  case False
  with assms(1,2) multi_init_throws [of split hl pl] show ?thesis by (auto simp: new_Redis2P_def)
qed

lemma accepted_part_inv:
  assumes "hs \<noteq> []" "layout_ok hs ps d" "hosts p = hs" "ports p = spread_ports hs ps" "groups p = length hs div d"
    and "redis2_sp_vector p = map2 (\<lambda>h q. new_Redis2 h q index t) hs (spread_ports hs ps)"
  shows "part_inv p"
proof -
  have l: "length (spread_ports hs ps) = length hs" using assms(2) by (simp add: layout_ok_def spread_ports_length)
  have "length hs div d \<noteq> 0" using assms(2) by (auto simp: layout_ok_def div_eq_0_iff)
  with l assms show ?thesis by (auto simp: part_inv_def layout_ok_def)
qed

end
