(* ===== verification/Partition_Inv.thy ===== *)
theory Partition_Inv
  imports Partition_Spec Redis2_Inv
begin

text \<open>
  Every method of the partition client keeps the layout and the invariants of the clients of
  its hosts, and changes only the clients of the hosts its keys select.  The loops over the
  hosts are those of the locale \<open>host_method\<close>, interpreted here on the bodies of the methods of
  the single client.
\<close>

section \<open>The methods of the single client meet the contract of the loops\<close>

lemma host_methodI: "(\<And>cells. keeps_inv (f cells)) \<Longrightarrow> host_method client_inv f"
  by unfold_locales (simp add: keeps_inv_def)

interpretation integer_host: host_method client_inv "\<lambda>ret. integer_command ret c" for c
  by (rule host_methodI) (intro keeps_rules)

interpretation mbulks_host: host_method client_inv "\<lambda>ret. mbulks_command ret c" for c
  by (rule host_methodI) (intro keeps_rules)

interpretation double_host: host_method client_inv "\<lambda>ret. double_command ret c" for c
  by (rule host_methodI) (intro keeps_rules)

interpretation bulk_host: host_method client_inv "\<lambda>(ret, nil). bulk_command ret nil c" for c
  by (rule host_methodI) (auto intro!: keeps_rules)

lemma no_cells_keeps [keeps_rules]: "keeps_inv m \<Longrightarrow> keeps_inv (no_cells m u)"
  by (rule keeps_invI) (auto simp: no_cells_def bind_eq_Some_conv dest: keeps_invD)

interpretation status_host: host_method client_inv "no_cells (status_command c)" for c
  by (rule host_methodI) (intro keeps_rules)

section \<open>Confinement\<close>

definition part_ok :: "Redis2P \<Rightarrow> bool" where
  "part_ok p \<longleftrightarrow> part_inv p \<and> list_all client_inv (redis2_sp_vector p)"

definition confined :: "(Redis2P \<Rightarrow> nat set) \<Rightarrow> 'r part_call \<Rightarrow> bool" where
  "confined H m \<longleftrightarrow> (\<forall>p w. part_ok p \<longrightarrow>
     whenever (m p w) (\<lambda>(res, p', w'). only_hosts (H p) p p' \<and> part_ok p'))"

named_theorems confined_rules

lemma part_inv_only: "only_hosts H p p' \<Longrightarrow> part_inv p' = part_inv p"
  unfolding part_inv_def only_hosts_def by (metis length_0_conv)

lemma host_num_only: "only_hosts H p p' \<Longrightarrow> host_num p' = host_num p"
  by (simp add: only_hosts_def host_num_def)

lemma key_hosts_only: "only_hosts H p p' \<Longrightarrow> key_hosts key p' = key_hosts key p"
  using host_num_only [of H p p'] by (simp add: only_hosts_def key_hosts_def)

lemma part_ok_error [simp]: "part_ok (p\<lparr>pt_error := e\<rparr>) = part_ok p"
  by (simp add: part_ok_def part_inv_def)

lemma confinedI:
  "(\<And>p w res p' w'. part_ok p \<Longrightarrow> m p w = Some (res, p', w') \<Longrightarrow> only_hosts (H p) p p' \<and> part_ok p')
   \<Longrightarrow> confined H m"
  by (auto simp: confined_def whenever_iff)

lemma confinedD:
  "confined H m \<Longrightarrow> m p w = Some (res, p', w') \<Longrightarrow> part_ok p \<Longrightarrow> only_hosts (H p) p p' \<and> part_ok p'"
  by (fastforce simp: confined_def whenever_iff)

lemma get_key_client_range:
  assumes "part_inv p" "get_key_client key True p w = Some ((ok, hs), p')"
  shows "set hs \<subseteq> key_hosts key p" "\<exists>e. p' = p\<lparr>pt_error := e\<rparr>"
proof -
  have "hs = map (\<lambda>i. unat (hash_fn p key) mod host_num p
      + host_num p * (size_add (get_seed w) i mod groups p)) [0..<groups p]"
    using assms(2) key_host_index [OF assms(1), of key]
    by (auto simp: get_key_client_def Let_def host_num_def [symmetric] split: if_splits)
  then show "set hs \<subseteq> key_hosts key p"
    using part_inv_size(3) [OF assms(1)] unfolding key_hosts_def by (auto intro: imageI)
  show "\<exists>e. p' = p\<lparr>pt_error := e\<rparr>"
    using assms(2) by (auto simp: get_key_client_def Let_def bind_eq_Some_conv split: if_splits
        intro: exI [of _ "pt_error p"])
qed

lemma loops_confined:
  assumes "host_method client_inv f" "part_ok p" "set hs \<subseteq> H"
  shows "whenever (for_each_write f hs cells p w) (\<lambda>(res, p', w'). only_hosts H p p' \<and> part_ok p')"
    and "whenever (for_each_read f hs cells p w) (\<lambda>(res, p', w'). only_hosts H p p' \<and> part_ok p')"
proof -
  have l: "list_all client_inv (redis2_sp_vector p)" "part_inv p" using assms(2) by (auto simp: part_ok_def)
  show "whenever (for_each_write f hs cells p w) (\<lambda>(res, p', w'). only_hosts H p p' \<and> part_ok p')"
    using host_method.for_each_write_keeps [OF assms(1) l(1), of hs cells w]
      for_each_write_only [OF assms(3), of f cells p w] l(2)
    by (cases "for_each_write f hs cells p w") (auto simp: part_ok_def part_inv_only)
  show "whenever (for_each_read f hs cells p w) (\<lambda>(res, p', w'). only_hosts H p p' \<and> part_ok p')"
    using host_method.for_each_read_keeps [OF assms(1) l(1), of hs cells w]
      for_each_read_only [OF assms(3), of f cells p w] l(2)
    by (cases "for_each_read f hs cells p w") (auto simp: part_ok_def part_inv_only)
qed

lemma group_macros_confined [confined_rules]:
  assumes "\<And>cells. keeps_inv (f cells)"
  shows "confined (key_hosts key) (FOR_EACH_GROUP_WRITE f key cells)"
    and "confined (key_hosts key) (FOR_EACH_GROUP_READ f key cells)"
proof -
  have hm: "host_method client_inv f" using assms by (rule host_methodI)
  show "confined (key_hosts key) (FOR_EACH_GROUP_WRITE f key cells)"
  proof (rule confinedI)
    fix p w res p' w'
    assume ok: "part_ok p" and "FOR_EACH_GROUP_WRITE f key cells p w = Some (res, p', w')"
    then obtain found hs q where g: "get_key_client key True p w = Some ((found, hs), q)"
      and run: "if \<not> found then (res, p', w') = ((False, cells), q, w)
        else for_each_write f hs cells q w = Some (res, p', w')"
      by (auto simp: FOR_EACH_GROUP_WRITE_def bind_eq_Some_conv split: if_splits)
    from get_key_client_range [OF _ g] ok obtain e where e: "q = p\<lparr>pt_error := e\<rparr>" "set hs \<subseteq> key_hosts key p"
      by (auto simp: part_ok_def)
    with loops_confined(1) [OF hm, of q hs "key_hosts key p" cells w] ok run
    show "only_hosts (key_hosts key p) p p' \<and> part_ok p'" by (auto split: if_splits)
  qed
  show "confined (key_hosts key) (FOR_EACH_GROUP_READ f key cells)"
  proof (rule confinedI)
    fix p w res p' w'
    assume ok: "part_ok p" and "FOR_EACH_GROUP_READ f key cells p w = Some (res, p', w')"
    then obtain found hs q where g: "get_key_client key True p w = Some ((found, hs), q)"
      and run: "if \<not> found then (res, p', w') = ((False, cells), q, w)
        else for_each_read f hs cells q w = Some (res, p', w')"
      by (auto simp: FOR_EACH_GROUP_READ_def bind_eq_Some_conv split: if_splits)
    from get_key_client_range [OF _ g] ok obtain e where e: "q = p\<lparr>pt_error := e\<rparr>" "set hs \<subseteq> key_hosts key p"
      by (auto simp: part_ok_def)
    with loops_confined(2) [OF hm, of q hs "key_hosts key p" cells w] ok run
    show "only_hosts (key_hosts key p) p p' \<and> part_ok p'" by (auto split: if_splits)
  qed
qed

lemma check_confined [confined_rules]:
  "confined H k \<Longrightarrow> confined H (P_CHECK_EXPR b fail k)"
  by (rule confinedI) (auto simp: P_CHECK_EXPR_def P_last_error_def split: if_splits dest: confinedD)

lemma check_ptr_confined [confined_rules]:
  "confined H k \<Longrightarrow> confined H (P_CHECK_PTR_PARAM q fail k)"
  by (simp add: P_CHECK_PTR_PARAM_def check_confined)

lemma shapes_confined [confined_rules]:
  "(\<And>a. keeps_inv (f1 a)) \<Longrightarrow> confined (key_hosts key) (write1 f1 key ret)"
  "(\<And>a. keeps_inv (f1 a)) \<Longrightarrow> confined (key_hosts key) (read1 f1 key ret)"
  "(\<And>a b. keeps_inv (f2 a b)) \<Longrightarrow> confined (key_hosts key) (write2 f2 key ret2 nil)"
  "(\<And>a b. keeps_inv (f2 a b)) \<Longrightarrow> confined (key_hosts key) (read2 f2 key ret2 nil)"
  unfolding write1_def read1_def write2_def read2_def
  by (intro confined_rules; simp add: split_def)+

lemma write0_confined [confined_rules]:
  assumes "keeps_inv m"
  shows "confined (key_hosts key) (write0 m key)"
proof (rule confinedI)
  fix p w res p' w'
  assume ok: "part_ok p" and "write0 m key p w = Some (res, p', w')"
  then obtain u where "FOR_EACH_GROUP_WRITE (no_cells m) key () p w = Some ((res, u), p', w')"
    by (auto simp: write0_def drop_cells_def bind_eq_Some_conv)
  with ok show "only_hosts (key_hosts key p) p p' \<and> part_ok p'"
    using confinedD [OF group_macros_confined(1), of "no_cells m"] assms no_cells_keeps by blast
qed

section \<open>Methods of one key\<close>

lemmas keyed_defs =
  Redis2P_del_def Redis2P_dump_def Redis2P_exists_def Redis2P_expire_def Redis2P_expireat_def
  Redis2P_move_def Redis2P_persist_def Redis2P_pexpire_def Redis2P_pexpireat_def
  Redis2P_pttl_def Redis2P_restore_def Redis2P_sort_def Redis2P_ttl_def Redis2P_type_def
  Redis2P_append_def Redis2P_decr_def Redis2P_decrby_def Redis2P_get_def Redis2P_getbit_def
  Redis2P_getrange_def Redis2P_getset_def Redis2P_incr_def Redis2P_incrby_def
  Redis2P_incrbyfloat_def Redis2P_psetex_def Redis2P_set_def Redis2P_setbit_def
  Redis2P_setex_def Redis2P_setnx_def Redis2P_setrange_def Redis2P_strlen_def Redis2P_hdel_def
  Redis2P_hdel_fields_def Redis2P_hexists_def Redis2P_hget_def Redis2P_hgetall_def
  Redis2P_hincr_def Redis2P_hincrby_def Redis2P_hincrbyfloat_def Redis2P_hkeys_def
  Redis2P_hlen_def Redis2P_hmget_def Redis2P_hmset_def Redis2P_hset_def Redis2P_hsetnx_def
  Redis2P_hvals_def Redis2P_lindex_def Redis2P_linsert_def Redis2P_llen_def Redis2P_lpop_def
  Redis2P_lpush_def Redis2P_lpush_values_def Redis2P_lpushx_def Redis2P_lrange_def
  Redis2P_lrem_def Redis2P_lset_def Redis2P_ltrim_def Redis2P_rpop_def Redis2P_rpush_def
  Redis2P_rpush_values_def Redis2P_rpushx_def Redis2P_sadd_def Redis2P_sadd_members_def
  Redis2P_scard_def Redis2P_sismember_def Redis2P_smembers_def Redis2P_spop_def
  Redis2P_srandmember_def Redis2P_srem_def Redis2P_srem_members_def Redis2P_zadd_def
  Redis2P_zadd_scores_def Redis2P_zcard_def Redis2P_zcount_def Redis2P_zincrby_def
  Redis2P_zrange_def Redis2P_zrevrange_def Redis2P_zrangebyscore_def
  Redis2P_zrevrangebyscore_def Redis2P_zrank_def Redis2P_zrevrank_def Redis2P_zrem_def
  Redis2P_zrem_members_def Redis2P_zremrangebyrank_def Redis2P_zremrangebyscore_def
  Redis2P_zscore_def

section \<open>Methods of several keys\<close>

definition keys_hosts :: "string list \<Rightarrow> Redis2P \<Rightarrow> nat set" where
  "keys_hosts keys p = (\<Union>key \<in> set keys. key_hosts key p)"

lemma keys_hosts_only: "only_hosts H p p' \<Longrightarrow> keys_hosts keys p' = keys_hosts keys p"
  by (simp add: keys_hosts_def key_hosts_only)

lemma only_hosts_mono: "only_hosts H p p' \<Longrightarrow> H \<subseteq> G \<Longrightarrow> only_hosts G p p'"
  by (auto simp: only_hosts_def)

lemma confined_step:
  assumes "confined H m" "m p w = Some (res, p', w')" "part_ok p" "\<And>q. H q \<subseteq> keys_hosts keys q"
  shows "only_hosts (keys_hosts keys p) p p'" "part_ok p'"
  using confinedD [OF assms(1-3)] assms(4) by (auto intro: only_hosts_mono)

lemma get_confined: "confined (key_hosts key) (Redis2P_get key ret nil)"
  unfolding Redis2P_get_def by (intro confined_rules; (unfold method_defs)?; intro keeps_rules)

lemma set_confined: "confined (key_hosts key) (Redis2P_set key value)"
  unfolding Redis2P_set_def by (intro confined_rules; (unfold method_defs)?; intro keeps_rules)

lemma mget_loop_confined:
  "part_ok p \<Longrightarrow> set keys \<subseteq> set ks
   \<Longrightarrow> whenever (mget_loop keys v0 nil acc p w)
     (\<lambda>((ok, ret), p', w'). only_hosts (keys_hosts ks p) p p' \<and> part_ok p'
        \<and> (ok \<longrightarrow> length ret = length acc + length keys))"
proof (induction keys arbitrary: v0 nil acc p w)
  case (Cons key keys)
  have sub: "key_hosts key q \<subseteq> keys_hosts ks q" for q using Cons.prems(2) by (auto simp: keys_hosts_def)
  show ?case
  proof (cases "Redis2P_get key (Some v0) (Some nil) p w")
    case (Some x)
    then obtain ok v n q w1 where x: "x = ((ok, v, n), q, w1)" by (cases x) auto
    note step = confined_step [OF get_confined Some [unfolded x] Cons.prems(1) sub]
    have "whenever (mget_loop keys value' nil' (acc @ [y]) q w1) (\<lambda>((ok, ret), p', w').
        only_hosts (keys_hosts ks p) p p' \<and> part_ok p' \<and> (ok \<longrightarrow> length ret = Suc (length acc + length keys)))"
      for value' nil' y
      using Cons.IH [OF step(2), of value' nil' "acc @ [y]" w1] Cons.prems(2) step(1)
      by (auto elim!: whenever_mono simp: keys_hosts_only intro: only_hosts_trans)
    with Some x step show ?thesis by (cases v; cases n) (auto simp: whenever_if)
  qed simp
qed simp

lemma mset_loop_confined:
  "part_ok p \<Longrightarrow> fst ` set kvs \<subseteq> set ks
   \<Longrightarrow> whenever (mset_loop kvs p w) (\<lambda>(ok, p', w'). only_hosts (keys_hosts ks p) p p' \<and> part_ok p')"
proof (induction kvs arbitrary: p w)
  case (Cons kv kvs)
  obtain k v where kv: "kv = (k, v)" by (cases kv)
  have sub: "key_hosts k q \<subseteq> keys_hosts ks q" for q using Cons.prems(2) by (auto simp: keys_hosts_def kv)
  show ?case
  proof (cases "Redis2P_set k v p w")
    case (Some x)
    then obtain ok q w1 where x: "x = (ok, q, w1)" by (cases x) auto
    note step = confined_step [OF set_confined Some [unfolded x] Cons.prems(1) sub]
    have "whenever (mset_loop kvs q w1) (\<lambda>(ok, p', w'). only_hosts (keys_hosts ks p) p p' \<and> part_ok p')"
      using Cons.IH [OF step(2), of w1] Cons.prems(2) step(1)
      by (auto elim!: whenever_mono simp: keys_hosts_only intro: only_hosts_trans)
    with Some x step kv show ?thesis by (auto simp: whenever_if)
  qed (simp add: kv)
qed simp

lemma call_host_confined:
  assumes "call_host i m p w = Some (res, p', w')" "keeps_inv m" "part_ok p" "i \<in> H"
  shows "only_hosts H p p'" "part_ok p'"
proof -
  show o: "only_hosts H p p'" using call_host_only assms(1,4) .
  have "list_all client_inv (redis2_sp_vector p')"
    using assms(1-3) by (auto simp: call_host_def part_ok_def bind_eq_Some_conv list_all_length nth_list_update
        dest: keeps_invD split: if_splits)
  with o assms(3) show "part_ok p'" by (simp add: part_ok_def part_inv_only)
qed

lemma del_keeps: "keeps_inv (Redis2_del key ret)"
  unfolding Redis2_del_def by (intro keeps_rules)

lemma del_groups_confined:
  "part_ok p \<Longrightarrow> set hs \<subseteq> H
   \<Longrightarrow> whenever (del_groups key hs deleted p w) (\<lambda>(res, p', w'). only_hosts H p p' \<and> part_ok p')"
proof (induction hs arbitrary: deleted p w)
  case (Cons i hs)
  show ?case
  proof (cases "call_host i (Redis2_del key (Some deleted)) p w")
    case (Some x)
    then obtain ok cell q w1 where x: "x = ((ok, cell), q, w1)" by (cases x) auto
    note step = call_host_confined [OF Some [unfolded x] del_keeps Cons.prems(1), of H]
    have "whenever (del_groups key hs d q w1) (\<lambda>(res, p', w'). only_hosts H p p' \<and> part_ok p')" for d
      using Cons.IH [OF step(2), of d w1] Cons.prems(2) step(1)
      by (auto elim!: whenever_mono intro: only_hosts_trans)
    with Some x step Cons.prems(2) show ?thesis
      by (cases cell) (auto simp: whenever_if set_index_error_def)
  qed simp
qed simp

lemma del_loop_confined:
  "part_ok p \<Longrightarrow> \<forall>(key, hs) \<in> set khs. set hs \<subseteq> H
   \<Longrightarrow> whenever (del_loop khs deleted acc p w) (\<lambda>(res, p', w'). only_hosts H p p' \<and> part_ok p')"
proof (induction khs arbitrary: deleted acc p w)
  case (Cons kh khs)
  obtain key hs where kh: "kh = (key, hs)" by (cases kh)
  show ?case
  proof (cases "del_groups key hs deleted p w")
    case (Some x)
    then obtain ok d q w1 where x: "x = ((ok, d), q, w1)" by (cases x) auto
    have step: "only_hosts H p q" "part_ok q"
      using del_groups_confined [OF Cons.prems(1), of hs H key deleted w] Cons.prems(2) Some x kh by auto
    have "whenever (del_loop khs d s q w1) (\<lambda>(res, p', w'). only_hosts H p p' \<and> part_ok p')" for s
      using Cons.IH [OF step(2), of d s w1] Cons.prems(2) step(1)
      by (auto elim!: whenever_mono intro: only_hosts_trans)
    with Some x step kh show ?thesis by (auto simp: whenever_if)
  qed (simp add: kh)
qed simp

lemma keys_loop_confined:
  "part_ok p \<Longrightarrow> whenever (keys_loop pattern hs acc p w) (\<lambda>(res, p', w'). only_hosts UNIV p p' \<and> part_ok p')"
proof (induction hs arbitrary: acc p w)
  case (Cons i hs)
  show ?case
  proof (cases "call_host i (Redis2_keys pattern (Some [])) p w")
    case (Some x)
    then obtain ok mb q w1 where x: "x = ((ok, mb), q, w1)" by (cases x) auto
    have "keeps_inv (Redis2_keys pattern (Some []))" unfolding Redis2_keys_def by (intro keeps_rules)
    note step = call_host_confined [OF Some [unfolded x] this Cons.prems, of UNIV, OF UNIV_I]
    have "whenever (keys_loop pattern hs acc' q w1) (\<lambda>(res, p', w'). only_hosts UNIV p p' \<and> part_ok p')" for acc'
      using Cons.IH [OF step(2), of acc' w1] step(1) by (auto elim!: whenever_mono intro: only_hosts_trans)
    with Some x step show ?thesis
      by (cases "fst (append_mbulks (Some acc) mb)") (auto simp: whenever_if set_index_error_def)
  qed simp
qed simp

lemma all_hosts_confined:
  "part_ok p \<Longrightarrow> keeps_inv m
   \<Longrightarrow> whenever (all_hosts m hs ret p w) (\<lambda>(res, p', w'). only_hosts UNIV p p' \<and> part_ok p')"
proof (induction hs arbitrary: ret p w)
  case (Cons i hs)
  show ?case
  proof (cases "call_host i m p w")
    case (Some x)
    then obtain ok q w1 where x: "x = (ok, q, w1)" by (cases x) auto
    note step = call_host_confined [OF Some [unfolded x] Cons.prems(2,1), of UNIV, OF UNIV_I]
    have "whenever (all_hosts m hs ret' q' w1) (\<lambda>(res, p', w'). only_hosts UNIV p p' \<and> part_ok p')"
      if "q' = q \<or> (\<exists>e. q' = q\<lparr>pt_error := e\<rparr>)" for ret' q'
      using Cons.IH [of q' ret' w1] Cons.prems(2) step that by (auto elim!: whenever_mono intro: only_hosts_trans)
    with Some x step show ?thesis by (auto simp: whenever_if set_host_error_def)
  qed simp
qed simp

lemma those_map_Some: "those (map (\<lambda>x. Some (f x)) xs) = Some (map f xs)"
  by (induction xs) auto

lemma get_keys_client_range:
  assumes "part_inv p" "get_keys_client keys True p = Some ((ok, hss), p')"
  shows "\<forall>(key, hs) \<in> set (zip keys hss). set hs \<subseteq> keys_hosts keys p" "\<exists>e. p' = p\<lparr>pt_error := e\<rparr>"
proof -
  let ?f = "\<lambda>key. map (\<lambda>j. unat (hash_fn p key) mod host_num p + host_num p * j) [0..<groups p]"
  have hss: "hss = map ?f keys"
    using assms(2) key_host_index [OF assms(1)]
    by (auto simp: get_keys_client_def Let_def bind_eq_Some_conv host_num_def [symmetric] those_map_Some
        split: if_splits)
  have "set (?f key) = key_hosts key p" for key by (auto simp: key_hosts_def)
  then show "\<forall>(key, hs) \<in> set (zip keys hss). set hs \<subseteq> keys_hosts keys p"
    unfolding hss by (auto simp: set_zip keys_hosts_def simp del: set_map dest: nth_mem)
  show "\<exists>e. p' = p\<lparr>pt_error := e\<rparr>"
    using assms(2) by (auto simp: get_keys_client_def Let_def bind_eq_Some_conv split: if_splits
        intro: exI [of _ "pt_error p"])
qed

lemma get_group_client_error:
  "get_group_client p w = Some (res, p') \<Longrightarrow> \<exists>e. p' = p\<lparr>pt_error := e\<rparr>"
  by (auto simp: get_group_client_def Let_def bind_eq_Some_conv split: if_splits intro: exI [of _ "pt_error p"])

lemma mget_confined: "confined (keys_hosts keys) (Redis2P_mget keys ret)"
  unfolding Redis2P_mget_def
proof (rule check_ptr_confined, rule confinedI)
  fix p w res p' w'
  assume ok: "part_ok p" and run: "do {
      ((ok, mb), p, w) \<leftarrow> mget_loop keys [] False [] p w;
      assertion (ok \<longrightarrow> length keys = length mb);
      Some ((ok, Some mb), p, w) } = Some (res, p', w')"
  with mget_loop_confined [OF ok order_refl, of keys "[]" False "[]" w]
  show "only_hosts (keys_hosts keys p) p p' \<and> part_ok p'" by (auto simp: bind_eq_Some_conv)
qed

lemma mset_confined: "confined (keys_hosts keys) (Redis2P_mset keys values)"
  unfolding Redis2P_mset_def
proof (rule check_confined, rule confinedI)
  fix p w res p' w'
  assume "part_ok p" "mset_loop (zip keys values) p w = Some (res, p', w')"
  moreover have "fst ` set (zip keys values) \<subseteq> set keys" by (auto dest: set_zip_leftD)
  ultimately show "only_hosts (keys_hosts keys p) p p' \<and> part_ok p'"
    using mset_loop_confined [of p "zip keys values" keys w] by auto
qed

lemma del_keys_confined: "confined (keys_hosts keys) (Redis2P_del_keys keys ret)"
  unfolding Redis2P_del_keys_def
proof (rule check_ptr_confined, rule confinedI)
  fix p w res p' w'
  assume ok: "part_ok p" and run: "do {
      ((ok, index_vv), p) \<leftarrow> get_keys_client keys True p;
      if \<not> ok then Some ((False, ret), p, w)
      else do {
        ((ok, total_deleted), p, w) \<leftarrow> del_loop (zip keys index_vv) 0 0 p w;
        Some ((ok, if ok then Some total_deleted else ret), p, w)
      } } = Some (res, p', w')"
  from run obtain found hss q where g: "get_keys_client keys True p = Some ((found, hss), q)"
    by (auto simp: bind_eq_Some_conv)
  from get_keys_client_range [OF _ g] ok obtain e where
    e: "q = p\<lparr>pt_error := e\<rparr>" "\<forall>(key, hs) \<in> set (zip keys hss). set hs \<subseteq> keys_hosts keys p"
    by (auto simp: part_ok_def)
  with del_loop_confined [of q "zip keys hss" "keys_hosts keys p" 0 0 w] ok run g
  show "only_hosts (keys_hosts keys p) p p' \<and> part_ok p'"
    by (auto simp: bind_eq_Some_conv split: if_splits)
qed

lemma keys_confined: "confined (\<lambda>p. UNIV) (Redis2P_keys pattern ret)"
  unfolding Redis2P_keys_def
proof (rule check_ptr_confined, rule confinedI)
  fix p w res p' w'
  assume ok: "part_ok p" and run: "do {
      ((ok, index_v), p) \<leftarrow> get_group_client p w;
      if \<not> ok then Some ((False, Some []), p, w)
      else do {
        ((ok, mb), p, w) \<leftarrow> keys_loop pattern index_v [] p w;
        Some ((ok, Some mb), p, w)
      } } = Some (res, p', w')"
  from run obtain found hs q where "get_group_client p w = Some ((found, hs), q)"
    by (auto simp: bind_eq_Some_conv)
  with get_group_client_error [OF this] obtain e where
    g: "get_group_client p w = Some ((found, hs), p\<lparr>pt_error := e\<rparr>)" by blast
  with keys_loop_confined [of "p\<lparr>pt_error := e\<rparr>" pattern hs "[]" w] ok run
  show "only_hosts UNIV p p' \<and> part_ok p'" by (auto simp: bind_eq_Some_conv split: if_splits)
qed

lemma randomkey_confined: "confined (\<lambda>p. UNIV) (Redis2P_randomkey ret nil)"
  unfolding Redis2P_randomkey_def Redis2_randomkey_def
proof (intro check_ptr_confined, rule confinedI)
  fix p w res p' w'
  assume ok: "part_ok p" and run: "do {
      ((ok, index_v), p) \<leftarrow> get_group_client p w;
      if \<not> ok then Some ((False, ret, nil), p, w)
      else for_each_read (\<lambda>(a, b). bulk_command a b (command_with RANDOMKEY [])) index_v (ret, nil) p w } = Some (res, p', w')"
  from run obtain found hs q where "get_group_client p w = Some ((found, hs), q)"
    by (auto simp: bind_eq_Some_conv)
  with get_group_client_error [OF this] obtain e where
    g: "get_group_client p w = Some ((found, hs), p\<lparr>pt_error := e\<rparr>)" by blast
  with loops_confined(2) [OF bulk_host.host_method_axioms, of "p\<lparr>pt_error := e\<rparr>" hs UNIV
      "command_with RANDOMKEY []" "(ret, nil)" w] ok run
  show "only_hosts UNIV p p' \<and> part_ok p'"
    by (auto simp: bind_eq_Some_conv split: if_splits)
qed

lemma all_hosts_methods_confined:
  "confined (\<lambda>p. UNIV) (Redis2P_select index)" "confined (\<lambda>p. UNIV) Redis2P_flushall"
  "confined (\<lambda>p. UNIV) Redis2P_flushdb"
proof -
  have "keeps_inv (Redis2_select index)" "keeps_inv Redis2_flushall" "keeps_inv Redis2_flushdb"
    unfolding Redis2_flushall_def Redis2_flushdb_def by (intro keeps_rules)+
  then show "confined (\<lambda>p. UNIV) (Redis2P_select index)" "confined (\<lambda>p. UNIV) Redis2P_flushall"
    "confined (\<lambda>p. UNIV) Redis2P_flushdb"
    by (simp_all add: confined_def Redis2P_select_def Redis2P_flushall_def Redis2P_flushdb_def all_hosts_confined)
qed

text \<open>C19: a method on one key changes nothing but the clients at the key's position of each group: the
  clients of the other hosts, the layout and the hash function are as before, and the invariants
  of layout and clients hold again.  The methods on several keys change only the clients of the hosts
  those keys select; the methods on a whole group or on all hosts keep the layout and the invariants
  of the clients.\<close>

theorem partition_methods_confined:
  "((\<forall>key ret. confined (key_hosts key) (Redis2P_del key ret)) \<and>
   (\<forall>key ret is_nil. confined (key_hosts key) (Redis2P_dump key ret is_nil)) \<and>
   (\<forall>key ret. confined (key_hosts key) (Redis2P_exists key ret)) \<and>
   (\<forall>key seconds ret. confined (key_hosts key) (Redis2P_expire key seconds ret)) \<and>
   (\<forall>key abs_seconds ret. confined (key_hosts key) (Redis2P_expireat key abs_seconds ret)) \<and>
   (\<forall>key db ret. confined (key_hosts key) (Redis2P_move key db ret)) \<and>
   (\<forall>key ret. confined (key_hosts key) (Redis2P_persist key ret)) \<and>
   (\<forall>key milliseconds ret. confined (key_hosts key) (Redis2P_pexpire key milliseconds ret)) \<and>
   (\<forall>key abs_milliseconds ret. confined (key_hosts key) (Redis2P_pexpireat key abs_milliseconds ret)) \<and>
   (\<forall>key ret. confined (key_hosts key) (Redis2P_pttl key ret)) \<and>
   (\<forall>key ttl value. confined (key_hosts key) (Redis2P_restore key ttl value)) \<and>
   (\<forall>key phrases ret. confined (key_hosts key) (Redis2P_sort key phrases ret)) \<and>
   (\<forall>key ret. confined (key_hosts key) (Redis2P_ttl key ret)) \<and>
   (\<forall>key ret. confined (key_hosts key) (Redis2P_type key ret)) \<and>
   (\<forall>key value ret. confined (key_hosts key) (Redis2P_append key value ret)) \<and>
   (\<forall>key ret. confined (key_hosts key) (Redis2P_decr key ret)) \<and>
   (\<forall>key dec ret. confined (key_hosts key) (Redis2P_decrby key dec ret)) \<and>
   (\<forall>key ret is_nil. confined (key_hosts key) (Redis2P_get key ret is_nil)) \<and>
   (\<forall>key offset ret. confined (key_hosts key) (Redis2P_getbit key offset ret)) \<and>
   (\<forall>key start stop ret is_nil. confined (key_hosts key) (Redis2P_getrange key start stop ret is_nil)) \<and>
   (\<forall>key value ret is_nil. confined (key_hosts key) (Redis2P_getset key value ret is_nil)) \<and>
   (\<forall>key ret. confined (key_hosts key) (Redis2P_incr key ret)) \<and>
   (\<forall>key inc ret. confined (key_hosts key) (Redis2P_incrby key inc ret)) \<and>
   (\<forall>key inc ret. confined (key_hosts key) (Redis2P_incrbyfloat key inc ret)) \<and>
   (\<forall>key milliseconds value. confined (key_hosts key) (Redis2P_psetex key milliseconds value)) \<and>
   (\<forall>key value. confined (key_hosts key) (Redis2P_set key value)) \<and>
   (\<forall>key offset bitval ret. confined (key_hosts key) (Redis2P_setbit key offset bitval ret)) \<and>
   (\<forall>key seconds value. confined (key_hosts key) (Redis2P_setex key seconds value)) \<and>
   (\<forall>key value ret. confined (key_hosts key) (Redis2P_setnx key value ret)) \<and>
   (\<forall>key offset value ret. confined (key_hosts key) (Redis2P_setrange key offset value ret)) \<and>
   (\<forall>key ret. confined (key_hosts key) (Redis2P_strlen key ret)) \<and>
   (\<forall>key field ret. confined (key_hosts key) (Redis2P_hdel key field ret)) \<and>
   (\<forall>key flds ret. confined (key_hosts key) (Redis2P_hdel_fields key flds ret)) \<and>
   (\<forall>key field ret. confined (key_hosts key) (Redis2P_hexists key field ret)) \<and>
   (\<forall>key field ret is_nil. confined (key_hosts key) (Redis2P_hget key field ret is_nil)) \<and>
   (\<forall>key ret. confined (key_hosts key) (Redis2P_hgetall key ret)) \<and>
   (\<forall>key field ret. confined (key_hosts key) (Redis2P_hincr key field ret)) \<and>
   (\<forall>key field inc ret. confined (key_hosts key) (Redis2P_hincrby key field inc ret)) \<and>
   (\<forall>key field inc ret. confined (key_hosts key) (Redis2P_hincrbyfloat key field inc ret)) \<and>
   (\<forall>key ret. confined (key_hosts key) (Redis2P_hkeys key ret)) \<and>
   (\<forall>key ret. confined (key_hosts key) (Redis2P_hlen key ret)) \<and>
   (\<forall>key flds ret. confined (key_hosts key) (Redis2P_hmget key flds ret)) \<and>
   (\<forall>key flds values. confined (key_hosts key) (Redis2P_hmset key flds values)) \<and>
   (\<forall>key field value ret. confined (key_hosts key) (Redis2P_hset key field value ret)) \<and>
   (\<forall>key field value ret. confined (key_hosts key) (Redis2P_hsetnx key field value ret)) \<and>
   (\<forall>key ret. confined (key_hosts key) (Redis2P_hvals key ret)) \<and>
   (\<forall>key index ret is_nil. confined (key_hosts key) (Redis2P_lindex key index ret is_nil)) \<and>
   (\<forall>key before pivot value ret. confined (key_hosts key) (Redis2P_linsert key before pivot value ret)) \<and>
   (\<forall>key ret. confined (key_hosts key) (Redis2P_llen key ret)) \<and>
   (\<forall>key ret is_nil. confined (key_hosts key) (Redis2P_lpop key ret is_nil)) \<and>
   (\<forall>key value ret. confined (key_hosts key) (Redis2P_lpush key value ret)) \<and>
   (\<forall>key values ret. confined (key_hosts key) (Redis2P_lpush_values key values ret)) \<and>
   (\<forall>key value ret. confined (key_hosts key) (Redis2P_lpushx key value ret)) \<and>
   (\<forall>key start stop ret. confined (key_hosts key) (Redis2P_lrange key start stop ret)) \<and>
   (\<forall>key count value ret. confined (key_hosts key) (Redis2P_lrem key count value ret)) \<and>
   (\<forall>key index value. confined (key_hosts key) (Redis2P_lset key index value)) \<and>
   (\<forall>key start stop. confined (key_hosts key) (Redis2P_ltrim key start stop)) \<and>
   (\<forall>key ret is_nil. confined (key_hosts key) (Redis2P_rpop key ret is_nil)) \<and>
   (\<forall>key value ret. confined (key_hosts key) (Redis2P_rpush key value ret)) \<and>
   (\<forall>key values ret. confined (key_hosts key) (Redis2P_rpush_values key values ret)) \<and>
   (\<forall>key value ret. confined (key_hosts key) (Redis2P_rpushx key value ret)) \<and>
   (\<forall>key member ret. confined (key_hosts key) (Redis2P_sadd key member ret)) \<and>
   (\<forall>key members ret. confined (key_hosts key) (Redis2P_sadd_members key members ret)) \<and>
   (\<forall>key ret. confined (key_hosts key) (Redis2P_scard key ret)) \<and>
   (\<forall>key member ret. confined (key_hosts key) (Redis2P_sismember key member ret)) \<and>
   (\<forall>key ret. confined (key_hosts key) (Redis2P_smembers key ret)) \<and>
   (\<forall>key ret is_nil. confined (key_hosts key) (Redis2P_spop key ret is_nil)) \<and>
   (\<forall>key ret is_nil. confined (key_hosts key) (Redis2P_srandmember key ret is_nil)) \<and>
   (\<forall>key member ret. confined (key_hosts key) (Redis2P_srem key member ret)) \<and>
   (\<forall>key members ret. confined (key_hosts key) (Redis2P_srem_members key members ret)) \<and>
   (\<forall>key score member ret. confined (key_hosts key) (Redis2P_zadd key score member ret)) \<and>
   (\<forall>key scores members ret. confined (key_hosts key) (Redis2P_zadd_scores key scores members ret)) \<and>
   (\<forall>key ret. confined (key_hosts key) (Redis2P_zcard key ret)) \<and>
   (\<forall>key mn mx ret. confined (key_hosts key) (Redis2P_zcount key mn mx ret)) \<and>
   (\<forall>key increment member ret. confined (key_hosts key) (Redis2P_zincrby key increment member ret)) \<and>
   (\<forall>key start stop withscores ret. confined (key_hosts key) (Redis2P_zrange key start stop withscores ret)) \<and>
   (\<forall>key start stop withscores ret. confined (key_hosts key) (Redis2P_zrevrange key start stop withscores ret)) \<and>
   (\<forall>key mn mx withscores limit ret. confined (key_hosts key) (Redis2P_zrangebyscore key mn mx withscores limit ret)) \<and>
   (\<forall>key mx mn withscores limit ret. confined (key_hosts key) (Redis2P_zrevrangebyscore key mx mn withscores limit ret)) \<and>
   (\<forall>key member ret not_exists. confined (key_hosts key) (Redis2P_zrank key member ret not_exists)) \<and>
   (\<forall>key member ret not_exists. confined (key_hosts key) (Redis2P_zrevrank key member ret not_exists)) \<and>
   (\<forall>key member ret. confined (key_hosts key) (Redis2P_zrem key member ret)) \<and>
   (\<forall>key members ret. confined (key_hosts key) (Redis2P_zrem_members key members ret)) \<and>
   (\<forall>key start stop ret. confined (key_hosts key) (Redis2P_zremrangebyrank key start stop ret)) \<and>
   (\<forall>key mn mx ret. confined (key_hosts key) (Redis2P_zremrangebyscore key mn mx ret)) \<and>
   (\<forall>key member ret is_nil. confined (key_hosts key) (Redis2P_zscore key member ret is_nil))) \<and>
   ((\<forall>keys ret. confined (keys_hosts keys) (Redis2P_mget keys ret))
   \<and> (\<forall>keys values. confined (keys_hosts keys) (Redis2P_mset keys values))
   \<and> (\<forall>keys ret. confined (keys_hosts keys) (Redis2P_del_keys keys ret))
   \<and> (\<forall>pattern ret. confined (\<lambda>p. UNIV) (Redis2P_keys pattern ret))
   \<and> (\<forall>ret nil. confined (\<lambda>p. UNIV) (Redis2P_randomkey ret nil))
   \<and> (\<forall>index. confined (\<lambda>p. UNIV) (Redis2P_select index))
   \<and> confined (\<lambda>p. UNIV) Redis2P_flushall \<and> confined (\<lambda>p. UNIV) Redis2P_flushdb)"
proof (rule conjI, goal_cases)
  case 1
  show ?case
    unfolding keyed_defs
    by (intro conjI allI confined_rules; (unfold method_defs split_def)?; intro keeps_rules)
next
  case 2
  show ?case
    using mget_confined mset_confined del_keys_confined keys_confined randomkey_confined
    all_hosts_methods_confined by blast
qed

end
