(* ===== verification/Partition_Properties.thy ===== *)
theory Partition_Properties
  imports Sample Partition_Inv
begin

text \<open>
  The properties of the partition client and of the old-style methods, with a concrete instance
  of each that has hypotheses.  (Confinement of the methods is in \<open>Partition_Inv\<close>.)
\<close>

section \<open>Hash and layout\<close>

text \<open>C36: the unrolled \<open>time33_hash_32\<close> is the plain loop \<open>hash = 33 * hash + c\<close> over all bytes of the key,
  from 5381, in 32-bit arithmetic with signed characters; the hash of the empty key is 0.\<close>

theorem time33_is_plain_loop:
  "time33_hash_32_string key =
     (if key = [] then 0 else foldl (\<lambda>hash c. 33 * hash + signed_char c) 5381 key)"
proof -
  have "time33_step = (\<lambda>hash c. 33 * hash + signed_char c)" by (intro ext) (rule time33_step_33)
  then show ?thesis by (simp add: time33_hash_32_string_def time33_hash_32_def time33_loop_fold)
qed

text \<open>C37: the constructor of the partition client, on every input.  It throws if the lists of hosts
  and ports do not match (as many ports as hosts, or one port for all), if the number of partitions
  is zero or larger than the number of hosts, or if the hosts cannot be divided into the groups
  without rest.  Otherwise it returns a client whose hosts are exactly the parts of the list of
  hosts, whose ports are the parts of the list of ports (a single port repeated for every host), with
  \<open>hosts / partitions\<close> groups and one client per host, in order, each with its host's address, the
  database index and the timeout asked for; this is a usable layout (\<open>part_inv\<close>).\<close>

theorem constructor_layout:
  assumes "split_laws split"
  shows "let hs = split (CHR '','') hl; ps = split (CHR '','') pl; d = size_of_int n in
     if (length ps = length hs \<or> length ps = 1) \<and> d \<noteq> 0 \<and> d \<le> length hs \<and> length hs mod (length hs div d) = 0
     then \<exists>p. new_Redis2P split hl pl index t n fn = Inr p \<and> part_inv p \<and> hash_fn p = fn \<and> hosts p = hs
        \<and> ports p = (if length ps = 1 then replicate (length hs) (ps ! 0) else ps)
        \<and> groups p = length hs div d \<and> partitions p = d
        \<and> redis2_sp_vector p = map2 (\<lambda>h q. new_Redis2 h q index t) (hosts p) (ports p)
     else \<exists>e. new_Redis2P split hl pl index t n fn = Inl e"
proof -
  let ?hs = "split (CHR '','') hl" and ?ps = "split (CHR '','') pl" and ?d = "size_of_int n"
  have ne: "?hs \<noteq> []" using assms by (simp add: split_laws_def)
  show ?thesis
  proof (cases "layout_ok ?hs ?ps ?d")
    case True
    let ?p = "\<lparr>hosts = ?hs, ports = spread_ports ?hs ?ps, pt_error = [], partitions = ?d, hash_fn = fn,
       groups = length ?hs div ?d, redis2_sp_vector = map2 (\<lambda>h q. new_Redis2 h q index t) ?hs (spread_ports ?hs ?ps)\<rparr>"
    have "new_Redis2P split hl pl index t n fn = Inr ?p"
      using ne True by (intro new_Redis2P_accepts) simp_all
    moreover have "part_inv ?p" by (rule accepted_part_inv [where index = index and t = t, OF ne True]) simp_all
    ultimately have "\<exists>p. new_Redis2P split hl pl index t n fn = Inr p \<and> part_inv p \<and> hash_fn p = fn \<and> hosts p = ?hs
        \<and> ports p = spread_ports ?hs ?ps \<and> groups p = length ?hs div ?d \<and> partitions p = ?d
        \<and> redis2_sp_vector p = map2 (\<lambda>h q. new_Redis2 h q index t) (hosts p) (ports p)"
      by (intro exI [of _ ?p]) simp
    with True show ?thesis unfolding Let_def layout_ok_def lists_match_def spread_ports_def
      by (subst if_P) assumption+
  next
    case False
    have "\<exists>e. new_Redis2P split hl pl index t n fn = Inl e"
      using ne False by (intro new_Redis2P_throws [where hs = ?hs and ps = ?ps]) simp_all
    with False show ?thesis
      by (auto simp: Let_def layout_ok_def lists_match_def)
  qed
qed

definition sample_part :: Redis2P where
  "sample_part =
     \<lparr>hosts = [''h1'', ''h2''], ports = [''6379'', ''6380''], pt_error = [], partitions = 1,
      hash_fn = time33_hash_32_string, groups = 2,
      redis2_sp_vector = [new_Redis2 ''h1'' ''6379'' 0 50, new_Redis2 ''h2'' ''6380'' 0 50]\<rparr>"

lemma sample_split_laws: "split_laws sample_split"
proof -
  have "sample_split d s \<noteq> []" for d s by (induction d s rule: sample_split.induct) (auto split: list.splits)
  then show ?thesis by (simp add: split_laws_def)
qed

theorem constructor_layout_witness:
  "new_Redis2P sample_split ''h1,h2'' ''6379,6380'' 0 50 1 time33_hash_32_string = Inr sample_part \<and> part_inv sample_part
   \<and> (\<exists>p. new_Redis2P sample_split ''h1,h2'' ''6379'' 0 50 2 time33_hash_32_string = Inr p \<and> ports p = [''6379'', ''6379''])
   \<and> (\<exists>e. new_Redis2P sample_split ''h1,h2'' ''6379,6380'' 0 50 3 time33_hash_32_string = Inl e)
   \<and> (\<exists>e. new_Redis2P sample_split ''h1,h2,h3'' ''6379,6380'' 0 50 1 time33_hash_32_string = Inl e)"
proof -
  note law = constructor_layout [OF sample_split_laws]
  have new: "new_Redis2P sample_split ''h1,h2'' ''6379,6380'' 0 50 1 time33_hash_32_string = Inr sample_part"
    by (simp add: new_Redis2P_def multi_init_def inner_init_def size_of_int_def size_max_def sample_part_def Let_def)
  have sz: "size_of_int 1 = 1" "size_of_int 2 = 2" "size_of_int 3 = 3" by (simp_all add: size_of_int_def size_max_def)
  have "part_inv sample_part"
    using law [of "''h1,h2''" "''6379,6380''" 1 0 50 time33_hash_32_string] new by (simp add: sz Let_def)
  moreover have "\<exists>p. new_Redis2P sample_split ''h1,h2'' ''6379'' 0 50 2 time33_hash_32_string = Inr p
      \<and> ports p = [''6379'', ''6379'']"
    using law [of "''h1,h2''" "''6379''" 2 0 50 time33_hash_32_string] by (auto simp: sz Let_def)
  moreover have "\<exists>e. new_Redis2P sample_split ''h1,h2'' ''6379,6380'' 0 50 3 time33_hash_32_string = Inl e"
    using law [of "''h1,h2''" "''6379,6380''" 3 0 50 time33_hash_32_string] by (simp add: sz Let_def)
  moreover have "\<exists>e. new_Redis2P sample_split ''h1,h2,h3'' ''6379,6380'' 0 50 1 time33_hash_32_string = Inl e"
    using law [of "''h1,h2,h3''" "''6379,6380''" 1 0 50 time33_hash_32_string] by (simp add: sz Let_def)
  ultimately show ?thesis using new by blast
qed

text \<open>A key always belongs to the same position of the groups, and \<open>__get_key_client\<close> lists that
  position of every group exactly once, all inside the vector of hosts, whatever the thread's seed
  (which only rotates the order).\<close>

lemma key_hosts_covered:
  assumes "part_inv p" "seed_ok p w"
  shows "\<exists>hs. get_key_client key True p w = Some ((True, hs), p) \<and> distinct hs \<and> length hs = groups p
    \<and> set hs = key_hosts key p \<and> (\<forall>i \<in> set hs. i < length (redis2_sp_vector p))"
  using get_key_client_covers [OF assms, of key] key_hosts_bound [OF assms(1), of _ key] by metis

section \<open>Writes and reads\<close>

text \<open>C10: a write that the partition client reports as successful has succeeded on the key's host of
  every group, one after the other, and a write that has succeeded everywhere is reported as
  successful.  The hosts asked are, once each, the hosts at the key's position of the groups, all of
  them hosts of the client, whatever the thread's seed (which only rotates their order).\<close>

theorem write_reaches_every_group:
  assumes "part_inv p" "seed_ok p w"
  shows "\<exists>hs. distinct hs \<and> set hs = key_hosts key p \<and> length hs = groups p
    \<and> (\<forall>i \<in> set hs. i < length (redis2_sp_vector p))
    \<and> (\<forall>c' p' w'. FOR_EACH_GROUP_WRITE f key c p w = Some ((True, c'), p', w') \<longleftrightarrow> write_steps f hs c p w c' p' w')"
proof -
  from key_hosts_covered [OF assms, of key] obtain hs where
    "get_key_client key True p w = Some ((True, hs), p)" "distinct hs" "set hs = key_hosts key p" "length hs = groups p"
    "\<forall>i \<in> set hs. i < length (redis2_sp_vector p)" by metis
  then show ?thesis by (intro exI [of _ hs]) (simp add: FOR_EACH_GROUP_WRITE_def for_each_write_all)
qed

theorem write_reaches_every_group_witness:
  "\<exists>hs. distinct hs \<and> set hs = key_hosts ''k'' sample_part \<and> length hs = 2
    \<and> (\<forall>c' p' w'. FOR_EACH_GROUP_WRITE (Redis2_incr ''k'') ''k'' (Some 0) sample_part (sample_world []) = Some ((True, c'), p', w')
         \<longleftrightarrow> write_steps (Redis2_incr ''k'') hs (Some 0) sample_part (sample_world []) c' p' w')"
proof -
  have p: "part_inv sample_part" by (simp add: part_inv_def sample_part_def)
  have s: "seed_ok sample_part (sample_world [])"
    by (simp add: seed_ok_def get_seed_def get_thread_id_def sample_world_def sample_part_def size_of_int_def size_max_def)
  have g: "groups sample_part = 2" by (simp add: sample_part_def)
  from write_reaches_every_group [OF p s, of "''k''" "Redis2_incr ''k''" "Some 0"] show ?thesis
    unfolding g by blast
qed

text \<open>C26: a read fails over.  The hosts of a key are taken in some order, each exactly once.  A read
  succeeds exactly when one of them answers after all hosts before it were asked, in this order, and
  failed; it returns that answer and asks no host after it.  It fails exactly when every host of the
  key has been asked and has failed.  (A host is asked in the state that the failing calls before it
  left; the layout is one the constructor accepts, and the thread's number does not wrap when
  the groups are added to it, \<open>seed_ok\<close>.)\<close>

theorem read_fails_over:
  assumes "part_inv p" "seed_ok p w"
  shows "\<exists>hs. get_key_client key True p w = Some ((True, hs), p) \<and> distinct hs \<and> set hs = key_hosts key p
    \<and> (\<forall>c' p' w'. FOR_EACH_GROUP_READ f key c p w = Some ((True, c'), p', w') \<longleftrightarrow>
         (\<exists>before i after c1 p1 w1. hs = before @ i # after \<and> failed_steps f before c p w c1 p1 w1
            \<and> call_host i (f c1) p1 w1 = Some ((True, c'), p', w')))
    \<and> (\<forall>c' p' w'. FOR_EACH_GROUP_READ f key c p w = Some ((False, c'), p', w') \<longleftrightarrow> failed_steps f hs c p w c' p' w')"
proof -
  from get_key_client_covers [OF assms, of key] obtain hs where
    hs: "get_key_client key True p w = Some ((True, hs), p)" "distinct hs" "set hs = key_hosts key p" .
  have "FOR_EACH_GROUP_READ f key c p w = for_each_read f hs c p w" by (simp add: FOR_EACH_GROUP_READ_def hs(1))
  then show ?thesis using hs by (intro exI [of _ hs]) (simp add: for_each_read_returns for_each_read_fails)
qed

text \<open>The second host of \<open>failover_part\<close> cannot be resolved, the first is connected and answers.  The
  seed of the thread puts the second host first.\<close>

definition down_world :: world where
  "down_world = (sample_world ['':1'' @ CRLF])\<lparr>dns_cache :=
     [(''h2'', ''6380'') \<mapsto> (\<lparr>domain = AF_INET, ep_type = SOCK_STREAM, protocol = IPPROTO_TCP, address = []\<rparr>, EHOSTUNREACH)]\<rparr>"

lemma down_connect:
  "TcpClient_connect ''h2'' ''6380'' t new_TcpClient down_world
    = (EHOSTUNREACH, new_TcpClient\<lparr>tbuf := clear_buffer new_buffer\<rparr>, down_world)"
  by (simp add: TcpClient_connect_def TcpClient_close_def new_TcpClient_def resolve_def lookup_cache_def down_world_def)

lemma down_closed: "proto_is_open (new_RedisProtocol ''h2'' ''6380'' 50) down_world
    = (False, new_RedisProtocol ''h2'' ''6380'' 50, down_world)"
  by (simp add: proto_is_open_def new_RedisProtocol_def TcpClient_is_open_def new_TcpClient_def is_open_fast_def)

lemma down_exists: "\<exists>r. Redis2_exists ''k'' (Some 0) (new_Redis2 ''h2'' ''6380'' 0 50) down_world = Some ((False, Some 0), r, down_world)"
proof -
  have t: "TcpClient_connect (p_host (new_RedisProtocol ''h2'' ''6380'' 50)) (p_port (new_RedisProtocol ''h2'' ''6380'' 50))
       (p_timeout (new_RedisProtocol ''h2'' ''6380'' 50)) (tcp_client (new_RedisProtocol ''h2'' ''6380'' 50)) down_world
    = (EHOSTUNREACH, new_TcpClient\<lparr>tbuf := clear_buffer new_buffer\<rparr>, down_world)"
    using down_connect by (simp add: new_RedisProtocol_def)
  have c: "\<exists>p. proto_connect (new_RedisProtocol ''h2'' ''6380'' 50) down_world = (False, p, down_world)"
    unfolding proto_connect_def t by (simp add: close_error_def proto_close_def TcpClient_close_def new_RedisProtocol_def new_TcpClient_def Let_def)
  then obtain p where p: "proto_connect (new_RedisProtocol ''h2'' ''6380'' 50) down_world = (False, p, down_world)" ..
  have "proto_assure_connect (Some 0) (new_RedisProtocol ''h2'' ''6380'' 50) down_world = ((False, Some (- 1)), p, down_world)"
    by (simp add: proto_assure_connect_def down_closed p)
  then show ?thesis
    by (simp add: Redis2_exists_def integer_command_def connected_run_def CHECK_PTR_PARAM_def CHECK_EXPR_def assure_connect_def
      new_Redis2_def)
qed

lemma down_ready: "client_ready sample_client down_world" "proto_stream sample_proto down_world = '':1'' @ CRLF"
proof -
  have "client_ready sample_client (sample_world ['':1'' @ CRLF])" by (intro sample_client_ready) auto
  then show "client_ready sample_client down_world"
    by (simp add: client_ready_def line_ready_def proto_ready_def tcp_ready_def tcp_stream_def polls_ready_def
       errno_clean_def sends_ready_def conn_fresh_def down_world_def)
  show "proto_stream sample_proto down_world = '':1'' @ CRLF"
    using sample_stream [of "['':1'' @ CRLF]"] by (simp add: tcp_stream_def down_world_def)
qed
definition failover_part :: Redis2P where
  "failover_part = sample_part\<lparr>hosts := [''localhost'', ''h2''],
     redis2_sp_vector := [sample_client, new_Redis2 ''h2'' ''6380'' 0 50]\<rparr>"

theorem read_fails_over_witness:
  "\<exists>p' w' p1. FOR_EACH_GROUP_READ (Redis2_exists ''k'') ''k'' (Some 0) failover_part down_world = Some ((True, Some 1), p', w')
     \<and> failed_steps (Redis2_exists ''k'') [1] (Some 0) failover_part down_world (Some 0) p1 down_world
     \<and> sent w' = wire [''EXISTS'', ''k'']"
proof -
  have inv: "part_inv failover_part" by (simp add: part_inv_def failover_part_def sample_part_def)
  have seed: "seed_ok failover_part down_world" "get_seed down_world = 5"
    by (simp_all add: seed_ok_def get_seed_def get_thread_id_def down_world_def sample_world_def failover_part_def
        sample_part_def size_of_int_def size_max_def)
  have up: "[0..<2] = [0, 1::nat]" by (simp add: upt_rec)
  have order: "get_key_client ''k'' True failover_part down_world = Some ((True, [1, 0]), failover_part)"
    by (simp add: get_key_client_def get_key_host_index_def failover_part_def sample_part_def seed(2) size_add_def up
        size_max_def)
  from read_fails_over [OF inv seed(1), of "''k''" "Redis2_exists ''k''" "Some 0"] order have
    law: "\<And>c' p' w'. FOR_EACH_GROUP_READ (Redis2_exists ''k'') ''k'' (Some 0) failover_part down_world
        = Some ((True, c'), p', w') \<longleftrightarrow>
      (\<exists>before i after c1 p1 w1. [1, 0] = before @ i # after
        \<and> failed_steps (Redis2_exists ''k'') before (Some 0) failover_part down_world c1 p1 w1
        \<and> call_host i (Redis2_exists ''k'' c1) p1 w1 = Some ((True, c'), p', w'))" by auto
  from down_exists obtain r where r: "Redis2_exists ''k'' (Some 0) (new_Redis2 ''h2'' ''6380'' 0 50) down_world
      = Some ((False, Some 0), r, down_world)" ..
  then obtain p1 where f: "failed_steps (Redis2_exists ''k'') [1] (Some 0) failover_part down_world (Some 0) p1 down_world"
    "redis2_sp_vector p1 = [sample_client, r]"
    by (simp add: call_host_def failover_part_def set_index_error_def)
  have sv: "served (Redis2_exists ''k'' (Some 0)) ''EXISTS'' [''k''] (RInteger 1) (True, Some 1)"
    unfolding Redis2_exists_def by (intro served_integer; simp add: builds_def command_with_in push_simps argc_fits_def s_command_map_def LONG_MIN_def LONG_MAX_def)
  have sm: "small [''EXISTS'', ''k'']" by (simp add: small_def wire_def bulk_text_def s_redis_line_end_def show_nat.simps)
  have st: "proto_stream (proto sample_client) down_world = encode (RInteger 1) @ []"
  proof -
    have "encode (RInteger 1) = '':1'' @ CRLF" by code_simp
    with down_ready(2) show ?thesis by simp
  qed
  have "client_ready sample_client down_world \<and> \<not> transaction_mode (proto sample_client) \<and> small [''EXISTS'', ''k'']
      \<and> proto_stream (proto sample_client) down_world = encode (RInteger 1) @ []"
    using down_ready(1) sm st by simp
  with sv obtain p' w' where
    e: "Redis2_exists ''k'' (Some 0) sample_client down_world = Some ((True, Some 1), sample_client\<lparr>proto := p'\<rparr>, w')"
      "sent w' = sent down_world @ wire [''EXISTS'', ''k'']"
    unfolding served_def by blast
  have "call_host 0 (Redis2_exists ''k'' (Some 0)) p1 down_world
      = Some ((True, Some 1), p1\<lparr>redis2_sp_vector := [sample_client\<lparr>proto := p'\<rparr>, r]\<rparr>, w')"
    using f(2) e(1) by (simp add: call_host_def)
  with f(1) have "FOR_EACH_GROUP_READ (Redis2_exists ''k'') ''k'' (Some 0) failover_part down_world
      = Some ((True, Some 1), p1\<lparr>redis2_sp_vector := [sample_client\<lparr>proto := p'\<rparr>, r]\<rparr>, w')"
    unfolding law by (intro exI [of _ "[1]"] exI [of _ 0] exI [of _ "[]"] exI [of _ "Some 0"] exI [of _ p1]
        exI [of _ down_world] conjI) simp_all
  moreover have "sent down_world = []" by (simp add: down_world_def sample_world_def)
  ultimately show ?thesis using f(1) e(2) by (intro exI conjI) simp_all
qed

text \<open>\<open>hsetnx\<close> of the partition client overwrites: it is the same operation as its \<open>hset\<close>, it never
  sends \<open>HSETNX\<close>.\<close>

lemma partition_hsetnx_is_hset: "Redis2P_hsetnx key field v ret = Redis2P_hset key field v ret"
  by (simp add: Redis2P_hsetnx_def Redis2P_hset_def)

section \<open>The old-style methods\<close>

lemma pairs_of_flat: "mbulk_pairs (map Some (concat (map (\<lambda>(f, v). [f, v]) fvs))) = Some fvs"
  by (induction fvs) auto

text \<open>\<open>hmset\<close> and \<open>hgetall\<close> agree on the format of a hash: \<open>hmset\<close> from a vector of pairs sends the key
  and then fields and values alternating, and \<open>hgetall\<close> into a vector turns such a reply back into
  exactly those pairs, in order.\<close>

lemma hash_pairs_roundtrip:
  "args (cmd_in (command_with HMSET (push_arg key # push_pairs (map fst fvs) (map snd fvs))))
     = key # concat (map (\<lambda>(f, v). [f, v]) fvs)
   \<and> mbulk_pairs (map Some (concat (map (\<lambda>(f, v). [f, v]) fvs))) = Some fvs"
proof
  have "length (map fst fvs) = length (map snd fvs)" by simp
  from push_pairs_fold [OF this, of "push_arg key (new_input HMSET)"]
  show "args (cmd_in (command_with HMSET (push_arg key # push_pairs (map fst fvs) (map snd fvs))))
      = key # concat (map (\<lambda>(f, v). [f, v]) fvs)"
    by (simp add: command_with_in push_simps zip_map_fst_snd)
  show "mbulk_pairs (map Some (concat (map (\<lambda>(f, v). [f, v]) fvs))) = Some fvs" by (rule pairs_of_flat)
qed

lemma map_insert_all:
  "sorted_map m \<Longrightarrow> sorted_map (foldl (\<lambda>m (k, v). map_insert k v m) m fvs)
    \<and> map_of (foldl (\<lambda>m (k, v). map_insert k v m) m fvs) = map_of fvs ++ map_of m"
proof (induction fvs arbitrary: m)
  case (Cons kv fvs)
  obtain k v where kv: "kv = (k, v)" by (cases kv)
  note s = map_insert_sorted [OF Cons.prems, of k v]
  have "map_of fvs ++ map_of (map_insert k v m) = map_of ((k, v) # fvs) ++ map_of m"
    unfolding map_insert_lookup [OF Cons.prems]
    by (rule ext) (auto simp: map_add_def dom_def split: option.split)
  with Cons.IH [OF s] kv show ?case by (simp add: fun_upd_def)
qed simp

text \<open>\<open>hgetall\<close> into a \<open>std::map\<close> builds a map in the order of its keys: when the virtual \<open>hgetall\<close>
  returns the fields and values of a hash, the map holds for every field the value it had there
  before, or else the first value given for it, and nothing else.\<close>

lemma hgetall_builds_map:
  assumes "hgetall key (Some []) s w = Some ((True, Some (map Some (concat (map (\<lambda>(f, v). [f, v]) fvs)))), s', w')"
    and "sorted_map m"
  shows "\<exists>m'. Base_hgetall_map lasterr hgetall key (Some m) s w = Some ((True, Some m'), s', w')
    \<and> sorted_map m' \<and> map_of m' = map_of fvs ++ map_of m"
  using assms(1) map_insert_all [OF assms(2)] by (simp add: Base_hgetall_map_def pairs_of_flat)

lemma hgetall_builds_map_witness:
  "\<exists>m' r' w'. Base_hgetall_map last_error Redis2_hgetall ''h'' (Some []) sample_client
       (sample_world [''*2'' @ CRLF, ''$1'' @ CRLF @ ''f'' @ CRLF @ ''$1'' @ CRLF @ ''v'' @ CRLF])
     = Some ((True, Some m'), r', w') \<and> map_of m' = [''f'' \<mapsto> ''v'']"
proof -
  let ?bs = "map Some (concat (map (\<lambda>(f, v). [f, v]) [(''f'', ''v'')]))"
  let ?ch = "[''*2'' @ CRLF, ''$1'' @ CRLF @ ''f'' @ CRLF @ ''$1'' @ CRLF @ ''v'' @ CRLF]"
  have row: "s_command_map ! cmd_ord HGETALL = info HGETALL ''HGETALL'' 1 kMultiBulk" by (simp add: s_command_map_def)
  have sv: "served (Redis2_hgetall ''h'' (Some [])) ''HGETALL'' [''h''] (RMulti (Some (map RBulk ?bs))) (True, Some ?bs)"
    unfolding Redis2_hgetall_def using row
    by (intro served_mbulks) (simp_all add: builds_def command_with_in push_simps argc_fits_def bulk_ok_def)
  have sm: "small [''HGETALL'', ''h'']" by (simp add: small_def wire_def bulk_text_def s_redis_line_end_def show_nat.simps)
  have en: "concat ?ch = encode (RMulti (Some (map RBulk ?bs)))" by code_simp
  have "[] \<notin> set ?ch" "length (concat ?ch) < 2 ^ 31" by simp_all
  from served_sample [OF sv sm en this] obtain r' w' where
    "Redis2_hgetall ''h'' (Some []) sample_client (sample_world ?ch) = Some ((True, Some ?bs), r', w')" by blast
  from hgetall_builds_map [where hgetall = Redis2_hgetall and lasterr = last_error, OF this, of "[]"]
  show ?thesis by (auto simp: sorted_map_def)
qed

text \<open>The old-style \<open>keys\<close> hides failures: it returns \<open>true\<close> and leaves the result vector alone when the
  underlying \<open>keys\<close> fails.\<close>

lemma base_keys_hides_failure:
  assumes "keys pattern (Some []) s w = Some ((False, ret), s', w')"
  shows "Base_keys lasterr keys pattern (Some v) s w = Some ((True, Some v), s', w')"
  using assms by (simp add: Base_keys_def)

text \<open>A client whose server cannot be resolved.\<close>

lemma unresolved_keys_fail:
  "\<exists>r' w'. Redis2_keys ''*'' (Some []) (new_Redis2 ''h'' ''1'' 0 50) (sample_world []) = Some ((False, Some []), r', w')"
  by (auto simp: Redis2_keys_def mbulks_command_def connected_run_def assure_connect_def proto_assure_connect_def
      proto_is_open_def proto_connect_def TcpClient_connect_def TcpClient_is_open_def is_open_fast_def new_Redis2_def
      new_RedisProtocol_def new_TcpClient_def TcpClient_close_def resolve_def lookup_cache_def do_resolve_def
      resolve_host_def sys_getaddrinfo_def update_cache_def sample_world_def close_error_def proto_close_def Let_def
      split: prod.splits)

lemma base_keys_unresolved:
  "\<exists>r' w'. Base_keys last_error Redis2_keys ''*'' (Some [''old'']) (new_Redis2 ''h'' ''1'' 0 50) (sample_world [])
     = Some ((True, Some [''old'']), r', w')"
  using unresolved_keys_fail base_keys_hides_failure [where keys = Redis2_keys] by blast

end
