(* ===== verification/Redis_Tss.thy ===== *)
theory Redis_Tss
  imports Redis_Partition
begin

text \<open>
  The pool of clients, \<open>src/src/redis_tss.cpp\<close>, \<open>redis_tss.h\<close> and \<open>tss.h\<close>.  A client is an object
  on the heap; a pointer to it is an address.  \<open>free_redis\<close> is the vector of free clients, guarded
  by a mutex; every thread has a slot for its own client (\<open>thread_specific_ptr\<close>).

  The thread-specific storage of \<open>boost\<close> is outside code: a record of functions
  (\<open>tss_lib\<close>), an argument of the operations.  What is relied on is \<open>tss_laws\<close>: a thread's
  slot holds what that thread stored last, other threads' slots are not affected, and the cleanup
  function registered with a value is applied to it when the value is replaced with
  \<open>cleanup_existing\<close> or the thread ends.

  The operations are first given as the functions of the source (\<open>Impl_get\<close>, \<open>Impl_put\<close>, the
  destructor, \<open>RedisScopedPtr\<close>), then as steps of threads with the mutex as a part of the state: a
  thread can be interrupted before and after the section that holds the mutex, and inside it.
\<close>

section \<open>State\<close>

type_synonym thread = nat
type_synonym redis_ptr = nat

datatype kRedisClientType = kNormal | kPartition

datatype kTssFlag = kThreadSpecific | kNotThreadSpecific

datatype RedisBase2 = NormalClient Redis2 | PartitionClient Redis2P

text \<open>\<open>set_tss_data s t with_cleanup v cleanup_existing\<close> also returns the value that the cleanup
  function registered before is applied to.\<close>

record 's tss_lib =
  get_tss_data :: "'s \<Rightarrow> thread \<Rightarrow> redis_ptr ptr"
  set_tss_data :: "'s \<Rightarrow> thread \<Rightarrow> bool \<Rightarrow> redis_ptr ptr \<Rightarrow> bool \<Rightarrow> 's \<times> redis_ptr ptr"
  end_thread :: "'s \<Rightarrow> thread \<Rightarrow> 's \<times> redis_ptr ptr"
  has_cleanup :: "'s \<Rightarrow> thread \<Rightarrow> bool"

definition tss_laws :: "'s tss_lib \<Rightarrow> bool" where
  "tss_laws T \<longleftrightarrow> (\<forall>s t c v e t'.
     get_tss_data T (fst (set_tss_data T s t c v e)) t' = (if t' = t then v else get_tss_data T s t')
     \<and> has_cleanup T (fst (set_tss_data T s t c v e)) t' = (if t' = t then c else has_cleanup T s t')
     \<and> snd (set_tss_data T s t c v e) = (if e \<and> has_cleanup T s t then get_tss_data T s t else None)
     \<and> get_tss_data T (fst (end_thread T s t)) t' = (if t' = t then None else get_tss_data T s t')
     \<and> has_cleanup T (fst (end_thread T s t)) t' = (if t' = t then False else has_cleanup T s t')
     \<and> snd (end_thread T s t) = (if has_cleanup T s t then get_tss_data T s t else None))"

record 's Impl =
  t_host :: string
  t_port :: string
  t_db_index :: int
  t_timeout_ms :: int
  t_partitions :: int
  t_type :: kRedisClientType
  pool_size :: nat
  redis_hosts :: "string list"
  t_split :: "char \<Rightarrow> string \<Rightarrow> string list"
  free_redis :: "redis_ptr list"
  client_slots :: 's
  objects :: "redis_ptr \<rightharpoonup> RedisBase2"
  next_ptr :: redis_ptr

text \<open>The constructor, with \<open>inner_init\<close>; the overload on an \<open>int\<close> port converts it first.  \<open>split\<close> is
  \<open>boost::split\<close>, which the constructor of \<open>Redis2P\<close> uses too.\<close>

definition new_Impl ::
  "(char \<Rightarrow> string \<Rightarrow> string list) \<Rightarrow> string \<Rightarrow> string \<Rightarrow> int \<Rightarrow> int \<Rightarrow> int \<Rightarrow> kRedisClientType \<Rightarrow> nat \<Rightarrow> 's \<Rightarrow> 's Impl" where
  "new_Impl split host port index parts timeout_ms type max_free store =
     \<lparr>t_host = host, t_port = port, t_db_index = index, t_timeout_ms = timeout_ms, t_partitions = parts,
      t_type = type, pool_size = max_free, redis_hosts = split (CHR '','') host, t_split = split, free_redis = [],
      client_slots = store, objects = Map.empty, next_ptr = 0\<rparr>"

definition new_Impl_int ::
  "(char \<Rightarrow> string \<Rightarrow> string list) \<Rightarrow> string \<Rightarrow> int \<Rightarrow> int \<Rightarrow> int \<Rightarrow> int \<Rightarrow> kRedisClientType \<Rightarrow> nat \<Rightarrow> 's \<Rightarrow> 's Impl" where
  "new_Impl_int split host port = new_Impl split host (show_int port)"

section \<open>The heap\<close>

definition alloc_redis :: "RedisBase2 \<Rightarrow> 's Impl \<Rightarrow> redis_ptr \<times> 's Impl" where
  "alloc_redis ob s =
     (next_ptr s, s\<lparr>objects := (objects s)(next_ptr s \<mapsto> ob), next_ptr := Suc (next_ptr s)\<rparr>)"

text \<open>Deleting what is not allocated is undefined.\<close>

definition delete_redis :: "redis_ptr \<Rightarrow> 's Impl \<Rightarrow> 's Impl option" where
  "delete_redis p s = do {
     assertion (objects s p \<noteq> None);
     Some (s\<lparr>objects := (objects s)(p := None)\<rparr>)
   }"

section \<open>The free list\<close>

fun delete_all :: "redis_ptr list \<Rightarrow> 's Impl \<Rightarrow> 's Impl option" where
  "delete_all [] s = Some s"
| "delete_all (p # ps) s = do { s \<leftarrow> delete_redis p s; delete_all ps s }"

definition clear_free_redis :: "'s Impl \<Rightarrow> 's Impl option" where
  "clear_free_redis s = do { s \<leftarrow> delete_all (free_redis s) s; Some (s\<lparr>free_redis := []\<rparr>) }"

definition get_free_redis :: "'s Impl \<Rightarrow> redis_ptr ptr \<times> 's Impl" where
  "get_free_redis s =
     (if free_redis s = [] then (None, s)
      else (Some (last (free_redis s)), s\<lparr>free_redis := butlast (free_redis s)\<rparr>))"

text \<open>The \<open>switch\<close> over the type; \<open>Inl\<close> is the exception of the constructor of \<open>Redis2P\<close>.\<close>

definition create_redis :: "'s Impl \<Rightarrow> string + RedisBase2" where
  "create_redis s =
     (case t_type s of
        kNormal \<Rightarrow> Inr (NormalClient (new_Redis2 (t_host s) (t_port s) (t_db_index s) (t_timeout_ms s)))
      | kPartition \<Rightarrow>
          map_sum id PartitionClient (new_Redis2P (t_split s) (t_host s) (t_port s) (t_db_index s) (t_timeout_ms s)
            (t_partitions s) time33_hash_32_string))"

definition get_free_or_create_redis :: "'s Impl \<Rightarrow> (string + redis_ptr) \<times> 's Impl" where
  "get_free_or_create_redis s =
     (let (redis_ptr, s) = get_free_redis s
      in case redis_ptr of
           Some p \<Rightarrow> (Inr p, s)
         | None \<Rightarrow> (case create_redis s of
               Inl e \<Rightarrow> (Inl e, s)
             | Inr ob \<Rightarrow> (let (p, s) = alloc_redis ob s in (Inr p, s))))"

definition put_free_redis :: "redis_ptr ptr \<Rightarrow> 's Impl \<Rightarrow> 's Impl option" where
  "put_free_redis redis s =
     (case redis of
        None \<Rightarrow> Some s
      | Some p \<Rightarrow>
          if length (free_redis s) \<ge> pool_size s then delete_redis p s
          else Some (s\<lparr>free_redis := free_redis s @ [p]\<rparr>))"

section \<open>thread_specific_ptr\<close>

text \<open>The methods of \<open>client_\<close>, called by thread \<open>t\<close>; its cleanup function is \<open>put_free_redis\<close>.\<close>

definition tss_get :: "'s tss_lib \<Rightarrow> thread \<Rightarrow> 's Impl \<Rightarrow> redis_ptr ptr" where
  "tss_get T t s = get_tss_data T (client_slots s) t"

definition tss_release :: "'s tss_lib \<Rightarrow> thread \<Rightarrow> 's Impl \<Rightarrow> redis_ptr ptr \<times> 's Impl" where
  "tss_release T t s =
     (tss_get T t s, s\<lparr>client_slots := fst (set_tss_data T (client_slots s) t False None False)\<rparr>)"

definition tss_reset :: "'s tss_lib \<Rightarrow> thread \<Rightarrow> redis_ptr ptr \<Rightarrow> 's Impl \<Rightarrow> 's Impl option" where
  "tss_reset T t new_value s =
     (if tss_get T t s \<noteq> new_value
      then let (store, old) = set_tss_data T (client_slots s) t True new_value True
           in put_free_redis old (s\<lparr>client_slots := store\<rparr>)
      else Some s)"

text \<open>\<open>~thread_specific_ptr\<close>, and the end of a thread.\<close>

definition tss_destroy :: "'s tss_lib \<Rightarrow> thread \<Rightarrow> 's Impl \<Rightarrow> 's Impl option" where
  "tss_destroy T t s =
     (let (store, old) = set_tss_data T (client_slots s) t False None True
      in put_free_redis old (s\<lparr>client_slots := store\<rparr>))"

definition thread_exit :: "'s tss_lib \<Rightarrow> thread \<Rightarrow> 's Impl \<Rightarrow> 's Impl option" where
  "thread_exit T t s =
     (let (store, old) = end_thread T (client_slots s) t
      in put_free_redis old (s\<lparr>client_slots := store\<rparr>))"

section \<open>RedisTss\<close>

definition Impl_get :: "'s tss_lib \<Rightarrow> kTssFlag \<Rightarrow> thread \<Rightarrow> 's Impl \<Rightarrow> ((string + redis_ptr) \<times> 's Impl) option" where
  "Impl_get T flag t s =
     (if flag = kThreadSpecific
      then case tss_get T t s of
             Some p \<Rightarrow> Some (Inr p, s)
           | None \<Rightarrow> (case get_free_or_create_redis s of
                 (Inl e, s) \<Rightarrow> Some (Inl e, s)
               | (Inr p, s) \<Rightarrow> do { s \<leftarrow> tss_reset T t (Some p) s; Some (Inr p, s) })
      else Some (get_free_or_create_redis s))"

definition Impl_put :: "'s tss_lib \<Rightarrow> redis_ptr ptr \<Rightarrow> kTssFlag \<Rightarrow> thread \<Rightarrow> 's Impl \<Rightarrow> 's Impl option" where
  "Impl_put T redis flag t s =
     (if redis = None then Some s
      else let s = (if flag = kThreadSpecific \<and> tss_get T t s = redis then snd (tss_release T t s) else s)
           in put_free_redis redis s)"

text \<open>\<open>~Impl\<close>: the body, then the members in reverse order, \<open>client_\<close> first.\<close>

definition Impl_destroy :: "'s tss_lib \<Rightarrow> thread \<Rightarrow> 's Impl \<Rightarrow> 's Impl option" where
  "Impl_destroy T t s = do { s \<leftarrow> clear_free_redis s; tss_destroy T t s }"

text \<open>\<open>RedisScopedPtr\<close>: the constructor takes a client, the destructor gives it back.\<close>

record RedisScopedPtr =
  scoped_flag :: kTssFlag
  scoped_ptr :: "redis_ptr ptr"

definition new_RedisScopedPtr ::
  "'s tss_lib \<Rightarrow> kTssFlag \<Rightarrow> thread \<Rightarrow> 's Impl \<Rightarrow> ((string + RedisScopedPtr) \<times> 's Impl) option" where
  "new_RedisScopedPtr T flag t s = do {
     (r, s) \<leftarrow> Impl_get T flag t s;
     Some (map_sum id (\<lambda>p. \<lparr>scoped_flag = flag, scoped_ptr = Some p\<rparr>) r, s)
   }"

definition RedisScopedPtr_destroy :: "'s tss_lib \<Rightarrow> RedisScopedPtr \<Rightarrow> thread \<Rightarrow> 's Impl \<Rightarrow> 's Impl option" where
  "RedisScopedPtr_destroy T sp t s =
     (if scoped_ptr sp \<noteq> None then Impl_put T (scoped_ptr sp) (scoped_flag sp) t s else Some s)"

section \<open>Threads\<close>

text \<open>Where a thread is inside \<open>get\<close> or \<open>put\<close>: before \<open>free_redis_lock_\<close> (\<open>Asking\<close>, \<open>Putting\<close>), in the
  section that holds it (\<open>Taking\<close>, \<open>Storing\<close>), or after it.  \<open>lock\<close> is the thread that holds the mutex;
  \<open>held\<close> are the clients a thread obtained with \<open>kNotThreadSpecific\<close> and has not put back.\<close>

datatype tpc =
    Idle
  | Asking kTssFlag
  | Taking kTssFlag
  | Creating kTssFlag
  | Got kTssFlag redis_ptr
  | Putting redis_ptr
  | Storing redis_ptr
  | Deleting redis_ptr

record 's pool =
  impl :: "'s Impl"
  pc :: "thread \<Rightarrow> tpc"
  held :: "thread \<Rightarrow> redis_ptr set"
  lock :: "thread option"

text \<open>\<open>put\<close> accepts any pointer; \<open>calls\<close> tells which calls of it the program makes.  A value that
  \<open>reset\<close> replaces goes through the cleanup, so through \<open>put_free_redis\<close>.\<close>

inductive pool_step :: "'s tss_lib \<Rightarrow> ('s pool \<Rightarrow> thread \<Rightarrow> kTssFlag \<Rightarrow> redis_ptr \<Rightarrow> bool) \<Rightarrow> 's pool \<Rightarrow> 's pool \<Rightarrow> bool"
  for T :: "'s tss_lib" and calls :: "'s pool \<Rightarrow> thread \<Rightarrow> kTssFlag \<Rightarrow> redis_ptr \<Rightarrow> bool" where
  ask: "pc \<sigma> t = Idle \<Longrightarrow> flag = kThreadSpecific \<longrightarrow> tss_get T t (impl \<sigma>) = None \<Longrightarrow>
    pool_step T calls \<sigma> (\<sigma>\<lparr>pc := (pc \<sigma>)(t := Asking flag)\<rparr>)"
| lock_get: "pc \<sigma> t = Asking flag \<Longrightarrow> lock \<sigma> = None \<Longrightarrow>
    pool_step T calls \<sigma> (\<sigma>\<lparr>pc := (pc \<sigma>)(t := Taking flag), lock := Some t\<rparr>)"
| take_free: "pc \<sigma> t = Taking flag \<Longrightarrow> get_free_redis (impl \<sigma>) = (Some p, s') \<Longrightarrow>
    pool_step T calls \<sigma> (\<sigma>\<lparr>impl := s', pc := (pc \<sigma>)(t := Got flag p), lock := None\<rparr>)"
| take_none: "pc \<sigma> t = Taking flag \<Longrightarrow> get_free_redis (impl \<sigma>) = (None, s') \<Longrightarrow>
    pool_step T calls \<sigma> (\<sigma>\<lparr>impl := s', pc := (pc \<sigma>)(t := Creating flag), lock := None\<rparr>)"
| create: "pc \<sigma> t = Creating flag \<Longrightarrow> create_redis (impl \<sigma>) = Inr ob \<Longrightarrow> alloc_redis ob (impl \<sigma>) = (p, s') \<Longrightarrow>
    pool_step T calls \<sigma> (\<sigma>\<lparr>impl := s', pc := (pc \<sigma>)(t := Got flag p)\<rparr>)"
| create_throws: "pc \<sigma> t = Creating flag \<Longrightarrow> create_redis (impl \<sigma>) = Inl e \<Longrightarrow>
    pool_step T calls \<sigma> (\<sigma>\<lparr>pc := (pc \<sigma>)(t := Idle)\<rparr>)"
| keep_in_slot: "pc \<sigma> t = Got kThreadSpecific p \<Longrightarrow>
    (store, old) = (if tss_get T t (impl \<sigma>) \<noteq> Some p
      then set_tss_data T (client_slots (impl \<sigma>)) t True (Some p) True else (client_slots (impl \<sigma>), None)) \<Longrightarrow>
    pool_step T calls \<sigma> (\<sigma>\<lparr>impl := (impl \<sigma>)\<lparr>client_slots := store\<rparr>,
      pc := (pc \<sigma>)(t := (case old of None \<Rightarrow> Idle | Some q \<Rightarrow> Putting q))\<rparr>)"
| hand_out: "pc \<sigma> t = Got kNotThreadSpecific p \<Longrightarrow>
    pool_step T calls \<sigma> (\<sigma>\<lparr>pc := (pc \<sigma>)(t := Idle), held := (held \<sigma>)(t := insert p (held \<sigma> t))\<rparr>)"
| put: "pc \<sigma> t = Idle \<Longrightarrow> calls \<sigma> t flag p \<Longrightarrow>
    s' = (if flag = kThreadSpecific \<and> tss_get T t (impl \<sigma>) = Some p then snd (tss_release T t (impl \<sigma>)) else impl \<sigma>) \<Longrightarrow>
    pool_step T calls \<sigma> (\<sigma>\<lparr>impl := s', pc := (pc \<sigma>)(t := Putting p), held := (held \<sigma>)(t := held \<sigma> t - {p})\<rparr>)"
| exits: "pc \<sigma> t = Idle \<Longrightarrow> end_thread T (client_slots (impl \<sigma>)) t = (store, Some p) \<Longrightarrow>
    pool_step T calls \<sigma> (\<sigma>\<lparr>impl := (impl \<sigma>)\<lparr>client_slots := store\<rparr>, pc := (pc \<sigma>)(t := Putting p)\<rparr>)"
| exits_empty: "pc \<sigma> t = Idle \<Longrightarrow> end_thread T (client_slots (impl \<sigma>)) t = (store, None) \<Longrightarrow>
    pool_step T calls \<sigma> (\<sigma>\<lparr>impl := (impl \<sigma>)\<lparr>client_slots := store\<rparr>\<rparr>)"
| lock_put: "pc \<sigma> t = Putting p \<Longrightarrow> lock \<sigma> = None \<Longrightarrow>
    pool_step T calls \<sigma> (\<sigma>\<lparr>pc := (pc \<sigma>)(t := Storing p), lock := Some t\<rparr>)"
| store_free: "pc \<sigma> t = Storing p \<Longrightarrow> length (free_redis (impl \<sigma>)) < pool_size (impl \<sigma>) \<Longrightarrow>
    pool_step T calls \<sigma>
      (\<sigma>\<lparr>impl := (impl \<sigma>)\<lparr>free_redis := free_redis (impl \<sigma>) @ [p]\<rparr>, pc := (pc \<sigma>)(t := Idle), lock := None\<rparr>)"
| pool_full: "pc \<sigma> t = Storing p \<Longrightarrow> pool_size (impl \<sigma>) \<le> length (free_redis (impl \<sigma>)) \<Longrightarrow>
    pool_step T calls \<sigma> (\<sigma>\<lparr>pc := (pc \<sigma>)(t := Deleting p), lock := None\<rparr>)"
| deletes: "pc \<sigma> t = Deleting p \<Longrightarrow> delete_redis p (impl \<sigma>) = Some s' \<Longrightarrow>
    pool_step T calls \<sigma> (\<sigma>\<lparr>impl := s', pc := (pc \<sigma>)(t := Idle)\<rparr>)"

text \<open>The usages that \<open>redis_tss.h\<close> lists: a thread puts the client of its own slot with
  \<open>kThreadSpecific\<close>, or a client it obtained with \<open>kNotThreadSpecific\<close> and has not put back.\<close>

definition proper :: "'s tss_lib \<Rightarrow> 's pool \<Rightarrow> thread \<Rightarrow> kTssFlag \<Rightarrow> redis_ptr \<Rightarrow> bool" where
  "proper T \<sigma> t flag p \<longleftrightarrow> flag = kThreadSpecific \<and> tss_get T t (impl \<sigma>) = Some p \<or> p \<in> held \<sigma> t"

abbreviation proper_step :: "'s tss_lib \<Rightarrow> 's pool \<Rightarrow> 's pool \<Rightarrow> bool" where
  "proper_step T \<equiv> pool_step T (proper T)"

definition pool_start :: "'s tss_lib \<Rightarrow> 's pool \<Rightarrow> bool" where
  "pool_start T \<sigma> \<longleftrightarrow> free_redis (impl \<sigma>) = [] \<and> objects (impl \<sigma>) = Map.empty \<and> lock \<sigma> = None
     \<and> (\<forall>t. tss_get T t (impl \<sigma>) = None \<and> pc \<sigma> t = Idle \<and> held \<sigma> t = {})"

end
