(* ===== verification/Redis_Virtual.thy ===== *)
theory Redis_Virtual
  imports Redis_Tss
begin

text \<open>
  The interface \<open>RedisBase2\<close> of \<open>src/src/redis_base.h\<close>: what a caller that holds a pointer from the
  pool can call.  A pure virtual method runs the method of the class of the object (\<open>Redis2\<close> or
  \<open>Redis2P\<close>); the old-style methods of \<open>redis_base.cpp\<close> run over the virtual ones.
\<close>

section \<open>Dispatch\<close>

type_synonym 'r virtual_call = "RedisBase2 \<Rightarrow> world \<Rightarrow> ('r \<times> RedisBase2 \<times> world) option"

definition dispatch :: "'r client_call \<Rightarrow> 'r part_call \<Rightarrow> 'r virtual_call" where
  "dispatch m mp b w =
     (case b of
        NormalClient r \<Rightarrow> do { (res, r, w) \<leftarrow> m r w; Some (res, NormalClient r, w) }
      | PartitionClient p \<Rightarrow> do { (res, p, w) \<leftarrow> mp p w; Some (res, PartitionClient p, w) })"

definition Base2_set_last_error :: "string \<Rightarrow> RedisBase2 \<Rightarrow> RedisBase2" where
  "Base2_set_last_error err b =
     (case b of NormalClient r \<Rightarrow> NormalClient (last_error err r) | PartitionClient p \<Rightarrow> PartitionClient (P_last_error err p))"

definition Base2_last_error :: "RedisBase2 \<Rightarrow> string" where
  "Base2_last_error b = (case b of NormalClient r \<Rightarrow> p_error (proto r) | PartitionClient p \<Rightarrow> pt_error p)"

text \<open>The characters before the first null character.\<close>

definition Base2_last_c_error :: "RedisBase2 \<Rightarrow> string" where
  "Base2_last_c_error b = takeWhile (\<lambda>c. c \<noteq> CHR 0x00) (Base2_last_error b)"

section \<open>Destructors\<close>

text \<open>The protocol object of a client closes its connection; the rest of the client is memory.\<close>

definition Redis2_destroy :: "Redis2 \<Rightarrow> world \<Rightarrow> world" where
  "Redis2_destroy r w = snd (proto_close (proto r) w)"

text \<open>The vector of clients is destroyed element by element; no caller holds one of them any more.\<close>

definition Redis2P_destroy :: "Redis2P \<Rightarrow> world \<Rightarrow> world" where
  "Redis2P_destroy p w = foldl (\<lambda>w r. Redis2_destroy r w) w (redis2_sp_vector p)"

definition Base2_destroy :: "RedisBase2 \<Rightarrow> world \<Rightarrow> world" where
  "Base2_destroy b w = (case b of NormalClient r \<Rightarrow> Redis2_destroy r w | PartitionClient p \<Rightarrow> Redis2P_destroy p w)"

section \<open>Keys\<close>

definition Base2_del :: "string \<Rightarrow> int ptr \<Rightarrow> (bool \<times> int ptr) virtual_call" where
  "Base2_del key ret = dispatch (Redis2_del key ret) (Redis2P_del key ret)"

definition Base2_del_keys :: "string list \<Rightarrow> int ptr \<Rightarrow> (bool \<times> int ptr) virtual_call" where
  "Base2_del_keys keys ret = dispatch (Redis2_del_keys keys ret) (Redis2P_del_keys keys ret)"

definition Base2_dump :: "string \<Rightarrow> string ptr \<Rightarrow> bool ptr \<Rightarrow> (bool \<times> string ptr \<times> bool ptr) virtual_call" where
  "Base2_dump key ret is_nil = dispatch (Redis2_dump key ret is_nil) (Redis2P_dump key ret is_nil)"

definition Base2_exists :: "string \<Rightarrow> int ptr \<Rightarrow> (bool \<times> int ptr) virtual_call" where
  "Base2_exists key ret = dispatch (Redis2_exists key ret) (Redis2P_exists key ret)"

definition Base2_expire :: "string \<Rightarrow> int \<Rightarrow> int ptr \<Rightarrow> (bool \<times> int ptr) virtual_call" where
  "Base2_expire key seconds ret = dispatch (Redis2_expire key seconds ret) (Redis2P_expire key seconds ret)"

definition Base2_expireat :: "string \<Rightarrow> int \<Rightarrow> int ptr \<Rightarrow> (bool \<times> int ptr) virtual_call" where
  "Base2_expireat key abs_seconds ret =
     dispatch (Redis2_expireat key abs_seconds ret) (Redis2P_expireat key abs_seconds ret)"

definition Base2_keys :: "string \<Rightarrow> mbulk ptr \<Rightarrow> (bool \<times> mbulk ptr) virtual_call" where
  "Base2_keys pattern ret = dispatch (Redis2_keys pattern ret) (Redis2P_keys pattern ret)"

definition Base2_move :: "string \<Rightarrow> int \<Rightarrow> int ptr \<Rightarrow> (bool \<times> int ptr) virtual_call" where
  "Base2_move key db ret = dispatch (Redis2_move key db ret) (Redis2P_move key db ret)"

definition Base2_persist :: "string \<Rightarrow> int ptr \<Rightarrow> (bool \<times> int ptr) virtual_call" where
  "Base2_persist key ret = dispatch (Redis2_persist key ret) (Redis2P_persist key ret)"

definition Base2_pexpire :: "string \<Rightarrow> int \<Rightarrow> int ptr \<Rightarrow> (bool \<times> int ptr) virtual_call" where
  "Base2_pexpire key milliseconds ret =
     dispatch (Redis2_pexpire key milliseconds ret) (Redis2P_pexpire key milliseconds ret)"

definition Base2_pexpireat :: "string \<Rightarrow> int \<Rightarrow> int ptr \<Rightarrow> (bool \<times> int ptr) virtual_call" where
  "Base2_pexpireat key abs_milliseconds ret =
     dispatch (Redis2_pexpireat key abs_milliseconds ret) (Redis2P_pexpireat key abs_milliseconds ret)"

definition Base2_pttl :: "string \<Rightarrow> int ptr \<Rightarrow> (bool \<times> int ptr) virtual_call" where
  "Base2_pttl key ret = dispatch (Redis2_pttl key ret) (Redis2P_pttl key ret)"

definition Base2_restore :: "string \<Rightarrow> int \<Rightarrow> string \<Rightarrow> bool virtual_call" where
  "Base2_restore key ttl value = dispatch (Redis2_restore key ttl value) (Redis2P_restore key ttl value)"

definition Base2_randomkey :: "string ptr \<Rightarrow> bool ptr \<Rightarrow> (bool \<times> string ptr \<times> bool ptr) virtual_call" where
  "Base2_randomkey ret is_nil = dispatch (Redis2_randomkey ret is_nil) (Redis2P_randomkey ret is_nil)"

definition Base2_sort :: "string \<Rightarrow> string list ptr \<Rightarrow> mbulk ptr \<Rightarrow> (bool \<times> mbulk ptr) virtual_call" where
  "Base2_sort key phrases ret = dispatch (Redis2_sort key phrases ret) (Redis2P_sort key phrases ret)"

definition Base2_ttl :: "string \<Rightarrow> int ptr \<Rightarrow> (bool \<times> int ptr) virtual_call" where
  "Base2_ttl key ret = dispatch (Redis2_ttl key ret) (Redis2P_ttl key ret)"

definition Base2_type :: "string \<Rightarrow> string ptr \<Rightarrow> (bool \<times> string ptr) virtual_call" where
  "Base2_type key ret = dispatch (Redis2_type key ret) (Redis2P_type key ret)"

section \<open>Strings\<close>

definition Base2_append :: "string \<Rightarrow> string \<Rightarrow> int ptr \<Rightarrow> (bool \<times> int ptr) virtual_call" where
  "Base2_append key value ret = dispatch (Redis2_append key value ret) (Redis2P_append key value ret)"

definition Base2_decr :: "string \<Rightarrow> int ptr \<Rightarrow> (bool \<times> int ptr) virtual_call" where
  "Base2_decr key ret = dispatch (Redis2_decr key ret) (Redis2P_decr key ret)"

definition Base2_decrby :: "string \<Rightarrow> int \<Rightarrow> int ptr \<Rightarrow> (bool \<times> int ptr) virtual_call" where
  "Base2_decrby key dec ret = dispatch (Redis2_decrby key dec ret) (Redis2P_decrby key dec ret)"

definition Base2_get :: "string \<Rightarrow> string ptr \<Rightarrow> bool ptr \<Rightarrow> (bool \<times> string ptr \<times> bool ptr) virtual_call" where
  "Base2_get key ret is_nil = dispatch (Redis2_get key ret is_nil) (Redis2P_get key ret is_nil)"

definition Base2_getbit :: "string \<Rightarrow> int \<Rightarrow> int ptr \<Rightarrow> (bool \<times> int ptr) virtual_call" where
  "Base2_getbit key offset ret = dispatch (Redis2_getbit key offset ret) (Redis2P_getbit key offset ret)"

definition Base2_getrange :: "string \<Rightarrow> int \<Rightarrow> int \<Rightarrow> string ptr \<Rightarrow> bool ptr \<Rightarrow> (bool \<times> string ptr \<times> bool ptr) virtual_call" where
  "Base2_getrange key start stop ret is_nil =
     dispatch (Redis2_getrange key start stop ret is_nil) (Redis2P_getrange key start stop ret is_nil)"

definition Base2_getset :: "string \<Rightarrow> string \<Rightarrow> string ptr \<Rightarrow> bool ptr \<Rightarrow> (bool \<times> string ptr \<times> bool ptr) virtual_call" where
  "Base2_getset key value ret is_nil =
     dispatch (Redis2_getset key value ret is_nil) (Redis2P_getset key value ret is_nil)"

definition Base2_incr :: "string \<Rightarrow> int ptr \<Rightarrow> (bool \<times> int ptr) virtual_call" where
  "Base2_incr key ret = dispatch (Redis2_incr key ret) (Redis2P_incr key ret)"

definition Base2_incrby :: "string \<Rightarrow> int \<Rightarrow> int ptr \<Rightarrow> (bool \<times> int ptr) virtual_call" where
  "Base2_incrby key inc ret = dispatch (Redis2_incrby key inc ret) (Redis2P_incrby key inc ret)"

definition Base2_incrbyfloat :: "string \<Rightarrow> 64 word \<Rightarrow> 64 word ptr \<Rightarrow> (bool \<times> 64 word ptr) virtual_call" where
  "Base2_incrbyfloat key inc ret =
     dispatch (Redis2_incrbyfloat key inc ret) (Redis2P_incrbyfloat key inc ret)"

definition Base2_mget :: "string list \<Rightarrow> mbulk ptr \<Rightarrow> (bool \<times> mbulk ptr) virtual_call" where
  "Base2_mget keys ret = dispatch (Redis2_mget keys ret) (Redis2P_mget keys ret)"

definition Base2_psetex :: "string \<Rightarrow> int \<Rightarrow> string \<Rightarrow> bool virtual_call" where
  "Base2_psetex key milliseconds value =
     dispatch (Redis2_psetex key milliseconds value) (Redis2P_psetex key milliseconds value)"

definition Base2_set :: "string \<Rightarrow> string \<Rightarrow> bool virtual_call" where
  "Base2_set key value = dispatch (Redis2_set key value) (Redis2P_set key value)"

definition Base2_mset :: "string list \<Rightarrow> string list \<Rightarrow> bool virtual_call" where
  "Base2_mset keys values = dispatch (Redis2_mset keys values) (Redis2P_mset keys values)"

definition Base2_setbit :: "string \<Rightarrow> int \<Rightarrow> int \<Rightarrow> int ptr \<Rightarrow> (bool \<times> int ptr) virtual_call" where
  "Base2_setbit key offset bitval ret =
     dispatch (Redis2_setbit key offset bitval ret) (Redis2P_setbit key offset bitval ret)"

definition Base2_setex :: "string \<Rightarrow> int \<Rightarrow> string \<Rightarrow> bool virtual_call" where
  "Base2_setex key seconds value =
     dispatch (Redis2_setex key seconds value) (Redis2P_setex key seconds value)"

definition Base2_setnx :: "string \<Rightarrow> string \<Rightarrow> int ptr \<Rightarrow> (bool \<times> int ptr) virtual_call" where
  "Base2_setnx key value ret = dispatch (Redis2_setnx key value ret) (Redis2P_setnx key value ret)"

definition Base2_setrange :: "string \<Rightarrow> int \<Rightarrow> string \<Rightarrow> int ptr \<Rightarrow> (bool \<times> int ptr) virtual_call" where
  "Base2_setrange key offset value ret =
     dispatch (Redis2_setrange key offset value ret) (Redis2P_setrange key offset value ret)"

definition Base2_strlen :: "string \<Rightarrow> int ptr \<Rightarrow> (bool \<times> int ptr) virtual_call" where
  "Base2_strlen key ret = dispatch (Redis2_strlen key ret) (Redis2P_strlen key ret)"

section \<open>Hashes\<close>

definition Base2_hdel :: "string \<Rightarrow> string \<Rightarrow> int ptr \<Rightarrow> (bool \<times> int ptr) virtual_call" where
  "Base2_hdel key field ret = dispatch (Redis2_hdel key field ret) (Redis2P_hdel key field ret)"

definition Base2_hdel_fields :: "string \<Rightarrow> string list \<Rightarrow> int ptr \<Rightarrow> (bool \<times> int ptr) virtual_call" where
  "Base2_hdel_fields key flds ret =
     dispatch (Redis2_hdel_fields key flds ret) (Redis2P_hdel_fields key flds ret)"

definition Base2_hexists :: "string \<Rightarrow> string \<Rightarrow> int ptr \<Rightarrow> (bool \<times> int ptr) virtual_call" where
  "Base2_hexists key field ret = dispatch (Redis2_hexists key field ret) (Redis2P_hexists key field ret)"

definition Base2_hget :: "string \<Rightarrow> string \<Rightarrow> string ptr \<Rightarrow> bool ptr \<Rightarrow> (bool \<times> string ptr \<times> bool ptr) virtual_call" where
  "Base2_hget key field ret is_nil =
     dispatch (Redis2_hget key field ret is_nil) (Redis2P_hget key field ret is_nil)"

definition Base2_hgetall :: "string \<Rightarrow> mbulk ptr \<Rightarrow> (bool \<times> mbulk ptr) virtual_call" where
  "Base2_hgetall key ret = dispatch (Redis2_hgetall key ret) (Redis2P_hgetall key ret)"

definition Base2_hincr :: "string \<Rightarrow> string \<Rightarrow> int ptr \<Rightarrow> (bool \<times> int ptr) virtual_call" where
  "Base2_hincr key field ret = dispatch (Redis2_hincr key field ret) (Redis2P_hincr key field ret)"

definition Base2_hincrby :: "string \<Rightarrow> string \<Rightarrow> int \<Rightarrow> int ptr \<Rightarrow> (bool \<times> int ptr) virtual_call" where
  "Base2_hincrby key field inc ret =
     dispatch (Redis2_hincrby key field inc ret) (Redis2P_hincrby key field inc ret)"

definition Base2_hincrbyfloat :: "string \<Rightarrow> string \<Rightarrow> 64 word \<Rightarrow> 64 word ptr \<Rightarrow> (bool \<times> 64 word ptr) virtual_call" where
  "Base2_hincrbyfloat key field inc ret =
     dispatch (Redis2_hincrbyfloat key field inc ret) (Redis2P_hincrbyfloat key field inc ret)"

definition Base2_hkeys :: "string \<Rightarrow> mbulk ptr \<Rightarrow> (bool \<times> mbulk ptr) virtual_call" where
  "Base2_hkeys key ret = dispatch (Redis2_hkeys key ret) (Redis2P_hkeys key ret)"

definition Base2_hlen :: "string \<Rightarrow> int ptr \<Rightarrow> (bool \<times> int ptr) virtual_call" where
  "Base2_hlen key ret = dispatch (Redis2_hlen key ret) (Redis2P_hlen key ret)"

definition Base2_hmget :: "string \<Rightarrow> string list \<Rightarrow> mbulk ptr \<Rightarrow> (bool \<times> mbulk ptr) virtual_call" where
  "Base2_hmget key flds ret = dispatch (Redis2_hmget key flds ret) (Redis2P_hmget key flds ret)"

definition Base2_hmset :: "string \<Rightarrow> string list \<Rightarrow> string list \<Rightarrow> bool virtual_call" where
  "Base2_hmset key flds values = dispatch (Redis2_hmset key flds values) (Redis2P_hmset key flds values)"

definition Base2_hset :: "string \<Rightarrow> string \<Rightarrow> string \<Rightarrow> int ptr \<Rightarrow> (bool \<times> int ptr) virtual_call" where
  "Base2_hset key field value ret =
     dispatch (Redis2_hset key field value ret) (Redis2P_hset key field value ret)"

definition Base2_hsetnx :: "string \<Rightarrow> string \<Rightarrow> string \<Rightarrow> int ptr \<Rightarrow> (bool \<times> int ptr) virtual_call" where
  "Base2_hsetnx key field value ret =
     dispatch (Redis2_hsetnx key field value ret) (Redis2P_hsetnx key field value ret)"

definition Base2_hvals :: "string \<Rightarrow> mbulk ptr \<Rightarrow> (bool \<times> mbulk ptr) virtual_call" where
  "Base2_hvals key ret = dispatch (Redis2_hvals key ret) (Redis2P_hvals key ret)"

section \<open>Lists\<close>

definition Base2_lindex :: "string \<Rightarrow> int \<Rightarrow> string ptr \<Rightarrow> bool ptr \<Rightarrow> (bool \<times> string ptr \<times> bool ptr) virtual_call" where
  "Base2_lindex key index ret is_nil =
     dispatch (Redis2_lindex key index ret is_nil) (Redis2P_lindex key index ret is_nil)"

definition Base2_linsert :: "string \<Rightarrow> bool \<Rightarrow> string \<Rightarrow> string \<Rightarrow> int ptr \<Rightarrow> (bool \<times> int ptr) virtual_call" where
  "Base2_linsert key before pivot value ret =
     dispatch (Redis2_linsert key before pivot value ret) (Redis2P_linsert key before pivot value ret)"

definition Base2_llen :: "string \<Rightarrow> int ptr \<Rightarrow> (bool \<times> int ptr) virtual_call" where
  "Base2_llen key ret = dispatch (Redis2_llen key ret) (Redis2P_llen key ret)"

definition Base2_lpop :: "string \<Rightarrow> string ptr \<Rightarrow> bool ptr \<Rightarrow> (bool \<times> string ptr \<times> bool ptr) virtual_call" where
  "Base2_lpop key ret is_nil = dispatch (Redis2_lpop key ret is_nil) (Redis2P_lpop key ret is_nil)"

definition Base2_lpush :: "string \<Rightarrow> string \<Rightarrow> int ptr \<Rightarrow> (bool \<times> int ptr) virtual_call" where
  "Base2_lpush key value ret = dispatch (Redis2_lpush key value ret) (Redis2P_lpush key value ret)"

definition Base2_lpush_values :: "string \<Rightarrow> string list \<Rightarrow> int ptr \<Rightarrow> (bool \<times> int ptr) virtual_call" where
  "Base2_lpush_values key values ret =
     dispatch (Redis2_lpush_values key values ret) (Redis2P_lpush_values key values ret)"

definition Base2_lpushx :: "string \<Rightarrow> string \<Rightarrow> int ptr \<Rightarrow> (bool \<times> int ptr) virtual_call" where
  "Base2_lpushx key value ret = dispatch (Redis2_lpushx key value ret) (Redis2P_lpushx key value ret)"

definition Base2_lrange :: "string \<Rightarrow> int \<Rightarrow> int \<Rightarrow> mbulk ptr \<Rightarrow> (bool \<times> mbulk ptr) virtual_call" where
  "Base2_lrange key start stop ret =
     dispatch (Redis2_lrange key start stop ret) (Redis2P_lrange key start stop ret)"

definition Base2_lrem :: "string \<Rightarrow> int \<Rightarrow> string \<Rightarrow> int ptr \<Rightarrow> (bool \<times> int ptr) virtual_call" where
  "Base2_lrem key count value ret =
     dispatch (Redis2_lrem key count value ret) (Redis2P_lrem key count value ret)"

definition Base2_lset :: "string \<Rightarrow> int \<Rightarrow> string \<Rightarrow> bool virtual_call" where
  "Base2_lset key index value = dispatch (Redis2_lset key index value) (Redis2P_lset key index value)"

definition Base2_ltrim :: "string \<Rightarrow> int \<Rightarrow> int \<Rightarrow> bool virtual_call" where
  "Base2_ltrim key start stop = dispatch (Redis2_ltrim key start stop) (Redis2P_ltrim key start stop)"

definition Base2_rpop :: "string \<Rightarrow> string ptr \<Rightarrow> bool ptr \<Rightarrow> (bool \<times> string ptr \<times> bool ptr) virtual_call" where
  "Base2_rpop key ret is_nil = dispatch (Redis2_rpop key ret is_nil) (Redis2P_rpop key ret is_nil)"

definition Base2_rpush :: "string \<Rightarrow> string \<Rightarrow> int ptr \<Rightarrow> (bool \<times> int ptr) virtual_call" where
  "Base2_rpush key value ret = dispatch (Redis2_rpush key value ret) (Redis2P_rpush key value ret)"

definition Base2_rpush_values :: "string \<Rightarrow> string list \<Rightarrow> int ptr \<Rightarrow> (bool \<times> int ptr) virtual_call" where
  "Base2_rpush_values key values ret =
     dispatch (Redis2_rpush_values key values ret) (Redis2P_rpush_values key values ret)"

definition Base2_rpushx :: "string \<Rightarrow> string \<Rightarrow> int ptr \<Rightarrow> (bool \<times> int ptr) virtual_call" where
  "Base2_rpushx key value ret = dispatch (Redis2_rpushx key value ret) (Redis2P_rpushx key value ret)"

section \<open>Sets\<close>

definition Base2_sadd :: "string \<Rightarrow> string \<Rightarrow> int ptr \<Rightarrow> (bool \<times> int ptr) virtual_call" where
  "Base2_sadd key member ret = dispatch (Redis2_sadd key member ret) (Redis2P_sadd key member ret)"

definition Base2_sadd_members :: "string \<Rightarrow> string list \<Rightarrow> int ptr \<Rightarrow> (bool \<times> int ptr) virtual_call" where
  "Base2_sadd_members key members ret =
     dispatch (Redis2_sadd_members key members ret) (Redis2P_sadd_members key members ret)"

definition Base2_scard :: "string \<Rightarrow> int ptr \<Rightarrow> (bool \<times> int ptr) virtual_call" where
  "Base2_scard key ret = dispatch (Redis2_scard key ret) (Redis2P_scard key ret)"

definition Base2_sismember :: "string \<Rightarrow> string \<Rightarrow> int ptr \<Rightarrow> (bool \<times> int ptr) virtual_call" where
  "Base2_sismember key member ret =
     dispatch (Redis2_sismember key member ret) (Redis2P_sismember key member ret)"

definition Base2_smembers :: "string \<Rightarrow> mbulk ptr \<Rightarrow> (bool \<times> mbulk ptr) virtual_call" where
  "Base2_smembers key ret = dispatch (Redis2_smembers key ret) (Redis2P_smembers key ret)"

definition Base2_spop :: "string \<Rightarrow> string ptr \<Rightarrow> bool ptr \<Rightarrow> (bool \<times> string ptr \<times> bool ptr) virtual_call" where
  "Base2_spop key ret is_nil = dispatch (Redis2_spop key ret is_nil) (Redis2P_spop key ret is_nil)"

definition Base2_srandmember :: "string \<Rightarrow> string ptr \<Rightarrow> bool ptr \<Rightarrow> (bool \<times> string ptr \<times> bool ptr) virtual_call" where
  "Base2_srandmember key ret is_nil =
     dispatch (Redis2_srandmember key ret is_nil) (Redis2P_srandmember key ret is_nil)"

definition Base2_srem :: "string \<Rightarrow> string \<Rightarrow> int ptr \<Rightarrow> (bool \<times> int ptr) virtual_call" where
  "Base2_srem key member ret = dispatch (Redis2_srem key member ret) (Redis2P_srem key member ret)"

definition Base2_srem_members :: "string \<Rightarrow> string list \<Rightarrow> int ptr \<Rightarrow> (bool \<times> int ptr) virtual_call" where
  "Base2_srem_members key members ret =
     dispatch (Redis2_srem_members key members ret) (Redis2P_srem_members key members ret)"

section \<open>Sorted sets\<close>

definition Base2_zadd :: "string \<Rightarrow> 64 word \<Rightarrow> string \<Rightarrow> int ptr \<Rightarrow> (bool \<times> int ptr) virtual_call" where
  "Base2_zadd key score member ret =
     dispatch (Redis2_zadd key score member ret) (Redis2P_zadd key score member ret)"

definition Base2_zadd_scores :: "string \<Rightarrow> 64 word list \<Rightarrow> string list \<Rightarrow> int ptr \<Rightarrow> (bool \<times> int ptr) virtual_call" where
  "Base2_zadd_scores key scores members ret =
     dispatch (Redis2_zadd_scores key scores members ret) (Redis2P_zadd_scores key scores members ret)"

definition Base2_zcard :: "string \<Rightarrow> int ptr \<Rightarrow> (bool \<times> int ptr) virtual_call" where
  "Base2_zcard key ret = dispatch (Redis2_zcard key ret) (Redis2P_zcard key ret)"

definition Base2_zcount :: "string \<Rightarrow> string \<Rightarrow> string \<Rightarrow> int ptr \<Rightarrow> (bool \<times> int ptr) virtual_call" where
  "Base2_zcount key mn mx ret = dispatch (Redis2_zcount key mn mx ret) (Redis2P_zcount key mn mx ret)"

definition Base2_zincrby :: "string \<Rightarrow> 64 word \<Rightarrow> string \<Rightarrow> 64 word ptr \<Rightarrow> (bool \<times> 64 word ptr) virtual_call" where
  "Base2_zincrby key increment member ret =
     dispatch (Redis2_zincrby key increment member ret) (Redis2P_zincrby key increment member ret)"

definition Base2_zrange :: "string \<Rightarrow> int \<Rightarrow> int \<Rightarrow> bool \<Rightarrow> mbulk ptr \<Rightarrow> (bool \<times> mbulk ptr) virtual_call" where
  "Base2_zrange key start stop withscores ret =
     dispatch (Redis2_zrange key start stop withscores ret) (Redis2P_zrange key start stop withscores ret)"

definition Base2_zrevrange :: "string \<Rightarrow> int \<Rightarrow> int \<Rightarrow> bool \<Rightarrow> mbulk ptr \<Rightarrow> (bool \<times> mbulk ptr) virtual_call" where
  "Base2_zrevrange key start stop withscores ret =
     dispatch (Redis2_zrevrange key start stop withscores ret) (Redis2P_zrevrange key start stop withscores ret)"

definition Base2_zrangebyscore :: "string \<Rightarrow> string \<Rightarrow> string \<Rightarrow> bool \<Rightarrow> ZRangebyscoreLimit ptr \<Rightarrow> mbulk ptr \<Rightarrow> (bool \<times> mbulk ptr) virtual_call" where
  "Base2_zrangebyscore key mn mx withscores limit ret =
     dispatch (Redis2_zrangebyscore key mn mx withscores limit ret) (Redis2P_zrangebyscore key mn mx withscores limit ret)"

definition Base2_zrevrangebyscore :: "string \<Rightarrow> string \<Rightarrow> string \<Rightarrow> bool \<Rightarrow> ZRangebyscoreLimit ptr \<Rightarrow> mbulk ptr \<Rightarrow> (bool \<times> mbulk ptr) virtual_call" where
  "Base2_zrevrangebyscore key mx mn withscores limit ret =
     dispatch (Redis2_zrevrangebyscore key mx mn withscores limit ret) (Redis2P_zrevrangebyscore key mx mn withscores limit ret)"

definition Base2_zrank :: "string \<Rightarrow> string \<Rightarrow> int ptr \<Rightarrow> bool ptr \<Rightarrow> (bool \<times> int ptr \<times> bool ptr) virtual_call" where
  "Base2_zrank key member ret not_exists =
     dispatch (Redis2_zrank key member ret not_exists) (Redis2P_zrank key member ret not_exists)"

definition Base2_zrevrank :: "string \<Rightarrow> string \<Rightarrow> int ptr \<Rightarrow> bool ptr \<Rightarrow> (bool \<times> int ptr \<times> bool ptr) virtual_call" where
  "Base2_zrevrank key member ret not_exists =
     dispatch (Redis2_zrevrank key member ret not_exists) (Redis2P_zrevrank key member ret not_exists)"

definition Base2_zrem :: "string \<Rightarrow> string \<Rightarrow> int ptr \<Rightarrow> (bool \<times> int ptr) virtual_call" where
  "Base2_zrem key member ret = dispatch (Redis2_zrem key member ret) (Redis2P_zrem key member ret)"

definition Base2_zrem_members :: "string \<Rightarrow> string list \<Rightarrow> int ptr \<Rightarrow> (bool \<times> int ptr) virtual_call" where
  "Base2_zrem_members key members ret =
     dispatch (Redis2_zrem_members key members ret) (Redis2P_zrem_members key members ret)"

definition Base2_zremrangebyrank :: "string \<Rightarrow> int \<Rightarrow> int \<Rightarrow> int ptr \<Rightarrow> (bool \<times> int ptr) virtual_call" where
  "Base2_zremrangebyrank key start stop ret =
     dispatch (Redis2_zremrangebyrank key start stop ret) (Redis2P_zremrangebyrank key start stop ret)"

definition Base2_zremrangebyscore :: "string \<Rightarrow> string \<Rightarrow> string \<Rightarrow> int ptr \<Rightarrow> (bool \<times> int ptr) virtual_call" where
  "Base2_zremrangebyscore key mn mx ret =
     dispatch (Redis2_zremrangebyscore key mn mx ret) (Redis2P_zremrangebyscore key mn mx ret)"

definition Base2_zscore :: "string \<Rightarrow> string \<Rightarrow> 64 word ptr \<Rightarrow> bool ptr \<Rightarrow> (bool \<times> 64 word ptr \<times> bool ptr) virtual_call" where
  "Base2_zscore key member ret is_nil =
     dispatch (Redis2_zscore key member ret is_nil) (Redis2P_zscore key member ret is_nil)"

section \<open>All hosts\<close>

definition Base2_select :: "int \<Rightarrow> bool virtual_call" where
  "Base2_select index = dispatch (Redis2_select index) (Redis2P_select index)"

definition Base2_flushall :: "bool virtual_call" where
  "Base2_flushall = dispatch (Redis2_flushall) (Redis2P_flushall)"

definition Base2_flushdb :: "bool virtual_call" where
  "Base2_flushdb = dispatch (Redis2_flushdb) (Redis2P_flushdb)"

section \<open>Old-style methods\<close>

text \<open>The parameter \<open>junk\<close> is the content of the uninitialised variable of the body.\<close>

definition Base2_old_get :: "bool \<Rightarrow> string \<Rightarrow> string ptr \<Rightarrow> (int \<times> string ptr) virtual_call" where
  "Base2_old_get = Base_get Base2_get"

definition Base2_old_expire :: "int \<Rightarrow> string \<Rightarrow> int \<Rightarrow> int virtual_call" where
  "Base2_old_expire = Base_expire Base2_expire"

definition Base2_old_expireat :: "int \<Rightarrow> string \<Rightarrow> int \<Rightarrow> int virtual_call" where
  "Base2_old_expireat = Base_expireat Base2_expireat"

definition Base2_old_keys :: "string \<Rightarrow> string list ptr \<Rightarrow> (bool \<times> string list ptr) virtual_call" where
  "Base2_old_keys = Base_keys Base2_set_last_error Base2_keys"

definition Base2_old_hget :: "bool \<Rightarrow> string \<Rightarrow> string \<Rightarrow> string ptr \<Rightarrow> (int \<times> string ptr) virtual_call" where
  "Base2_old_hget = Base_hget Base2_hget"

definition Base2_old_hset :: "int \<Rightarrow> string \<Rightarrow> string \<Rightarrow> string \<Rightarrow> bool virtual_call" where
  "Base2_old_hset = Base_hset Base2_hset"

definition Base2_old_hdel :: "int \<Rightarrow> string \<Rightarrow> string \<Rightarrow> int virtual_call" where
  "Base2_old_hdel = Base_hdel Base2_hdel"

definition Base2_old_hgetall_pairs ::
  "string \<Rightarrow> (string \<times> string) list ptr \<Rightarrow> (bool \<times> (string \<times> string) list ptr) virtual_call" where
  "Base2_old_hgetall_pairs = Base_hgetall_pairs Base2_set_last_error Base2_hgetall"

definition Base2_old_hgetall_map ::
  "string \<Rightarrow> (string \<times> string) list ptr \<Rightarrow> (bool \<times> (string \<times> string) list ptr) virtual_call" where
  "Base2_old_hgetall_map = Base_hgetall_map Base2_set_last_error Base2_hgetall"

definition Base2_old_hmset_pairs :: "string \<Rightarrow> (string \<times> string) list \<Rightarrow> bool virtual_call" where
  "Base2_old_hmset_pairs = Base_hmset_pairs Base2_hmset"

definition Base2_old_hmset_map :: "string \<Rightarrow> (string \<times> string) list \<Rightarrow> bool virtual_call" where
  "Base2_old_hmset_map = Base_hmset_map Base2_hmset"

end
