(* ===== verification/Partition_Single.thy ===== *)
theory Partition_Single
  imports Partition_Inv
begin

text \<open>
  The partition client on one host and one group does what the client for one server does, method by
  method.  \<open>hsetnx\<close> does not (it is the \<open>hset\<close> of the host), nor do the methods of several keys, which
  the partition client breaks up.
\<close>

section \<open>One host\<close>

definition alone :: "Redis2P \<Rightarrow> Redis2 \<Rightarrow> bool" where
  "alone p r \<longleftrightarrow> redis2_sp_vector p = [r] \<and> groups p = 1 \<and> length (hosts p) = 1 \<and> length (ports p) = 1"

text \<open>The method \<open>mp\<close> of the partition client is the method \<open>m\<close> of its only host: the same result
  (or exception), the same exchange, the same state of the host afterwards; the text of the last error
  is set exactly when it fails, to the error of the host.\<close>

definition forwards :: "('r \<Rightarrow> bool) \<Rightarrow> 'r part_call \<Rightarrow> 'r client_call \<Rightarrow> bool" where
  "forwards ok mp m \<longleftrightarrow>
     (\<forall>p r w. alone p r \<longrightarrow>
       (case m r w of
          None \<Rightarrow> mp p w = None
        | Some (res, r', w') \<Rightarrow> \<exists>p'. mp p w = Some (res, p', w') \<and> alone p' r'
            \<and> hosts p' = hosts p \<and> ports p' = ports p \<and> hash_fn p' = hash_fn p
            \<and> pt_error p' = (if ok res then pt_error p else host_error (hd (hosts p)) (hd (ports p)) r')))"

lemma alone_index: "alone p r \<Longrightarrow> get_key_host_index key p = Some 0"
  by (simp add: alone_def get_key_host_index_def)

lemma alone_key_client: "alone p r \<Longrightarrow> get_key_client key True p w = Some ((True, [0]), p)"
  by (simp add: get_key_client_def alone_index) (simp add: alone_def)

lemma alone_group_client: "alone p r \<Longrightarrow> get_group_client p w = Some ((True, [0]), p)"
  by (simp add: get_group_client_def alone_def)

lemma forwards_loops:
  assumes "alone p r"
  shows "case f cells r w of None \<Rightarrow> for_each_write f [0] cells p w = None \<and> for_each_read f [0] cells p w = None
    | Some (res, r', w') \<Rightarrow> \<exists>p'. for_each_write f [0] cells p w = Some (res, p', w')
        \<and> for_each_read f [0] cells p w = Some (res, p', w') \<and> alone p' r'
        \<and> hosts p' = hosts p \<and> ports p' = ports p \<and> hash_fn p' = hash_fn p
        \<and> pt_error p' = (if fst res then pt_error p else host_error (hd (hosts p)) (hd (ports p)) r')"
proof (cases "f cells r w")
  case None
  with assms show ?thesis by (simp add: call_host_def alone_def)
next
  case (Some a)
  obtain ok cs r' w' where a: "a = ((ok, cs), r', w')" by (cases a) auto
  have "hosts p ! 0 = hd (hosts p)" "ports p ! 0 = hd (ports p)"
    using assms by (auto simp: alone_def length_Suc_conv)
  with assms Some a show ?thesis by (cases ok) (auto simp: call_host_def alone_def set_index_error_def)
qed

lemma forwardsI:
  assumes "\<And>p r w. alone p r \<Longrightarrow> \<exists>f cells. m r w = f cells r w
      \<and> (mp p w = for_each_write f [0] cells p w \<or> mp p w = for_each_read f [0] cells p w)"
  shows "forwards fst mp m"
  unfolding forwards_def
proof (intro allI impI)
  fix p r w
  assume a: "alone p r"
  from assms [OF a] obtain f cells where 1: "m r w = f cells r w"
    "mp p w = for_each_write f [0] cells p w \<or> mp p w = for_each_read f [0] cells p w" by blast
  show "case m r w of None \<Rightarrow> mp p w = None
    | Some (res, r', w') \<Rightarrow> \<exists>p'. mp p w = Some (res, p', w') \<and> alone p' r'
        \<and> hosts p' = hosts p \<and> ports p' = ports p \<and> hash_fn p' = hash_fn p
        \<and> pt_error p' = (if fst res then pt_error p else host_error (hd (hosts p)) (hd (ports p)) r')"
  proof (cases "m r w")
    case None
    with 1 forwards_loops [OF a, of f cells w] show ?thesis by auto
  next
    case (Some x)
    obtain res r' w' where "x = (res, r', w')" by (cases x)
    with Some 1 forwards_loops [OF a, of f cells w] show ?thesis by auto
  qed
qed

lemma forwards_groups:
  "forwards fst (FOR_EACH_GROUP_WRITE f key cells) (f cells)" "forwards fst (FOR_EACH_GROUP_READ f key cells) (f cells)"
  by (rule forwardsI, auto simp: FOR_EACH_GROUP_WRITE_def FOR_EACH_GROUP_READ_def alone_key_client)+

lemma checks_pass:
  "P_CHECK_PTR_PARAM (Some v) fail mp = mp" "b \<Longrightarrow> P_CHECK_EXPR b fail mp = mp"
  by (simp_all add: P_CHECK_PTR_PARAM_def P_CHECK_EXPR_def fun_eq_iff)

lemma forwards_shapes:
  "forwards fst (write1 f key (Some v)) (f (Some v))" "forwards fst (read1 f key (Some v)) (f (Some v))"
  "forwards fst (write2 g key (Some v) (Some b)) (g (Some v) (Some b))"
  "forwards fst (read2 g key (Some v) (Some b)) (g (Some v) (Some b))"
  "forwards fst (P_CHECK_PTR_PARAM (Some v) fail (FOR_EACH_GROUP_READ (\<lambda>(a, b). g a b) key (Some v, Some b)))
     (g (Some v) (Some b))"
  using forwards_groups [of f key "Some v"] forwards_groups [of "\<lambda>(a, b). g a b" key "(Some v, Some b)"]
  unfolding write1_def read1_def write2_def read2_def checks_pass by simp_all

lemma forwards_write0: "forwards id (write0 f key) f"
  unfolding forwards_def
proof (intro allI impI)
  fix p r w
  assume a: "alone p r"
  note g = forwards_groups(1) [of "no_cells f" key "()", unfolded forwards_def, rule_format, OF a, of w]
  show "case f r w of None \<Rightarrow> write0 f key p w = None
    | Some (res, r', w') \<Rightarrow> \<exists>p'. write0 f key p w = Some (res, p', w') \<and> alone p' r'
        \<and> hosts p' = hosts p \<and> ports p' = ports p \<and> hash_fn p' = hash_fn p
        \<and> pt_error p' = (if id res then pt_error p else host_error (hd (hosts p)) (hd (ports p)) r')"
  proof (cases "f r w")
    case None
    with g show ?thesis by (simp add: write0_def drop_cells_def no_cells_def)
  next
    case (Some x)
    obtain res r' w' where x: "x = (res, r', w')" by (cases x)
    from Some g show ?thesis by (auto simp: x write0_def drop_cells_def no_cells_def)
  qed
qed

lemma forwards_randomkey:
  "forwards fst (Redis2P_randomkey (Some v) (Some b)) (Redis2_randomkey (Some v) (Some b))"
proof (rule forwardsI)
  fix p r w
  assume "alone p r"
  then show "\<exists>f cells. Redis2_randomkey (Some v) (Some b) r w = f cells r w
      \<and> (Redis2P_randomkey (Some v) (Some b) p w = for_each_write f [0] cells p w
        \<or> Redis2P_randomkey (Some v) (Some b) p w = for_each_read f [0] cells p w)"
    by (intro exI [of _ "\<lambda>(a, b). Redis2_randomkey a b"] exI [of _ "(Some v, Some b)"])
      (simp add: Redis2P_randomkey_def checks_pass alone_group_client)
qed

lemma forwards_checked:
  "forwards fst mp m \<Longrightarrow> b \<Longrightarrow> forwards fst (P_CHECK_PTR_PARAM (Some v) fail (P_CHECK_EXPR b fail' mp)) m"
  "forwards id np n \<Longrightarrow> b \<Longrightarrow> forwards id (P_CHECK_EXPR b fail'' np) n"
  by (simp_all add: checks_pass)

lemma map_lengths: "length (map f xs) = length (map g xs)" by simp

lemmas forwards_rules = forwards_shapes forwards_groups forwards_write0 forwards_randomkey
  forwards_checked [where b = "length (map f xs) = length (map g xs)" for f g xs, OF _ map_lengths]

end
