(* ===== verification/Virtual_Properties.thy ===== *)
theory Virtual_Properties
  imports Redis_Virtual Partition_Single Sample
begin

text \<open>
  The two classes behind the interface \<open>RedisBase2\<close> are interchangeable on one host: a caller cannot
  tell, from the results and the exchange with the server, which of them the pool created.
\<close>

section \<open>Interchangeable calls\<close>

definition interchangeable :: "'r virtual_call \<Rightarrow> bool" where
  "interchangeable m \<longleftrightarrow>
     (\<forall>p r w. alone p r \<longrightarrow>
       (case m (NormalClient r) w of
          None \<Rightarrow> m (PartitionClient p) w = None
        | Some (res, b, w') \<Rightarrow> \<exists>r' p'. b = NormalClient r' \<and> m (PartitionClient p) w = Some (res, PartitionClient p', w')
            \<and> alone p' r'))"

lemma interchangeable_dispatch: "forwards ok mp m \<Longrightarrow> interchangeable (dispatch m mp)"
  unfolding interchangeable_def
proof (intro allI impI)
  fix p r w
  assume f: "forwards ok mp m" and a: "alone p r"
  note g = f [unfolded forwards_def, rule_format, OF a, of w]
  show "case dispatch m mp (NormalClient r) w of None \<Rightarrow> dispatch m mp (PartitionClient p) w = None
    | Some (res, b, w') \<Rightarrow> \<exists>r' p'. b = NormalClient r' \<and> dispatch m mp (PartitionClient p) w = Some (res, PartitionClient p', w')
        \<and> alone p' r'"
  proof (cases "m r w")
    case None
    with g show ?thesis by (simp add: dispatch_def)
  next
    case (Some x)
    obtain res r' w' where x: "x = (res, r', w')" by (cases x)
    with Some g obtain p' where "mp p w = Some (res, p', w')" "alone p' r'" by auto
    with Some x show ?thesis by (simp add: dispatch_def)
  qed
qed

text \<open>Programs over interchangeable calls are interchangeable.\<close>

lemma interchangeable_return: "interchangeable (\<lambda>b w. Some (x, b, w))"
  by (simp add: interchangeable_def)

lemma interchangeable_fail: "interchangeable (\<lambda>b w. None)"
  by (simp add: interchangeable_def)

lemma interchangeable_bind:
  assumes "interchangeable m" "\<And>x. interchangeable (k x)"
  shows "interchangeable (\<lambda>b w. do { (x, b, w) \<leftarrow> m b w; k x b w })"
  unfolding interchangeable_def
proof (intro allI impI)
  fix p r w
  assume a: "alone p r"
  note g = assms(1) [unfolded interchangeable_def, rule_format, OF a, of w]
  show "case do { (x, b, w) \<leftarrow> m (NormalClient r) w; k x b w } of
      None \<Rightarrow> do { (x, b, w) \<leftarrow> m (PartitionClient p) w; k x b w } = None
    | Some (res, b, w') \<Rightarrow> \<exists>r' p'. b = NormalClient r'
        \<and> do { (x, b, w) \<leftarrow> m (PartitionClient p) w; k x b w } = Some (res, PartitionClient p', w') \<and> alone p' r'"
  proof (cases "m (NormalClient r) w")
    case None
    with g show ?thesis by simp
  next
    case (Some x)
    obtain res b w' where x: "x = (res, b, w')" by (cases x)
    with Some g obtain r' p' where 1: "b = NormalClient r'" "m (PartitionClient p) w = Some (res, PartitionClient p', w')"
      "alone p' r'" by auto
    have e: "do { (x, b, w) \<leftarrow> m (NormalClient r) w; k x b w } = k res (NormalClient r') w'"
      "do { (x, b, w) \<leftarrow> m (PartitionClient p) w; k x b w } = k res (PartitionClient p') w'"
      using Some x 1 by simp_all
    show ?thesis
      unfolding e by (rule assms(2) [of res, unfolded interchangeable_def, rule_format, OF 1(3)])
  qed
qed

lemmas base2_defs =
  Base2_del_def Base2_dump_def Base2_exists_def Base2_expire_def Base2_expireat_def Base2_move_def
  Base2_persist_def Base2_pexpire_def Base2_pexpireat_def Base2_pttl_def Base2_restore_def
  Base2_randomkey_def Base2_sort_def Base2_ttl_def Base2_type_def Base2_append_def Base2_decr_def
  Base2_decrby_def Base2_get_def Base2_getbit_def Base2_getrange_def Base2_getset_def Base2_incr_def
  Base2_incrby_def Base2_incrbyfloat_def Base2_psetex_def Base2_set_def Base2_setbit_def
  Base2_setex_def Base2_setnx_def Base2_setrange_def Base2_strlen_def Base2_hdel_def
  Base2_hdel_fields_def Base2_hexists_def Base2_hget_def Base2_hgetall_def Base2_hincr_def
  Base2_hincrby_def Base2_hincrbyfloat_def Base2_hkeys_def Base2_hlen_def Base2_hmget_def
  Base2_hmset_def Base2_hset_def Base2_hvals_def Base2_lindex_def Base2_linsert_def Base2_llen_def
  Base2_lpop_def Base2_lpush_def Base2_lpush_values_def Base2_lpushx_def Base2_lrange_def
  Base2_lrem_def Base2_lset_def Base2_ltrim_def Base2_rpop_def Base2_rpush_def Base2_rpush_values_def
  Base2_rpushx_def Base2_sadd_def Base2_sadd_members_def Base2_scard_def Base2_sismember_def
  Base2_smembers_def Base2_spop_def Base2_srandmember_def Base2_srem_def Base2_srem_members_def
  Base2_zadd_def Base2_zadd_scores_def Base2_zcard_def Base2_zcount_def Base2_zincrby_def
  Base2_zrange_def Base2_zrevrange_def Base2_zrangebyscore_def Base2_zrevrangebyscore_def
  Base2_zrank_def Base2_zrevrank_def Base2_zrem_def Base2_zrem_members_def Base2_zremrangebyrank_def
  Base2_zremrangebyscore_def Base2_zscore_def

lemmas interchange_rules = forwards_rules [THEN interchangeable_dispatch]

section \<open>All hosts and all keys\<close>

lemma all_hosts_interchange:
  "interchangeable (dispatch f (\<lambda>p w. all_hosts f [0..<length (redis2_sp_vector p)] True p w))"
  unfolding interchangeable_def
proof (intro allI impI)
  fix p r w
  assume a: "alone p r"
  show "case dispatch f (\<lambda>p w. all_hosts f [0..<length (redis2_sp_vector p)] True p w) (NormalClient r) w of
      None \<Rightarrow> dispatch f (\<lambda>p w. all_hosts f [0..<length (redis2_sp_vector p)] True p w) (PartitionClient p) w = None
    | Some (res, b, w') \<Rightarrow> \<exists>r' p'. b = NormalClient r'
        \<and> dispatch f (\<lambda>p w. all_hosts f [0..<length (redis2_sp_vector p)] True p w) (PartitionClient p) w
          = Some (res, PartitionClient p', w') \<and> alone p' r'"
    using a by (cases "f r w") (auto simp: alone_def dispatch_def call_host_def set_host_error_def)
qed

lemma whole_client_methods:
  "interchangeable (Base2_select index)" "interchangeable Base2_flushall" "interchangeable Base2_flushdb"
  unfolding Base2_select_def Base2_flushall_def Base2_flushdb_def
    Redis2P_select_def [abs_def] Redis2P_flushall_def [abs_def] Redis2P_flushdb_def [abs_def]
  by (rule all_hosts_interchange)+

section \<open>Old-style methods\<close>

text \<open>They run one virtual method and compute their result from its result.\<close>

lemma interchangeable_result:
  assumes "interchangeable m"
    and n: "\<And>b w. n b w = do { (x, b, w) \<leftarrow> m b w; y \<leftarrow> h x; Some (y, b, w) }"
  shows "interchangeable n"
proof -
  have "interchangeable (\<lambda>b w. do { y \<leftarrow> h x; Some (y, b, w) })" for x
    by (cases "h x") (simp_all add: interchangeable_return interchangeable_fail)
  from interchangeable_bind [OF assms(1) this] show ?thesis by (simp add: n [abs_def])
qed

lemma bind_eqI: "(\<And>x b w. f (x, b, w) = g (x, b, w)) \<Longrightarrow> Option.bind m f = Option.bind m g"
  by (cases m) auto

lemma old_methods:
  shows "interchangeable (Base2_old_get junk key (Some v))" "interchangeable (Base2_old_hget junk key field (Some v))"
    "interchangeable (Base2_old_expire i key seconds)" "interchangeable (Base2_old_expireat i key seconds)"
    "interchangeable (Base2_old_hset i key field value)" "interchangeable (Base2_old_hdel i key field)"
    "interchangeable (Base2_old_hgetall_pairs key (Some m))" "interchangeable (Base2_old_hgetall_map key (Some m))"
    "interchangeable (Base2_old_hmset_pairs key m)" "interchangeable (Base2_old_hmset_map key m)"
proof -
  let ?nil = "\<lambda>(ok, x, nl). Some (if ok then (if nl = Some True then 0 else 1) else - 1 :: int, x :: string ptr)"
  let ?int = "\<lambda>(ok, x). map_option (\<lambda>i. if ok then int32 i else - 1) x"
  let ?pairs = "\<lambda>f (ok, x). if ok then Option.bind x (\<lambda>mb. map_option (\<lambda>ps. (True, Some (f ps))) (mbulk_pairs mb)) else Some (False, Some m)"
  have get: "interchangeable (Base2_get key (Some v) (Some junk))"
    and hget: "interchangeable (Base2_hget key field (Some v) (Some junk))"
    and ints: "interchangeable (Base2_expire key seconds (Some i))" "interchangeable (Base2_expireat key seconds (Some i))"
      "interchangeable (Base2_hset key field value (Some i))" "interchangeable (Base2_hdel key field (Some i))"
    and all: "interchangeable (Base2_hgetall key (Some []))"
    and hmset: "interchangeable (Base2_hmset key (map fst m) (map snd m))"
    unfolding base2_defs keyed_defs by (intro interchange_rules forwards_rules)+
  show "interchangeable (Base2_old_get junk key (Some v))"
    by (rule interchangeable_result [OF get, where h = ?nil])
      (unfold Base2_old_get_def Base_get_def option.case, rule bind_eqI, auto split: Option.bind_splits option.splits if_splits)
  show "interchangeable (Base2_old_hget junk key field (Some v))"
    by (rule interchangeable_result [OF hget, where h = ?nil])
      (unfold Base2_old_hget_def Base_hget_def option.case, rule bind_eqI, auto split: Option.bind_splits option.splits if_splits)
  show "interchangeable (Base2_old_expire i key seconds)"
    by (rule interchangeable_result [OF ints(1), where h = ?int])
      (unfold Base2_old_expire_def Base_expire_def option.case, rule bind_eqI, auto split: Option.bind_splits option.splits if_splits)
  show "interchangeable (Base2_old_expireat i key seconds)"
    by (rule interchangeable_result [OF ints(2), where h = ?int])
      (unfold Base2_old_expireat_def Base_expireat_def option.case, rule bind_eqI, auto split: Option.bind_splits option.splits if_splits)
  show "interchangeable (Base2_old_hset i key field value)"
    by (rule interchangeable_result [OF ints(3), where h = "\<lambda>(ok, x). Some ok"])
      (unfold Base2_old_hset_def Base_hset_def option.case, rule bind_eqI, auto split: Option.bind_splits option.splits if_splits)
  show "interchangeable (Base2_old_hdel i key field)"
    by (rule interchangeable_result [OF ints(4), where h = ?int])
      (unfold Base2_old_hdel_def Base_hdel_def option.case, rule bind_eqI, auto split: Option.bind_splits option.splits if_splits)
  show "interchangeable (Base2_old_hgetall_pairs key (Some m))"
    by (rule interchangeable_result [OF all, where h = "?pairs (\<lambda>ps. m @ ps)"])
      (unfold Base2_old_hgetall_pairs_def Base_hgetall_pairs_def option.case, rule bind_eqI, auto split: Option.bind_splits option.splits if_splits)
  show "interchangeable (Base2_old_hgetall_map key (Some m))"
    by (rule interchangeable_result [OF all, where h = "?pairs (foldl (\<lambda>m (k, v). map_insert k v m) m)"])
      (unfold Base2_old_hgetall_map_def Base_hgetall_map_def option.case, rule bind_eqI, auto split: Option.bind_splits option.splits if_splits)
  show "interchangeable (Base2_old_hmset_pairs key m)" "interchangeable (Base2_old_hmset_map key m)"
    using hmset by (simp_all add: Base2_old_hmset_pairs_def Base2_old_hmset_map_def Base_hmset_pairs_def Base_hmset_map_def)
qed

lemma destroy_alone: "alone p r \<longrightarrow> Base2_destroy (PartitionClient p) w = Base2_destroy (NormalClient r) w"
  by (simp add: Base2_destroy_def Redis2P_destroy_def alone_def)

section \<open>The interface\<close>

text \<open>C17: on one host, the two classes behind \<open>RedisBase2\<close> are interchangeable.  The pool creates
  clients that are related, a client for one server and a partition client whose only host is that
  server; on related clients every method of one key but \<open>hsetnx\<close>, \<open>randomkey\<close>, \<open>select\<close>, \<open>flushall\<close> and
  \<open>flushdb\<close>, and the old-style methods but \<open>keys\<close>, give the same result and the same exchange and
  leave related clients, and their destructors do the same.  (Output parameters are not null; the pairs
  of \<open>hmset\<close> and \<open>zadd\<close> match.)  Not covered: \<open>hsetnx\<close>, which differs, since the partition client calls \<open>hset\<close>
  in its place; the methods of several keys (\<open>del\<close> of a vector, \<open>mget\<close>, \<open>mset\<close>) and \<open>keys\<close> in both
  styles, which the partition client carries out differently.\<close>

theorem clients_interchangeable:
  assumes "t_split s (CHR '','') (t_host s) = [t_host s]" "t_split s (CHR '','') (t_port s) = [t_port s]" "t_partitions s = 1"
  shows "(\<exists>r p. create_redis (s\<lparr>t_type := kNormal\<rparr>) = Inr (NormalClient r)
      \<and> create_redis (s\<lparr>t_type := kPartition\<rparr>) = Inr (PartitionClient p) \<and> alone p r)
   \<and> (\<forall>key v. interchangeable (Base2_del key (Some v)))
   \<and> (\<forall>key v b. interchangeable (Base2_dump key (Some v) (Some b)))
   \<and> (\<forall>key v. interchangeable (Base2_exists key (Some v)))
   \<and> (\<forall>key seconds v. interchangeable (Base2_expire key seconds (Some v)))
   \<and> (\<forall>key abs_seconds v. interchangeable (Base2_expireat key abs_seconds (Some v)))
   \<and> (\<forall>key db v. interchangeable (Base2_move key db (Some v)))
   \<and> (\<forall>key v. interchangeable (Base2_persist key (Some v)))
   \<and> (\<forall>key milliseconds v. interchangeable (Base2_pexpire key milliseconds (Some v)))
   \<and> (\<forall>key abs_milliseconds v. interchangeable (Base2_pexpireat key abs_milliseconds (Some v)))
   \<and> (\<forall>key v. interchangeable (Base2_pttl key (Some v)))
   \<and> (\<forall>key ttl value. interchangeable (Base2_restore key ttl value))
   \<and> (\<forall>v b. interchangeable (Base2_randomkey (Some v) (Some b)))
   \<and> (\<forall>key phrases v. interchangeable (Base2_sort key phrases (Some v)))
   \<and> (\<forall>key v. interchangeable (Base2_ttl key (Some v)))
   \<and> (\<forall>key v. interchangeable (Base2_type key (Some v)))
   \<and> (\<forall>key value v. interchangeable (Base2_append key value (Some v)))
   \<and> (\<forall>key v. interchangeable (Base2_decr key (Some v)))
   \<and> (\<forall>key dec v. interchangeable (Base2_decrby key dec (Some v)))
   \<and> (\<forall>key v b. interchangeable (Base2_get key (Some v) (Some b)))
   \<and> (\<forall>key offset v. interchangeable (Base2_getbit key offset (Some v)))
   \<and> (\<forall>key start stop v b. interchangeable (Base2_getrange key start stop (Some v) (Some b)))
   \<and> (\<forall>key value v b. interchangeable (Base2_getset key value (Some v) (Some b)))
   \<and> (\<forall>key v. interchangeable (Base2_incr key (Some v)))
   \<and> (\<forall>key inc v. interchangeable (Base2_incrby key inc (Some v)))
   \<and> (\<forall>key inc v. interchangeable (Base2_incrbyfloat key inc (Some v)))
   \<and> (\<forall>key milliseconds value. interchangeable (Base2_psetex key milliseconds value))
   \<and> (\<forall>key value. interchangeable (Base2_set key value))
   \<and> (\<forall>key offset bitval v. interchangeable (Base2_setbit key offset bitval (Some v)))
   \<and> (\<forall>key seconds value. interchangeable (Base2_setex key seconds value))
   \<and> (\<forall>key value v. interchangeable (Base2_setnx key value (Some v)))
   \<and> (\<forall>key offset value v. interchangeable (Base2_setrange key offset value (Some v)))
   \<and> (\<forall>key v. interchangeable (Base2_strlen key (Some v)))
   \<and> (\<forall>key field v. interchangeable (Base2_hdel key field (Some v)))
   \<and> (\<forall>key flds v. interchangeable (Base2_hdel_fields key flds (Some v)))
   \<and> (\<forall>key field v. interchangeable (Base2_hexists key field (Some v)))
   \<and> (\<forall>key field v b. interchangeable (Base2_hget key field (Some v) (Some b)))
   \<and> (\<forall>key v. interchangeable (Base2_hgetall key (Some v)))
   \<and> (\<forall>key field v. interchangeable (Base2_hincr key field (Some v)))
   \<and> (\<forall>key field inc v. interchangeable (Base2_hincrby key field inc (Some v)))
   \<and> (\<forall>key field inc v. interchangeable (Base2_hincrbyfloat key field inc (Some v)))
   \<and> (\<forall>key v. interchangeable (Base2_hkeys key (Some v)))
   \<and> (\<forall>key v. interchangeable (Base2_hlen key (Some v)))
   \<and> (\<forall>key flds v. interchangeable (Base2_hmget key flds (Some v)))
   \<and> (\<forall>key fvs. interchangeable (Base2_hmset key (map fst fvs) (map snd fvs)))
   \<and> (\<forall>key field value v. interchangeable (Base2_hset key field value (Some v)))
   \<and> (\<forall>key v. interchangeable (Base2_hvals key (Some v)))
   \<and> (\<forall>key index v b. interchangeable (Base2_lindex key index (Some v) (Some b)))
   \<and> (\<forall>key before pivot value v. interchangeable (Base2_linsert key before pivot value (Some v)))
   \<and> (\<forall>key v. interchangeable (Base2_llen key (Some v)))
   \<and> (\<forall>key v b. interchangeable (Base2_lpop key (Some v) (Some b)))
   \<and> (\<forall>key value v. interchangeable (Base2_lpush key value (Some v)))
   \<and> (\<forall>key values v. interchangeable (Base2_lpush_values key values (Some v)))
   \<and> (\<forall>key value v. interchangeable (Base2_lpushx key value (Some v)))
   \<and> (\<forall>key start stop v. interchangeable (Base2_lrange key start stop (Some v)))
   \<and> (\<forall>key count value v. interchangeable (Base2_lrem key count value (Some v)))
   \<and> (\<forall>key index value. interchangeable (Base2_lset key index value))
   \<and> (\<forall>key start stop. interchangeable (Base2_ltrim key start stop))
   \<and> (\<forall>key v b. interchangeable (Base2_rpop key (Some v) (Some b)))
   \<and> (\<forall>key value v. interchangeable (Base2_rpush key value (Some v)))
   \<and> (\<forall>key values v. interchangeable (Base2_rpush_values key values (Some v)))
   \<and> (\<forall>key value v. interchangeable (Base2_rpushx key value (Some v)))
   \<and> (\<forall>key member v. interchangeable (Base2_sadd key member (Some v)))
   \<and> (\<forall>key members v. interchangeable (Base2_sadd_members key members (Some v)))
   \<and> (\<forall>key v. interchangeable (Base2_scard key (Some v)))
   \<and> (\<forall>key member v. interchangeable (Base2_sismember key member (Some v)))
   \<and> (\<forall>key v. interchangeable (Base2_smembers key (Some v)))
   \<and> (\<forall>key v b. interchangeable (Base2_spop key (Some v) (Some b)))
   \<and> (\<forall>key v b. interchangeable (Base2_srandmember key (Some v) (Some b)))
   \<and> (\<forall>key member v. interchangeable (Base2_srem key member (Some v)))
   \<and> (\<forall>key members v. interchangeable (Base2_srem_members key members (Some v)))
   \<and> (\<forall>key score member v. interchangeable (Base2_zadd key score member (Some v)))
   \<and> (\<forall>key sms v. interchangeable (Base2_zadd_scores key (map fst sms) (map snd sms) (Some v)))
   \<and> (\<forall>key v. interchangeable (Base2_zcard key (Some v)))
   \<and> (\<forall>key mn mx v. interchangeable (Base2_zcount key mn mx (Some v)))
   \<and> (\<forall>key increment member v. interchangeable (Base2_zincrby key increment member (Some v)))
   \<and> (\<forall>key start stop withscores v. interchangeable (Base2_zrange key start stop withscores (Some v)))
   \<and> (\<forall>key start stop withscores v. interchangeable (Base2_zrevrange key start stop withscores (Some v)))
   \<and> (\<forall>key mn mx withscores limit v. interchangeable (Base2_zrangebyscore key mn mx withscores limit (Some v)))
   \<and> (\<forall>key mx mn withscores limit v. interchangeable (Base2_zrevrangebyscore key mx mn withscores limit (Some v)))
   \<and> (\<forall>key member v b. interchangeable (Base2_zrank key member (Some v) (Some b)))
   \<and> (\<forall>key member v b. interchangeable (Base2_zrevrank key member (Some v) (Some b)))
   \<and> (\<forall>key member v. interchangeable (Base2_zrem key member (Some v)))
   \<and> (\<forall>key members v. interchangeable (Base2_zrem_members key members (Some v)))
   \<and> (\<forall>key start stop v. interchangeable (Base2_zremrangebyrank key start stop (Some v)))
   \<and> (\<forall>key mn mx v. interchangeable (Base2_zremrangebyscore key mn mx (Some v)))
   \<and> (\<forall>key member v b. interchangeable (Base2_zscore key member (Some v) (Some b)))
   \<and> (\<forall>index. interchangeable (Base2_select index)) \<and> interchangeable Base2_flushall \<and> interchangeable Base2_flushdb
   \<and> (\<forall>junk key v. interchangeable (Base2_old_get junk key (Some v)))
   \<and> (\<forall>junk key field v. interchangeable (Base2_old_hget junk key field (Some v)))
   \<and> (\<forall>junk key seconds. interchangeable (Base2_old_expire junk key seconds))
   \<and> (\<forall>junk key abs_seconds. interchangeable (Base2_old_expireat junk key abs_seconds))
   \<and> (\<forall>junk key field value. interchangeable (Base2_old_hset junk key field value))
   \<and> (\<forall>junk key field. interchangeable (Base2_old_hdel junk key field))
   \<and> (\<forall>key m. interchangeable (Base2_old_hgetall_pairs key (Some m)))
   \<and> (\<forall>key m. interchangeable (Base2_old_hgetall_map key (Some m)))
   \<and> (\<forall>key m. interchangeable (Base2_old_hmset_pairs key m))
   \<and> (\<forall>key m. interchangeable (Base2_old_hmset_map key m))
   \<and> (\<forall>p r w. alone p r \<longrightarrow> Base2_destroy (PartitionClient p) w = Base2_destroy (NormalClient r) w)"
proof (intro conjI, goal_cases)
  case 1
  show ?case using assms
    by (auto simp: create_redis_def new_Redis2P_def multi_init_def inner_init_def Let_def alone_def size_of_int_def)
qed (unfold base2_defs keyed_defs, (intro allI interchange_rules whole_client_methods forwards_rules old_methods destroy_alone)+)

theorem clients_interchangeable_witness:
  "\<exists>r p. create_redis (new_Impl sample_split ''h'' ''1'' 0 1 50 kNormal 3 ()) = Inr (NormalClient r)
    \<and> create_redis (new_Impl sample_split ''h'' ''1'' 0 1 50 kPartition 3 ()) = Inr (PartitionClient p) \<and> alone p r"
proof -
  let ?s = "new_Impl sample_split ''h'' ''1'' 0 1 50 kNormal 3 ()"
  have "t_split ?s (CHR '','') (t_host ?s) = [t_host ?s]" "t_split ?s (CHR '','') (t_port ?s) = [t_port ?s]"
    "t_partitions ?s = 1" by (simp_all add: new_Impl_def)
  from clients_interchangeable [OF this, THEN conjunct1] show ?thesis by (simp add: new_Impl_def)
qed

end
