(* ===== verification/Tss_Pool.thy ===== *)
theory Tss_Pool
  imports Redis_Tss
begin

text \<open>
  What the pool promises for any number of threads and any interleaving of their steps: every
  client on the heap has exactly one owner (the free list, a thread's slot, a thread that holds
  it, or a thread inside \<open>get\<close> or \<open>put\<close>), nobody owns a deleted client, and the free list never
  exceeds the size of the pool.  So no client is used by two threads, deleted twice or used
  after it was deleted.
\<close>

section \<open>Ownership\<close>

datatype place = InFree | InSlot thread | InHeld thread | InCall thread

fun tpc_ptr :: "tpc \<Rightarrow> redis_ptr option" where
  "tpc_ptr (Got flag p) = Some p"
| "tpc_ptr (Putting p) = Some p"
| "tpc_ptr (Storing p) = Some p"
| "tpc_ptr (Deleting p) = Some p"
| "tpc_ptr _ = None"

text \<open>Inside a \<open>get\<close> for the thread's slot, which was found empty.\<close>

fun fills_slot :: "tpc \<Rightarrow> bool" where
  "fills_slot (Asking flag) = (flag = kThreadSpecific)"
| "fills_slot (Taking flag) = (flag = kThreadSpecific)"
| "fills_slot (Creating flag) = (flag = kThreadSpecific)"
| "fills_slot (Got flag p) = (flag = kThreadSpecific)"
| "fills_slot _ = False"

text \<open>\<open>own\<close> names the one place of every client.\<close>

definition owners :: "'s tss_lib \<Rightarrow> 's pool \<Rightarrow> (redis_ptr \<rightharpoonup> place) \<Rightarrow> bool" where
  "owners T \<sigma> own \<longleftrightarrow>
     (\<forall>p. p \<in> set (free_redis (impl \<sigma>)) \<longleftrightarrow> own p = Some InFree)
   \<and> (\<forall>t p. tss_get T t (impl \<sigma>) = Some p \<longleftrightarrow> own p = Some (InSlot t))
   \<and> (\<forall>t p. p \<in> held \<sigma> t \<longleftrightarrow> own p = Some (InHeld t))
   \<and> (\<forall>t p. tpc_ptr (pc \<sigma> t) = Some p \<longleftrightarrow> own p = Some (InCall t))
   \<and> (\<forall>p. objects (impl \<sigma>) p = None \<longleftrightarrow> own p = None)"

definition pool_inv :: "'s tss_lib \<Rightarrow> 's pool \<Rightarrow> bool" where
  "pool_inv T \<sigma> \<longleftrightarrow> distinct (free_redis (impl \<sigma>)) \<and> length (free_redis (impl \<sigma>)) \<le> pool_size (impl \<sigma>)
     \<and> (\<forall>p. objects (impl \<sigma>) p \<noteq> None \<longrightarrow> p < next_ptr (impl \<sigma>))
     \<and> (\<forall>t. tss_get T t (impl \<sigma>) \<noteq> None \<longrightarrow> has_cleanup T (client_slots (impl \<sigma>)) t)
     \<and> (\<forall>t. fills_slot (pc \<sigma> t) \<longrightarrow> tss_get T t (impl \<sigma>) = None)
     \<and> (\<exists>own. owners T \<sigma> own)"

lemma tss_lawsD:
  assumes "tss_laws T"
  shows "get_tss_data T (fst (set_tss_data T s t c v e)) t' = (if t' = t then v else get_tss_data T s t')"
    "has_cleanup T (fst (set_tss_data T s t c v e)) t' = (if t' = t then c else has_cleanup T s t')"
    "snd (set_tss_data T s t c v e) = (if e \<and> has_cleanup T s t then get_tss_data T s t else None)"
    "get_tss_data T (fst (end_thread T s t)) t' = (if t' = t then None else get_tss_data T s t')"
    "has_cleanup T (fst (end_thread T s t)) t' = (if t' = t then False else has_cleanup T s t')"
    "snd (end_thread T s t) = (if has_cleanup T s t then get_tss_data T s t else None)"
  using assms unfolding tss_laws_def by blast+

lemma pool_invI:
  assumes "owners T \<sigma> own" "distinct (free_redis (impl \<sigma>))" "length (free_redis (impl \<sigma>)) \<le> pool_size (impl \<sigma>)"
    "\<And>p. objects (impl \<sigma>) p \<noteq> None \<Longrightarrow> p < next_ptr (impl \<sigma>)"
    "\<And>t. tss_get T t (impl \<sigma>) \<noteq> None \<Longrightarrow> has_cleanup T (client_slots (impl \<sigma>)) t"
    "\<And>t. fills_slot (pc \<sigma> t) \<Longrightarrow> tss_get T t (impl \<sigma>) = None"
  shows "pool_inv T \<sigma>"
  using assms unfolding pool_inv_def by blast

lemma pool_invD:
  assumes "pool_inv T \<sigma>"
  shows "distinct (free_redis (impl \<sigma>))" "length (free_redis (impl \<sigma>)) \<le> pool_size (impl \<sigma>)"
    "\<forall>p. objects (impl \<sigma>) p \<noteq> None \<longrightarrow> p < next_ptr (impl \<sigma>)"
    "\<forall>t. tss_get T t (impl \<sigma>) \<noteq> None \<longrightarrow> has_cleanup T (client_slots (impl \<sigma>)) t"
    "\<forall>t. fills_slot (pc \<sigma> t) \<longrightarrow> tss_get T t (impl \<sigma>) = None"
  using assms unfolding pool_inv_def by blast+

lemma pool_own: "pool_inv T \<sigma> \<Longrightarrow> \<exists>own. owners T \<sigma> own"
  unfolding pool_inv_def by blast

lemma owner_of:
  assumes "owners T \<sigma> own"
  shows "p \<in> set (free_redis (impl \<sigma>)) \<Longrightarrow> own p = Some InFree"
    "tss_get T t (impl \<sigma>) = Some p \<Longrightarrow> own p = Some (InSlot t)"
    "p \<in> held \<sigma> t \<Longrightarrow> own p = Some (InHeld t)"
    "tpc_ptr (pc \<sigma> t) = Some p \<Longrightarrow> own p = Some (InCall t)"
    "objects (impl \<sigma>) p = None \<longleftrightarrow> own p = None"
  using assms by (auto simp: owners_def)

text \<open>What the thread \<open>t\<close> itself owns.\<close>

lemma owned_by:
  assumes "owners T \<sigma> own"
  shows "own p = Some (InCall t) \<longleftrightarrow> tpc_ptr (pc \<sigma> t) = Some p"
    "own p = Some (InSlot t) \<longleftrightarrow> tss_get T t (impl \<sigma>) = Some p"
    "own p = Some (InHeld t) \<longleftrightarrow> p \<in> held \<sigma> t"
  using assms by (auto simp: owners_def)

lemma pool_inv_lock [simp]: "pool_inv T (\<sigma>\<lparr>lock := l\<rparr>) = pool_inv T \<sigma>"
  by (simp add: pool_inv_def owners_def)

lemma start_inv: "pool_start T \<sigma> \<Longrightarrow> pool_inv T \<sigma>"
  by (rule pool_invI [of _ _ Map.empty]) (auto simp: pool_start_def owners_def)

section \<open>Steps\<close>

lemma free_split: "xs \<noteq> [] \<Longrightarrow> distinct xs \<Longrightarrow> set (butlast xs) = set xs - {last xs} \<and> distinct (butlast xs)"
  by (cases xs rule: rev_cases) auto

lemma set_empty:
  assumes "tss_laws T" "tss_get T t s = None"
  shows "snd (set_tss_data T (client_slots s) t c v e) = None"
  using assms(2) by (simp add: tss_lawsD [OF assms(1)] tss_get_def)

lemma reset_empty:
  assumes "tss_laws T" "tss_get T t s = None"
  shows "tss_reset T t (Some p) s = Some (s\<lparr>client_slots := fst (set_tss_data T (client_slots s) t True (Some p) True)\<rparr>)"
  using assms tss_lawsD(3) [OF assms(1), of "client_slots s" t True "Some p" True]
  by (auto simp: tss_reset_def tss_get_def put_free_redis_def split: prod.splits)

text \<open>One lemma per step: the step moves one client from one place to another.\<close>

lemma take_free_inv:
  assumes "pool_inv T \<sigma>" "pc \<sigma> t = Taking flag" "get_free_redis (impl \<sigma>) = (Some p, s')"
  shows "pool_inv T (\<sigma>\<lparr>impl := s', pc := (pc \<sigma>)(t := Got flag p)\<rparr>)"
proof -
  note inv = pool_invD [OF assms(1)]
  from pool_own [OF assms(1)] obtain own where o: "owners T \<sigma> own" by blast
  have mine: "own q \<noteq> Some (InCall t)" for q using owned_by(1) [OF o, of q t] assms(2) by simp
  have e: "flag = kThreadSpecific \<Longrightarrow> tss_get T t (impl \<sigma>) = None" using inv(5) assms(2) by (metis fills_slot.simps(2))
  from assms(3) have ne: "free_redis (impl \<sigma>) \<noteq> []" and p: "p = last (free_redis (impl \<sigma>))"
    and s': "s' = (impl \<sigma>)\<lparr>free_redis := butlast (free_redis (impl \<sigma>))\<rparr>"
    by (auto simp: get_free_redis_def split: if_splits)
  from free_split [OF ne inv(1)] have b: "set (butlast (free_redis (impl \<sigma>))) = set (free_redis (impl \<sigma>)) - {p}"
    "distinct (butlast (free_redis (impl \<sigma>)))" by (simp_all add: p)
  have "own p = Some InFree" using ne p owner_of(1) [OF o] by simp
  then have "owners T (\<sigma>\<lparr>impl := s', pc := (pc \<sigma>)(t := Got flag p)\<rparr>) (own(p \<mapsto> InCall t))"
    using o mine assms(2) unfolding s' owners_def by (auto simp: b(1) tss_get_def)
  then show ?thesis by (rule pool_invI) (use assms(2) e s' b(2) inv in \<open>auto simp: tss_get_def split: if_splits\<close>)
qed

lemma create_inv:
  assumes "pool_inv T \<sigma>" "pc \<sigma> t = Creating flag" "alloc_redis ob (impl \<sigma>) = (p, s')"
  shows "pool_inv T (\<sigma>\<lparr>impl := s', pc := (pc \<sigma>)(t := Got flag p)\<rparr>)"
proof -
  note inv = pool_invD [OF assms(1)]
  from pool_own [OF assms(1)] obtain own where o: "owners T \<sigma> own" by blast
  have mine: "own q \<noteq> Some (InCall t)" for q using owned_by(1) [OF o, of q t] assms(2) by simp
  from assms(3) have p: "p = next_ptr (impl \<sigma>)"
    "s' = (impl \<sigma>)\<lparr>objects := (objects (impl \<sigma>))(p \<mapsto> ob), next_ptr := Suc p\<rparr>"
    by (auto simp: alloc_redis_def)
  have "own p = None" using inv(3) p(1) owner_of(5) [OF o, of p] by fastforce
  then have "owners T (\<sigma>\<lparr>impl := s', pc := (pc \<sigma>)(t := Got flag p)\<rparr>) (own(p \<mapsto> InCall t))"
    using o mine assms(2) unfolding p(2) owners_def by (auto simp: tss_get_def)
  then show ?thesis
    by (rule pool_invI) (use assms(2) p inv in \<open>auto simp: tss_get_def less_Suc_eq split: if_splits\<close>)
qed

text \<open>A step that moves no client.\<close>

lemma move_inv:
  assumes "pool_inv T \<sigma>" "tpc_ptr (pc \<sigma> t) = tpc_ptr q" "fills_slot q \<Longrightarrow> tss_get T t (impl \<sigma>) = None"
  shows "pool_inv T (\<sigma>\<lparr>pc := (pc \<sigma>)(t := q)\<rparr>)"
proof -
  note inv = pool_invD [OF assms(1)]
  from pool_own [OF assms(1)] obtain own where o: "owners T \<sigma> own" by blast
  have mine: "own q' = Some (InCall t) \<longleftrightarrow> tpc_ptr q = Some q'" for q' using owned_by(1) [OF o, of q' t] assms(2) by simp
  have "owners T (\<sigma>\<lparr>pc := (pc \<sigma>)(t := q)\<rparr>) own" using o mine assms(2) unfolding owners_def by auto
  then show ?thesis by (rule pool_invI) (use assms(3) inv in \<open>auto split: if_splits\<close>)
qed

lemma keep_in_slot_inv:
  assumes "pool_inv T \<sigma>" "tss_laws T" "pc \<sigma> t = Got kThreadSpecific p"
    "(store, old) = set_tss_data T (client_slots (impl \<sigma>)) t True (Some p) True"
  shows "pool_inv T (\<sigma>\<lparr>impl := (impl \<sigma>)\<lparr>client_slots := store\<rparr>, pc := (pc \<sigma>)(t := Idle)\<rparr>)"
proof -
  note inv = pool_invD [OF assms(1)]
  from pool_own [OF assms(1)] obtain own where o: "owners T \<sigma> own" by blast
  have mine: "q \<noteq> p \<Longrightarrow> own q \<noteq> Some (InCall t)" for q using owned_by(1) [OF o, of q t] assms(3) by auto
  have e: "tss_get T t (impl \<sigma>) = None" using inv(5) assms(3) by (metis fills_slot.simps(4))
  have store: "store = fst (set_tss_data T (client_slots (impl \<sigma>)) t True (Some p) True)"
    using assms(4) by (metis fst_conv)
  note laws = tss_lawsD [OF assms(2)] store
  have slot: "own q \<noteq> Some (InSlot t)" for q using owned_by(2) [OF o, of q t] e by simp
  have "own p = Some (InCall t)" using owner_of(4) [OF o, of t p] assms(3) by simp
  then have "owners T (\<sigma>\<lparr>impl := (impl \<sigma>)\<lparr>client_slots := store\<rparr>, pc := (pc \<sigma>)(t := Idle)\<rparr>) (own(p \<mapsto> InSlot t))"
    using o mine slot assms(3) e unfolding owners_def by (auto simp: tss_get_def laws split: if_splits)
  then show ?thesis
    by (rule pool_invI) (use assms(3) inv in \<open>auto simp: tss_get_def laws split: if_splits\<close>)
qed

lemma hand_out_inv:
  assumes "pool_inv T \<sigma>" "pc \<sigma> t = Got kNotThreadSpecific p"
  shows "pool_inv T (\<sigma>\<lparr>pc := (pc \<sigma>)(t := Idle), held := (held \<sigma>)(t := insert p (held \<sigma> t))\<rparr>)"
proof -
  note inv = pool_invD [OF assms(1)]
  from pool_own [OF assms(1)] obtain own where o: "owners T \<sigma> own" by blast
  have mine: "q \<noteq> p \<Longrightarrow> own q \<noteq> Some (InCall t)" for q using owned_by(1) [OF o, of q t] assms(2) by auto
  have "own p = Some (InCall t)" using owner_of(4) [OF o, of t p] assms(2) by simp
  then have "owners T (\<sigma>\<lparr>pc := (pc \<sigma>)(t := Idle), held := (held \<sigma>)(t := insert p (held \<sigma> t))\<rparr>) (own(p \<mapsto> InHeld t))"
    using o mine assms(2) unfolding owners_def by (auto split: if_splits)
  then show ?thesis by (rule pool_invI) (use inv in \<open>auto split: if_splits\<close>)
qed

text \<open>A slot is emptied by \<open>release\<close> or at the end of the thread.\<close>

lemma leave_slot_inv:
  assumes "pool_inv T \<sigma>" "pc \<sigma> t = Idle" "tss_get T t (impl \<sigma>) = Some p"
    and "\<And>t'. get_tss_data T store t' = (if t' = t then None else tss_get T t' (impl \<sigma>))"
    and "\<And>t'. has_cleanup T store t' = (if t' = t then False else has_cleanup T (client_slots (impl \<sigma>)) t')"
  shows "pool_inv T (\<sigma>\<lparr>impl := (impl \<sigma>)\<lparr>client_slots := store\<rparr>, pc := (pc \<sigma>)(t := Putting p)\<rparr>)"
proof -
  note inv = pool_invD [OF assms(1)]
  from pool_own [OF assms(1)] obtain own where o: "owners T \<sigma> own" by blast
  have mine: "own q \<noteq> Some (InCall t)" "q \<noteq> p \<Longrightarrow> own q \<noteq> Some (InSlot t)" for q
    using owned_by(1,2) [OF o, of q t] assms(2,3) by auto
  have "own p = Some (InSlot t)" using owner_of(2) [OF o] assms(3) .
  then have "owners T (\<sigma>\<lparr>impl := (impl \<sigma>)\<lparr>client_slots := store\<rparr>, pc := (pc \<sigma>)(t := Putting p)\<rparr>) (own(p \<mapsto> InCall t))"
    using o mine assms(2,3) unfolding owners_def tss_get_def by (auto simp: assms(4) tss_get_def split: if_splits)
  then show ?thesis
    by (rule pool_invI) (use inv in \<open>auto simp: tss_get_def assms(4,5) split: if_splits\<close>)
qed

lemma exits_empty_inv:
  assumes T: "tss_laws T" and "pool_inv T \<sigma>" "end_thread T (client_slots (impl \<sigma>)) t = (store, None)"
  shows "pool_inv T (\<sigma>\<lparr>impl := (impl \<sigma>)\<lparr>client_slots := store\<rparr>\<rparr>)"
proof -
  note inv = pool_invD [OF assms(2)]
  from pool_own [OF assms(2)] obtain own where o: "owners T \<sigma> own" by blast
  have store: "store = fst (end_thread T (client_slots (impl \<sigma>)) t)" using assms(3) by simp
  have "get_tss_data T (client_slots (impl \<sigma>)) t = None"
    using tss_lawsD(6) [OF T, of "client_slots (impl \<sigma>)" t] assms(3) inv(4) by (auto simp: tss_get_def split: if_splits)
  then have g: "get_tss_data T store t' = get_tss_data T (client_slots (impl \<sigma>)) t'" for t'
    by (simp add: store tss_lawsD [OF T])
  have "owners T (\<sigma>\<lparr>impl := (impl \<sigma>)\<lparr>client_slots := store\<rparr>\<rparr>) own"
    using o by (simp add: owners_def tss_get_def g)
  then show ?thesis
    by (rule pool_invI) (use inv in \<open>auto simp: tss_get_def g store tss_lawsD [OF T] split: if_splits\<close>)
qed

lemma put_held_inv:
  assumes "pool_inv T \<sigma>" "pc \<sigma> t = Idle" "p \<in> held \<sigma> t"
  shows "pool_inv T (\<sigma>\<lparr>pc := (pc \<sigma>)(t := Putting p), held := (held \<sigma>)(t := held \<sigma> t - {p})\<rparr>)"
proof -
  note inv = pool_invD [OF assms(1)]
  from pool_own [OF assms(1)] obtain own where o: "owners T \<sigma> own" by blast
  have mine: "own q \<noteq> Some (InCall t)" for q using owned_by(1) [OF o, of q t] assms(2) by simp
  have "own p = Some (InHeld t)" using owner_of(3) [OF o] assms(3) .
  then have "owners T (\<sigma>\<lparr>pc := (pc \<sigma>)(t := Putting p), held := (held \<sigma>)(t := held \<sigma> t - {p})\<rparr>) (own(p \<mapsto> InCall t))"
    using o mine assms(2,3) unfolding owners_def by (auto split: if_splits)
  then show ?thesis by (rule pool_invI) (use inv in \<open>auto split: if_splits\<close>)
qed

lemma store_free_inv:
  assumes "pool_inv T \<sigma>" "pc \<sigma> t = Storing p" "length (free_redis (impl \<sigma>)) < pool_size (impl \<sigma>)"
  shows "pool_inv T (\<sigma>\<lparr>impl := (impl \<sigma>)\<lparr>free_redis := free_redis (impl \<sigma>) @ [p]\<rparr>, pc := (pc \<sigma>)(t := Idle)\<rparr>)"
proof -
  note inv = pool_invD [OF assms(1)]
  from pool_own [OF assms(1)] obtain own where o: "owners T \<sigma> own" by blast
  have mine: "q \<noteq> p \<Longrightarrow> own q \<noteq> Some (InCall t)" for q using owned_by(1) [OF o, of q t] assms(2) by auto
  have p: "own p = Some (InCall t)" using owner_of(4) [OF o, of t p] assms(2) by simp
  then have n: "p \<notin> set (free_redis (impl \<sigma>))" using owner_of(1) [OF o, of p] by auto
  have "owners T (\<sigma>\<lparr>impl := (impl \<sigma>)\<lparr>free_redis := free_redis (impl \<sigma>) @ [p]\<rparr>, pc := (pc \<sigma>)(t := Idle)\<rparr>) (own(p \<mapsto> InFree))"
    using o mine p assms(2) unfolding owners_def by (auto simp: tss_get_def)
  then show ?thesis by (rule pool_invI) (use assms(3) n inv in \<open>auto simp: tss_get_def split: if_splits\<close>)
qed

lemma deletes_inv:
  assumes "pool_inv T \<sigma>" "pc \<sigma> t = Deleting p" "delete_redis p (impl \<sigma>) = Some s'"
  shows "pool_inv T (\<sigma>\<lparr>impl := s', pc := (pc \<sigma>)(t := Idle)\<rparr>)"
proof -
  note inv = pool_invD [OF assms(1)]
  from pool_own [OF assms(1)] obtain own where o: "owners T \<sigma> own" by blast
  have mine: "q \<noteq> p \<Longrightarrow> own q \<noteq> Some (InCall t)" for q using owned_by(1) [OF o, of q t] assms(2) by auto
  have s': "s' = (impl \<sigma>)\<lparr>objects := (objects (impl \<sigma>))(p := None)\<rparr>"
    using assms(3) by (auto simp: delete_redis_def split: if_splits)
  have "own p = Some (InCall t)" using owner_of(4) [OF o, of t p] assms(2) by simp
  then have "owners T (\<sigma>\<lparr>impl := s', pc := (pc \<sigma>)(t := Idle)\<rparr>) (own(p := None))"
    using o mine assms(2) unfolding s' owners_def by (auto simp: tss_get_def)
  then show ?thesis by (rule pool_invI) (use s' inv in \<open>auto simp: tss_get_def split: if_splits\<close>)
qed

text \<open>A proper \<open>put\<close> empties the slot it takes the client from.\<close>

lemma put_inv:
  assumes T: "tss_laws T" and "pool_inv T \<sigma>" "pc \<sigma> t = Idle" "proper T \<sigma> t flag p"
    and s': "s' = (if flag = kThreadSpecific \<and> tss_get T t (impl \<sigma>) = Some p then snd (tss_release T t (impl \<sigma>)) else impl \<sigma>)"
  shows "pool_inv T (\<sigma>\<lparr>impl := s', pc := (pc \<sigma>)(t := Putting p), held := (held \<sigma>)(t := held \<sigma> t - {p})\<rparr>)"
proof (cases "p \<in> held \<sigma> t")
  case True
  from pool_own [OF assms(2)] obtain own where o: "owners T \<sigma> own" by blast
  have "tss_get T t (impl \<sigma>) \<noteq> Some p" using owner_of(2,3) [OF o] True by fastforce
  with s' put_held_inv [OF assms(2,3) True] show ?thesis by simp
next
  case False
  with assms(4) have g: "flag = kThreadSpecific" "tss_get T t (impl \<sigma>) = Some p" by (simp_all add: proper_def)
  have "pool_inv T (\<sigma>\<lparr>impl := (impl \<sigma>)\<lparr>client_slots := fst (set_tss_data T (client_slots (impl \<sigma>)) t False None False)\<rparr>,
      pc := (pc \<sigma>)(t := Putting p)\<rparr>)"
    by (rule leave_slot_inv [OF assms(2,3) g(2)]) (simp_all add: tss_lawsD [OF T] tss_get_def)
  with s' g False show ?thesis by (simp add: tss_release_def fun_upd_idem)
qed

lemma pool_step_inv:
  assumes T: "tss_laws T" and "proper_step T \<sigma> \<sigma>'" and inv: "pool_inv T \<sigma>"
  shows "pool_inv T \<sigma>'"
  using assms(2)
proof cases
  case (take_none t flag s')
  have s': "s' = impl \<sigma>" using take_none by (auto simp: get_free_redis_def split: if_splits)
  have "fills_slot (Creating flag) \<Longrightarrow> tss_get T t (impl \<sigma>) = None"
    using pool_invD(5) [OF inv] take_none(2) by (metis fills_slot.simps(2,3))
  then have "pool_inv T (\<sigma>\<lparr>pc := (pc \<sigma>)(t := Creating flag)\<rparr>)"
    by (intro move_inv [OF inv]) (simp_all add: take_none)
  with take_none(1) s' show ?thesis by simp
next
  case (lock_get t flag)
  have "fills_slot (Taking flag) \<Longrightarrow> tss_get T t (impl \<sigma>) = None"
    using pool_invD(5) [OF inv] lock_get(2) by (metis fills_slot.simps(1,2))
  then have "pool_inv T (\<sigma>\<lparr>pc := (pc \<sigma>)(t := Taking flag)\<rparr>)"
    by (intro move_inv [OF inv]) (simp_all add: lock_get)
  with lock_get(1) show ?thesis by simp
next
  case (keep_in_slot t p store old)
  have e: "tss_get T t (impl \<sigma>) = None" using pool_invD(5) [OF inv] keep_in_slot(2) by (metis fills_slot.simps(4))
  with keep_in_slot(3) have k: "(store, old) = set_tss_data T (client_slots (impl \<sigma>)) t True (Some p) True" by simp
  with set_empty [OF T e] have "old = None" by (metis snd_conv)
  with keep_in_slot(1) keep_in_slot_inv [OF inv T keep_in_slot(2) k] show ?thesis by simp
next
  case (put t flag p s')
  from put_inv [OF T inv put(2-4)] put(1) show ?thesis by simp
next
  case (exits t store p)
  then have "store = fst (end_thread T (client_slots (impl \<sigma>)) t)" "tss_get T t (impl \<sigma>) = Some p"
    using tss_lawsD(6) [OF T, of "client_slots (impl \<sigma>)" t] by (auto simp: tss_get_def split: if_splits)
  with leave_slot_inv [OF inv exits(2), of p store] exits(1) show ?thesis by (simp add: tss_lawsD [OF T] tss_get_def)
qed (use inv T in \<open>auto intro: take_free_inv create_inv hand_out_inv store_free_inv
    deletes_inv move_inv exits_empty_inv\<close>)

lemma pool_reaches_inv:
  assumes "tss_laws T" "pool_start T \<sigma>0" "(proper_step T)\<^sup>*\<^sup>* \<sigma>0 \<sigma>"
  shows "pool_inv T \<sigma>"
  using assms(3)
proof induction
  case base
  show ?case using assms(2) by (rule start_inv)
next
  case (step \<sigma>1 \<sigma>2)
  with pool_step_inv [OF assms(1)] show ?case by blast
qed

section \<open>The mutex\<close>

fun in_section :: "tpc \<Rightarrow> bool" where
  "in_section (Taking flag) = True"
| "in_section (Storing p) = True"
| "in_section _ = False"

definition lock_inv :: "'s pool \<Rightarrow> bool" where
  "lock_inv \<sigma> \<longleftrightarrow> (\<forall>t. lock \<sigma> = Some t \<longleftrightarrow> in_section (pc \<sigma> t))"

text \<open>Whatever calls of \<open>put\<close> the program makes.\<close>

lemma lock_alone: "lock_inv \<sigma> \<Longrightarrow> in_section (pc \<sigma> t) \<Longrightarrow> in_section (pc \<sigma> u) \<Longrightarrow> t = u"
  unfolding lock_inv_def by (metis option.inject)

lemma pool_step_lock: "pool_step T calls \<sigma> \<sigma>' \<Longrightarrow> lock_inv \<sigma> \<Longrightarrow> lock_inv \<sigma>'"
proof (induction rule: pool_step.induct)
  case (take_free \<sigma> t flag p s')
  with lock_alone [of \<sigma> t] show ?case by (auto simp: lock_inv_def)
next
  case (take_none \<sigma> t flag s')
  with lock_alone [of \<sigma> t] show ?case by (auto simp: lock_inv_def)
next
  case (store_free \<sigma> t p)
  with lock_alone [of \<sigma> t] show ?case by (auto simp: lock_inv_def)
next
  case (pool_full \<sigma> t p)
  with lock_alone [of \<sigma> t] show ?case by (auto simp: lock_inv_def)
qed (auto simp: lock_inv_def split: if_splits option.splits)

lemma start_lock: "pool_start T \<sigma> \<Longrightarrow> lock_inv \<sigma>"
  by (simp add: lock_inv_def pool_start_def)

lemma pool_reaches_lock:
  assumes "pool_start T \<sigma>0" "(pool_step T calls)\<^sup>*\<^sup>* \<sigma>0 \<sigma>"
  shows "lock_inv \<sigma>"
  using assms(2) by induction (auto intro: start_lock [OF assms(1)] pool_step_lock)

section \<open>Calls end\<close>

text \<open>The number of steps a thread needs, at most, to finish the call it is in.\<close>

fun tpc_rank :: "tpc \<Rightarrow> nat" where
  "tpc_rank Idle = 0"
| "tpc_rank (Deleting p) = 1"
| "tpc_rank (Storing p) = 2"
| "tpc_rank (Putting p) = 3"
| "tpc_rank (Got flag p) = 4"
| "tpc_rank (Creating flag) = 5"
| "tpc_rank (Taking flag) = 6"
| "tpc_rank (Asking flag) = 7"

text \<open>No step of any thread takes a thread that is inside a call farther from its end.\<close>

lemma rank_falls:
  "pool_step T calls \<sigma> \<sigma>' \<Longrightarrow> pc \<sigma> t \<noteq> Idle \<Longrightarrow> pc \<sigma>' t = pc \<sigma> t \<or> tpc_rank (pc \<sigma>' t) < tpc_rank (pc \<sigma> t)"
  by (induction rule: pool_step.induct) (auto split: option.splits)

lemma owned_deletes:
  assumes "owners T \<sigma> own" "tpc_ptr (pc \<sigma> t) = Some p"
  shows "delete_redis p (impl \<sigma>) = Some ((impl \<sigma>)\<lparr>objects := (objects (impl \<sigma>))(p := None)\<rparr>)"
  using owner_of(4,5) [OF assms(1)] assms(2) by (simp add: delete_redis_def)

fun waiting :: "tpc \<Rightarrow> bool" where
  "waiting (Asking flag) = True"
| "waiting (Putting p) = True"
| "waiting _ = False"

text \<open>A thread that does not wait for the mutex can go on by itself, and leaves the section it is in.\<close>

definition can_step :: "'s tss_lib \<Rightarrow> 's pool \<Rightarrow> thread \<Rightarrow> bool" where
  "can_step T \<sigma> t \<longleftrightarrow> (\<exists>\<sigma>' q. proper_step T \<sigma> \<sigma>' \<and> pc \<sigma>' = (pc \<sigma>)(t := q) \<and> tpc_rank q < tpc_rank (pc \<sigma> t)
     \<and> (in_section (pc \<sigma> t) \<longrightarrow> \<not> in_section q))"

lemma can_stepI:
  "proper_step T \<sigma> \<sigma>' \<Longrightarrow> pc \<sigma>' = (pc \<sigma>)(t := q) \<Longrightarrow> tpc_rank q < tpc_rank (pc \<sigma> t) \<Longrightarrow>
   (in_section (pc \<sigma> t) \<Longrightarrow> \<not> in_section q) \<Longrightarrow> can_step T \<sigma> t"
  unfolding can_step_def by blast

lemma inv_progress:
  assumes T: "tss_laws T" and inv: "pool_inv T \<sigma>" and busy: "pc \<sigma> t \<noteq> Idle" "waiting (pc \<sigma> t) \<Longrightarrow> lock \<sigma> = None"
  shows "can_step T \<sigma> t"
proof (cases "pc \<sigma> t")
  case (Asking flag)
  with busy(2) have "lock \<sigma> = None" by simp
  from pool_step.lock_get [OF Asking this] show ?thesis by (rule can_stepI) (auto simp: Asking)
next
  case (Taking flag)
  show ?thesis
  proof (cases "fst (get_free_redis (impl \<sigma>))")
    case None
    then have "get_free_redis (impl \<sigma>) = (None, snd (get_free_redis (impl \<sigma>)))" by (metis prod.collapse)
    from pool_step.take_none [OF Taking this] show ?thesis by (rule can_stepI) (auto simp: Taking)
  next
    case (Some p)
    then have "get_free_redis (impl \<sigma>) = (Some p, snd (get_free_redis (impl \<sigma>)))" by (metis prod.collapse)
    from pool_step.take_free [OF Taking this] show ?thesis by (rule can_stepI) (auto simp: Taking)
  qed
next
  case (Creating flag)
  obtain p s' where a: "alloc_redis ob (impl \<sigma>) = (p ob, s' ob)" for ob by (simp add: alloc_redis_def)
  show ?thesis
  proof (cases "create_redis (impl \<sigma>)")
    case (Inl e)
    from pool_step.create_throws [OF Creating Inl] show ?thesis by (rule can_stepI) (auto simp: Creating)
  next
    case (Inr ob)
    from pool_step.create [OF Creating Inr a] show ?thesis by (rule can_stepI) (auto simp: Creating)
  qed
next
  case (Got flag p)
  show ?thesis
  proof (cases flag)
    case kThreadSpecific
    obtain store old where k: "(store, old) = (if tss_get T t (impl \<sigma>) \<noteq> Some p
      then set_tss_data T (client_slots (impl \<sigma>)) t True (Some p) True else (client_slots (impl \<sigma>), None))"
      by (metis surj_pair)
    from pool_step.keep_in_slot [OF Got [unfolded kThreadSpecific] k] show ?thesis
      by (rule can_stepI) (auto simp: Got split: option.splits)
  next
    case kNotThreadSpecific
    from pool_step.hand_out [OF Got [unfolded kNotThreadSpecific]] show ?thesis
      by (rule can_stepI) (auto simp: Got)
  qed
next
  case (Putting p)
  with busy(2) have "lock \<sigma> = None" by simp
  from pool_step.lock_put [OF Putting this] show ?thesis by (rule can_stepI) (auto simp: Putting)
next
  case (Storing p)
  show ?thesis
  proof (cases "length (free_redis (impl \<sigma>)) < pool_size (impl \<sigma>)")
    case True
    from pool_step.store_free [OF Storing True] show ?thesis by (rule can_stepI) (auto simp: Storing)
  next
    case False
    then have "pool_size (impl \<sigma>) \<le> length (free_redis (impl \<sigma>))" by simp
    from pool_step.pool_full [OF Storing this] show ?thesis by (rule can_stepI) (auto simp: Storing)
  qed
next
  case (Deleting p)
  from pool_own [OF inv] obtain own where "owners T \<sigma> own" by blast
  then have "delete_redis p (impl \<sigma>) = Some ((impl \<sigma>)\<lparr>objects := (objects (impl \<sigma>))(p := None)\<rparr>)"
    by (rule owned_deletes [where t = t]) (simp add: Deleting)
  from pool_step.deletes [OF Deleting this] show ?thesis by (rule can_stepI) (auto simp: Deleting)
qed (use busy in simp)

text \<open>With the mutex free (or its own) a thread returns without any step of another thread.\<close>

lemma returns_alone:
  assumes T: "tss_laws T"
  shows "pool_inv T \<sigma> \<Longrightarrow> lock_inv \<sigma> \<Longrightarrow> lock \<sigma> = None \<or> lock \<sigma> = Some t \<Longrightarrow>
    \<exists>\<sigma>'. (proper_step T)\<^sup>*\<^sup>* \<sigma> \<sigma>' \<and> pc \<sigma>' = (pc \<sigma>)(t := Idle)"
proof (induction "tpc_rank (pc \<sigma> t)" arbitrary: \<sigma> rule: less_induct)
  case less
  show ?case
  proof (cases "pc \<sigma> t = Idle")
    case True
    then show ?thesis by (intro exI [of _ \<sigma>]) (simp add: fun_upd_idem)
  next
    case False
    have "waiting (pc \<sigma> t) \<Longrightarrow> lock \<sigma> = None"
      using less.prems(2,3) by (cases "pc \<sigma> t") (auto simp: lock_inv_def)
    from inv_progress [OF T less.prems(1) False this] obtain \<sigma>1 q where s: "proper_step T \<sigma> \<sigma>1"
      "pc \<sigma>1 = (pc \<sigma>)(t := q)" "tpc_rank q < tpc_rank (pc \<sigma> t)" unfolding can_step_def by blast
    have l: "lock_inv \<sigma>1" using pool_step_lock [OF s(1) less.prems(2)] .
    have "lock \<sigma>1 = None \<or> lock \<sigma>1 = Some t"
    proof (cases "lock \<sigma>1")
      case (Some u)
      then have "u = t" using l s(2) less.prems(2,3) by (fastforce simp: lock_inv_def split: if_splits)
      with Some show ?thesis by simp
    qed simp
    with less.hyps [of \<sigma>1] s pool_step_inv [OF T s(1) less.prems(1)] l obtain \<sigma>2 where
      "(proper_step T)\<^sup>*\<^sup>* \<sigma>1 \<sigma>2" "pc \<sigma>2 = (pc \<sigma>1)(t := Idle)" by auto
    with s(1,2) show ?thesis by (intro exI [of _ \<sigma>2]) (simp add: converse_rtranclp_into_rtranclp)
  qed
qed

text \<open>Otherwise the holder of the mutex leaves its section in one step of its own.\<close>

lemma lock_passes:
  assumes T: "tss_laws T" and inv: "pool_inv T \<sigma>" "lock_inv \<sigma>" and u: "lock \<sigma> = Some u"
  shows "\<exists>\<sigma>' q. proper_step T \<sigma> \<sigma>' \<and> pc \<sigma>' = (pc \<sigma>)(u := q) \<and> lock \<sigma>' = None"
proof -
  have sec: "in_section (pc \<sigma> u)" using inv(2) u unfolding lock_inv_def by blast
  then have "pc \<sigma> u \<noteq> Idle" "\<not> waiting (pc \<sigma> u)" by (cases "pc \<sigma> u"; simp)+
  with inv_progress [OF T inv(1), of u] sec obtain \<sigma>' q where s: "proper_step T \<sigma> \<sigma>'"
    "pc \<sigma>' = (pc \<sigma>)(u := q)" "\<not> in_section q" unfolding can_step_def by blast
  have l: "lock_inv \<sigma>'" using pool_step_lock [OF s(1) inv(2)] .
  have "lock \<sigma>' \<noteq> Some v" for v
    using l s(2,3) inv(2) u by (cases "v = u") (auto simp: lock_inv_def)
  then have "lock \<sigma>' = None" by (cases "lock \<sigma>'") auto
  with s show ?thesis by blast
qed

lemma inv_returns:
  assumes T: "tss_laws T" and inv: "pool_inv T \<sigma>" "lock_inv \<sigma>"
  shows "\<exists>\<sigma>'. (proper_step T)\<^sup>*\<^sup>* \<sigma> \<sigma>' \<and> pc \<sigma>' t = Idle \<and> (\<forall>u. u \<noteq> t \<and> lock \<sigma> \<noteq> Some u \<longrightarrow> pc \<sigma>' u = pc \<sigma> u)"
proof (cases "lock \<sigma> = None \<or> lock \<sigma> = Some t")
  case True
  from returns_alone [OF T inv True] show ?thesis by fastforce
next
  case False
  then obtain u where u: "lock \<sigma> = Some u" by auto
  from lock_passes [OF T inv u] obtain \<sigma>1 q where s: "proper_step T \<sigma> \<sigma>1" "pc \<sigma>1 = (pc \<sigma>)(u := q)" "lock \<sigma>1 = None" by blast
  from returns_alone [OF T pool_step_inv [OF T s(1) inv(1)] pool_step_lock [OF s(1) inv(2)], of t] s(3)
  obtain \<sigma>2 where "(proper_step T)\<^sup>*\<^sup>* \<sigma>1 \<sigma>2" "pc \<sigma>2 = (pc \<sigma>1)(t := Idle)" by blast
  with s u show ?thesis by (intro exI [of _ \<sigma>2]) (auto intro: converse_rtranclp_into_rtranclp)
qed

lemma someone_steps:
  assumes T: "tss_laws T" and inv: "pool_inv T \<sigma>" "lock_inv \<sigma>" and busy: "pc \<sigma> t \<noteq> Idle"
  shows "\<exists>u. (u = t \<or> waiting (pc \<sigma> t) \<and> in_section (pc \<sigma> u)) \<and> can_step T \<sigma> u"
proof (cases "waiting (pc \<sigma> t) \<and> lock \<sigma> \<noteq> None")
  case True
  then obtain u where "lock \<sigma> = Some u" by blast
  then have sec: "in_section (pc \<sigma> u)" using inv(2) unfolding lock_inv_def by blast
  then have "pc \<sigma> u \<noteq> Idle" "\<not> waiting (pc \<sigma> u)" by (cases "pc \<sigma> u"; simp)+
  with inv_progress [OF T inv(1), of u] True sec show ?thesis by blast
next
  case False
  with inv_progress [OF T inv(1) busy] show ?thesis by blast
qed

section \<open>Whole calls\<close>

text \<open>A call that is not interrupted, and finds the mutex free, is the sequence of its steps.\<close>

lemma pool_upd_same [simp]:
  "\<sigma>\<lparr>impl := impl \<sigma>, pc := c, held := h\<rparr> = \<sigma>\<lparr>pc := c, held := h\<rparr>"
  "\<sigma>\<lparr>impl := s, pc := pc \<sigma>, held := h\<rparr> = \<sigma>\<lparr>impl := s, held := h\<rparr>"
  "\<sigma>\<lparr>impl := s, pc := pc \<sigma>\<rparr> = \<sigma>\<lparr>impl := s\<rparr>"
  "\<sigma>\<lparr>impl := s, held := held \<sigma>\<rparr> = \<sigma>\<lparr>impl := s\<rparr>"
  by (cases \<sigma>; simp)+

lemma held_impl_swap: "\<sigma>\<lparr>held := h, impl := s\<rparr> = \<sigma>\<lparr>impl := s, held := h\<rparr>"
  by (cases \<sigma>) simp

lemma two_steps: "pool_step T calls \<sigma> \<sigma>1 \<Longrightarrow> pool_step T calls \<sigma>1 \<sigma>2 \<Longrightarrow> (pool_step T calls)\<^sup>*\<^sup>* \<sigma> \<sigma>2"
  by (meson r_into_rtranclp rtranclp.rtrancl_into_rtrancl)

lemma three_steps:
  "pool_step T calls \<sigma> \<sigma>1 \<Longrightarrow> pool_step T calls \<sigma>1 \<sigma>2 \<Longrightarrow> pool_step T calls \<sigma>2 \<sigma>3 \<Longrightarrow> (pool_step T calls)\<^sup>*\<^sup>* \<sigma> \<sigma>3"
  by (meson two_steps rtranclp.rtrancl_into_rtrancl)

lemma get_free_runs:
  assumes i: "pc \<sigma> t = Idle" "lock \<sigma> = None" and free: "flag = kThreadSpecific \<longrightarrow> tss_get T t (impl \<sigma>) = None"
    and g: "get_free_redis (impl \<sigma>) = (r, s1)"
  shows "(pool_step T calls)\<^sup>*\<^sup>* \<sigma>
    (\<sigma>\<lparr>impl := s1, pc := (pc \<sigma>)(t := (case r of Some p \<Rightarrow> Got flag p | None \<Rightarrow> Creating flag))\<rparr>)"
proof -
  let ?a = "\<sigma>\<lparr>pc := (pc \<sigma>)(t := Asking flag)\<rparr>" and ?b = "\<sigma>\<lparr>pc := (pc \<sigma>)(t := Taking flag), lock := Some t\<rparr>"
  have 1: "pool_step T calls \<sigma> ?a" by (rule pool_step.ask) (use i free in simp_all)
  have 2: "pool_step T calls ?a ?b" using pool_step.lock_get [of ?a t flag T calls] i(2) by simp
  have "pool_step T calls ?b (\<sigma>\<lparr>impl := s1, pc := (pc \<sigma>)(t := (case r of Some p \<Rightarrow> Got flag p | None \<Rightarrow> Creating flag))\<rparr>)"
  proof (cases r)
    case None
    with pool_step.take_none [of ?b t flag s1 T calls] g i(2) show ?thesis by (cases \<sigma>) simp
  next
    case (Some p)
    with pool_step.take_free [of ?b t flag p s1 T calls] g i(2) show ?thesis by (cases \<sigma>) simp
  qed
  from three_steps [OF 1 2 this] show ?thesis .
qed

definition hands :: "kTssFlag \<Rightarrow> thread \<Rightarrow> string + redis_ptr \<Rightarrow> (thread \<Rightarrow> redis_ptr set) \<Rightarrow> thread \<Rightarrow> redis_ptr set" where
  "hands flag t r h =
     (case r of Inr p \<Rightarrow> if flag = kNotThreadSpecific then h(t := insert p (h t)) else h | Inl e \<Rightarrow> h)"

definition keeps_client :: "'s tss_lib \<Rightarrow> kTssFlag \<Rightarrow> thread \<Rightarrow> redis_ptr \<Rightarrow> 's Impl \<Rightarrow> 's Impl option" where
  "keeps_client T flag t p s = (if flag = kThreadSpecific then tss_reset T t (Some p) s else Some s)"

lemma got_step:
  assumes T: "tss_laws T" and "pc \<sigma> t = Got flag p" "keeps_client T flag t p (impl \<sigma>) = Some s'"
    and free: "flag = kThreadSpecific \<longrightarrow> tss_get T t (impl \<sigma>) = None"
  shows "pool_step T calls \<sigma> (\<sigma>\<lparr>impl := s', pc := (pc \<sigma>)(t := Idle), held := hands flag t (Inr p) (held \<sigma>)\<rparr>)"
proof (cases flag)
  case kThreadSpecific
  with free have e: "tss_get T t (impl \<sigma>) = None" by simp
  obtain store where k: "set_tss_data T (client_slots (impl \<sigma>)) t True (Some p) True = (store, None)"
    using set_empty [OF T e, of True "Some p" True] by (metis prod.collapse)
  with pool_step.keep_in_slot [of \<sigma> t p store None T calls] kThreadSpecific assms(2,3) e reset_empty [OF T e, of p]
  show ?thesis by (simp add: keeps_client_def hands_def)
next
  case kNotThreadSpecific
  with pool_step.hand_out [of \<sigma> t p T calls] assms show ?thesis by (auto simp: keeps_client_def hands_def)
qed

lemma Impl_get_runs:
  assumes T: "tss_laws T" and i: "pc \<sigma> t = Idle" "lock \<sigma> = None"
  shows "\<exists>r s'. Impl_get T flag t (impl \<sigma>) = Some (r, s') \<and>
    (pool_step T calls)\<^sup>*\<^sup>* \<sigma> (\<sigma>\<lparr>impl := s', held := hands flag t r (held \<sigma>)\<rparr>)"
proof (cases "flag = kThreadSpecific \<and> tss_get T t (impl \<sigma>) \<noteq> None")
  case True
  then show ?thesis by (auto simp: Impl_get_def hands_def)
next
  case False
  then have free: "flag = kThreadSpecific \<longrightarrow> tss_get T t (impl \<sigma>) = None" by blast
  obtain r s1 where g: "get_free_redis (impl \<sigma>) = (r, s1)" by fastforce
  have slots: "client_slots s1 = client_slots (impl \<sigma>)" using g by (auto simp: get_free_redis_def split: if_splits)
  have free1: "flag = kThreadSpecific \<longrightarrow> tss_get T t s2 = None" if "client_slots s2 = client_slots s1" for s2 :: "'a Impl"
    using that free slots by (simp add: tss_get_def)
  have keep: "\<exists>s'. keeps_client T flag t p s2 = Some s'" if "client_slots s2 = client_slots s1" for p s2
    using free1 [OF that] reset_empty [OF T, of t s2 p] by (auto simp: keeps_client_def)
  have get: "Impl_get T flag t (impl \<sigma>) = (case get_free_or_create_redis (impl \<sigma>) of
      (Inl e, s) \<Rightarrow> Some (Inl e, s) | (Inr p, s) \<Rightarrow> map_option (Pair (Inr p)) (keeps_client T flag t p s))"
    using free by (cases flag) (auto simp: Impl_get_def keeps_client_def map_option_case
        split: prod.splits sum.splits option.splits bind_splits)
  note first = get_free_runs [OF i free g, of calls]
  show ?thesis
  proof (cases r)
    case (Some p)
    from keep [OF refl] obtain s' where k: "keeps_client T flag t p s1 = Some s'" by blast
    let ?\<sigma> = "\<sigma>\<lparr>impl := s1, pc := (pc \<sigma>)(t := Got flag p)\<rparr>"
    have "pool_step T calls ?\<sigma> (\<sigma>\<lparr>impl := s', held := hands flag t (Inr p) (held \<sigma>)\<rparr>)"
      using got_step [OF T, of ?\<sigma> t flag p s' calls] k free1 i by (simp add: fun_upd_idem)
    with first Some have "(pool_step T calls)\<^sup>*\<^sup>* \<sigma> (\<sigma>\<lparr>impl := s', held := hands flag t (Inr p) (held \<sigma>)\<rparr>)"
      by (simp add: rtranclp.rtrancl_into_rtrancl)
    with get k g Some show ?thesis by (auto simp: get_free_or_create_redis_def)
  next
    case None
    let ?\<sigma> = "\<sigma>\<lparr>impl := s1, pc := (pc \<sigma>)(t := Creating flag)\<rparr>"
    show ?thesis
    proof (cases "create_redis s1")
      case (Inl e)
      have "pool_step T calls ?\<sigma> (\<sigma>\<lparr>impl := s1\<rparr>)"
        using pool_step.create_throws [of ?\<sigma> t flag e T calls] Inl i by (simp add: fun_upd_idem)
      with first None have "(pool_step T calls)\<^sup>*\<^sup>* \<sigma> (\<sigma>\<lparr>impl := s1, held := hands flag t (Inl e) (held \<sigma>)\<rparr>)"
        by (simp add: rtranclp.rtrancl_into_rtrancl hands_def)
      with get g None Inl show ?thesis by (auto simp: get_free_or_create_redis_def)
    next
      case (Inr ob)
      obtain p s2 where a: "alloc_redis ob s1 = (p, s2)" by fastforce
      then have c: "client_slots s2 = client_slots s1" by (auto simp: alloc_redis_def)
      from keep [OF c] obtain s' where k: "keeps_client T flag t p s2 = Some s'" by blast
      let ?\<tau> = "\<sigma>\<lparr>impl := s2, pc := (pc \<sigma>)(t := Got flag p)\<rparr>"
      have "pool_step T calls ?\<sigma> ?\<tau>"
        using pool_step.create [of ?\<sigma> t flag ob p s2 T calls] Inr a by simp
      moreover have "pool_step T calls ?\<tau> (\<sigma>\<lparr>impl := s', held := hands flag t (Inr p) (held \<sigma>)\<rparr>)"
        using got_step [OF T, of ?\<tau> t flag p s' calls] k free1 [OF c] i by (simp add: fun_upd_idem)
      ultimately have "(pool_step T calls)\<^sup>*\<^sup>* \<sigma> (\<sigma>\<lparr>impl := s', held := hands flag t (Inr p) (held \<sigma>)\<rparr>)"
        using first None by (simp add: rtranclp.rtrancl_into_rtrancl)
      with get k g None Inr a show ?thesis by (auto simp: get_free_or_create_redis_def)
    qed
  qed
qed

lemma put_free_runs:
  assumes "pool_inv T \<sigma>" "pc \<sigma> t = Putting p" "lock \<sigma> = None"
  shows "\<exists>s'. put_free_redis (Some p) (impl \<sigma>) = Some s' \<and>
    (proper_step T)\<^sup>*\<^sup>* \<sigma> (\<sigma>\<lparr>impl := s', pc := (pc \<sigma>)(t := Idle)\<rparr>)"
proof -
  let ?\<sigma> = "\<sigma>\<lparr>pc := (pc \<sigma>)(t := Storing p), lock := Some t\<rparr>"
  have 1: "proper_step T \<sigma> ?\<sigma>" by (rule pool_step.lock_put [OF assms(2,3)])
  show ?thesis
  proof (cases "length (free_redis (impl \<sigma>)) < pool_size (impl \<sigma>)")
    case True
    let ?s = "(impl \<sigma>)\<lparr>free_redis := free_redis (impl \<sigma>) @ [p]\<rparr>"
    have "proper_step T ?\<sigma> (\<sigma>\<lparr>impl := ?s, pc := (pc \<sigma>)(t := Idle)\<rparr>)"
      using pool_step.store_free [of ?\<sigma> t p T "proper T"] True assms(3) by (cases \<sigma>) simp
    from two_steps [OF 1 this] True show ?thesis by (auto simp: put_free_redis_def)
  next
    case False
    from pool_own [OF assms(1)] obtain own where "owners T \<sigma> own" by blast
    then have d: "delete_redis p (impl \<sigma>) = Some ((impl \<sigma>)\<lparr>objects := (objects (impl \<sigma>))(p := None)\<rparr>)"
      by (rule owned_deletes [where t = t]) (simp add: assms(2))
    let ?d = "\<sigma>\<lparr>pc := (pc \<sigma>)(t := Deleting p)\<rparr>"
    have "proper_step T ?\<sigma> ?d"
      using pool_step.pool_full [of ?\<sigma> t p T "proper T"] False assms(3) by (cases \<sigma>) simp
    moreover have "proper_step T ?d (\<sigma>\<lparr>impl := (impl \<sigma>)\<lparr>objects := (objects (impl \<sigma>))(p := None)\<rparr>, pc := (pc \<sigma>)(t := Idle)\<rparr>)"
      using pool_step.deletes [of ?d t p _ T "proper T"] d by (cases \<sigma>) simp
    ultimately show ?thesis using three_steps [OF 1] False d by (auto simp: put_free_redis_def)
  qed
qed

lemma put_call_runs:
  assumes "tss_laws T" "pool_inv T \<sigma>" "proper_step T \<sigma> \<sigma>1" "pc \<sigma>1 t = Putting p" "lock \<sigma>1 = None"
  shows "\<exists>s'. put_free_redis (Some p) (impl \<sigma>1) = Some s' \<and>
    (proper_step T)\<^sup>*\<^sup>* \<sigma> (\<sigma>1\<lparr>impl := s', pc := (pc \<sigma>1)(t := Idle)\<rparr>)"
  using put_free_runs [OF pool_step_inv [OF assms(1,3,2)] assms(4,5)] assms(3) by (meson converse_rtranclp_into_rtranclp)

text \<open>\<open>put\<close> is called with the client of the slot and \<open>kThreadSpecific\<close>, or with a client the thread
  holds.\<close>

lemma Impl_put_runs:
  assumes T: "tss_laws T" and inv: "pool_inv T \<sigma>" and i: "pc \<sigma> t = Idle" "lock \<sigma> = None"
    and mine: "proper T \<sigma> t flag p"
  shows "\<exists>s'. Impl_put T (Some p) flag t (impl \<sigma>) = Some s' \<and>
    (proper_step T)\<^sup>*\<^sup>* \<sigma> (\<sigma>\<lparr>impl := s', held := (held \<sigma>)(t := held \<sigma> t - {p})\<rparr>)"
proof -
  define s1 where "s1 = (if flag = kThreadSpecific \<and> tss_get T t (impl \<sigma>) = Some p
    then snd (tss_release T t (impl \<sigma>)) else impl \<sigma>)"
  let ?\<sigma> = "\<sigma>\<lparr>impl := s1, pc := (pc \<sigma>)(t := Putting p), held := (held \<sigma>)(t := held \<sigma> t - {p})\<rparr>"
  have "proper_step T \<sigma> ?\<sigma>" by (rule pool_step.put [where flag = flag]) (use i mine s1_def in simp_all)
  from put_call_runs [OF T inv this, of t p] i obtain s' where "put_free_redis (Some p) s1 = Some s'"
    "(proper_step T)\<^sup>*\<^sup>* \<sigma> (?\<sigma>\<lparr>impl := s', pc := (pc ?\<sigma>)(t := Idle)\<rparr>)" by auto
  moreover have "?\<sigma>\<lparr>impl := s', pc := (pc ?\<sigma>)(t := Idle)\<rparr> = \<sigma>\<lparr>impl := s', held := (held \<sigma>)(t := held \<sigma> t - {p})\<rparr>"
    using i by (cases \<sigma>) (simp add: fun_upd_idem)
  ultimately show ?thesis by (auto simp: Impl_put_def s1_def split: if_splits)
qed

lemma thread_exit_runs:
  assumes T: "tss_laws T" and inv: "pool_inv T \<sigma>" and i: "pc \<sigma> t = Idle" "lock \<sigma> = None"
  shows "\<exists>s'. thread_exit T t (impl \<sigma>) = Some s' \<and> (proper_step T)\<^sup>*\<^sup>* \<sigma> (\<sigma>\<lparr>impl := s'\<rparr>)"
proof -
  obtain store old where e: "end_thread T (client_slots (impl \<sigma>)) t = (store, old)" by fastforce
  show ?thesis
  proof (cases old)
    case None
    with pool_step.exits_empty [OF i(1) e [unfolded None]] show ?thesis
      by (auto simp: thread_exit_def e put_free_redis_def)
  next
    case (Some p)
    from put_call_runs [OF T inv pool_step.exits [OF i(1) e [unfolded Some]], of t p] i show ?thesis
      by (simp add: thread_exit_def e Some fun_upd_idem)
  qed
qed

section \<open>RedisScopedPtr\<close>

lemma Impl_get_slot:
  assumes T: "tss_laws T" and g: "Impl_get T kThreadSpecific t s = Some (Inr p, s')"
  shows "tss_get T t s' = Some p"
proof (cases "tss_get T t s")
  case None
  with g obtain s1 where r: "tss_reset T t (Some p) s1 = Some s'"
    and s1: "get_free_or_create_redis s = (Inr p, s1)"
    by (auto simp: Impl_get_def split: prod.splits sum.splits bind_splits)
  then have "client_slots s1 = client_slots s"
    by (auto simp: get_free_or_create_redis_def get_free_redis_def alloc_redis_def Let_def
        split: if_splits sum.splits)
  with None have "tss_get T t s1 = None" by (simp add: tss_get_def)
  from reset_empty [OF T this, of p] r show ?thesis by (auto simp: tss_get_def tss_lawsD [OF T])
qed (use g in \<open>simp add: Impl_get_def\<close>)

lemma Impl_get_not_held:
  assumes inv: "pool_inv T \<sigma>" and g: "Impl_get T kNotThreadSpecific t (impl \<sigma>) = Some (Inr p, s')"
  shows "p \<notin> held \<sigma> t"
proof -
  from pool_own [OF inv] obtain own where o: "owners T \<sigma> own" by blast
  from g have "p \<in> set (free_redis (impl \<sigma>)) \<or> p = next_ptr (impl \<sigma>)"
    by (auto simp: Impl_get_def get_free_or_create_redis_def get_free_redis_def alloc_redis_def Let_def
        split: if_splits sum.splits)
  then have "own p = Some InFree \<or> own p = None"
    using owner_of(1,5) [OF o] pool_invD(3) [OF inv] by (metis less_irrefl)
  then show ?thesis using owner_of(3) [OF o, of p t] by auto
qed

text \<open>The destructor of a scoped pointer is a proper \<open>put\<close> as long as the thread still owns the client in
  the way the pointer took it, whatever happened in between.\<close>

definition scoped_owns :: "'s tss_lib \<Rightarrow> 's pool \<Rightarrow> thread \<Rightarrow> RedisScopedPtr \<Rightarrow> bool" where
  "scoped_owns T \<sigma> t sp \<longleftrightarrow> (\<exists>p. scoped_ptr sp = Some p \<and>
     (if scoped_flag sp = kThreadSpecific then tss_get T t (impl \<sigma>) = Some p else p \<in> held \<sigma> t))"

lemma scoped_proper:
  "scoped_owns T \<sigma> t sp \<Longrightarrow> \<exists>p. scoped_ptr sp = Some p \<and> proper T \<sigma> t (scoped_flag sp) p"
  by (cases "scoped_flag sp") (auto simp: scoped_owns_def proper_def)

lemma scoped_owns_new:
  assumes T: "tss_laws T" and new: "new_RedisScopedPtr T flag t (impl \<sigma>) = Some (Inr sp, s1)"
  shows "\<exists>p. Impl_get T flag t (impl \<sigma>) = Some (Inr p, s1) \<and> sp = \<lparr>scoped_flag = flag, scoped_ptr = Some p\<rparr>
    \<and> scoped_owns T (\<sigma>\<lparr>impl := s1, held := hands flag t (Inr p) (held \<sigma>)\<rparr>) t sp"
proof -
  from new obtain p where g: "Impl_get T flag t (impl \<sigma>) = Some (Inr p, s1)"
    and sp: "sp = \<lparr>scoped_flag = flag, scoped_ptr = Some p\<rparr>"
    by (auto simp: new_RedisScopedPtr_def map_sum_def split: bind_splits sum.splits)
  with Impl_get_slot [OF T, of t "impl \<sigma>" p s1] show ?thesis
    by (cases flag) (auto simp: scoped_owns_def hands_def)
qed

lemma scoped_destroy_runs:
  assumes "tss_laws T" "pool_inv T \<sigma>" "pc \<sigma> t = Idle" "lock \<sigma> = None" "scoped_owns T \<sigma> t sp"
  shows "\<exists>p s'. scoped_ptr sp = Some p \<and> RedisScopedPtr_destroy T sp t (impl \<sigma>) = Some s'
    \<and> (proper_step T)\<^sup>*\<^sup>* \<sigma> (\<sigma>\<lparr>impl := s', held := (held \<sigma>)(t := held \<sigma> t - {p})\<rparr>)"
  using scoped_proper [OF assms(5)] Impl_put_runs [OF assms(1-4)] by (auto simp: RedisScopedPtr_destroy_def)

text \<open>Two pointers with \<open>kThreadSpecific\<close> in nested scopes of one thread hold the same client.  The inner
  destructor empties the slot and puts the client; the outer one puts it again.\<close>

lemma nested_scopes:
  assumes T: "tss_laws T" and 1: "new_RedisScopedPtr T kThreadSpecific t s = Some (Inr sp1, s1)"
    and 2: "new_RedisScopedPtr T kThreadSpecific t s1 = Some (Inr sp2, s2)"
    and 3: "RedisScopedPtr_destroy T sp2 t s2 = Some s3"
  shows "(length (free_redis s2) + 2 \<le> pool_size s2 \<longrightarrow>
      (\<exists>p s4. RedisScopedPtr_destroy T sp1 t s3 = Some s4 \<and> free_redis s4 = free_redis s2 @ [p, p]))
    \<and> (pool_size s2 \<le> length (free_redis s2) \<longrightarrow> RedisScopedPtr_destroy T sp1 t s3 = None)"
proof -
  from 1 obtain p where g: "Impl_get T kThreadSpecific t s = Some (Inr p, s1)"
    and sp1: "sp1 = \<lparr>scoped_flag = kThreadSpecific, scoped_ptr = Some p\<rparr>"
    by (auto simp: new_RedisScopedPtr_def map_sum_def split: bind_splits sum.splits)
  from Impl_get_slot [OF T g] have slot: "tss_get T t s1 = Some p" .
  with 2 have sp2: "sp2 = sp1" "s2 = s1"
    by (auto simp: new_RedisScopedPtr_def Impl_get_def sp1)
  let ?s = "snd (tss_release T t s1)"
  have f: "free_redis ?s = free_redis s1" "pool_size ?s = pool_size s1" "tss_get T t ?s = None"
    by (simp_all add: tss_release_def tss_get_def tss_lawsD [OF T])
  from 3 slot have s3: "put_free_redis (Some p) ?s = Some s3"
    by (simp add: RedisScopedPtr_destroy_def sp2 sp1 Impl_put_def)
  then have "tss_get T t s3 = None"
    using f(3) by (auto simp: put_free_redis_def delete_redis_def tss_get_def split: if_splits)
  then have "RedisScopedPtr_destroy T sp1 t s3 = put_free_redis (Some p) s3"
    by (simp add: RedisScopedPtr_destroy_def sp1 Impl_put_def)
  with s3 f show ?thesis
    by (auto simp: put_free_redis_def delete_redis_def sp2 split: if_splits)
qed

section \<open>The destructor\<close>

lemma delete_all_allocated:
  "distinct ps \<Longrightarrow> \<forall>p\<in>set ps. objects s p \<noteq> None \<Longrightarrow>
   delete_all ps s = Some (s\<lparr>objects := objects s |` (- set ps)\<rparr>)"
proof (induction ps arbitrary: s)
  case Nil
  have "objects s |` (- set []) = objects s" by (simp add: restrict_map_def)
  then show ?case by (simp only: delete_all.simps) simp
next
  case (Cons p ps)
  have "delete_all (p # ps) s = delete_all ps (s\<lparr>objects := (objects s)(p := None)\<rparr>)"
    using Cons.prems by (auto simp: delete_redis_def)
  also have "\<dots> = Some (s\<lparr>objects := (objects s)(p := None) |` (- set ps)\<rparr>)" using Cons.prems by (subst Cons.IH) auto
  also have "(objects s)(p := None) |` (- set ps) = objects s |` (- set (p # ps))"
    by (auto simp: restrict_map_def)
  finally show ?case .
qed

lemma inv_destroys:
  assumes T: "tss_laws T" and inv: "pool_inv T \<sigma>"
  shows "\<exists>s'. Impl_destroy T t (impl \<sigma>) = Some s'
    \<and> (\<forall>p\<in>set (free_redis (impl \<sigma>)). objects s' p = None)
    \<and> free_redis s' = (case tss_get T t (impl \<sigma>) of None \<Rightarrow> [] | Some p \<Rightarrow> if pool_size (impl \<sigma>) = 0 then [] else [p])
    \<and> (\<forall>p\<in>set (free_redis s'). objects s' p = objects (impl \<sigma>) p \<and> objects s' p \<noteq> None)
    \<and> (\<forall>t'. t' \<noteq> t \<longrightarrow> snd (end_thread T (client_slots s') t') = tss_get T t' (impl \<sigma>))"
proof -
  from pool_own [OF inv] obtain own where o: "owners T \<sigma> own" by blast
  let ?s = "(impl \<sigma>)\<lparr>objects := objects (impl \<sigma>) |` (- set (free_redis (impl \<sigma>))), free_redis := []\<rparr>"
  have "delete_all (free_redis (impl \<sigma>)) (impl \<sigma>) = Some ((impl \<sigma>)\<lparr>objects := objects (impl \<sigma>) |` (- set (free_redis (impl \<sigma>)))\<rparr>)"
    using pool_invD(1) [OF inv] owner_of(1,5) [OF o] by (intro delete_all_allocated) auto
  then have c: "clear_free_redis (impl \<sigma>) = Some ?s" by (simp add: clear_free_redis_def)
  obtain store old where e: "set_tss_data T (client_slots (impl \<sigma>)) t False None True = (store, old)" by fastforce
  with tss_lawsD(3) [OF T, of "client_slots (impl \<sigma>)" t False None True] pool_invD(4) [OF inv]
  have old: "old = tss_get T t (impl \<sigma>)" by (cases "tss_get T t (impl \<sigma>)") (auto simp: tss_get_def)
  have d: "Impl_destroy T t (impl \<sigma>) = put_free_redis (tss_get T t (impl \<sigma>)) (?s\<lparr>client_slots := store\<rparr>)"
    by (simp add: Impl_destroy_def c tss_destroy_def e old)
  have others: "snd (end_thread T store t') = tss_get T t' (impl \<sigma>)" if "t' \<noteq> t" for t'
    using tss_lawsD(1,2) [OF T, of "client_slots (impl \<sigma>)" t False None True t'] tss_lawsD(6) [OF T, of store t']
      pool_invD(4) [OF inv] that by (cases "tss_get T t' (impl \<sigma>)") (auto simp: e tss_get_def)
  show ?thesis
  proof (cases "tss_get T t (impl \<sigma>)")
    case None
    with others show ?thesis by (simp add: d put_free_redis_def)
  next
    case (Some p)
    then have "own p = Some (InSlot t)" by (rule owner_of(2) [OF o])
    then have "p \<notin> set (free_redis (impl \<sigma>))" "objects (impl \<sigma>) p \<noteq> None"
      using owner_of(1) [OF o, of p] owner_of(5) [OF o, of p] by auto
    with Some others show ?thesis by (simp add: d put_free_redis_def delete_redis_def)
  qed
qed

end
