(* ===== verification/Tss_Properties.thy ===== *)
theory Tss_Properties
  imports Tss_Pool Sample
begin

text \<open>
  The properties of the pool of clients (\<open>Redis_Tss\<close>, \<open>Tss_Pool\<close>), each with an example on a
  concrete thread-specific storage: a table from threads to slots.
\<close>

type_synonym slot_table = "thread \<Rightarrow> bool \<times> redis_ptr ptr"

definition table_lib :: "slot_table tss_lib" where
  "table_lib = \<lparr>get_tss_data = \<lambda>s t. snd (s t),
     set_tss_data = \<lambda>s t c v e. (s(t := (c, v)), if e \<and> fst (s t) then snd (s t) else None),
     end_thread = \<lambda>s t. (s(t := (False, None)), if fst (s t) then snd (s t) else None),
     has_cleanup = \<lambda>s t. fst (s t)\<rparr>"

definition sample_pool :: "slot_table pool" where
  "sample_pool = \<lparr>impl = new_Impl sample_split ''localhost'' ''6379'' 0 1 50 kNormal 5 (\<lambda>t. (False, None)),
     pc = \<lambda>t. Idle, held = \<lambda>t. {}, lock = None\<rparr>"

lemma table_laws: "tss_laws table_lib"
  by (simp add: tss_laws_def table_lib_def)

lemma sample_pool_start: "pool_start table_lib sample_pool"
  by (simp add: pool_start_def sample_pool_def new_Impl_def tss_get_def table_lib_def)

text \<open>Thread 1 waits for the mutex, which thread 2 holds; both found no client of their own.\<close>

definition sample_busy :: "slot_table pool" where
  "sample_busy = sample_pool\<lparr>pc := (\<lambda>t. Idle)(1 := Asking kThreadSpecific, 2 := Taking kThreadSpecific), lock := Some 2\<rparr>"

lemma sample_busy_reached: "(proper_step table_lib)\<^sup>*\<^sup>* sample_pool sample_busy"
proof -
  let ?a = "sample_pool\<lparr>pc := (\<lambda>t. Idle)(1 := Asking kThreadSpecific)\<rparr>"
  let ?b = "sample_pool\<lparr>pc := (\<lambda>t. Idle)(1 := Asking kThreadSpecific, 2 := Asking kThreadSpecific)\<rparr>"
  have e: "tss_get table_lib t (impl sample_pool) = None" for t
    by (simp add: sample_pool_def new_Impl_def tss_get_def table_lib_def)
  have "proper_step table_lib sample_pool ?a"
    using pool_step.ask [of sample_pool 1 kThreadSpecific table_lib] e by (simp add: sample_pool_def)
  moreover have "proper_step table_lib ?a ?b" using pool_step.ask [of ?a 2 kThreadSpecific table_lib] e by simp
  moreover have "proper_step table_lib ?b sample_busy"
    using pool_step.lock_get [of ?b 2 kThreadSpecific table_lib] by (simp add: sample_busy_def sample_pool_def)
  ultimately show ?thesis by (rule three_steps)
qed

text \<open>Thread 1 has its client in its slot.\<close>

definition sample_client_object :: RedisBase2 where
  "sample_client_object = NormalClient (new_Redis2 ''localhost'' ''6379'' 0 50)"

definition sample_slot :: "slot_table pool" where
  "sample_slot = sample_pool\<lparr>impl := (impl sample_pool)\<lparr>client_slots := (\<lambda>t. (False, None))(1 := (True, Some 0)),
     objects := [0 \<mapsto> sample_client_object], next_ptr := 1\<rparr>\<rparr>"

lemma sample_slot_reached: "(proper_step table_lib)\<^sup>*\<^sup>* sample_pool sample_slot"
proof -
  have "Impl_get table_lib kThreadSpecific 1 (impl sample_pool) = Some (Inr 0, impl sample_slot)"
    by (simp add: Impl_get_def sample_pool_def sample_slot_def new_Impl_def tss_get_def table_lib_def Let_def
        get_free_or_create_redis_def get_free_redis_def create_redis_def alloc_redis_def tss_reset_def
        put_free_redis_def sample_client_object_def)
  with Impl_get_runs [OF table_laws, of sample_pool 1 kThreadSpecific "proper table_lib"] show ?thesis
    by (simp add: hands_def sample_pool_def sample_slot_def)
qed

text \<open>C6: in a pool that is used as \<open>redis_tss.h\<close> lists (a thread puts only the client of its own slot, or
  one it obtained with \<open>kNotThreadSpecific\<close> and has not put back), however the steps of the threads
  interleave, every client on the heap has exactly one owner: the free list, the slot of one thread, one
  thread that holds it, or one thread inside \<open>get\<close> or \<open>put\<close>; no owner has a deleted client; the free list
  has no duplicates and at most \<open>pool_size\<close> clients; and a thread that is about to delete a client deletes
  an allocated one.  (\<open>pool_step\<close> lets a program put any pointer; that two nested scoped pointers of one
  thread break the rule, and what follows, is part of \<open>pool_calls_are_steps\<close>.)\<close>

theorem pool_clients_owned:
  assumes "tss_laws T" "pool_start T \<sigma>0" "(proper_step T)\<^sup>*\<^sup>* \<sigma>0 \<sigma>"
  shows "(\<exists>own. owners T \<sigma> own) \<and> distinct (free_redis (impl \<sigma>))
    \<and> length (free_redis (impl \<sigma>)) \<le> pool_size (impl \<sigma>)
    \<and> (\<forall>t p. pc \<sigma> t = Deleting p \<longrightarrow> delete_redis p (impl \<sigma>) \<noteq> None)"
proof -
  note inv = pool_reaches_inv [OF assms]
  from pool_own [OF inv] obtain own where o: "owners T \<sigma> own" by blast
  with owned_deletes [OF o] pool_invD(1,2) [OF inv] show ?thesis by (metis option.distinct(1) tpc_ptr.simps(4))
qed

theorem pool_clients_owned_witness:
  "\<exists>own. owners table_lib sample_slot own \<and> own 0 = Some (InSlot 1)"
proof -
  from pool_clients_owned [OF table_laws sample_pool_start sample_slot_reached]
  obtain own where o: "owners table_lib sample_slot own" by blast
  have "tss_get table_lib 1 (impl sample_slot) = Some 0" by (simp add: sample_slot_def tss_get_def table_lib_def)
  with owner_of(2) [OF o] o show ?thesis by blast
qed

text \<open>C32: no deadlock on the mutex of the free list, in any reachable state of a pool used as
  \<open>redis_tss.h\<close> lists.  At most one thread is inside a section that holds the mutex.  A thread inside a call
  can return with steps of its own and, if another thread holds the mutex, steps of that one; nobody
  else has to move.  No step of any thread takes it farther from its end, every step of its own takes it
  nearer, and seven steps of its own are enough.\<close>

theorem pool_calls_finish:
  assumes "tss_laws T" "pool_start T \<sigma>0" "(proper_step T)\<^sup>*\<^sup>* \<sigma>0 \<sigma>" "pc \<sigma> t \<noteq> Idle"
  shows "(\<forall>u v. in_section (pc \<sigma> u) \<and> in_section (pc \<sigma> v) \<longrightarrow> u = v)
    \<and> (\<exists>\<sigma>'. (proper_step T)\<^sup>*\<^sup>* \<sigma> \<sigma>' \<and> pc \<sigma>' t = Idle \<and> (\<forall>u. u \<noteq> t \<and> \<not> in_section (pc \<sigma> u) \<longrightarrow> pc \<sigma>' u = pc \<sigma> u))
    \<and> (\<exists>\<sigma>' u q. (u = t \<or> waiting (pc \<sigma> t) \<and> in_section (pc \<sigma> u)) \<and> proper_step T \<sigma> \<sigma>'
        \<and> pc \<sigma>' = (pc \<sigma>)(u := q) \<and> tpc_rank q < tpc_rank (pc \<sigma> u))
    \<and> (\<forall>\<sigma>'. proper_step T \<sigma> \<sigma>' \<longrightarrow> pc \<sigma>' t = pc \<sigma> t \<or> tpc_rank (pc \<sigma>' t) < tpc_rank (pc \<sigma> t))
    \<and> tpc_rank (pc \<sigma> t) \<le> 7"
proof (intro conjI)
  note inv = pool_reaches_inv [OF assms(1-3)]
  note lck = pool_reaches_lock [OF assms(2,3)]
  then have holder: "lock \<sigma> = Some u \<longleftrightarrow> in_section (pc \<sigma> u)" for u by (simp add: lock_inv_def)
  show "\<forall>u v. in_section (pc \<sigma> u) \<and> in_section (pc \<sigma> v) \<longrightarrow> u = v" using lock_alone [OF lck] by blast
  show "\<exists>\<sigma>'. (proper_step T)\<^sup>*\<^sup>* \<sigma> \<sigma>' \<and> pc \<sigma>' t = Idle \<and> (\<forall>u. u \<noteq> t \<and> \<not> in_section (pc \<sigma> u) \<longrightarrow> pc \<sigma>' u = pc \<sigma> u)"
    using inv_returns [OF assms(1) inv lck, of t] by (simp add: holder)
  show "\<exists>\<sigma>' u q. (u = t \<or> waiting (pc \<sigma> t) \<and> in_section (pc \<sigma> u)) \<and> proper_step T \<sigma> \<sigma>'
      \<and> pc \<sigma>' = (pc \<sigma>)(u := q) \<and> tpc_rank q < tpc_rank (pc \<sigma> u)"
    using someone_steps [OF assms(1) inv lck assms(4)] unfolding can_step_def by blast
  show "\<forall>\<sigma>'. proper_step T \<sigma> \<sigma>' \<longrightarrow> pc \<sigma>' t = pc \<sigma> t \<or> tpc_rank (pc \<sigma>' t) < tpc_rank (pc \<sigma> t)"
    using rank_falls [OF _ assms(4)] by (intro allI impI)
  show "tpc_rank (pc \<sigma> t) \<le> 7" by (cases "pc \<sigma> t") simp_all
qed

theorem pool_calls_finish_witness:
  "\<exists>\<sigma>'. (proper_step table_lib)\<^sup>*\<^sup>* sample_busy \<sigma>' \<and> pc \<sigma>' 1 = Idle \<and> pc \<sigma>' 3 = Idle"
proof -
  have b: "pc sample_busy 1 \<noteq> Idle" "\<not> in_section (pc sample_busy 3)" "pc sample_busy 3 = Idle"
    by (simp_all add: sample_busy_def)
  obtain \<sigma>' where r: "(proper_step table_lib)\<^sup>*\<^sup>* sample_busy \<sigma>'" "pc \<sigma>' 1 = Idle"
    "\<forall>u. u \<noteq> 1 \<and> \<not> in_section (pc sample_busy u) \<longrightarrow> pc \<sigma>' u = pc sample_busy u"
    using pool_calls_finish [OF table_laws sample_pool_start sample_busy_reached b(1), THEN conjunct2, THEN conjunct1] by blast
  from r(3) [rule_format, of 3] b(2,3) have "pc \<sigma>' 3 = Idle" by simp
  with r(1,2) show ?thesis by blast
qed



text \<open>C40: in a pool that was used as \<open>redis_tss.h\<close> lists, the destructor deletes every client of the free list, but when the thread that
  runs it has a client of its own, the cleanup of \<open>client_\<close> comes after the body of the destructor and
  puts that client into the free list that was just cleared: it stays allocated (unless
  \<open>pool_size\<close> is 0) and nothing refers to it any more.  The clients of the other threads are not
  touched: each of them is still in its thread's slot, with the cleanup bound to the pool, which
  the library calls on it when that thread ends, after the pool is gone.\<close>

theorem pool_destructor_leaks:
  assumes "tss_laws T" "pool_start T \<sigma>0" "(proper_step T)\<^sup>*\<^sup>* \<sigma>0 \<sigma>"
  shows "\<exists>s'. Impl_destroy T t (impl \<sigma>) = Some s'
    \<and> (\<forall>p\<in>set (free_redis (impl \<sigma>)). objects s' p = None)
    \<and> free_redis s' = (case tss_get T t (impl \<sigma>) of None \<Rightarrow> [] | Some p \<Rightarrow> if pool_size (impl \<sigma>) = 0 then [] else [p])
    \<and> (\<forall>p\<in>set (free_redis s'). objects s' p = objects (impl \<sigma>) p \<and> objects s' p \<noteq> None)
    \<and> (\<forall>t'. t' \<noteq> t \<longrightarrow> snd (end_thread T (client_slots s') t') = tss_get T t' (impl \<sigma>))"
  using inv_destroys [OF assms(1) pool_reaches_inv [OF assms], of t] by blast

theorem pool_destructor_leaks_witness:
  "(\<exists>s'. Impl_destroy table_lib 1 (impl sample_slot) = Some s' \<and> free_redis s' = [0] \<and> objects s' 0 \<noteq> None)
   \<and> (\<exists>s'. Impl_destroy table_lib 2 (impl sample_slot) = Some s'
        \<and> snd (end_thread table_lib (client_slots s') 1) = Some 0)"
proof -
  have "tss_get table_lib 1 (impl sample_slot) = Some 0" "pool_size (impl sample_slot) = 5"
    "objects (impl sample_slot) 0 \<noteq> None"
    by (simp_all add: sample_slot_def sample_pool_def new_Impl_def tss_get_def table_lib_def)
  with pool_destructor_leaks [OF table_laws sample_pool_start sample_slot_reached, of 1]
    pool_destructor_leaks [OF table_laws sample_pool_start sample_slot_reached, of 2]
  show ?thesis by auto
qed

end
