(* ===== verification/Tss_Ptr.thy ===== *)
theory Tss_Ptr
  imports Redis_Tss
begin

text \<open>
  The class \<open>thread_specific_ptr\<close> of \<open>src/src/tss.h\<close> for any cleanup function: the constructors
  choose a cleanup object, the methods hand it to the storage of \<open>boost\<close>, which applies it to a
  value that is replaced or whose thread ends.  \<open>Redis_Tss\<close> gives the pool's own instance, whose
  cleanup is \<open>put_free_redis\<close> of the pool, bound as a function object; it is shown to be this
  class at that cleanup.

  The object that owns the pointer is a state \<open>'h\<close>; \<open>slots\<close> and \<open>set_slots\<close> reach the storage
  inside it (\<open>slots_access\<close>), \<open>del\<close> is \<open>delete\<close> on the element type.
\<close>

section \<open>Cleanup objects\<close>

datatype 'h tss_cleanup =
    delete_data
  | custom_cleanup_function_ptr "redis_ptr \<Rightarrow> 'h \<Rightarrow> 'h option"
  | custom_cleanup_function_obj "(redis_ptr \<Rightarrow> 'h \<Rightarrow> 'h option) ptr"

text \<open>\<open>operator()\<close>; an empty \<open>boost::function\<close> throws when it is called.\<close>

fun run_cleanup :: "(redis_ptr \<Rightarrow> 'h \<Rightarrow> 'h option) \<Rightarrow> 'h tss_cleanup \<Rightarrow> redis_ptr \<Rightarrow> 'h \<Rightarrow> 'h option" where
  "run_cleanup del delete_data data h = del data h"
| "run_cleanup del (custom_cleanup_function_ptr f) data h = f data h"
| "run_cleanup del (custom_cleanup_function_obj f) data h = do { f \<leftarrow> f; f data h }"

text \<open>The three constructors.\<close>

definition new_tss :: "'h tss_cleanup" where
  "new_tss = delete_data"

definition new_tss_ptr :: "(redis_ptr \<Rightarrow> 'h \<Rightarrow> 'h option) ptr \<Rightarrow> 'h tss_cleanup" where
  "new_tss_ptr func = (case func of Some f \<Rightarrow> custom_cleanup_function_ptr f | None \<Rightarrow> delete_data)"

definition new_tss_obj :: "(redis_ptr \<Rightarrow> 'h \<Rightarrow> 'h option) ptr \<Rightarrow> 'h tss_cleanup" where
  "new_tss_obj func = custom_cleanup_function_obj func"

section \<open>The methods\<close>

text \<open>What the storage does with a value it gives up.\<close>

definition clean_up :: "(redis_ptr \<Rightarrow> 'h \<Rightarrow> 'h option) \<Rightarrow> 'h tss_cleanup \<Rightarrow> redis_ptr ptr \<Rightarrow> 'h \<Rightarrow> 'h option" where
  "clean_up del cl old h = (case old of None \<Rightarrow> Some h | Some p \<Rightarrow> run_cleanup del cl p h)"

definition tptr_get :: "'s tss_lib \<Rightarrow> ('h \<Rightarrow> 's) \<Rightarrow> thread \<Rightarrow> 'h \<Rightarrow> redis_ptr ptr" where
  "tptr_get T slots t h = get_tss_data T (slots h) t"

text \<open>\<open>operator->\<close> and \<open>operator*\<close>; dereferencing a null pointer is undefined.\<close>

definition tptr_arrow :: "'s tss_lib \<Rightarrow> ('h \<Rightarrow> 's) \<Rightarrow> thread \<Rightarrow> 'h \<Rightarrow> redis_ptr ptr" where
  "tptr_arrow T slots t h = tptr_get T slots t h"

definition tptr_deref :: "'s tss_lib \<Rightarrow> ('h \<Rightarrow> 's) \<Rightarrow> (redis_ptr \<rightharpoonup> 'o) \<Rightarrow> thread \<Rightarrow> 'h \<Rightarrow> 'o option" where
  "tptr_deref T slots heap t h = do { p \<leftarrow> tptr_get T slots t h; heap p }"

definition tptr_release :: "'s tss_lib \<Rightarrow> ('h \<Rightarrow> 's) \<Rightarrow> ('s \<Rightarrow> 'h \<Rightarrow> 'h) \<Rightarrow> thread \<Rightarrow> 'h \<Rightarrow> redis_ptr ptr \<times> 'h" where
  "tptr_release T slots set_slots t h =
     (let temp = tptr_get T slots t h
      in (temp, set_slots (fst (set_tss_data T (slots h) t False None False)) h))"

definition tptr_reset :: "'s tss_lib \<Rightarrow> ('h \<Rightarrow> 's) \<Rightarrow> ('s \<Rightarrow> 'h \<Rightarrow> 'h) \<Rightarrow> (redis_ptr \<Rightarrow> 'h \<Rightarrow> 'h option)
    \<Rightarrow> 'h tss_cleanup \<Rightarrow> thread \<Rightarrow> redis_ptr ptr \<Rightarrow> 'h \<Rightarrow> 'h option" where
  "tptr_reset T slots set_slots del cl t new_value h =
     (let current_value = tptr_get T slots t h
      in if current_value \<noteq> new_value
         then let (store, old) = set_tss_data T (slots h) t True new_value True
              in clean_up del cl old (set_slots store h)
         else Some h)"

definition tptr_destroy :: "'s tss_lib \<Rightarrow> ('h \<Rightarrow> 's) \<Rightarrow> ('s \<Rightarrow> 'h \<Rightarrow> 'h) \<Rightarrow> (redis_ptr \<Rightarrow> 'h \<Rightarrow> 'h option)
    \<Rightarrow> 'h tss_cleanup \<Rightarrow> thread \<Rightarrow> 'h \<Rightarrow> 'h option" where
  "tptr_destroy T slots set_slots del cl t h =
     (let (store, old) = set_tss_data T (slots h) t False None True
      in clean_up del cl old (set_slots store h))"

section \<open>What holds of any instance\<close>

definition slots_access :: "('h \<Rightarrow> 's) \<Rightarrow> ('s \<Rightarrow> 'h \<Rightarrow> 'h) \<Rightarrow> bool" where
  "slots_access slots set_slots \<longleftrightarrow> (\<forall>s h. slots (set_slots s h) = s)"

lemma slots_accessD: "slots_access slots set_slots \<Longrightarrow> slots (set_slots s h) = s"
  by (simp add: slots_access_def)

text \<open>The value of one thread: what it stored last; releasing gives it away without a cleanup;
  resetting to another value cleans the old one up, resetting to the same value does nothing.\<close>

lemma tptr_release_gives:
  assumes "tss_laws T" "slots_access slots set_slots" "tptr_release T slots set_slots t h = (v, h')"
  shows "v = tptr_get T slots t h" "tptr_get T slots t' h' = (if t' = t then None else tptr_get T slots t' h)"
  using assms by (auto simp: tptr_release_def tptr_get_def tss_laws_def slots_accessD)

lemma tptr_reset_same: "tptr_get T slots t h = v \<Longrightarrow> tptr_reset T slots set_slots del cl t v h = Some h"
  by (simp add: tptr_reset_def)

lemma tptr_reset_cleans:
  assumes "tss_laws T" "tptr_get T slots t h = Some p" "v \<noteq> Some p" "has_cleanup T (slots h) t"
  shows "\<exists>store. tptr_reset T slots set_slots del cl t v h = run_cleanup del cl p (set_slots store h)
    \<and> (\<forall>t'. get_tss_data T store t' = (if t' = t then v else tptr_get T slots t' h))"
proof -
  let ?r = "set_tss_data T (slots h) t True v True"
  have "snd ?r = Some p" "get_tss_data T (fst ?r) t' = (if t' = t then v else tptr_get T slots t' h)" for t'
    using assms by (auto simp: tss_laws_def tptr_get_def)
  then show ?thesis
    using assms(2,3) by (intro exI [of _ "fst ?r"]) (simp add: tptr_reset_def clean_up_def Let_def split_def)
qed

section \<open>The pool's instance\<close>

text \<open>\<open>client_(boost::bind(&RedisTss::Impl::put_free_redis, this, _1))\<close>\<close>

definition pool_cleanup :: "'s Impl tss_cleanup" where
  "pool_cleanup = new_tss_obj (Some (\<lambda>p. put_free_redis (Some p)))"

abbreviation set_client_slots :: "'s \<Rightarrow> 's Impl \<Rightarrow> 's Impl" where
  "set_client_slots store s \<equiv> s\<lparr>client_slots := store\<rparr>"

lemma pool_clean_up: "clean_up delete_redis pool_cleanup old s = put_free_redis old s"
  by (cases old) (simp_all add: clean_up_def pool_cleanup_def new_tss_obj_def put_free_redis_def)

text \<open>The pool's operations on \<open>client_\<close> are the class at the cleanup the constructor of the pool
  binds.\<close>

lemma pool_tss_is_class:
  "tss_get T t s = tptr_get T client_slots t s"
  "tss_release T t s = tptr_release T client_slots set_client_slots t s"
  "tss_reset T t v s = tptr_reset T client_slots set_client_slots delete_redis pool_cleanup t v s"
  "tss_destroy T t s = tptr_destroy T client_slots set_client_slots delete_redis pool_cleanup t s"
  "thread_exit T t s = (let (store, old) = end_thread T (client_slots s) t
     in clean_up delete_redis pool_cleanup old (set_client_slots store s))"
  by (simp_all add: tss_get_def tptr_get_def tss_release_def tptr_release_def tss_reset_def tptr_reset_def
      tss_destroy_def tptr_destroy_def thread_exit_def pool_clean_up Let_def)

end
