(* ===== verification/Facade.thy ===== *)
theory Facade
  imports Redis_Virtual
begin

text \<open>
  The thin public layer: the classes that forward to a member or to \<open>impl_\<close>, the accessors, the
  exception, and the guard that ignores \<open>SIGPIPE\<close>.  A reference or pointer to a field is the
  field's value; \<open>c_str()\<close> is read up to the first null character.
\<close>

section \<open>RedisException\<close>

record RedisException =
  exception_text :: string

definition new_RedisException :: "string ptr \<Rightarrow> RedisException" where
  "new_RedisException s =
     (case s of Some s \<Rightarrow> \<lparr>exception_text = s\<rparr> | None \<Rightarrow> \<lparr>exception_text = ''redis exception''\<rparr>)"

definition new_RedisException_string :: "string \<Rightarrow> RedisException" where
  "new_RedisException_string s = \<lparr>exception_text = s\<rparr>"

definition RedisException_what :: "RedisException \<Rightarrow> string" where
  "RedisException_what e = c_str (exception_text e)"

section \<open>SIGPIPE\<close>

text \<open>The handlers of the process, one per signal; \<open>signal\<close> installs one and returns the previous.\<close>

abbreviation (input) SIGPIPE :: int where "SIGPIPE \<equiv> 13"
abbreviation (input) SIG_IGN :: int where "SIG_IGN \<equiv> 1"

type_synonym handlers = "int \<Rightarrow> int"

definition sys_signal :: "int \<Rightarrow> int \<Rightarrow> handlers \<Rightarrow> int \<times> handlers" where
  "sys_signal sig handler hs = (hs sig, hs(sig := handler))"

record IgnoreSIGPIPE =
  prev_handler :: int

definition new_IgnoreSIGPIPE :: "handlers \<Rightarrow> IgnoreSIGPIPE \<times> handlers" where
  "new_IgnoreSIGPIPE hs = (let (prev, hs) = sys_signal SIGPIPE SIG_IGN hs in (\<lparr>prev_handler = prev\<rparr>, hs))"

definition IgnoreSIGPIPE_destroy :: "IgnoreSIGPIPE \<Rightarrow> handlers \<Rightarrow> handlers" where
  "IgnoreSIGPIPE_destroy g hs = snd (sys_signal SIGPIPE (prev_handler g) hs)"

text \<open>While the guard lives \<open>SIGPIPE\<close> is ignored, whatever other signals the program handles; its end
  restores the handler that was there.\<close>

lemma sigpipe_guard:
  assumes "new_IgnoreSIGPIPE hs = (g, hs1)" "hs2 SIGPIPE = hs1 SIGPIPE"
  shows "hs2 SIGPIPE = SIG_IGN" "IgnoreSIGPIPE_destroy g hs2 = hs2(SIGPIPE := hs SIGPIPE)"
  using assms by (auto simp: new_IgnoreSIGPIPE_def IgnoreSIGPIPE_destroy_def sys_signal_def)

section \<open>RedisInput and RedisCommand\<close>

definition new_input_default :: RedisInput where
  "new_input_default = \<lparr>in_command = NOOP, command_info = s_command_map ! cmd_ord NOOP, args = []\<rparr>"

definition swap_input :: "RedisInput \<Rightarrow> RedisInput \<Rightarrow> RedisInput \<times> RedisInput" where
  "swap_input i j =
     (i\<lparr>in_command := in_command j, command_info := command_info j, args := args j\<rparr>,
      j\<lparr>in_command := in_command i, command_info := command_info i, args := args i\<rparr>)"

definition push_arg_size :: "nat \<Rightarrow> RedisInput \<Rightarrow> RedisInput" where
  "push_arg_size n i = i\<lparr>args := args i @ [show_nat n]\<rparr>"

definition push_arg_int32 :: "int \<Rightarrow> RedisInput \<Rightarrow> RedisInput" where
  "push_arg_int32 n i = i\<lparr>args := args i @ [show_int n]\<rparr>"

definition new_command_default :: RedisCommand where
  "new_command_default = \<lparr>cmd_in = new_input_default, cmd_out = new_output\<rparr>"

definition on_input :: "(RedisInput \<Rightarrow> RedisInput) \<Rightarrow> RedisCommand \<Rightarrow> RedisCommand" where
  "on_input f c = c\<lparr>cmd_in := f (cmd_in c)\<rparr>"

definition RedisCommand_command :: "RedisCommand \<Rightarrow> kCommand" where
  "RedisCommand_command c = in_command (cmd_in c)"

definition RedisCommand_command_info :: "RedisCommand \<Rightarrow> CommandInfo" where
  "RedisCommand_command_info c = command_info (cmd_in c)"

definition RedisCommand_args :: "RedisCommand \<Rightarrow> string list" where
  "RedisCommand_args c = args (cmd_in c)"

definition RedisCommand_clear_arg :: "RedisCommand \<Rightarrow> RedisCommand" where
  "RedisCommand_clear_arg = on_input clear_arg"

definition RedisCommand_push_arg :: "string \<Rightarrow> RedisCommand \<Rightarrow> RedisCommand" where
  "RedisCommand_push_arg s = on_input (push_arg s)"

definition RedisCommand_push_arg_cstr :: "string ptr \<Rightarrow> RedisCommand \<Rightarrow> RedisCommand" where
  "RedisCommand_push_arg_cstr s = on_input (push_arg_cstr s)"

definition RedisCommand_push_args :: "string list \<Rightarrow> RedisCommand \<Rightarrow> RedisCommand" where
  "RedisCommand_push_args sv = on_input (push_args sv)"

definition RedisCommand_push_arg_int :: "int \<Rightarrow> RedisCommand \<Rightarrow> RedisCommand" where
  "RedisCommand_push_arg_int n = on_input (push_arg_int n)"

definition RedisCommand_push_arg_size :: "nat \<Rightarrow> RedisCommand \<Rightarrow> RedisCommand" where
  "RedisCommand_push_arg_size n = on_input (push_arg_size n)"

definition RedisCommand_push_arg_int32 :: "int \<Rightarrow> RedisCommand \<Rightarrow> RedisCommand" where
  "RedisCommand_push_arg_int32 n = on_input (push_arg_int32 n)"

definition RedisCommand_push_arg_ints :: "int list \<Rightarrow> RedisCommand \<Rightarrow> RedisCommand" where
  "RedisCommand_push_arg_ints iv = on_input (push_arg_ints iv)"

definition RedisCommand_push_arg_double :: "(64 word \<Rightarrow> string) \<Rightarrow> 64 word \<Rightarrow> RedisCommand \<Rightarrow> RedisCommand" where
  "RedisCommand_push_arg_double cast d = on_input (push_arg_double cast d)"

definition RedisCommand_push_arg_doubles :: "(64 word \<Rightarrow> string) \<Rightarrow> 64 word list \<Rightarrow> RedisCommand \<Rightarrow> RedisCommand" where
  "RedisCommand_push_arg_doubles cast dv = on_input (push_arg_doubles cast dv)"

text \<open>A command that is built by calls on it is the one built by calls on its input.\<close>

lemma command_with_calls: "command_with cmd pushes = foldl (\<lambda>c f. on_input f c) (new_command cmd) pushes"
  by (simp add: command_with_def on_input_def)

lemma swap_command_halves:
  "swap_command c d = (c\<lparr>cmd_in := fst (swap_input (cmd_in c) (cmd_in d)), cmd_out := cmd_out d\<rparr>,
     d\<lparr>cmd_in := snd (swap_input (cmd_in c) (cmd_in d)), cmd_out := cmd_out c\<rparr>)"
  by (simp add: swap_command_def swap_input_def)

lemma swap_input_twice: "swap_input i j = (i', j') \<Longrightarrow> swap_input i' j' = (i, j)"
  by (auto simp: swap_input_def)

section \<open>TcpClient and RedisProtocol\<close>

text \<open>\<open>~TcpClient\<close> deletes \<open>impl_\<close>, whose destructor closes.\<close>

definition TcpClient_destroy :: "TcpClient \<Rightarrow> world \<Rightarrow> world" where
  "TcpClient_destroy tc w = snd (TcpClient_close tc w)"

definition RedisProtocol_destroy :: "RedisProtocol \<Rightarrow> world \<Rightarrow> world" where
  "RedisProtocol_destroy p w =
     (let (p, w) = proto_close p w in TcpClient_destroy (tcp_client p) w)"

definition RedisProtocol_get_host :: "RedisProtocol \<Rightarrow> string" where
  "RedisProtocol_get_host p = p_host p"

definition RedisProtocol_get_port :: "RedisProtocol \<Rightarrow> string" where
  "RedisProtocol_get_port p = p_port p"

definition RedisProtocol_last_error :: "RedisProtocol \<Rightarrow> string" where
  "RedisProtocol_last_error p = p_error p"

definition RedisProtocol_last_c_error :: "RedisProtocol \<Rightarrow> string" where
  "RedisProtocol_last_c_error p = c_str (p_error p)"

definition get_blocking_mode :: "RedisProtocol \<Rightarrow> bool" where
  "get_blocking_mode p = blocking_mode p"

definition get_transaction_mode :: "RedisProtocol \<Rightarrow> bool" where
  "get_transaction_mode p = transaction_mode p"

text \<open>The variadic overloads; \<open>vs\<close> is the text that \<open>vsnprintf\<close> formats.\<close>

definition exec_commandf :: "RedisCommand ptr \<Rightarrow> string option \<Rightarrow> RedisProtocol \<Rightarrow> world
    \<Rightarrow> (bool \<times> RedisCommand ptr \<times> RedisProtocol \<times> world) option" where
  "exec_commandf cp vs p w =
     (if cp = None then Some (False, None, p\<lparr>p_error := ''EINVAL''\<rparr>, w)
      else exec_commandv cp vs p w)"

definition write_commandf :: "RedisCommand ptr \<Rightarrow> string option \<Rightarrow> RedisProtocol \<Rightarrow> world
    \<Rightarrow> (bool \<times> RedisCommand ptr \<times> RedisProtocol \<times> world) option" where
  "write_commandf cp vs p w = write_commandv cp vs p w"

text \<open>The destructor closes the descriptor once: the second \<open>close\<close> finds none.\<close>

lemma protocol_destroy: "RedisProtocol_destroy p w = snd (TcpClient_close (tcp_client p) w)"
  by (auto simp: RedisProtocol_destroy_def proto_close_def TcpClient_destroy_def TcpClient_close_def Let_def
      split: prod.splits)

section \<open>Redis2 and RedisBase2Multi\<close>

definition Redis2_get_host :: "Redis2 \<Rightarrow> string" where
  "Redis2_get_host r = RedisProtocol_get_host (proto r)"

definition Redis2_get_port :: "Redis2 \<Rightarrow> string" where
  "Redis2_get_port r = RedisProtocol_get_port (proto r)"

definition Redis2_get_blocking_mode :: "Redis2 \<Rightarrow> bool" where
  "Redis2_get_blocking_mode r = get_blocking_mode (proto r)"

definition Redis2_get_transaction_mode :: "Redis2 \<Rightarrow> bool" where
  "Redis2_get_transaction_mode r = get_transaction_mode (proto r)"

definition Redis2_last_error :: "Redis2 \<Rightarrow> string" where
  "Redis2_last_error r = RedisProtocol_last_error (proto r)"

definition Redis2_last_c_error :: "Redis2 \<Rightarrow> string" where
  "Redis2_last_c_error r = RedisProtocol_last_c_error (proto r)"

definition Multi_last_error :: "Redis2P \<Rightarrow> string" where
  "Multi_last_error p = pt_error p"

definition Multi_last_c_error :: "Redis2P \<Rightarrow> string" where
  "Multi_last_c_error p = c_str (pt_error p)"

text \<open>The virtual accessors of \<open>RedisBase2\<close> run those of the class.\<close>

lemma virtual_last_error:
  "Base2_last_error (NormalClient r) = Redis2_last_error r" "Base2_last_error (PartitionClient p) = Multi_last_error p"
  "Base2_last_c_error (NormalClient r) = Redis2_last_c_error r"
  "Base2_last_c_error (PartitionClient p) = Multi_last_c_error p"
  by (simp_all add: Base2_last_error_def Base2_last_c_error_def Redis2_last_error_def RedisProtocol_last_error_def
      Multi_last_error_def Redis2_last_c_error_def RedisProtocol_last_c_error_def Multi_last_c_error_def c_str_def)

text \<open>An error set is the error read.\<close>

lemma last_error_read: "Redis2_last_error (last_error e r) = e" "Multi_last_error (P_last_error e p) = e"
  by (simp_all add: Redis2_last_error_def RedisProtocol_last_error_def last_error_def proto_set_error_def
      Multi_last_error_def P_last_error_def)

section \<open>RedisTss\<close>

text \<open>\<open>RedisTss\<close> holds an \<open>Impl\<close>.\<close>

definition new_RedisTss ::
  "(char \<Rightarrow> string \<Rightarrow> string list) \<Rightarrow> string \<Rightarrow> string \<Rightarrow> int \<Rightarrow> int \<Rightarrow> int \<Rightarrow> kRedisClientType \<Rightarrow> nat \<Rightarrow> 's \<Rightarrow> 's Impl" where
  "new_RedisTss split host port index parts timeout_ms type max_free store =
     new_Impl split host port index parts timeout_ms type max_free store"

definition new_RedisTss_int ::
  "(char \<Rightarrow> string \<Rightarrow> string list) \<Rightarrow> string \<Rightarrow> int \<Rightarrow> int \<Rightarrow> int \<Rightarrow> int \<Rightarrow> kRedisClientType \<Rightarrow> nat \<Rightarrow> 's \<Rightarrow> 's Impl" where
  "new_RedisTss_int split host port index parts timeout_ms type max_free store =
     new_Impl_int split host port index parts timeout_ms type max_free store"

definition RedisTss_destroy :: "'s tss_lib \<Rightarrow> thread \<Rightarrow> 's Impl \<Rightarrow> 's Impl option" where
  "RedisTss_destroy T t s = Impl_destroy T t s"

definition RedisTss_get :: "'s tss_lib \<Rightarrow> kTssFlag \<Rightarrow> thread \<Rightarrow> 's Impl \<Rightarrow> ((string + redis_ptr) \<times> 's Impl) option" where
  "RedisTss_get T flag t s = Impl_get T flag t s"

definition RedisTss_put :: "'s tss_lib \<Rightarrow> redis_ptr ptr \<Rightarrow> kTssFlag \<Rightarrow> thread \<Rightarrow> 's Impl \<Rightarrow> 's Impl option" where
  "RedisTss_put T redis flag t s = Impl_put T redis flag t s"

end
