(* ===== verification/Redis_Monitor.thy ===== *)
theory Redis_Monitor
  imports Redis_Protocol Hash "HOL-Library.Char_ord" "HOL-Library.List_Lexorder" "HOL-Library.Product_Lexorder" "HOL-Library.Signed_Division"
begin

text \<open>
  The two programs of \<open>src/tools\<close>; their \<open>main\<close> functions and the timer follow in \<open>Monitor_Main\<close>.
  \<open>redis_hash_test.cpp\<close> prints the group of a key.  \<open>redis_monitor.cpp\<close> keeps one
  connection in \<open>MONITOR\<close> mode and counts the commands the server reports, per command and per
  command and database; another connection asks for \<open>INFO\<close> and measures \<open>PING\<close>.

  The state is the global variables of the program; a \<open>scoped_ptr\<close> is a \<open>ptr\<close>, resetting it runs the
  destructor of \<open>RedisProtocol\<close>, which closes the connection.  \<open>cout\<close> and \<open>cerr\<close> are the lines
  written.  A \<open>std::map\<close> is its list of pairs in ascending order of the keys.  Where the source moves
  a pointer behind the end of a line the model is undefined (\<open>None\<close>).
\<close>

section \<open>redis_hash_test\<close>

text \<open>\<open>time33_hash_32(key) % group_number\<close>: the signed \<open>group_number\<close> is converted to 32 bits unsigned; a
  division by 0 is undefined.\<close>

definition hash_test_index :: "string \<Rightarrow> int \<Rightarrow> 32 word option" where
  "hash_test_index key group_number = do {
     let g = (word_of_int group_number :: 32 word);
     assertion (g \<noteq> 0);
     Some (time33_hash_32_string key mod g)
   }"

section \<open>State of redis_monitor\<close>

record Monitor =
  redis_host :: string
  redis_port :: string
  redis_timeout :: int
  s_monitor :: "RedisProtocol ptr"
  s_info :: "RedisProtocol ptr"
  s_cmd_db_map :: "((string \<times> int) \<times> int) list"
  s_cmd_map :: "(string \<times> int) list"
  s_stop_flag :: bool
  cout :: "string list"
  cerr :: "string list"

definition put_cerr :: "string \<Rightarrow> Monitor \<Rightarrow> Monitor" where
  "put_cerr s m = m\<lparr>cerr := cerr m @ [s]\<rparr>"

definition put_cout :: "string \<Rightarrow> Monitor \<Rightarrow> Monitor" where
  "put_cout s m = m\<lparr>cout := cout m @ [s]\<rparr>"

text \<open>\<open>~RedisProtocol\<close>\<close>

fun delete_proto :: "RedisProtocol ptr \<Rightarrow> world \<Rightarrow> world" where
  "delete_proto None w = w"
| "delete_proto (Some p) w = snd (proto_close p w)"

section \<open>Connections\<close>

text \<open>The literal format text has no conversions: \<open>vsnprintf\<close> gives the text itself.\<close>

definition init_monitor :: "Monitor \<Rightarrow> world \<Rightarrow> (bool \<times> Monitor \<times> world) option" where
  "init_monitor m w =
     (let w = delete_proto (s_monitor m) w;
          ((ok, _), p, w) = proto_assure_connect None (new_RedisProtocol (redis_host m) (redis_port m) (redis_timeout m)) w
      in if \<not> ok
         then Some (False, (put_cerr ''connection failed'' m)\<lparr>s_monitor := None\<rparr>, delete_proto (Some p) w)
         else do {
           (ret, c, p, w) \<leftarrow> exec_commandv (Some (new_command NOOP)) (Some ''MONITOR'') p w;
           c \<leftarrow> c;
           if \<not> ret
           then Some (False, (put_cerr ''MONITOR failed'' m)\<lparr>s_monitor := None\<rparr>, delete_proto (Some p) w)
           else if \<not> is_status_ok (cmd_out c)
           then Some (False, (put_cerr ''MONITOR response is not OK'' m)\<lparr>s_monitor := None\<rparr>, delete_proto (Some p) w)
           else Some (True, (put_cerr ''OK'' m)\<lparr>s_monitor := Some p\<rparr>, w)
         })"

definition init_info :: "Monitor \<Rightarrow> world \<Rightarrow> Monitor \<times> world" where
  "init_info m w =
     (let w = delete_proto (s_info m) w;
          ((ok, _), p, w) = proto_assure_connect None (new_RedisProtocol (redis_host m) (redis_port m) (redis_timeout m)) w
      in if \<not> ok then ((put_cerr ''connection failed'' m)\<lparr>s_info := None\<rparr>, delete_proto (Some p) w)
         else (m\<lparr>s_info := Some p\<rparr>, w))"

section \<open>Counting\<close>

text \<open>\<open>++map[k]\<close> on a \<open>std::map\<close> of \<open>int\<close>; overflow is undefined.\<close>

fun bump :: "'k::linorder \<Rightarrow> ('k \<times> int) list \<Rightarrow> ('k \<times> int) list option" where
  "bump k [] = Some [(k, 1)]"
| "bump k ((k', n) # m) =
     (if k = k' then do { assertion (n < 2 ^ 31 - 1); Some ((k', n + 1) # m) }
      else if k < k' then Some ((k, 1) # (k', n) # m)
      else map_option (Cons (k', n)) (bump k m))"

text \<open>
  \<open>strtoul(s, &end, 10)\<close>: the value, the number of characters before \<open>end\<close>, and whether the value was
  out of range.  A text with no digits gives 0 and \<open>end = s\<close>; a minus sign negates modulo \<open>2^64\<close>.
\<close>

definition strtoul :: "string \<Rightarrow> nat \<times> nat \<times> bool" where
  "strtoul s =
     (let blank = length (takeWhile is_space s);
          s1 = drop blank s;
          sign = (if s1 \<noteq> [] \<and> (hd s1 = CHR ''-'' \<or> hd s1 = CHR ''+'') then 1 else 0);
          ds = takeWhile is_digit (drop sign s1);
          v = read_digits 0 ds
      in if ds = [] then (0, 0, False)
         else if v \<ge> 2 ^ 64 then (2 ^ 64 - 1, blank + sign + length ds, True)
         else ((if sign = 1 \<and> hd s1 = CHR ''-'' then (2 ^ 64 - v) mod 2 ^ 64 else v),
               blank + sign + length ds, False))"

text \<open>What \<open>strchr(s, c)\<close> finds: the characters before the first \<open>c\<close>, unless the text ends before.\<close>

fun before_char :: "char \<Rightarrow> string \<Rightarrow> string option" where
  "before_char c [] = None"
| "before_char c (x # xs) =
     (if x = c then Some [] else if x = CHR 0x00 then None else map_option (Cons x) (before_char c xs))"

text \<open>One round of the loop of \<open>monitor\<close>, on a line that was read.\<close>

definition count_line :: "string \<Rightarrow> Monitor \<Rightarrow> world \<Rightarrow> (Monitor \<times> world) option" where
  "count_line line m w =
     (if length line < 24 \<or> line ! 20 \<noteq> CHR ''d'' then Some (m, w)
      else let (v, used, range) = strtoul (drop 23 line);
               db = int32 (int v);
               w = (if range then w\<lparr>errno := ERANGE\<rparr> else w)
      in if errno w = ERANGE then Some (m, w)
         else do {
           assertion (23 + used + 3 \<le> length line);
           case before_char (CHR 0x22) (drop (23 + used + 3) line) of
             None \<Rightarrow> Some (m, w)
           | Some cmd \<Rightarrow> do {
               a \<leftarrow> bump (cmd, db) (s_cmd_db_map m);
               b \<leftarrow> bump cmd (s_cmd_map m);
               Some (m\<lparr>s_cmd_db_map := a, s_cmd_map := b\<rparr>, w)
             }
         })"

partial_function (option) monitor_loop ::
  "Monitor \<Rightarrow> RedisProtocol \<Rightarrow> world \<Rightarrow> (Monitor \<times> world) option" where
  "monitor_loop m p w =
     (let (more, w) = proto_available p w
      in if \<not> more \<or> s_stop_flag m then Some (m\<lparr>s_monitor := Some p\<rparr>, w)
         else do {
           (ret, line, p, w) \<leftarrow> proto_read_line p w;
           if ret then do { (m, w) \<leftarrow> count_line line m w; monitor_loop m p w }
           else Some (m\<lparr>s_monitor := None\<rparr>, delete_proto (Some p) w)
         })"

definition monitor :: "Monitor \<Rightarrow> world \<Rightarrow> (Monitor \<times> world) option" where
  "monitor m w = do {
     (m, w) \<leftarrow> (if s_monitor m = None then do { (_, m, w) \<leftarrow> init_monitor m w; Some (m, w) } else Some (m, w));
     case s_monitor m of
       None \<Rightarrow> Some (m, w)
     | Some p \<Rightarrow> monitor_loop m p w
   }"

definition print_monitor :: "Monitor \<Rightarrow> Monitor" where
  "print_monitor m =
     m\<lparr>cout := cout m
         @ map (\<lambda>((cmd, db), n). ''['' @ cmd @ '' '' @ show_int db @ '']:'' @ show_int n) (s_cmd_db_map m)
         @ map (\<lambda>(cmd, n). ''['' @ cmd @ '']:'' @ show_int n) (s_cmd_map m),
       s_cmd_db_map := [], s_cmd_map := []\<rparr>"

section \<open>INFO and PING\<close>

definition info_cmd :: "Monitor \<Rightarrow> world \<Rightarrow> (Monitor \<times> world) option" where
  "info_cmd m w =
     (let (m, w) = (if s_info m = None then init_info m w else (m, w))
      in case s_info m of
           None \<Rightarrow> Some (m, w)
         | Some p \<Rightarrow> do {
             (ret, c, p, w) \<leftarrow> exec_commandv (Some (new_command NOOP)) (Some ''INFO'') p w;
             c \<leftarrow> c;
             if \<not> ret then Some ((put_cerr ''INFO failed'' m)\<lparr>s_info := None\<rparr>, delete_proto (Some p) w)
             else if \<not> is_bulk (cmd_out c)
             then Some ((put_cerr ''INFO response is not OK'' m)\<lparr>s_info := None\<rparr>, delete_proto (Some p) w)
             else case out_ptr (cmd_out c) of
                 BulkPtr s \<Rightarrow> Some ((put_cout (takeWhile (\<lambda>x. x \<noteq> CHR 0x00) s) m)\<lparr>s_info := Some p\<rparr>, w)
               | _ \<Rightarrow> None
           })"

fun ping_loop :: "nat \<Rightarrow> RedisCommand \<Rightarrow> Monitor \<Rightarrow> RedisProtocol \<Rightarrow> world \<Rightarrow> (bool \<times> Monitor \<times> world) option" where
  "ping_loop 0 c m p w = Some (True, m\<lparr>s_info := Some p\<rparr>, w)"
| "ping_loop (Suc k) c m p w = do {
     (ret, c, p, w) \<leftarrow> exec_commandv (Some c) (Some ''PING'') p w;
     c \<leftarrow> c;
     if \<not> ret then Some (False, (put_cerr ''PING failed'' m)\<lparr>s_info := None\<rparr>, delete_proto (Some p) w)
     else if \<not> is_status_pong (cmd_out c)
     then Some (False, (put_cerr ''PING response is not PONG'' m)\<lparr>s_info := None\<rparr>, delete_proto (Some p) w)
     else ping_loop k c m p w
   }"

text \<open>\<open>total\<close> is the time the clock of \<open>boost\<close> measures over the three rounds, in milliseconds.\<close>

definition ping_cmd :: "int \<Rightarrow> Monitor \<Rightarrow> world \<Rightarrow> (Monitor \<times> world) option" where
  "ping_cmd total_ms m w =
     (let (m, w) = (if s_info m = None then init_info m w else (m, w))
      in case s_info m of
           None \<Rightarrow> Some (m, w)
         | Some p \<Rightarrow> do {
             (ok, m, w) \<leftarrow> ping_loop 3 (new_command NOOP) m p w;
             Some ((if ok then put_cout (''[PING]:'' @ show_int (int32 total_ms sdiv 3)) m else m), w)
           })"

text \<open>One round of the timer; \<open>now\<close> is \<open>time(NULL)\<close>.\<close>

definition update :: "bool \<Rightarrow> int \<Rightarrow> int \<Rightarrow> Monitor \<Rightarrow> world \<Rightarrow> (Monitor \<times> world) option" where
  "update redis_monitor now total_ms m w = do {
     let m = put_cout (redis_host m @ '':'' @ redis_port m) (put_cout (show_int now) (put_cout ''{begin}'' m));
     (m, w) \<leftarrow> (if redis_monitor then do { (m, w) \<leftarrow> monitor m w; Some (print_monitor m, w) } else Some (m, w));
     (m, w) \<leftarrow> info_cmd m w;
     (m, w) \<leftarrow> ping_cmd total_ms m w;
     Some (put_cout ''{end}'' m, w)
   }"

end
