(* ===== verification/Monitor_Properties.thy ===== *)
theory Monitor_Properties
  imports Redis_Monitor Sample "HOL-Library.Multiset"
begin

text \<open>
  What the monitoring program promises: its two tables count the same events.  The specification
  of the tables is one multiset of events, a command with its database.
\<close>

section \<open>Counters\<close>

definition count_in :: "('k \<times> int) list \<Rightarrow> 'k \<Rightarrow> int" where
  "count_in m k = (case map_of m k of None \<Rightarrow> 0 | Some n \<Rightarrow> n)"

definition sorted_keys :: "('k::linorder \<times> int) list \<Rightarrow> bool" where
  "sorted_keys m = sorted_wrt (<) (map fst m)"

text \<open>The table represents the multiset of the keys that were counted.\<close>

definition counts :: "('k::linorder \<times> int) list \<Rightarrow> 'k multiset \<Rightarrow> bool" where
  "counts m ks \<longleftrightarrow> sorted_keys m \<and> (\<forall>k. count_in m k = int (count ks k))"

lemma bump_keys: "bump k m = Some m' \<Longrightarrow> fst ` set m' = insert k (fst ` set m)"
proof (induction k m arbitrary: m' rule: bump.induct)
  case (2 k k' n m)
  show ?case
  proof (cases "k = k' \<or> k < k'")
    case True
    with 2(2) show ?thesis by (auto split: if_splits)
  next
    case False
    with 2(2) obtain m1 where "bump k m = Some m1" "m' = (k', n) # m1" by auto
    with 2(1) False show ?thesis by (simp add: insert_commute)
  qed
qed auto

lemma bump_sorted: "sorted_keys m \<Longrightarrow> bump k m = Some m' \<Longrightarrow> sorted_keys m'"
proof (induction k m arbitrary: m' rule: bump.induct)
  case (2 k k' n m)
  have keys: "\<forall>x \<in> set (map fst m). k' < x" and m: "sorted_keys m" using 2(2) by (auto simp: sorted_keys_def)
  consider "k = k'" | "k < k'" | "k' < k" by (rule linorder_cases) auto
  then show ?case
  proof cases
    case 1
    with 2(2,3) show ?thesis by (auto simp: sorted_keys_def split: if_splits)
  next
    case below: 2
    with 2(3) have "m' = (k, 1) # (k', n) # m" by (auto split: if_splits)
    with below keys 2(2) show ?thesis by (auto simp: sorted_keys_def)
  next
    case 3
    with 2(3) obtain m1 where m1: "bump k m = Some m1" "m' = (k', n) # m1" by (auto split: if_splits)
    with 2(1) [OF _ _ m] 3 bump_keys [OF m1(1)] keys show ?thesis by (auto simp: sorted_keys_def)
  qed
qed (simp add: sorted_keys_def)

lemma bump_count:
  "sorted_keys m \<Longrightarrow> bump k m = Some m' \<Longrightarrow> count_in m' x = (if x = k then count_in m x + 1 else count_in m x)"
proof (induction k m arbitrary: m' rule: bump.induct)
  case (2 k k' n m)
  have keys: "\<forall>x \<in> set (map fst m). k' < x" and m: "sorted_keys m" using 2(2) by (auto simp: sorted_keys_def)
  consider "k = k'" | "k < k'" | "k' < k" by (rule linorder_cases) auto
  then show ?case
  proof cases
    case 1
    with 2(3) show ?thesis by (auto simp: count_in_def split: if_splits)
  next
    case below: 2
    with keys have "map_of m k = None" by (fastforce simp: map_of_eq_None_iff)
    with below 2(3) show ?thesis by (auto simp: count_in_def)
  next
    case 3
    with 2(3) obtain m1 where m1: "bump k m = Some m1" "m' = (k', n) # m1" by (auto split: if_splits)
    with 2(1) [OF _ _ m m1(1)] 3 show ?thesis by (auto simp: count_in_def)
  qed
qed (auto simp: count_in_def)

lemma bump_defined: "sorted_keys m \<Longrightarrow> count_in m k < 2 ^ 31 - 1 \<Longrightarrow> \<exists>m'. bump k m = Some m'"
proof (induction k m rule: bump.induct)
  case (2 k k' n m)
  then show ?case by (auto simp: sorted_keys_def count_in_def)
qed simp

lemma bump_counts: "counts m ks \<Longrightarrow> bump k m = Some m' \<Longrightarrow> counts m' (add_mset k ks)"
  using bump_sorted [of m k m'] bump_count [of m k m'] by (auto simp: counts_def)

lemma bump_counts_defined:
  assumes "counts m ks" "size ks < 2 ^ 31 - 1"
  shows "\<exists>m'. bump k m = Some m' \<and> counts m' (add_mset k ks)"
proof -
  have "count ks k \<le> size ks" by (rule count_le_size)
  with assms have "count_in m k < 2 ^ 31 - 1" by (auto simp: counts_def)
  with bump_defined [of m k] bump_counts [OF assms(1)] assms(1) show ?thesis by (auto simp: counts_def)
qed

text \<open>Both tables count the same events.\<close>

definition tallies :: "Monitor \<Rightarrow> (string \<times> int) multiset \<Rightarrow> bool" where
  "tallies m evs \<longleftrightarrow> counts (s_cmd_db_map m) evs \<and> counts (s_cmd_map m) (image_mset fst evs)"

lemma tallies_fields [simp]:
  "tallies (m\<lparr>s_monitor := p\<rparr>) evs = tallies m evs" "tallies (m\<lparr>s_info := p\<rparr>) evs = tallies m evs"
  "tallies (put_cerr s m) evs = tallies m evs" "tallies (put_cout s m) evs = tallies m evs"
  by (simp_all add: tallies_def put_cerr_def put_cout_def)

lemma print_tallies: "tallies (print_monitor m) {#}"
  by (simp add: tallies_def print_monitor_def counts_def sorted_keys_def count_in_def)

lemma count_line_tallies:
  assumes t: "tallies m evs" and c: "count_line line m w = Some (m', w')"
  shows "\<exists>evs'. tallies m' evs'"
proof (cases "m' = m")
  case False
  with c obtain cmd db a b where "bump (cmd, db) (s_cmd_db_map m) = Some a" "bump cmd (s_cmd_map m) = Some b"
    "m' = m\<lparr>s_cmd_db_map := a, s_cmd_map := b\<rparr>"
    by (auto simp: count_line_def Let_def bind_eq_Some_conv split: if_splits prod.splits option.splits)
  with t have "tallies m' (add_mset (cmd, db) evs)" by (auto simp: tallies_def bump_counts)
  then show ?thesis ..
qed (use t in blast)

lemma monitor_loop_tallies:
  assumes "monitor_loop m p w = Some mw" "tallies m evs"
  shows "\<exists>evs'. tallies (fst mw) evs'"
proof -
  from assms(1) have "(\<exists>evs. tallies m evs) \<longrightarrow> (\<exists>evs'. tallies (fst mw) evs')"
  proof (induction m p w mw rule: monitor_loop.raw_induct [rotated, consumes 1])
    case (1 loop m p w mw)
    obtain more w1 where a: "proto_available p w = (more, w1)" by fastforce
    show ?case
    proof (cases "\<not> more \<or> s_stop_flag m")
      case True
      with 1(2) a have "mw = (m\<lparr>s_monitor := Some p\<rparr>, w1)" by auto
      then show ?thesis by simp
    next
      case False
      with 1(2) a obtain ret line p1 w2 where r: "proto_read_line p w1 = Some (ret, line, p1, w2)"
        and b: "(if ret then Option.bind (count_line line m w2) (\<lambda>(m, w). loop m p1 w)
          else Some (m\<lparr>s_monitor := None\<rparr>, delete_proto (Some p1) w2)) = Some mw"
        by (auto simp: bind_eq_Some_conv)
      show ?thesis
      proof (cases ret)
        case True
        with b obtain m1 w3 where "count_line line m w2 = Some (m1, w3)" "loop m1 p1 w3 = Some mw"
          by (auto simp: bind_eq_Some_conv)
        with 1(1) count_line_tallies show ?thesis by blast
      next
        case False
        with b have "fst mw = m\<lparr>s_monitor := None\<rparr>" by auto
        then show ?thesis by simp
      qed
    qed
  qed
  with assms(2) show ?thesis by blast
qed

lemma init_monitor_tallies:
  assumes "init_monitor m w = Some (ok, m', w')" "tallies m evs"
  shows "tallies m' evs"
  using assms by (auto simp: init_monitor_def Let_def bind_eq_Some_conv split: prod.splits if_splits)

lemma monitor_tallies:
  assumes "tallies m evs" "monitor m w = Some (m', w')"
  shows "\<exists>evs'. tallies m' evs'"
proof (cases "s_monitor m")
  case None
  with assms(2) obtain ok m1 w1 where i: "init_monitor m w = Some (ok, m1, w1)"
    and r: "(case s_monitor m1 of None \<Rightarrow> Some (m1, w1) | Some p \<Rightarrow> monitor_loop m1 p w1) = Some (m', w')"
    by (auto simp: monitor_def bind_eq_Some_conv)
  from init_monitor_tallies [OF i assms(1)] r monitor_loop_tallies [of m1 _ w1 "(m', w')" evs] show ?thesis
    by (auto split: option.splits)
next
  case (Some p)
  with assms monitor_loop_tallies [of m p w "(m', w')" evs] show ?thesis by (auto simp: monitor_def)
qed

section \<open>Lines of the server\<close>

text \<open>\<open>+<time> (db <number>) "<command>" <arguments>\<close>, with 17 characters of time.\<close>

record event =
  ev_time :: string
  ev_db :: nat
  ev_cmd :: string
  ev_args :: string

definition event_line :: "event \<Rightarrow> string" where
  "event_line e = ''+'' @ ev_time e @ '' (db '' @ show_nat (ev_db e) @ '') '' @ [CHR 0x22] @ ev_cmd e @ [CHR 0x22] @ ev_args e"

definition event_ok :: "event \<Rightarrow> bool" where
  "event_ok e \<longleftrightarrow> length (ev_time e) = 17 \<and> ev_db e < 2 ^ 31 \<and> CHR 0x0D \<notin> set (event_line e)
     \<and> CHR 0x22 \<notin> set (ev_cmd e) \<and> CHR 0x00 \<notin> set (ev_cmd e)"

definition event_key :: "event \<Rightarrow> string \<times> int" where
  "event_key e = (ev_cmd e, int (ev_db e))"

lemma before_char_append: "c \<notin> set xs \<Longrightarrow> CHR 0x00 \<notin> set xs \<Longrightarrow> before_char c (xs @ c # ys) = Some xs"
  by (induction xs) auto

lemma strtoul_show_nat:
  assumes "n < 2 ^ 64" "\<not> is_digit c"
  shows "strtoul (show_nat n @ c # rest) = (n, length (show_nat n), False)"
proof -
  obtain d ds where d: "show_nat n = d # ds" by (cases "show_nat n") auto
  with show_nat_digits [of d n] have dd: "is_digit d" by simp
  have tw: "takeWhile is_digit (show_nat n @ c # rest) = show_nat n"
    using assms(2) by (simp add: takeWhile_append2 show_nat_digits)
  show ?thesis
    using dd digit_not_space [OF dd] digit_not_sign [OF dd] tw assms(1) read_digits_show_nat [of n]
    by (simp add: strtoul_def d Let_def)
qed

lemma count_event:
  assumes e: "event_ok e" and w: "errno w \<noteq> ERANGE" and t: "tallies m evs" "size evs < 2 ^ 31 - 1"
  shows "\<exists>m'. count_line (event_line e) m w = Some (m', w) \<and> tallies m' (add_mset (event_key e) evs)
    \<and> s_stop_flag m' = s_stop_flag m"
proof -
  let ?n = "length (show_nat (ev_db e))" and ?l = "event_line e"
  obtain t where tm: "ev_time e = t" "length t = 17" using e by (simp add: event_ok_def)
  have l: "?l = (CHR ''+'' # t @ '' (db '') @ show_nat (ev_db e) @ CHR '')'' # '' '' @ CHR 0x22 # ev_cmd e @ CHR 0x22 # ev_args e"
    by (simp add: event_line_def tm(1))
  have len: "length (CHR ''+'' # t @ '' (db '') = 23" by (simp add: tm(2))
  have d: "drop 23 ?l = show_nat (ev_db e) @ CHR '')'' # '' '' @ CHR 0x22 # ev_cmd e @ CHR 0x22 # ev_args e"
    unfolding l using len by simp
  have h: "?l ! 20 = CHR ''d''" unfolding l by (simp add: nth_append tm(2) nth_Cons')
  have ln: "24 \<le> length ?l" "26 + ?n \<le> length ?l" unfolding l using tm(2) by simp_all
  have st: "strtoul (drop 23 ?l) = (ev_db e, ?n, False)"
    unfolding d using e by (intro strtoul_show_nat) (auto simp: event_ok_def is_digit_def)
  have dd: "drop (26 + ?n) ?l = ev_cmd e @ CHR 0x22 # ev_args e"
    using arg_cong [OF d, of "drop (?n + 3)"] by (simp add: add.commute)
  have bc: "before_char (CHR 0x22) (drop (26 + ?n) ?l) = Some (ev_cmd e)"
    unfolding dd using e by (intro before_char_append) (auto simp: event_ok_def)
  have db: "int32 (int (ev_db e)) = int (ev_db e)" using e by (intro int32_nat_id) (simp add: event_ok_def)
  from t have c: "counts (s_cmd_db_map m) evs" "counts (s_cmd_map m) (image_mset fst evs)" by (simp_all add: tallies_def)
  from bump_counts_defined [OF c(1) t(2), of "event_key e"] obtain a where
    a: "bump (event_key e) (s_cmd_db_map m) = Some a" "counts a (add_mset (event_key e) evs)" by blast
  from bump_counts_defined [OF c(2), of "ev_cmd e"] t(2) obtain b where
    b: "bump (ev_cmd e) (s_cmd_map m) = Some b" "counts b (add_mset (ev_cmd e) (image_mset fst evs))" by auto
  have "count_line ?l m w = Some (m\<lparr>s_cmd_db_map := a, s_cmd_map := b\<rparr>, w)"
    using ln h st bc w a(1) b(1) by (simp add: count_line_def Let_def db event_key_def not_less)
  with a(2) b(2) show ?thesis by (auto simp: tallies_def event_key_def)
qed

section \<open>The loop\<close>

lemma available_stream:
  assumes "proto_available p w = (b, w')"
  shows "proto_stream p w' = proto_stream p w" "b \<Longrightarrow> proto_ready p w \<Longrightarrow> proto_ready p w'"
  using assms by (auto simp: proto_available_def TcpClient_available_def available_bytes_def sys_ioctl_def Let_def
      tcp_stream_def proto_ready_def tcp_ready_def polls_ready_def errno_clean_def
      split: if_splits list.splits sys_ret.splits)

lemma read_line_at_end:
  assumes "proto_ready p w" "proto_stream p w = []"
  shows "\<exists>l p' w'. proto_read_line p w = Some (False, l, p', w')"
proof -
  have "\<not> match_at CRLF (proto_stream p w) i" for i using assms(2) by (simp add: match_at_def)
  with assms(1) read_line_loop_fails [of "tcp_client p" w CRLF "read_timeout p" 0]
  show ?thesis
    by (auto simp: proto_ready_def returns_iff proto_read_line_def TcpClient_read_line_def s_redis_line_end_def
        check_line_def split: prod.splits)
qed

definition event_text :: "event list \<Rightarrow> string" where
  "event_text es = concat (map (\<lambda>e. event_line e @ CRLF) es)"

text \<open>The loop has counted the first \<open>k\<close> events, and what follows them is still to be read.\<close>

definition counted :: "event list \<Rightarrow> (string \<times> int) multiset \<Rightarrow> Monitor \<times> world \<Rightarrow> nat \<Rightarrow> bool" where
  "counted es evs r k \<longleftrightarrow> tallies (fst r) (mset (map event_key (take k es)) + evs)
     \<and> (case s_monitor (fst r) of None \<Rightarrow> True | Some p \<Rightarrow> proto_stream p (snd r) = event_text (drop k es))"

lemma monitor_loop_counts:
  assumes "proto_ready p w" "proto_stream p w = event_text es" "list_all event_ok es"
    and "tallies m evs" "size evs + length es < 2 ^ 31 - 1"
  shows "\<exists>r k. monitor_loop m p w = Some r \<and> k \<le> length es \<and> counted es evs r k"
  using assms
proof (induction es arbitrary: p w m evs)
  case Nil
  obtain b w1 where a: "proto_available p w = (b, w1)" by fastforce
  show ?case
  proof (cases "\<not> b \<or> s_stop_flag m")
    case True
    then have "monitor_loop m p w = Some (m\<lparr>s_monitor := Some p\<rparr>, w1)" by (subst monitor_loop.simps) (auto simp: a)
    with Nil available_stream(1) [OF a] show ?thesis by (auto simp: counted_def event_text_def)
  next
    case False
    with available_stream [OF a] Nil read_line_at_end [of p w1] obtain l p' w2 where
      "proto_read_line p w1 = Some (False, l, p', w2)" by (auto simp: event_text_def)
    with False have "monitor_loop m p w = Some (m\<lparr>s_monitor := None\<rparr>, delete_proto (Some p') w2)"
      by (subst monitor_loop.simps) (simp add: a)
    with Nil show ?thesis by (auto simp: counted_def)
  qed
next
  case (Cons e es)
  obtain b w1 where a: "proto_available p w = (b, w1)" by fastforce
  show ?case
  proof (cases "\<not> b \<or> s_stop_flag m")
    case True
    then have "monitor_loop m p w = Some (m\<lparr>s_monitor := Some p\<rparr>, w1)" by (subst monitor_loop.simps) (auto simp: a)
    with Cons.prems available_stream(1) [OF a] show ?thesis by (auto simp: counted_def intro: exI [of _ 0])
  next
    case False
    have e: "event_ok e" "list_all event_ok es" using Cons.prems(3) by simp_all
    have s: "proto_ready p w1" "proto_stream p w1 = event_line e @ CRLF @ event_text es"
      using available_stream [OF a] False Cons.prems(1,2) by (auto simp: event_text_def)
    have "event_line e \<noteq> []" "CHR 0x0D \<notin> set (event_line e)" using e(1) by (simp_all add: event_ok_def event_line_def)
    from read_line_step [OF s this] obtain p1 w2 where
      r: "proto_read_line p w1 = Some (True, event_line e, p1, w2)" "reads p w1 (event_text es) p1 w2" .
    note rd = readsD(1,2) [OF r(2)]
    have "errno w2 \<noteq> ERANGE" using rd(1) by (simp add: proto_ready_def errno_clean_def)
    from count_event [OF e(1) this Cons.prems(4)] Cons.prems(5) obtain m1 where
      c: "count_line (event_line e) m w2 = Some (m1, w2)" "tallies m1 (add_mset (event_key e) evs)" by auto
    have "size (add_mset (event_key e) evs) + length es < 2 ^ 31 - 1" using Cons.prems(5) by simp
    from Cons.IH [OF rd e(2) c(2) this] obtain q k where
      "monitor_loop m1 p1 w2 = Some q" "k \<le> length es" "counted es (add_mset (event_key e) evs) q k" by blast
    moreover from this(1) False r(1) c(1) have "monitor_loop m p w = Some q"
      by (subst monitor_loop.simps) (simp add: a)
    ultimately show ?thesis by (intro exI [of _ q] exI [of _ "Suc k"]) (auto simp: counted_def split: option.splits)
  qed
qed

section \<open>Properties\<close>

text \<open>C38: the monitoring program counts what the server reports.  On a working connection whose bytes are
  lines of the form \<open>+<time> (db <n>) "<command>" ...\<close>, \<open>monitor\<close> returns and has counted the first \<open>k\<close> of
  them, for some \<open>k\<close>: the table per command and database is the multiset of their commands and databases, added
  to what was counted before, the table per command the multiset of their commands; the lines after them are still
  to be read, unless the connection has ended.\<close>

theorem monitor_counts_events:
  assumes "s_monitor m = Some p" "proto_ready p w" "proto_stream p w = event_text es" "list_all event_ok es"
    and "tallies m evs" "size evs + length es < 2 ^ 31 - 1"
  shows "\<exists>r k. monitor m w = Some r \<and> k \<le> length es \<and> counted es evs r k"
  using monitor_loop_counts [OF assms(2-6)] assms(1) by (simp add: monitor_def)

definition sample_event :: event where
  "sample_event = \<lparr>ev_time = ''1317279070.687700'', ev_db = 1, ev_cmd = ''EXPIRE'', ev_args = []\<rparr>"

definition sample_monitor :: Monitor where
  "sample_monitor = \<lparr>redis_host = ''localhost'', redis_port = ''6379'', redis_timeout = 1000,
     s_monitor = Some sample_proto, s_info = None, s_cmd_db_map = [], s_cmd_map = [], s_stop_flag = False,
     cout = [], cerr = []\<rparr>"

lemma sample_monitor_tallies: "tallies sample_monitor {#}"
  by (simp add: tallies_def sample_monitor_def counts_def sorted_keys_def count_in_def)

theorem monitor_counts_events_witness:
  "\<exists>r k. monitor sample_monitor (sample_world [event_line sample_event @ CRLF]) = Some r \<and> k \<le> 1
     \<and> counted [sample_event] {#} r k"
proof -
  let ?ch = "[event_line sample_event @ CRLF]"
  have sh: "show_nat 1 = ''1''" by code_simp
  have l: "event_line sample_event = ''+1317279070.687700 (db 1) '' @ [CHR 0x22] @ ''EXPIRE'' @ [CHR 0x22]"
    by (simp add: event_line_def sample_event_def sh [simplified])
  have ok: "list_all event_ok [sample_event]"
    using l by (simp add: event_ok_def) (simp add: sample_event_def)
  have "line_ready sample_proto (sample_world ?ch)" by (rule sample_line_ready) (simp_all add: l)
  then have r: "proto_ready sample_proto (sample_world ?ch)" by (simp add: line_ready_def)
  have "tcp_stream sample_tcp (sample_world ?ch) = concat ?ch" by (rule sample_stream) (simp add: l)
  then have st: "proto_stream sample_proto (sample_world ?ch) = event_text [sample_event]" by (simp add: event_text_def)
  have m: "s_monitor sample_monitor = Some sample_proto" by (simp add: sample_monitor_def)
  from monitor_counts_events [OF m r st ok sample_monitor_tallies] show ?thesis by simp
qed

lemma info_tallies: "info_cmd m w = Some (m', w') \<Longrightarrow> tallies m evs \<Longrightarrow> tallies m' evs"
  by (auto simp: info_cmd_def init_info_def Let_def bind_eq_Some_conv
      split: prod.splits if_splits option.splits output_ptr.splits)

lemma ping_loop_tallies: "ping_loop k c m p w = Some (ok, m', w') \<Longrightarrow> tallies m evs \<Longrightarrow> tallies m' evs"
  by (induction k arbitrary: c p w) (auto simp: bind_eq_Some_conv split: if_splits)

lemma ping_tallies: "ping_cmd ms m w = Some (m', w') \<Longrightarrow> tallies m evs \<Longrightarrow> tallies m' evs"
  by (auto simp: ping_cmd_def init_info_def Let_def bind_eq_Some_conv
      split: prod.splits if_splits option.splits dest: ping_loop_tallies)

lemma update_tallies:
  assumes "update True now ms m w = Some (m', w')"
  shows "tallies m' {#}"
  using assms
  by (auto simp: update_def Let_def bind_eq_Some_conv dest!: info_tallies [OF _ print_tallies] dest: ping_tallies)

text \<open>Whatever the server sends, the two tables of the monitoring program agree: they are the counts of one
  multiset of events, so the number of a command is the sum of its numbers over the databases, and no table
  has a key twice.  Printing, and so every round of the timer, empties both.\<close>

lemma monitor_tables_agree:
  assumes "tallies m evs"
  shows "whenever (monitor m w) (\<lambda>(m', w'). \<exists>evs'. tallies m' evs'
      \<and> (\<forall>cmd. count_in (s_cmd_map m') cmd = int (size (filter_mset (\<lambda>(c, db). c = cmd) evs')))
      \<and> tallies (print_monitor m') {#})
    \<and> whenever (update True now ms m w) (\<lambda>(m', w'). tallies m' {#})"
proof -
  have "count_in (s_cmd_map m') cmd = int (size (filter_mset (\<lambda>(c, db). c = cmd) evs'))" if "tallies m' evs'" for m' evs' cmd
  proof -
    have "count (image_mset fst evs') cmd = size (filter_mset (\<lambda>x. fst x = cmd) evs')"
      by (induction evs') auto
    with that show ?thesis by (simp add: tallies_def counts_def case_prod_unfold)
  qed
  then have "whenever (monitor m w) (\<lambda>(m', w'). \<exists>evs'. tallies m' evs'
      \<and> (\<forall>cmd. count_in (s_cmd_map m') cmd = int (size (filter_mset (\<lambda>(c, db). c = cmd) evs')))
      \<and> tallies (print_monitor m') {#})"
    unfolding whenever_iff using monitor_tallies [OF assms] print_tallies by blast
  moreover have "whenever (update True now ms m w) (\<lambda>(m', w'). tallies m' {#})"
    unfolding whenever_iff using update_tallies by blast
  ultimately show ?thesis ..
qed

lemma monitor_tables_agree_witness:
  "whenever (monitor sample_monitor (sample_world [])) (\<lambda>(m', w'). \<exists>evs'. tallies m' evs')"
  by (rule whenever_mono [OF monitor_tables_agree [OF sample_monitor_tallies, of "sample_world []" 0 0, THEN conjunct1]]) auto

end
