(* ===== verification/Monitor_Main.thy ===== *)
theory Monitor_Main
  imports Monitor_Properties
begin

text \<open>
  The \<open>main\<close> functions of \<open>src/tools\<close>, the signal handler and the timer of \<open>redis_monitor.cpp\<close>.
  What \<open>boost\<close> does enters as parameters: the outcome of the option parser, the readings of the
  clock of the timer (microseconds since the epoch, one reading per round of a loop), and the
  handlers that \<open>s_ios.run()\<close> calls before it returns, in their order.
\<close>

section \<open>Options\<close>

datatype 'o parsed = Caught string | Help string | Parsed 'o

section \<open>redis_hash_test\<close>

text \<open>The status of the process and the lines of \<open>std::cout\<close>; \<open>None\<close> is the division by 0.\<close>

definition hash_test_main :: "(string \<times> int) parsed \<Rightarrow> (int \<times> string list) option" where
  "hash_test_main opts =
     (case opts of
        Caught what \<Rightarrow> Some (1, [''caught: '' @ what])
      | Help desc \<Rightarrow> Some (0, [desc])
      | Parsed (key, group_number) \<Rightarrow> do {
          index \<leftarrow> hash_test_index key group_number;
          Some (0, [key @ '' %% '' @ show_int group_number @ '' = '' @ show_nat (unat index)])
        })"

section \<open>The timer\<close>

text \<open>\<open>boost::posix_time::seconds\<close> and \<open>from_time_t\<close>, in microseconds.\<close>

definition seconds :: "int \<Rightarrow> int" where
  "seconds s = 1000000 * s"

text \<open>\<open>while (next <= now()) next = next + cycle\<close>, from the \<open>i\<close>-th reading of the clock on.\<close>

partial_function (option) catch_up :: "int \<Rightarrow> (nat \<Rightarrow> int) \<Rightarrow> nat \<Rightarrow> int \<Rightarrow> int option" where
  "catch_up cycle now i next =
     (if next \<le> now i then catch_up cycle now (Suc i) (next + cycle) else Some next)"

declare catch_up.simps [code]

text \<open>The first expiry; \<open>%\<close> of C++ truncates, and is undefined for 0.\<close>

definition first_expiry :: "int \<Rightarrow> int \<Rightarrow> (nat \<Rightarrow> int) \<Rightarrow> int option" where
  "first_expiry update_cycle time now = do {
     assertion (update_cycle \<noteq> 0);
     let time = time - (time smod update_cycle) + update_cycle;
     catch_up (seconds update_cycle) now 0 (seconds time)
   }"

record deadline_timer =
  expires_at :: "int option"
  waiting :: bool

record Program =
  globals :: Monitor
  redis_monitor :: bool
  update_cycle :: int
  s_timer :: "deadline_timer ptr"
  ios_stopped :: bool

definition schedule :: "int \<Rightarrow> Program \<Rightarrow> Program" where
  "schedule next g = g\<lparr>s_timer := Some \<lparr>expires_at = Some next, waiting = True\<rparr>\<rparr>"

text \<open>The handler of the timer: \<open>ec\<close> whether there was an error, \<open>time\<close> what \<open>time(NULL)\<close> returns,
  \<open>total_ms\<close> what the pings take, \<open>now\<close> the readings of the clock in the loop at the end.\<close>

definition update_handler :: "bool \<Rightarrow> int \<Rightarrow> int \<Rightarrow> (nat \<Rightarrow> int) \<Rightarrow> Program \<Rightarrow> world \<Rightarrow> (Program \<times> world) option" where
  "update_handler ec time total_ms now g w =
     (if ec then Some (g, w)
      else do {
        (m, w) \<leftarrow> update (redis_monitor g) time total_ms (globals g) w;
        timer \<leftarrow> s_timer g;
        next \<leftarrow> expires_at timer;
        next \<leftarrow> catch_up (seconds (update_cycle g)) now 0 next;
        Some (schedule next (g\<lparr>globals := m\<rparr>), w)
      })"

definition signal_handler :: "Program \<Rightarrow> Program" where
  "signal_handler g = g\<lparr>globals := (globals g)\<lparr>s_stop_flag := True\<rparr>, ios_stopped := True\<rparr>"

section \<open>main of redis_monitor\<close>

datatype handler_call = Timer bool int int "nat \<Rightarrow> int" | Sigint

text \<open>\<open>s_ios.run()\<close>\<close>

fun run_handlers :: "handler_call list \<Rightarrow> Program \<Rightarrow> world \<Rightarrow> (Program \<times> world) option" where
  "run_handlers [] g w = Some (g, w)"
| "run_handlers (Sigint # calls) g w = run_handlers calls (signal_handler g) w"
| "run_handlers (Timer ec time total_ms now # calls) g w = do {
     (g, w) \<leftarrow> update_handler ec time total_ms now g w;
     run_handlers calls g w
   }"

definition uninit_info :: "Monitor \<Rightarrow> world \<Rightarrow> Monitor \<times> world" where
  "uninit_info m w = (m\<lparr>s_info := None\<rparr>, delete_proto (s_info m) w)"

definition uninit_monitor :: "Monitor \<Rightarrow> world \<Rightarrow> Monitor \<times> world" where
  "uninit_monitor m w = (m\<lparr>s_monitor := None\<rparr>, delete_proto (s_monitor m) w)"

text \<open>From the options to the start of the loop: the connections and the first expiry.\<close>

definition start :: "bool \<times> string \<times> string \<times> int \<times> int \<Rightarrow> int \<Rightarrow> (nat \<Rightarrow> int) \<Rightarrow> Program \<Rightarrow> world \<Rightarrow> (Program \<times> world) option" where
  "start opts time now g w = do {
     let (use_monitor, host, port, timeout, cycle) = opts;
     let m = (globals g)\<lparr>redis_host := host, redis_port := port, redis_timeout := timeout\<rparr>;
     (m, w) \<leftarrow> (if use_monitor then do { (_, m, w) \<leftarrow> init_monitor m w; Some (m, w) } else Some (m, w));
     let (m, w) = init_info m w;
     let m = put_cout ''starting...'' m;
     next \<leftarrow> first_expiry cycle time now;
     Some (schedule next (g\<lparr>globals := m, redis_monitor := use_monitor, update_cycle := cycle, ios_stopped := False\<rparr>), w)
   }"

definition finish :: "Program \<Rightarrow> world \<Rightarrow> Program \<times> world" where
  "finish g w =
     (let m = put_cout ''exiting...'' (globals g);
          (m, w) = uninit_info m w;
          (m, w) = (if redis_monitor g then uninit_monitor m w else (m, w))
      in (g\<lparr>globals := m, s_timer := None\<rparr>, w))"

definition monitor_main ::
  "(bool \<times> string \<times> string \<times> int \<times> int) parsed \<Rightarrow> int \<Rightarrow> (nat \<Rightarrow> int) \<Rightarrow> handler_call list
     \<Rightarrow> Program \<Rightarrow> world \<Rightarrow> (int \<times> Program \<times> world) option" where
  "monitor_main opts time now calls g w =
     (case opts of
        Caught what \<Rightarrow> Some (1, g\<lparr>globals := put_cout (''caught: '' @ what) (globals g)\<rparr>, w)
      | Help desc \<Rightarrow> Some (0, g\<lparr>globals := put_cout desc (globals g)\<rparr>, w)
      | Parsed os \<Rightarrow> do {
          (g, w) \<leftarrow> start os time now g w;
          (g, w) \<leftarrow> run_handlers calls g w;
          Some (0, finish g w)
        })"

section \<open>The schedule\<close>

text \<open>The clock does not run a whole cycle ahead from one reading to the next.\<close>

definition reads_faster :: "(nat \<Rightarrow> int) \<Rightarrow> int \<Rightarrow> bool" where
  "reads_faster now cycle \<longleftrightarrow> (\<forall>i. now (Suc i) - now i < cycle)"

lemma catch_up_ends:
  assumes "reads_faster now cycle"
  shows "\<exists>k. catch_up cycle now i next = Some (next + int k * cycle) \<and> now (i + k) < next + int k * cycle
    \<and> (\<forall>j < k. next + int j * cycle \<le> now (i + j))"
proof (induction "nat (now i - next + 1)" arbitrary: i "next" rule: less_induct)
  case less
  show ?case
  proof (cases "next \<le> now i")
    case True
    have "now (Suc i) - now i < cycle" using assms by (simp add: reads_faster_def)
    then have "nat (now (Suc i) - (next + cycle) + 1) < nat (now i - next + 1)" using True by simp
    from less [OF this] obtain k where k: "catch_up cycle now (Suc i) (next + cycle) = Some (next + cycle + int k * cycle)"
      "now (Suc i + k) < next + cycle + int k * cycle" "\<forall>j < k. next + cycle + int j * cycle \<le> now (Suc i + j)" by auto
    have "next + int j * cycle \<le> now (i + j)" if "j < Suc k" for j
      using that True k(3) by (cases j) (auto simp: algebra_simps)
    moreover have "catch_up cycle now i next = Some (next + int (Suc k) * cycle)"
      using True k(1) by (subst catch_up.simps) (simp add: algebra_simps)
    moreover have "now (i + Suc k) < next + int (Suc k) * cycle" using k(2) by (simp add: algebra_simps)
    ultimately show ?thesis by blast
  next
    case False
    then have "catch_up cycle now i next = Some next" by (subst catch_up.simps) simp
    with False show ?thesis by (intro exI [of _ 0]) simp
  qed
qed

lemma catch_up_result: "catch_up cycle now i next = Some t \<Longrightarrow> \<exists>k. t = next + int k * cycle \<and> now (i + k) < t"
proof (induction cycle now i "next" t rule: catch_up.raw_induct [rotated, consumes 1])
  case (1 loop cycle now i "next" t)
  show ?case
  proof (cases "next \<le> now i")
    case True
    with 1 obtain k where "t = next + cycle + int k * cycle" "now (Suc i + k) < t" by fastforce
    then show ?thesis by (intro exI [of _ "Suc k"]) (simp add: algebra_simps)
  qed (use 1(2) in \<open>auto intro: exI [of _ 0]\<close>)
qed

text \<open>A cycle that is not positive is never caught up by a clock that does not run backwards.\<close>

lemma catch_up_diverges:
  assumes "cycle \<le> 0" "mono now" "next \<le> now i"
  shows "catch_up cycle now i next = None"
proof (rule ccontr)
  assume "catch_up cycle now i next \<noteq> None"
  then obtain t where "catch_up cycle now i next = Some t" by auto
  from catch_up_result [OF this] obtain k where k: "t = next + int k * cycle" "now (i + k) < t" by auto
  have "int k * cycle \<le> 0" using assms(1) by (simp add: mult_nonneg_nonpos)
  moreover have "now i \<le> now (i + k)" using assms(2) by (simp add: monoD)
  ultimately show False using k assms(3) by linarith
qed

lemma first_aligned: "time - time smod cycle + cycle = cycle * (time sdiv cycle + 1)" for time cycle :: int
  by (simp add: minus_smod_eq_mult_sdiv distrib_left)

lemma first_expiry_code:
  "cycle \<noteq> 0 \<Longrightarrow> first_expiry cycle time now = catch_up (seconds cycle) now 0 (seconds cycle * (time sdiv cycle + 1))"
  by (simp add: first_expiry_def first_aligned seconds_def mult.assoc)

text \<open>The timer always stands at a multiple of the cycle.\<close>

definition aligned :: "Program \<Rightarrow> bool" where
  "aligned g \<longleftrightarrow> (\<exists>t. (\<exists>wt. s_timer g = Some \<lparr>expires_at = Some t, waiting = wt\<rparr>) \<and> seconds (update_cycle g) dvd t)"

lemma catch_up_dvd: "catch_up cycle now i next = Some t \<Longrightarrow> cycle dvd next \<Longrightarrow> cycle dvd t"
  using catch_up_result by fastforce

lemma first_expiry_dvd: "first_expiry cycle time now = Some t \<Longrightarrow> seconds cycle dvd t"
  by (cases "cycle = 0") (auto simp: first_expiry_def first_aligned seconds_def intro: catch_up_dvd)

lemma start_parts:
  assumes "start (use_monitor, host, port, timeout, cycle) time now g w = Some (g', w')"
  obtains m1 w1 m2 "next" where
    "(if use_monitor
      then \<exists>ok. init_monitor ((globals g)\<lparr>redis_host := host, redis_port := port, redis_timeout := timeout\<rparr>) w = Some (ok, m1, w1)
      else m1 = (globals g)\<lparr>redis_host := host, redis_port := port, redis_timeout := timeout\<rparr> \<and> w1 = w)"
    "init_info m1 w1 = (m2, w')" "first_expiry cycle time now = Some next"
    "g' = schedule next (g\<lparr>globals := put_cout ''starting...'' m2, redis_monitor := use_monitor,
       update_cycle := cycle, ios_stopped := False\<rparr>)"
proof -
  from assms obtain m1 w1 where 1: "(if use_monitor
      then \<exists>ok. init_monitor ((globals g)\<lparr>redis_host := host, redis_port := port, redis_timeout := timeout\<rparr>) w = Some (ok, m1, w1)
      else m1 = (globals g)\<lparr>redis_host := host, redis_port := port, redis_timeout := timeout\<rparr> \<and> w1 = w)"
    and 2: "(case init_info m1 w1 of (m, w) \<Rightarrow> Option.bind (first_expiry cycle time now)
       (\<lambda>next. Some (schedule next (g\<lparr>globals := put_cout ''starting...'' m, redis_monitor := use_monitor,
          update_cycle := cycle, ios_stopped := False\<rparr>), w))) = Some (g', w')"
    by (auto simp: start_def bind_eq_Some_conv Let_def split: if_splits)
  obtain m2 w2 where "init_info m1 w1 = (m2, w2)" by fastforce
  with that [OF 1] 2 show ?thesis by (auto simp: bind_eq_Some_conv)
qed

lemma start_aligned: "start opts time now g w = Some (g', w') \<Longrightarrow> aligned g'"
  by (cases opts) (auto elim!: start_parts simp: aligned_def schedule_def dest: first_expiry_dvd)

lemma update_handler_aligned:
  "update_handler ec time total_ms now g w = Some (g', w') \<Longrightarrow> aligned g \<Longrightarrow> aligned g'"
  by (auto simp: update_handler_def bind_eq_Some_conv aligned_def schedule_def split: if_splits intro: catch_up_dvd)

lemma signal_aligned: "aligned g \<Longrightarrow> aligned (signal_handler g)"
  by (simp add: aligned_def signal_handler_def)

lemma run_handlers_aligned: "run_handlers calls g w = Some (g', w') \<Longrightarrow> aligned g \<Longrightarrow> aligned g'"
proof (induction calls g w rule: run_handlers.induct)
  case (2 calls g w)
  then show ?case by (simp add: signal_aligned)
next
  case (3 ec time total_ms now calls g w)
  from 3(2) obtain g1 w1 where 1: "update_handler ec time total_ms now g w = Some (g1, w1)"
    "run_handlers calls g1 w1 = Some (g', w')" by (auto simp: bind_eq_Some_conv)
  from 3(1) [OF 1(1) refl 1(2)] update_handler_aligned [OF 1(1) 3(3)] show ?case .
qed simp

section \<open>The output\<close>

text \<open>What the functions of a round may do to the output and to the name of the host.\<close>

definition silent :: "Monitor \<Rightarrow> Monitor \<Rightarrow> bool" where
  "silent m m' \<longleftrightarrow> cout m' = cout m \<and> redis_host m' = redis_host m \<and> redis_port m' = redis_port m"

definition prints :: "Monitor \<Rightarrow> Monitor \<Rightarrow> bool" where
  "prints m m' \<longleftrightarrow> (\<exists>ls. cout m' = cout m @ ls) \<and> redis_host m' = redis_host m \<and> redis_port m' = redis_port m"

lemma silent_refl [simp]: "silent m m" by (simp add: silent_def)
lemma silent_trans: "silent m1 m2 \<Longrightarrow> silent m2 m3 \<Longrightarrow> silent m1 m3" by (simp add: silent_def)
lemma silent_prints: "silent m m' \<Longrightarrow> prints m m'" by (simp add: silent_def prints_def)
lemma prints_refl [simp]: "prints m m" by (simp add: prints_def)
lemma prints_trans: "prints m1 m2 \<Longrightarrow> prints m2 m3 \<Longrightarrow> prints m1 m3" by (auto simp: prints_def)

lemma silent_fields [simp]:
  "silent m (m'\<lparr>s_monitor := p\<rparr>) = silent m m'" "silent m (m'\<lparr>s_info := p\<rparr>) = silent m m'"
  "silent m (put_cerr s m') = silent m m'"
  "silent m (m'\<lparr>s_cmd_db_map := a\<rparr>) = silent m m'" "silent m (m'\<lparr>s_cmd_map := b\<rparr>) = silent m m'"
  by (simp_all add: silent_def put_cerr_def)

lemma prints_fields [simp]:
  "prints m (m'\<lparr>s_monitor := p\<rparr>) = prints m m'" "prints m (m'\<lparr>s_info := p\<rparr>) = prints m m'"
  "prints m (put_cerr s m') = prints m m'" "prints (m\<lparr>s_info := p\<rparr>) m' = prints m m'" "prints (put_cerr s m) m' = prints m m'"
  by (simp_all add: prints_def put_cerr_def)

lemma prints_put [simp]: "prints m m' \<Longrightarrow> prints m (put_cout s m')"
  by (auto simp: prints_def put_cout_def)

lemma prints_print: "prints m m' \<Longrightarrow> prints m (print_monitor m')"
  by (auto simp: prints_def print_monitor_def)

lemma init_monitor_silent: "init_monitor m w = Some (ok, m', w') \<Longrightarrow> silent m m'"
  by (auto simp: init_monitor_def bind_eq_Some_conv Let_def split: prod.splits if_splits)

lemma init_info_silent: "init_info m w = (m', w') \<Longrightarrow> silent m m'"
  by (auto simp: init_info_def Let_def split: prod.splits if_splits)

lemma count_line_silent: "count_line line m w = Some (m', w') \<Longrightarrow> silent m m'"
  by (auto simp: count_line_def Let_def bind_eq_Some_conv split: prod.splits if_splits option.splits)

lemma monitor_loop_silent: "monitor_loop m p w = Some mw \<Longrightarrow> silent m (fst mw)"
proof (induction m p w mw rule: monitor_loop.raw_induct [rotated, consumes 1])
  case (1 loop m p w mw)
  obtain more w1 where a: "proto_available p w = (more, w1)" by fastforce
  show ?case
  proof (cases "\<not> more \<or> s_stop_flag m")
    case True
    with 1(2) a show ?thesis by auto
  next
    case False
    with 1(2) a obtain ret line p1 w2 where
      b: "(if ret then Option.bind (count_line line m w2) (\<lambda>(m, w). loop m p1 w)
          else Some (m\<lparr>s_monitor := None\<rparr>, delete_proto (Some p1) w2)) = Some mw"
      by (auto simp: bind_eq_Some_conv)
    show ?thesis
    proof (cases ret)
      case True
      with b obtain m1 w3 where "count_line line m w2 = Some (m1, w3)" "loop m1 p1 w3 = Some mw"
        by (auto simp: bind_eq_Some_conv)
      with 1(1) count_line_silent silent_trans show ?thesis by blast
    qed (use b in auto)
  qed
qed

lemma monitor_silent: "monitor m w = Some (m', w') \<Longrightarrow> silent m m'"
  by (auto simp: monitor_def bind_eq_Some_conv split: if_splits option.splits
      dest!: init_monitor_silent monitor_loop_silent simp: silent_def)

lemma info_cmd_prints: "info_cmd m w = Some (m', w') \<Longrightarrow> prints m m'"
proof -
  assume a: "info_cmd m w = Some (m', w')"
  obtain m1 w1 where 1: "(if s_info m = None then init_info m w else (m, w)) = (m1, w1)" by fastforce
  then have "silent m m1" by (auto split: if_splits dest: init_info_silent)
  moreover have "prints m1 m'"
    using a 1 by (auto simp: info_cmd_def bind_eq_Some_conv split: option.splits if_splits output_ptr.splits)
  ultimately show ?thesis by (blast intro: silent_prints prints_trans)
qed

lemma ping_loop_silent: "ping_loop n c m p w = Some (ok, m', w') \<Longrightarrow> silent m m'"
  by (induction n arbitrary: c m p w) (auto simp: bind_eq_Some_conv split: if_splits)

lemma ping_cmd_prints: "ping_cmd total_ms m w = Some (m', w') \<Longrightarrow> prints m m'"
proof -
  assume a: "ping_cmd total_ms m w = Some (m', w')"
  obtain m1 w1 where 1: "(if s_info m = None then init_info m w else (m, w)) = (m1, w1)" by fastforce
  then have "silent m m1" by (auto split: if_splits dest: init_info_silent)
  moreover have "prints m1 m'"
    using a 1 by (auto simp: ping_cmd_def bind_eq_Some_conv split: option.splits if_splits
        dest!: ping_loop_silent silent_prints)
  ultimately show ?thesis by (blast intro: silent_prints prints_trans)
qed

text \<open>A report, as a round prints it at \<open>time\<close>.\<close>

definition is_report :: "string \<Rightarrow> string \<Rightarrow> int \<Rightarrow> string list \<Rightarrow> bool" where
  "is_report host port time ls \<longleftrightarrow>
     (\<exists>body. ls = [''{begin}'', show_int time, host @ '':'' @ port] @ body @ [''{end}''])"

lemma update_report:
  assumes "update use_monitor time total_ms m w = Some (m', w')"
  shows "(\<exists>ls. cout m' = cout m @ ls \<and> is_report (redis_host m) (redis_port m) time ls)
    \<and> redis_host m' = redis_host m \<and> redis_port m' = redis_port m"
proof -
  let ?m = "put_cout (redis_host m @ '':'' @ redis_port m) (put_cout (show_int time) (put_cout ''{begin}'' m))"
  from assms obtain m1 w1 m2 w2 m3 where
    1: "(if use_monitor then Option.bind (monitor ?m w) (\<lambda>(m, w). Some (print_monitor m, w)) else Some (?m, w)) = Some (m1, w1)"
    and 2: "info_cmd m1 w1 = Some (m2, w2)" and 3: "ping_cmd total_ms m2 w2 = Some (m3, w')" and 4: "m' = put_cout ''{end}'' m3"
    by (auto simp: update_def bind_eq_Some_conv Let_def split: if_splits)
  have "prints ?m m1"
    using 1 by (auto simp: bind_eq_Some_conv split: if_splits intro: prints_print dest!: monitor_silent silent_prints)
  with info_cmd_prints [OF 2] ping_cmd_prints [OF 3] have "prints ?m m3" by (blast intro: prints_trans)
  then show ?thesis
    by (auto simp: 4 prints_def put_cout_def is_report_def)
qed

text \<open>When the rounds that \<open>run\<close> starts take place.\<close>

fun round_times :: "handler_call list \<Rightarrow> int list" where
  "round_times [] = []"
| "round_times (Timer False time total_ms now # calls) = time # round_times calls"
| "round_times (_ # calls) = round_times calls"

lemma update_handler_report:
  assumes "update_handler ec time total_ms now g w = Some (g', w')"
  shows "\<exists>ls. cout (globals g') = cout (globals g) @ ls
      \<and> (if ec then ls = [] else is_report (redis_host (globals g)) (redis_port (globals g)) time ls)"
    and "redis_host (globals g') = redis_host (globals g)" "redis_port (globals g') = redis_port (globals g)"
    and "redis_monitor g' = redis_monitor g"
  using assms by (auto simp: update_handler_def bind_eq_Some_conv schedule_def split: if_splits dest!: update_report)

lemma run_handlers_reports:
  assumes "run_handlers calls g w = Some (g', w')"
  shows "\<exists>rs. cout (globals g') = cout (globals g) @ concat rs
      \<and> list_all2 (is_report (redis_host (globals g)) (redis_port (globals g))) (round_times calls) rs"
    and "redis_monitor g' = redis_monitor g"
  using assms
proof (induction calls g w rule: run_handlers.induct)
  case (2 calls g w)
  note IH = 2
  { case 1 with IH(1) show ?case by (simp add: signal_handler_def) }
  { case 2 with IH(2) show ?case by (simp add: signal_handler_def) }
next
  case (3 ec time total_ms now calls g w)
  { case 1
    then obtain g1 w1 where u: "update_handler ec time total_ms now g w = Some (g1, w1)"
      and r: "run_handlers calls g1 w1 = Some (g', w')" by (auto simp: bind_eq_Some_conv)
    from 3(1) [OF u refl r] obtain rs where rs: "cout (globals g') = cout (globals g1) @ concat rs"
      "list_all2 (is_report (redis_host (globals g)) (redis_port (globals g))) (round_times calls) rs"
      using update_handler_report(2,3) [OF u] by auto
    from update_handler_report(1) [OF u] obtain ls where ls: "cout (globals g1) = cout (globals g) @ ls"
      "if ec then ls = [] else is_report (redis_host (globals g)) (redis_port (globals g)) time ls" by auto
    show ?case
    proof (cases ec)
      case True
      with rs ls show ?thesis by auto
    next
      case False
      with rs ls show ?thesis by (intro exI [of _ "ls # rs"]) auto
    qed }
  { case 2
    then obtain g1 w1 where u: "update_handler ec time total_ms now g w = Some (g1, w1)"
      and r: "run_handlers calls g1 w1 = Some (g', w')" by (auto simp: bind_eq_Some_conv)
    from 3(2) [OF u refl r] update_handler_report(4) [OF u] show ?case by simp }
qed auto

lemma start_reports:
  assumes "start (use_monitor, host, port, timeout, cycle) time now g w = Some (g', w')"
  shows "cout (globals g') = cout (globals g) @ [''starting...'']" "redis_host (globals g') = host"
    "redis_port (globals g') = port" "redis_monitor g' = use_monitor"
  using assms by (auto elim!: start_parts simp: schedule_def put_cout_def silent_def
      split: if_splits dest!: init_monitor_silent init_info_silent)

text \<open>A run of \<open>redis_monitor\<close> whose handlers all return prints \<open>starting...\<close>, one report for
  each round of the timer, in order, each from \<open>{begin}\<close> to \<open>{end}\<close> with its time and the host, and
  \<open>exiting...\<close>; it ends with status 0, and both connections and the timer are released.\<close>

lemma monitor_main_reports:
  assumes "monitor_main (Parsed (use_monitor, host, port, timeout, cycle)) time now calls g w = Some (status, g', w')"
  shows "status = 0 \<and> s_info (globals g') = None \<and> (use_monitor \<longrightarrow> s_monitor (globals g') = None) \<and> s_timer g' = None
    \<and> (\<exists>reports. cout (globals g') = cout (globals g) @ [''starting...''] @ concat reports @ [''exiting...'']
         \<and> list_all2 (is_report host port) (round_times calls) reports)"
proof -
  from assms obtain g1 w1 g2 w2 where
    s: "start (use_monitor, host, port, timeout, cycle) time now g w = Some (g1, w1)"
    and r: "run_handlers calls g1 w1 = Some (g2, w2)" and f: "status = 0" "finish g2 w2 = (g', w')"
    by (auto simp: monitor_main_def bind_eq_Some_conv)
  from run_handlers_reports [OF r] start_reports [OF s] obtain rs where
    "cout (globals g2) = cout (globals g) @ [''starting...''] @ concat rs"
    "list_all2 (is_report host port) (round_times calls) rs" "redis_monitor g2 = use_monitor" by auto
  with f show ?thesis
    by (auto simp: finish_def Let_def uninit_info_def uninit_monitor_def put_cout_def split: if_splits)
qed

text \<open>C39: for a positive \<open>update_cycle\<close> and a clock that does not gain a whole cycle between two
  readings, the computation of the first expiry ends with the first multiple of the cycle, from the
  next one after \<open>time(NULL)\<close> on, that is in the future, and the loop of \<open>update\<close> ends with the first
  multiple in the future; 0 is undefined, and a negative cycle never ends.\<close>

theorem schedule_ends:
  assumes "0 < cycle" "reads_faster now (seconds cycle)" "c \<le> 0" "mono utc"
  shows "(\<exists>k. first_expiry cycle time now = Some (seconds (cycle * (time sdiv cycle + 1 + int k)))
        \<and> now k < seconds (cycle * (time sdiv cycle + 1 + int k))
        \<and> (\<forall>j < k. seconds (cycle * (time sdiv cycle + 1 + int j)) \<le> now j))
    \<and> (\<exists>k. catch_up (seconds cycle) now 0 t = Some (t + int k * seconds cycle) \<and> now k < t + int k * seconds cycle
        \<and> (\<forall>j < k. t + int j * seconds cycle \<le> now j))
    \<and> (seconds (time - time smod c + c) \<le> utc 0 \<longrightarrow> first_expiry c time utc = None)
    \<and> (t \<le> utc 0 \<longrightarrow> catch_up (seconds c) utc 0 t = None)"
proof (intro conjI impI)
  have eq: "seconds cycle * (time sdiv cycle + 1) + int k * seconds cycle = seconds (cycle * (time sdiv cycle + 1 + int k))" for k
    by (simp add: seconds_def algebra_simps)
  show "\<exists>k. first_expiry cycle time now = Some (seconds (cycle * (time sdiv cycle + 1 + int k)))
      \<and> now k < seconds (cycle * (time sdiv cycle + 1 + int k))
      \<and> (\<forall>j < k. seconds (cycle * (time sdiv cycle + 1 + int j)) \<le> now j)"
    using catch_up_ends [OF assms(2), of 0 "seconds cycle * (time sdiv cycle + 1)"] assms(1)
    by (simp add: first_expiry_code eq)
  show "\<exists>k. catch_up (seconds cycle) now 0 t = Some (t + int k * seconds cycle) \<and> now k < t + int k * seconds cycle
        \<and> (\<forall>j < k. t + int j * seconds cycle \<le> now j)"
    using catch_up_ends [OF assms(2), of 0 t] by simp
  have d: "seconds c \<le> 0" using assms(3) by (simp add: seconds_def)
  show "first_expiry c time utc = None" if "seconds (time - time smod c + c) \<le> utc 0"
    using catch_up_diverges [OF d assms(4) that] by (simp add: first_expiry_def)
  show "catch_up (seconds c) utc 0 t = None" if "t \<le> utc 0"
    by (rule catch_up_diverges [OF d assms(4) that])
qed

theorem schedule_ends_witness:
  "(\<exists>k. first_expiry 5 12 (\<lambda>i. 17000000 + int i) = Some (seconds (5 * (12 sdiv 5 + 1 + int k))))
   \<and> first_expiry (- 5) 12 (\<lambda>i. 17000000 + int i) = None"
proof -
  have f: "reads_faster (\<lambda>i. 17000000 + int i) (seconds 5)" by (simp add: reads_faster_def seconds_def)
  have m: "mono (\<lambda>i. 17000000 + int i)" by (simp add: mono_def)
  have p: "(0::int) < 5" "(- 5 :: int) \<le> 0" by simp_all
  have l: "seconds (12 - 12 smod (- 5) + (- 5)) \<le> 17000000 + int 0" by (simp add: seconds_def signed_modulo_int_def)
  from schedule_ends [OF p(1) f p(2) m, of 12 0] l show ?thesis by blast
qed

end
