(* ===== verification/Spec2Isabelle.thy ===== *)
theory Spec2Isabelle
  imports Connection_Properties Protocol_Properties Heap_Properties Redis2_Methods Redis2_Replies Redis2_Errors Liveness_Properties Session
    Client_Properties Partition_Properties Virtual_Properties Tss_Properties Tss_Ptr Facade Monitor_Main
begin

text \<open>
  A model of \<open>librediscxx\<close>, a C++ client library for redis, and the theorems that make it correct.

  \<^bold>\<open>The program.\<close>  A method of a client (\<open>Redis2\<close>) builds a command, makes sure there is a
  connection on the client's database, and hands the command to the protocol object
  (\<open>RedisProtocol\<close>), which writes the request and reads the reply through a TCP client
  (\<open>TcpClient\<close>) with a receive buffer; the TCP client uses the system calls wrapped by \<open>os\<close> and
  a process-wide host cache.  The partition client (\<open>Redis2P\<close>) spreads the keys over several
  \<open>Redis2\<close> clients in groups; the pool (\<open>RedisTss\<close>) shares clients of either kind among threads.

  \<^bold>\<open>Theories and sources.\<close>  Every record is a class or struct of the source, every definition a
  method, with the same name (a suffix tells overloads apart, a prefix such as \<open>Redis2_\<close> or
  \<open>TcpClient_\<close> the class).
  \<^item> \<open>Prelude\<close>: machine arithmetic (\<open>int\<close>, \<open>size_t\<close>, \<open>long\<close>), decimal text, \<open>strtol\<close>,
    undefined behaviour as \<open>None\<close> (\<open>assertion\<close>), and the two shapes of statement: \<open>returns\<close> (the
    call returns, and then) and \<open>whenever\<close> (if it returns, then).
  \<^item> \<open>Os\<close>: \<open>os.cpp\<close>, over a record \<open>world\<close> of the outcomes of the system calls to come.
  \<^item> \<open>Tcp_Buffer\<close>, \<open>Tcp_Client\<close>: \<open>tcp_client.cpp\<close>.  \<open>Tcp_Stream\<close> and \<open>Tcp_Progress\<close> hold what they
    promise: on a connection that works (the stream of bytes is cut as asked, whatever the chunks)
    and in every world (the invariant of the buffer survives, the bytes left only decrease).
    \<open>Tcp_Liveness\<close>: when the reading loops return.  \<open>Tcp_Resolver\<close>: the host cache under steps of many threads;
    the answers of the name service are functions of the name it is asked for, so that a cached entry is
    tied to its name.
  \<^item> \<open>Redis_Cmd\<close>, \<open>Hash\<close>: \<open>redis_cmd.h\<close> and \<open>redis_cmd.cpp\<close>, the command table, inputs, outputs and the hash;
    \<open>Output_Types\<close>: tags and union members of outputs agree.
  \<^item> \<open>Output_Heap\<close>: the memory behind outputs and commands, the same functions over an explicit store of
    cells, with destructors, guards and the functions on vectors of pointers.  \<open>Output_Ownership\<close> says which
    value an object holds and which cells it owns; \<open>Heap_Properties\<close> that the setters, getters and
    conversions on the store are those on values, that deleting frees exactly what is owned, and that
    nothing is leaked or freed twice.  The nesting of outputs is a parameter of the functions that follow it;
    any bound above the depth of the value will do.
  \<^item> \<open>Redis_Protocol\<close>: \<open>redis_protocol.cpp\<close>.  \<open>Protocol_Progress\<close> (all worlds), \<open>Protocol_Replies\<close> (an
    abstract type of replies, its encoding, and that reading decodes it), \<open>Protocol_Requests\<close> (the
    decoder of a server, and that writing encodes for it), \<open>Protocol_Channel\<close> (sequences of commands
    and pipelines), \<open>Protocol_Liveness\<close> (every call returns).
  \<^item> \<open>Redis2\<close>: \<open>redis.cpp\<close>, all methods.  \<open>Redis2_Spec\<close> (a method sends one request and returns the
    reply: \<open>served\<close>), \<open>Redis2_Methods\<close> and \<open>Redis2_Replies\<close> (instances for the methods; the second for those
    that convert doubles, build their arguments from vectors, or block), \<open>Redis2_Inv\<close> (the invariant),
    \<open>Redis2_Liveness\<close> (every method returns), \<open>Redis2_Errors\<close> (what a method does to the error of an earlier one).
    \<open>Session\<close>: a sequence of calls against a server that keeps a map (a parameter with its documented laws)
    returns what the map returns.
  \<^item> \<open>Redis_Base\<close>: \<open>redis_base.cpp\<close>, the methods kept for old callers, over the virtual ones as arguments.
  \<^item> \<open>Redis_Partition\<close>: \<open>redis_partition.cpp\<close>, all methods.  \<open>Partition_Spec\<close>, \<open>Partition_Inv\<close>: the layout,
    writes that reach every group, reads that fail over (\<open>failed_steps\<close> are the calls that failed before), the
    inputs that the constructor accepts (\<open>layout_ok\<close>), methods that stay on the hosts of their keys.
    \<open>Partition_Single\<close>: on one host a method is the method of that host.
  \<^item> \<open>Redis_Virtual\<close>: the interface \<open>RedisBase2\<close> of \<open>redis_base.h\<close>, the methods of either class behind one pointer.
    \<open>Virtual_Properties\<close>: on one host the classes are interchangeable, for single calls and programs of calls.
  \<^item> \<open>Redis_Tss\<close>: \<open>redis_tss.cpp\<close>, \<open>redis_tss.h\<close> and \<open>tss.h\<close>, as functions and as steps of threads (\<open>pool_step\<close>): taking
    and releasing the mutex of the free list are steps of their own and the mutex is part of the state, and
    a program may \<open>put\<close> any pointer (which puts it makes is a parameter).  \<open>Tss_Pool\<close>: when every thread puts only
    what it owns (\<open>proper\<close>), every client has one owner in every interleaving, nobody waits for a mutex that is not
    released, calls end, the functions are runs of the steps; and that two nested scoped pointers of one
    thread are not proper use, with the double put and the double delete that follow.
    \<open>Tss_Ptr\<close>: the class \<open>thread_specific_ptr\<close> for any cleanup; the pool's is an instance.
  \<^item> \<open>Facade\<close>: the accessors, the exception, the guard for \<open>SIGPIPE\<close>, the variadic overloads, the destructors, and
    the classes that forward to a member.
  \<^item> \<open>Redis_Monitor\<close>, \<open>Monitor_Main\<close>: \<open>tools/redis_monitor.cpp\<close> and \<open>tools/redis_hash_test.cpp\<close>, the second theory with the
    two \<open>main\<close> functions, the timer and the signal handler.  \<open>Monitor_Properties\<close>: the tables count the reported
    commands; \<open>Monitor_Main\<close>: the schedule of the rounds and what a whole run prints.
  \<^item> \<open>Sample\<close>: a concrete connection for the instances.  The theories ending in \<open>_Properties\<close>, with
    \<open>Redis2_Methods\<close>, \<open>Redis2_Replies\<close>, \<open>Session\<close>, \<open>Redis2_Inv\<close>, \<open>Redis2_Liveness\<close>, \<open>Redis2_Errors\<close>, \<open>Partition_Inv\<close> and \<open>Monitor_Main\<close>, hold the properties
    C1 to C40.

  \<^bold>\<open>Interfaces.\<close>  Six locales state what a component relies on, each interpreted on the model:
  \<open>byte_buffer\<close> (the receive buffer is a queue; \<open>Tcp_Buffer\<close>), \<open>framed_source\<close> (lines and blocks are
  cut off a stream; on \<open>TcpClient\<close> in \<open>Tcp_Stream\<close>), \<open>command_channel\<close> (a command gets the answer to its
  own request; on \<open>exec_command\<close> in \<open>Protocol_Channel\<close>), \<open>host_method\<close> (a method keeps the invariant of its
  client; on the methods of \<open>Redis2\<close> in \<open>Partition_Inv\<close>), \<open>owned\<close> (an object with a footprint whose \<open>delete\<close> frees
  it; on strings, outputs and commands) and \<open>owned_vector\<close> (a vector of such objects; on the three vectors
  of \<open>redis_cmd.h\<close>, all in \<open>Output_Ownership\<close>).

  \<^bold>\<open>Outside code.\<close>  The kernel is the record \<open>world\<close>; it also carries \<open>strerror_r\<close>, the conversions
  of \<open>double\<close> by \<open>boost::lexical_cast\<close>, \<open>boost::trim\<close> and \<open>boost::split\<close>.  The constructors take
  \<open>boost::split\<close> as an argument (\<open>split_laws\<close>), the pool the thread-specific storage of \<open>boost\<close>
  (\<open>tss_laws\<close>), \<open>Session\<close> the server (\<open>conforms\<close>), the variadic methods what \<open>vsnprintf\<close> produces.  Decimal text of integers, concatenation
  of text by \<open>boost::format\<close> and loops over containers are written out.

  \<^bold>\<open>Termination.\<close>  Loops over system calls are \<open>function\<close>s with a measure on the outcomes left
  in the world, so they need no fuel.  The doubling loop of \<open>prepare\<close> may not end (\<open>size_t\<close> wraps to 0) and is
  a \<open>partial_function\<close>; when it ends is proved.  A size of \<open>2^63\<close>, for which \<open>std::vector\<close> throws, is \<open>None\<close>;
  buffers have at most \<open>2^62\<close> bytes (\<open>buffer_inv\<close>).  The loop of
  \<open>monitor\<close> and the loops of \<open>Monitor_Main\<close> that look for the next expiry are \<open>partial_function\<close>s too.  \<open>__read_reply\<close> recurses with a bound on the nesting, the
  number of bytes that can still arrive plus one; that a larger bound changes nothing is proved
  (\<open>reply_nesting_bounded\<close>).  That the calls return at all is proved from the bottom up, for every world whose bytes announce no
  size of \<open>2^60\<close> or more (\<open>modest\<close>; the sizes that can make \<open>prepare\<close> loop are beyond it): the reading loops, the replies, the
  commands and pipelines, and each method of \<open>Redis2\<close>, which leave such a client and world behind, so programs of calls
  return too.  The exceptions are named there (\<open>methods_return\<close>): a bulk that is no \<open>double\<close> where one is
  converted, a text of 64 bytes or more in an overload with a format (the \<open>va_list\<close> has been consumed when
  it is used again, which is undefined and \<open>None\<close> in \<open>format_loop\<close>), and a null pointer that \<open>dump\<close> does not check.

  \<^bold>\<open>Replies.\<close>  What a command may be answered is in the hypotheses (\<open>fits\<close>, \<open>all_fit\<close>, \<open>reply_ok\<close>): the reader fails on
  an empty bulk and on an error inside a multi-bulk, and leaves the rest of such a reply unread or closes the
  connection.  The theorems on sequences, pipelines, transactions and methods are for the other replies;
  what happens on an error reply and on a failing read is in \<open>error_reply_reported\<close> and \<open>failed_reads_close\<close>.

  \<^bold>\<open>Not modelled.\<close>  \<open>get_host_name\<close> (a query of the kernel that only the test program calls); the public methods of \<open>TcpClient\<close>, which only
  forward to \<open>impl_\<close> (the model has one object for both); the declarations of the headers; \<open>test/\<close>, the build files.  The
  parsing of options, the clock and the event loop of the tools are \<open>boost\<close>'s and enter as parameters; a signal is handled
  between two rounds of the timer, not within one.  The text and the rounding of a \<open>double\<close> are parameters.  Interleavings
  are modelled for the two objects that threads share, the pool and the host cache; for the host cache a section
  under its lock is one step, for the pool the mutex is part of the state.  Memory and stack are unlimited: \<open>new\<close>
  does not fail.
  A client has no lock and is used by one thread at a time, which the pool arranges.
\<close>

end
